(* ===== verification/Gateway_Prelude.thy ===== *)
theory Gateway_Prelude
  imports Main "HOL-Library.FSet" "HOL-Library.AList" "HOL-Library.Word" "HOL-Library.Sublist"
    "HOL-Library.Char_ord" "HOL-Library.List_Lexorder"
begin

text \<open>
  Shared vocabulary of the Gateway development.

  \<^item> Rust's \<open>Result<A, E>\<close> is the sum \<open>'e + 'a\<close> (\<open>Inl\<close> is \<open>Err\<close>); the \<open>?\<close> operator is
    \<open>rbind\<close>, \<open>Option::ok_or\<close> is \<open>ok_or\<close>, and \<open>Option::transpose\<close> after \<open>map\<close> is \<open>map_transpose\<close>.
  \<^item> \<open>OffsetDateTime\<close> and \<open>time::Duration\<close> are integers (nanoseconds since the epoch, nanoseconds).
  \<^item> A Rust \<open>BTreeSet\<close> is a finite set \<open>'a fset\<close>; iterating it visits the elements in
    ascending order, so \<open>set.iter().find(p)\<close> is \<open>find_first p S\<close>.
  \<^item> Text is a \<open>string\<close> whose characters are the code points U+0000 to U+00FF; \<open>blank\<close> is
    \<open>str::trim().is_empty()\<close> on them, and \<open>utf8_len\<close> is \<open>str::len\<close> (bytes, not characters).
  \<^item> A SQLite table with a primary key is a list of rows in rowid order; \<open>upsert\<close> is
    \<open>INSERT ... ON CONFLICT DO UPDATE\<close>.

  Component theories put their decision lemmas into the collections \<open>gate_defs\<close> (definitions of
  guards that proofs unfold together) and \<open>frame_simps\<close> (fields an operation leaves alone).
\<close>

named_theorems gate_defs
named_theorems frame_simps

type_synonym instant = int
type_synonym duration = int
type_synonym u32 = "32 word"
type_synonym u64 = "64 word"
type_synonym ulid = "128 word"

section \<open>Results\<close>

fun rbind :: "'e + 'a \<Rightarrow> ('a \<Rightarrow> 'e + 'b) \<Rightarrow> 'e + 'b" where
  "rbind (Inl e) f = Inl e"
| "rbind (Inr x) f = f x"

definition ok_or :: "'e \<Rightarrow> 'a option \<Rightarrow> 'e + 'a" where
  "ok_or e x = (case x of None \<Rightarrow> Inl e | Some v \<Rightarrow> Inr v)"

fun map_err :: "('e \<Rightarrow> 'f) \<Rightarrow> 'e + 'a \<Rightarrow> 'f + 'a" where
  "map_err f (Inl e) = Inl (f e)"
| "map_err f (Inr x) = Inr x"

fun map_transpose :: "('a \<Rightarrow> 'e + 'b) \<Rightarrow> 'a option \<Rightarrow> 'e + 'b option" where
  "map_transpose f None = Inr None"
| "map_transpose f (Some x) = rbind (f x) (\<lambda>y. Inr (Some y))"

text \<open>\<open>Result::ok().flatten()\<close> on a \<open>Result<Option<A>, E>\<close>.\<close>

definition ok_flatten :: "'e + 'a option \<Rightarrow> 'a option" where
  "ok_flatten r = (case r of Inl _ \<Rightarrow> None | Inr x \<Rightarrow> x)"

text \<open>\<open>iter().map(f).collect::<Result<Vec<_>, _>>()\<close>: the first error wins.\<close>

fun collect_results :: "('a \<Rightarrow> 'e + 'b) \<Rightarrow> 'a list \<Rightarrow> 'e + 'b list" where
  "collect_results f [] = Inr []"
| "collect_results f (x # xs) =
     rbind (f x) (\<lambda>y. rbind (collect_results f xs) (\<lambda>ys. Inr (y # ys)))"

lemma rbind_Inr_conv: "rbind r f = Inr y \<longleftrightarrow> (\<exists>x. r = Inr x \<and> f x = Inr y)"
  by (cases r) auto

lemma rbind_Inl_conv: "rbind r f = Inl e \<longleftrightarrow> r = Inl e \<or> (\<exists>x. r = Inr x \<and> f x = Inl e)"
  by (cases r) auto

lemma ok_or_Inr_conv [simp]: "ok_or e x = Inr v \<longleftrightarrow> x = Some v"
  by (auto simp: ok_or_def split: option.splits)

lemma ok_or_Inl_conv [simp]: "ok_or e x = Inl e' \<longleftrightarrow> x = None \<and> e' = e"
  by (auto simp: ok_or_def split: option.splits)

lemma ok_or_simps [simp]: "ok_or e None = Inl e" "ok_or e (Some v) = Inr v"
  by (simp_all add: ok_or_def)

lemma map_err_Inr_conv [simp]: "map_err f r = Inr y \<longleftrightarrow> r = Inr y"
  by (cases r) auto

lemma map_err_Inl_conv: "map_err f r = Inl e' \<longleftrightarrow> (\<exists>e. r = Inl e \<and> e' = f e)"
  by (cases r) auto

lemma collect_results_Inr:
  "collect_results f xs = Inr ys \<longleftrightarrow> list_all2 (\<lambda>x y. f x = Inr y) xs ys"
proof (induction xs arbitrary: ys)
  case Nil
  then show ?case by auto
next
  case (Cons x xs)
  show ?case
    by (cases ys) (auto simp: rbind_Inr_conv Cons.IH)
qed

lemma collect_results_set:
  assumes "collect_results f xs = Inr ys" and "y \<in> set ys"
  obtains x where "x \<in> set xs" and "f x = Inr y"
proof -
  from assms(1) have "list_all2 (\<lambda>x y. f x = Inr y) xs ys"
    by (simp add: collect_results_Inr)
  moreover from assms(2) obtain i where "i < length ys" and "y = ys ! i"
    by (auto simp: in_set_conv_nth)
  ultimately have "xs ! i \<in> set xs" and "f (xs ! i) = Inr y"
    by (auto simp: list_all2_conv_all_nth)
  then show thesis by (rule that)
qed

lemmas result_convs = rbind_Inr_conv rbind_Inl_conv map_err_Inl_conv

section \<open>Text\<close>

definition is_white :: "char \<Rightarrow> bool" where
  "is_white c \<longleftrightarrow> (let n = of_char c :: nat in 9 \<le> n \<and> n \<le> 13 \<or> n = 32 \<or> n = 133 \<or> n = 160)"

definition is_control :: "char \<Rightarrow> bool" where
  "is_control c \<longleftrightarrow> (let n = of_char c :: nat in n < 32 \<or> 127 \<le> n \<and> n < 160)"

definition blank :: "string \<Rightarrow> bool" where
  "blank s \<longleftrightarrow> list_all is_white s"

definition trim :: "string \<Rightarrow> string" where
  "trim s = rev (dropWhile is_white (rev (dropWhile is_white s)))"

definition utf8_len :: "string \<Rightarrow> nat" where
  "utf8_len s = sum_list (map (\<lambda>c. if (of_char c :: nat) < 128 then 1 else 2) s)"

lemma blank_Nil [simp]: "blank []"
  by (simp add: blank_def)

lemma trim_Nil_iff_blank: "trim s = [] \<longleftrightarrow> blank s"
proof -
  have "trim s = [] \<longleftrightarrow> (\<forall>c \<in> set (dropWhile is_white s). is_white c)"
    by (simp add: trim_def dropWhile_eq_Nil_conv)
  also have "\<dots> \<longleftrightarrow> dropWhile is_white s = []"
    by (metis dropWhile_eq_Nil_conv hd_dropWhile list.set_sel(1) empty_iff list.set(1))
  finally show ?thesis
    by (simp add: blank_def list_all_iff dropWhile_eq_Nil_conv)
qed

section \<open>Ordered finite sets\<close>

lemma fset_of_list_empty_iff [simp]: "fset_of_list xs = {||} \<longleftrightarrow> xs = []"
  by (cases xs) auto

definition find_first :: "('a::linorder \<Rightarrow> bool) \<Rightarrow> 'a fset \<Rightarrow> 'a option" where
  "find_first P S = List.find P (sorted_list_of_fset S)"

lemma find_first_None: "find_first P S = None \<longleftrightarrow> (\<forall>x. x |\<in>| S \<longrightarrow> \<not> P x)"
  by (simp add: find_first_def find_None_iff)

lemma find_first_Some: "find_first P S = Some x \<Longrightarrow> x |\<in>| S \<and> P x"
  unfolding find_first_def by (metis find_Some_iff nth_mem sorted_list_of_fset_simps(1))

lemma find_first_Some_least:
  assumes "find_first P S = Some x" and "y |\<in>| S" and "P y"
  shows "x \<le> y"
proof -
  let ?xs = "sorted_list_of_fset S"
  obtain i where i: "i < length ?xs" "?xs ! i = x" "\<forall>j<i. \<not> P (?xs ! j)"
    using assms(1) unfolding find_first_def find_Some_iff by auto
  obtain k where k: "k < length ?xs" "?xs ! k = y"
    using assms(2) by (metis in_set_conv_nth sorted_list_of_fset_simps(1))
  have "i \<le> k"
    using i(3) k(2) assms(3) by (meson not_le_imp_less)
  then show ?thesis
    using i k by (metis sorted_list_of_fset.rep_eq sorted_nth_mono
        sorted_list_of_set.sorted_sorted_key_list_of_set)
qed

section \<open>Keyed tables\<close>

text \<open>
  A table is a list of rows in rowid order. \<open>upsert\<close> inserts a row at the end, or, when a row with
  the same key exists, replaces it in place by \<open>merge old new\<close> (the columns listed after
  \<open>DO UPDATE SET\<close> come from the new row, the others stay).
\<close>

definition table_lookup :: "('r \<Rightarrow> 'k) \<Rightarrow> 'k \<Rightarrow> 'r list \<Rightarrow> 'r option" where
  "table_lookup key k rows = List.find (\<lambda>r. key r = k) rows"

fun upsert :: "('r \<Rightarrow> 'k) \<Rightarrow> ('r \<Rightarrow> 'r \<Rightarrow> 'r) \<Rightarrow> 'r \<Rightarrow> 'r list \<Rightarrow> 'r list" where
  "upsert key merge r [] = [r]"
| "upsert key merge r (x # xs) =
     (if key x = key r then merge x r # xs else x # upsert key merge r xs)"

definition table_delete :: "('r \<Rightarrow> 'k) \<Rightarrow> 'k \<Rightarrow> 'r list \<Rightarrow> 'r list" where
  "table_delete key k rows = filter (\<lambda>r. key r \<noteq> k) rows"

definition unique_keys :: "('r \<Rightarrow> 'k) \<Rightarrow> 'r list \<Rightarrow> bool" where
  "unique_keys key rows \<longleftrightarrow> distinct (map key rows)"

lemma table_lookup_simps [simp]:
  "table_lookup key k [] = None"
  "table_lookup key k (x # xs) = (if key x = k then Some x else table_lookup key k xs)"
  by (simp_all add: table_lookup_def)

lemma table_lookup_Some_key: "table_lookup key k rows = Some r \<Longrightarrow> key r = k \<and> r \<in> set rows"
  by (induction rows) (auto split: if_splits)

lemma table_lookup_None: "table_lookup key k rows = None \<longleftrightarrow> (\<forall>r \<in> set rows. key r \<noteq> k)"
  by (induction rows) auto

lemma table_lookup_append:
  "table_lookup key k (xs @ ys) =
     (case table_lookup key k xs of None \<Rightarrow> table_lookup key k ys | Some r \<Rightarrow> Some r)"
  by (induction xs) auto

lemma table_lookup_map_keep:
  assumes "\<And>r. key (f r) = key r"
  shows "table_lookup key k (map f rows) = map_option f (table_lookup key k rows)"
  using assms by (induction rows) auto

lemma unique_keys_lookup:
  "unique_keys key rows \<Longrightarrow> r \<in> set rows \<Longrightarrow> table_lookup key (key r) rows = Some r"
  by (induction rows) (auto simp: unique_keys_def)

text \<open>
  The contract of every upserted table: an update never moves a row to another key. Interpreted by each
  repository on its own key and update columns.
\<close>

locale upsert_table =
  fixes key :: "'r \<Rightarrow> 'k" and merge :: "'r \<Rightarrow> 'r \<Rightarrow> 'r"
  assumes merge_key: "key (merge stored new) = key stored"
begin

lemma lookup_upsert:
  "table_lookup key k (upsert key merge r rows) =
     (if k = key r then Some (case table_lookup key k rows of None \<Rightarrow> r | Some x \<Rightarrow> merge x r)
      else table_lookup key k rows)"
  by (induction rows) (auto simp: merge_key)

lemma keys_upsert:
  "map key (upsert key merge r rows) =
     (if key r \<in> key ` set rows then map key rows else map key rows @ [key r])"
  by (induction rows) (auto simp: merge_key)

lemma unique_upsert: "unique_keys key rows \<Longrightarrow> unique_keys key (upsert key merge r rows)"
  unfolding unique_keys_def keys_upsert by auto

lemma in_upsert:
  "x \<in> set (upsert key merge r rows) \<Longrightarrow>
     x \<in> set rows \<or> x = r \<and> key r \<notin> key ` set rows \<or> (\<exists>y \<in> set rows. key y = key r \<and> x = merge y r)"
  by (induction rows) (auto split: if_splits)

end

lemma lookup_delete:
  "table_lookup key k (table_delete key k' rows) = (if k = k' then None else table_lookup key k rows)"
  by (induction rows) (auto simp: table_delete_def)

lemma unique_delete: "unique_keys key rows \<Longrightarrow> unique_keys key (table_delete key k rows)"
  by (simp add: unique_keys_def table_delete_def distinct_map_filter)

lemma upsert_existing:
  assumes "unique_keys key rows" and "key r \<in> key ` set rows"
  shows "upsert key merge r rows = map (\<lambda>x. if key x = key r then merge x r else x) rows"
  using assms
proof (induction rows)
  case (Cons x xs)
  show ?case
  proof (cases "key x = key r")
    case True
    then have "key r \<notin> key ` set xs" using Cons.prems(1) by (simp add: unique_keys_def)
    then have "\<forall>y \<in> set xs. key y \<noteq> key r" by (metis imageI)
    then have "map (\<lambda>x. if key x = key r then merge x r else x) xs = xs" by (induction xs) auto
    with True show ?thesis by simp
  next
    case False
    with Cons show ?thesis by (auto simp: unique_keys_def)
  qed
qed simp

lemma upsert_fresh: "key r \<notin> key ` set rows \<Longrightarrow> upsert key merge r rows = rows @ [r]"
  by (induction rows) auto

text \<open>
  \<open>ORDER BY\<close> on one or two text columns, as a stable insertion sort.
\<close>

definition text_pair_le :: "string \<times> string \<Rightarrow> string \<times> string \<Rightarrow> bool" where
  "text_pair_le a b \<longleftrightarrow> fst a < fst b \<or> fst a = fst b \<and> snd a \<le> snd b"

fun insert_ordered :: "('r \<Rightarrow> string \<times> string) \<Rightarrow> 'r \<Rightarrow> 'r list \<Rightarrow> 'r list" where
  "insert_ordered k x [] = [x]"
| "insert_ordered k x (y # ys) = (if text_pair_le (k x) (k y) then x # y # ys else y # insert_ordered k x ys)"

definition order_by :: "('r \<Rightarrow> string \<times> string) \<Rightarrow> 'r list \<Rightarrow> 'r list" where
  "order_by k rows = foldr (insert_ordered k) rows []"

lemma set_order_by [simp]: "set (order_by k rows) = set rows"
proof -
  have "set (insert_ordered k x ys) = insert x (set ys)" for x ys
    by (induction ys) auto
  then show ?thesis by (induction rows) (simp_all add: order_by_def)
qed

lemma order_by_map:
  assumes "\<And>r. k (f r) = k r"
  shows "order_by k (map f rows) = map f (order_by k rows)"
proof -
  have "insert_ordered k (f x) (map f ys) = map f (insert_ordered k x ys)" for x ys
    by (induction ys) (auto simp: assms)
  then show ?thesis by (induction rows) (simp_all add: order_by_def)
qed

section \<open>Event-driven records\<close>

text \<open>
  A fact about a store that every committed change keeps, as a durable reservation is kept: the contract
  under which one write protects all later states.
\<close>

locale kept_forever =
  fixes step :: "'s \<Rightarrow> 's \<Rightarrow> bool" and fact :: "'s \<Rightarrow> bool"
  assumes kept: "step s s' \<Longrightarrow> fact s \<Longrightarrow> fact s'"
begin

lemma kept_star: "step\<^sup>*\<^sup>* s s' \<Longrightarrow> fact s \<Longrightarrow> fact s'"
  by (induction rule: rtranclp_induct) (auto intro: kept)

end


text \<open>
  A record driven by events, each applied at some instant: a rejected event leaves the record as it
  is, because every transition of the code returns a new record and never mutates in place.
\<close>

fun apply_events :: "('s \<Rightarrow> 'e \<Rightarrow> instant \<Rightarrow> 'err + 's) \<Rightarrow> 's \<Rightarrow> ('e \<times> instant) list \<Rightarrow> 's" where
  "apply_events step s [] = s"
| "apply_events step s ((e, t) # es) =
     apply_events step (case step s e t of Inl _ \<Rightarrow> s | Inr s' \<Rightarrow> s') es"

text \<open>
  The contract of the code base's two lifecycle machines: a terminal record refuses every event, and
  no event changes the record's scope.
\<close>

locale lifecycle =
  fixes step :: "'s \<Rightarrow> 'e \<Rightarrow> instant \<Rightarrow> 'err + 's"
    and terminal :: "'s \<Rightarrow> bool"
    and scope :: "'s \<Rightarrow> 'c"
  assumes terminal_refuses: "terminal s \<Longrightarrow> \<exists>err. step s e t = Inl err"
    and scope_step: "step s e t = Inr s' \<Longrightarrow> scope s' = scope s"
begin

lemma terminal_forever: "terminal s \<Longrightarrow> apply_events step s es = s"
proof (induction es)
  case Nil
  then show ?case by simp
next
  case (Cons et es)
  obtain e t where et: "et = (e, t)" by (cases et)
  obtain err where "step s e t = Inl err"
    using terminal_refuses [OF Cons.prems] by blast
  with Cons et show ?case by simp
qed

lemma scope_forever: "scope (apply_events step s es) = scope s"
proof (induction es arbitrary: s)
  case Nil
  then show ?case by simp
next
  case (Cons et es)
  obtain e t where et: "et = (e, t)" by (cases et)
  show ?case
    using Cons.IH by (auto simp: et scope_step split: sum.splits)
qed

end

end
