(* ===== verification/Gateway_Core.thy ===== *)
theory Gateway_Core
  imports Gateway_Prelude
begin

text \<open>
  The domain types of \<^verbatim>\<open>src/crates/core\<close>: typed identifiers (\<^verbatim>\<open>ids.rs\<close>), capabilities and
  profiles (\<^verbatim>\<open>capability.rs\<close>), risk levels and assessments (\<^verbatim>\<open>risk.rs\<close>), the transport-era session
  record (\<^verbatim>\<open>session.rs\<close>), approvals, operations and transport states. The locale \<open>spelling\<close> is the
  contract of every printed/parsed enumeration of the code base (\<open>as_str\<close> / \<open>parse\<close>); it is
  interpreted on capabilities here and on the other spelled types in their own theories.
\<close>

section \<open>Spelled enumerations\<close>

locale spelling =
  fixes show_it :: "'a \<Rightarrow> string"
    and parse_it :: "string \<Rightarrow> 'a option"
  assumes parse_show: "parse_it (show_it x) = Some x"
    and parse_only: "parse_it s = Some x \<Longrightarrow> s = show_it x"
begin

lemma show_inj: "show_it x = show_it y \<longleftrightarrow> x = y"
  by (metis option.inject parse_show)

lemma parse_iff: "parse_it s = Some x \<longleftrightarrow> s = show_it x"
  using parse_only parse_show by blast

lemma parse_unknown: "parse_it s = None \<longleftrightarrow> s \<notin> range show_it"
  by (metis (no_types) not_Some_eq parse_iff rangeE rangeI)

end

section \<open>Identifiers\<close>

datatype device_id = DeviceId (dev_ulid: ulid)
datatype workspace_id = WorkspaceId (ws_ulid: ulid)
datatype session_id = SessionId (sess_ulid: ulid)
datatype grant_id = GrantId (grant_ulid: ulid)
datatype lease_id = LeaseId (lease_ulid: ulid)
datatype task_id = TaskId (task_ulid: ulid)
datatype operation_id = OperationId (op_ulid: ulid)
datatype checkpoint_id = CheckpointId (chk_ulid: ulid)

text \<open>\<open>GrantId::from_ulid(session_id.as_ulid())\<close>\<close>

definition grant_id_of_session :: "session_id \<Rightarrow> grant_id" where
  "grant_id_of_session s = GrantId (sess_ulid s)"

lemma grant_id_of_session_inj [simp]:
  "grant_id_of_session s = grant_id_of_session t \<longleftrightarrow> s = t"
  by (cases s; cases t) (simp add: grant_id_of_session_def)

text \<open>
  The derived \<open>Ord\<close> of the newtype: the order of the wrapped ULID.
\<close>

instantiation workspace_id :: linorder
begin

definition less_eq_workspace_id :: "workspace_id \<Rightarrow> workspace_id \<Rightarrow> bool" where
  "less_eq_workspace_id a b \<longleftrightarrow> ws_ulid a \<le> ws_ulid b"

definition less_workspace_id :: "workspace_id \<Rightarrow> workspace_id \<Rightarrow> bool" where
  "less_workspace_id a b \<longleftrightarrow> ws_ulid a < ws_ulid b"

instance
  by standard
    (auto simp: less_eq_workspace_id_def less_workspace_id_def workspace_id.expand)

end

text \<open>
  Printing and parsing of a typed id. The ULID text format belongs to the \<open>ulid\<close> crate, so
  \<open>Ulid::to_string\<close> and \<open>Ulid::from_string\<close> are the parameters \<open>put\<close> and \<open>get\<close>. An id is printed as
  its prefix, an underscore and the ULID; parsing strips exactly that prefix.
\<close>

datatype id_parse_error = MissingPrefix string | InvalidUlid string

definition id_display :: "(ulid \<Rightarrow> string) \<Rightarrow> string \<Rightarrow> ulid \<Rightarrow> string" where
  "id_display put pfx u = pfx @ ''_'' @ put u"

definition strip_prefix :: "string \<Rightarrow> string \<Rightarrow> string option" where
  "strip_prefix p s = (if prefix p s then Some (drop (length p) s) else None)"

definition id_from_str ::
  "(string \<Rightarrow> string + ulid) \<Rightarrow> string \<Rightarrow> string \<Rightarrow> id_parse_error + ulid" where
  "id_from_str get pfx s =
     rbind (ok_or (MissingPrefix pfx) (strip_prefix (pfx @ ''_'') s))
       (\<lambda>body. map_err InvalidUlid (get body))"

lemma strip_prefix_append [simp]: "strip_prefix p (p @ s) = Some s"
  by (simp add: strip_prefix_def)

lemma strip_prefix_Some: "strip_prefix p s = Some t \<longleftrightarrow> s = p @ t"
  by (auto simp: strip_prefix_def prefix_def)

lemma id_from_str_Inr:
  "id_from_str get p s = Inr u \<longleftrightarrow> (\<exists>body. s = p @ ''_'' @ body \<and> get body = Inr u)"
  by (auto simp: id_from_str_def rbind_Inr_conv strip_prefix_Some)

section \<open>Capabilities\<close>

datatype capability =
    PROJECT_READ | SCHEMATIC_READ | SCHEMATIC_WRITE | PCB_READ | PCB_WRITE | ERC_RUN | DRC_RUN
  | VALIDATION_RUN | MANUFACTURING_READ | MANUFACTURING_EXPORT | WORKSPACE_READ | PROJECT_WRITE

fun capability_as_str :: "capability \<Rightarrow> string" where
  "capability_as_str PROJECT_READ = ''project.read''"
| "capability_as_str SCHEMATIC_READ = ''schematic.read''"
| "capability_as_str SCHEMATIC_WRITE = ''schematic.write''"
| "capability_as_str PCB_READ = ''pcb.read''"
| "capability_as_str PCB_WRITE = ''pcb.write''"
| "capability_as_str ERC_RUN = ''erc.run''"
| "capability_as_str DRC_RUN = ''drc.run''"
| "capability_as_str VALIDATION_RUN = ''validation.run''"
| "capability_as_str MANUFACTURING_READ = ''manufacturing.read''"
| "capability_as_str MANUFACTURING_EXPORT = ''manufacturing.export''"
| "capability_as_str WORKSPACE_READ = ''workspace.read''"
| "capability_as_str PROJECT_WRITE = ''project.write''"

definition capability_ALL :: "capability list" where
  "capability_ALL =
     [PROJECT_READ, SCHEMATIC_READ, SCHEMATIC_WRITE, PCB_READ, PCB_WRITE, ERC_RUN, DRC_RUN,
      VALIDATION_RUN, MANUFACTURING_READ, MANUFACTURING_EXPORT, WORKSPACE_READ, PROJECT_WRITE]"

definition capability_parse :: "string \<Rightarrow> capability option" where
  "capability_parse name = List.find (\<lambda>c. capability_as_str c = name) capability_ALL"

lemma capability_ALL_complete: "c \<in> set capability_ALL"
  by (cases c) (simp_all add: capability_ALL_def)

interpretation capability_text: spelling capability_as_str capability_parse
proof
  fix c :: capability
  show "capability_parse (capability_as_str c) = Some c"
    by (cases c) (simp_all add: capability_parse_def capability_ALL_def)
next
  fix s c
  assume "capability_parse s = Some c"
  then show "s = capability_as_str c"
    by (auto simp: capability_parse_def find_Some_iff)
qed

text \<open>\<open>Capability\<close> derives \<open>Ord\<close> on its string, so a \<open>CapabilitySet\<close> iterates by name.\<close>

instantiation capability :: linorder
begin

definition less_eq_capability :: "capability \<Rightarrow> capability \<Rightarrow> bool" where
  "less_eq_capability a b \<longleftrightarrow> capability_as_str a \<le> capability_as_str b"

definition less_capability :: "capability \<Rightarrow> capability \<Rightarrow> bool" where
  "less_capability a b \<longleftrightarrow> capability_as_str a < capability_as_str b"

instance
  by standard
    (auto simp: less_eq_capability_def less_capability_def dest: order_antisym
      capability_text.show_inj [THEN iffD1])

end

type_synonym capability_set = "capability fset"

datatype capability_profile = Inspect | Design | Manufacturing | Custom capability_set

definition inspect_capabilities :: capability_set where
  "inspect_capabilities =
     {|PROJECT_READ, SCHEMATIC_READ, PCB_READ, VALIDATION_RUN, ERC_RUN, DRC_RUN, WORKSPACE_READ|}"

definition design_capabilities :: capability_set where
  "design_capabilities =
     finsert PROJECT_WRITE (finsert PCB_WRITE (finsert SCHEMATIC_WRITE inspect_capabilities))"

fun effective_capabilities :: "capability_profile \<Rightarrow> capability_set" where
  "effective_capabilities Inspect = inspect_capabilities"
| "effective_capabilities Design = design_capabilities"
| "effective_capabilities Manufacturing =
     finsert MANUFACTURING_EXPORT (finsert MANUFACTURING_READ design_capabilities)"
| "effective_capabilities (Custom caps) = caps"

definition is_write_capability :: "capability \<Rightarrow> bool" where
  "is_write_capability c \<longleftrightarrow> c \<in> {SCHEMATIC_WRITE, PCB_WRITE, PROJECT_WRITE, MANUFACTURING_EXPORT}"

section \<open>Risk\<close>

datatype risk_level = Low | Normal | High | Critical

fun risk_rank :: "risk_level \<Rightarrow> nat" where
  "risk_rank Low = 0" | "risk_rank Normal = 1" | "risk_rank High = 2" | "risk_rank Critical = 3"

lemma risk_rank_inj: "risk_rank a = risk_rank b \<Longrightarrow> a = b"
  by (cases a; cases b) simp_all

instantiation risk_level :: linorder
begin

definition less_eq_risk_level :: "risk_level \<Rightarrow> risk_level \<Rightarrow> bool" where
  "less_eq_risk_level a b \<longleftrightarrow> risk_rank a \<le> risk_rank b"

definition less_risk_level :: "risk_level \<Rightarrow> risk_level \<Rightarrow> bool" where
  "less_risk_level a b \<longleftrightarrow> risk_rank a < risk_rank b"

instance
  by standard (auto simp: less_eq_risk_level_def less_risk_level_def intro: risk_rank_inj)

end

definition risk_parse :: "string \<Rightarrow> risk_level option" where
  "risk_parse name =
     (if name = ''low'' then Some Low
      else if name = ''normal'' then Some Normal
      else if name = ''high'' then Some High
      else if name = ''critical'' then Some Critical
      else None)"

datatype risk_factor =
    BulkArgumentCardinality string u64 u64 risk_level
  | ConfirmedOverwrite string risk_level

record risk_assessment =
  ra_policy_version :: u32
  ra_base_risk :: risk_level
  ra_effective_risk :: risk_level
  ra_factors :: "risk_factor list"

datatype risk_assessment_error =
    EffectiveRiskBelowBase | RequiredEffectMissing | RequiredArgumentMissing
  | ArgumentNotArray | ArgumentNotBoolean | ArgumentCardinalityOverflow

definition risk_assessment_new ::
  "u32 \<Rightarrow> risk_level \<Rightarrow> risk_level \<Rightarrow> risk_factor list \<Rightarrow> risk_assessment_error + risk_assessment" where
  "risk_assessment_new v base eff factors =
     (if eff < base then Inl EffectiveRiskBelowBase
      else Inr \<lparr>ra_policy_version = v, ra_base_risk = base, ra_effective_risk = eff,
                ra_factors = factors\<rparr>)"

lemma risk_assessment_new_Inr:
  "risk_assessment_new v base eff fs = Inr a \<longleftrightarrow>
     base \<le> eff \<and> a = \<lparr>ra_policy_version = v, ra_base_risk = base, ra_effective_risk = eff, ra_factors = fs\<rparr>"
  by (auto simp: risk_assessment_new_def not_less)

section \<open>Sessions, approvals, operations, transport state\<close>

datatype session_status =
    SUnpaired | SPaired | SDisconnected | SConnected | SPendingApproval | SActive | SSuspended
  | SExpired | SRevoked

datatype approval_policy = Standard

record session =
  ses_session_id :: session_id
  ses_device_id :: device_id
  ses_remote_principal :: string
  ses_workspace_ids :: "workspace_id fset"
  ses_capability_profile :: capability_profile
  ses_effective_capabilities :: capability_set
  ses_task_scope :: string
  ses_issued_at :: instant
  ses_approved_at :: "instant option"
  ses_expires_at :: instant
  ses_risk_policy_version :: u32
  ses_approval_policy :: approval_policy
  ses_status :: session_status

definition session_is_usable_at :: "session \<Rightarrow> instant \<Rightarrow> bool" where
  "session_is_usable_at s now \<longleftrightarrow> ses_status s = SActive \<and> now < ses_expires_at s"

datatype approval_decision =
    Approved instant
  | AllowOnce instant
  | Denied instant string

datatype transport_state = TDisconnected | TConnecting | TConnected | TReconnecting | TFailed

text \<open>A JSON value, as \<open>serde_json::Value\<close>; an object is its list of entries.\<close>

datatype json = JNull | JBool bool | JNumber int | JString string | JArray "json list"
  | JObject "(string \<times> json) list"

type_synonym arguments = "(string \<times> json) list"

record operation_request =
  op_operation_id :: operation_id
  op_session_id :: session_id
  op_workspace_id :: workspace_id
  op_tool_name :: string
  op_arguments :: arguments
  op_target_path :: "string option"
  op_requested_at :: instant

end
