(* ===== verification/Gateway_Authorization.thy ===== *)
theory Gateway_Authorization
  imports Gateway_Core
begin

text \<open>
  Explicit authorization authority, \<^verbatim>\<open>src/crates/core/src/authorization.rs\<close>: principals and
  their transport binding, access grants, leases cut from a grant, and the adapter that reads a
  transport-era session row as a grant. Freshly generated ids (\<open>GrantId::new\<close>, \<open>LeaseId::new\<close>) are
  arguments, and the text of a ULID is the parameter \<open>put\<close> of the one function that prints one.
\<close>

section \<open>Principals\<close>

datatype principal_assurance = Unverified | Verified

fun assurance_as_str :: "principal_assurance \<Rightarrow> string" where
  "assurance_as_str Unverified = ''unverified''"
| "assurance_as_str Verified = ''verified''"

definition assurance_parse :: "string \<Rightarrow> principal_assurance option" where
  "assurance_parse s =
     (if s = ''unverified'' then Some Unverified
      else if s = ''verified'' then Some Verified
      else None)"

interpretation assurance_text: spelling assurance_as_str assurance_parse
proof
  show "assurance_parse (assurance_as_str x) = Some x" for x
    by (cases x) (simp_all add: assurance_parse_def)
  show "s = assurance_as_str x" if "assurance_parse s = Some x" for s x
    using that by (auto simp: assurance_parse_def split: if_splits)
qed

datatype principal_verification_source = AuthenticatedTransport

fun verification_source_as_str :: "principal_verification_source \<Rightarrow> string" where
  "verification_source_as_str AuthenticatedTransport = ''authenticated_transport''"

definition verification_source_parse :: "string \<Rightarrow> principal_verification_source option" where
  "verification_source_parse s =
     (if s = ''authenticated_transport'' then Some AuthenticatedTransport else None)"

interpretation verification_source_text: spelling verification_source_as_str verification_source_parse
proof
  show "verification_source_parse (verification_source_as_str x) = Some x" for x
    by (cases x) (simp_all add: verification_source_parse_def)
  show "s = verification_source_as_str x" if "verification_source_parse s = Some x" for s x
    using that by (cases x) (auto simp: verification_source_parse_def split: if_splits)
qed

record verified_principal =
  vp_issuer :: string
  vp_subject :: string
  vp_account_or_tenant :: "string option"
  vp_client_or_agent :: "string option"
  vp_authentication_strength :: string
  vp_verification_source :: principal_verification_source
  vp_transport_binding :: string

definition has_required_binding_fields :: "verified_principal \<Rightarrow> bool" where
  "has_required_binding_fields v \<longleftrightarrow>
     \<not> blank (vp_issuer v) \<and> \<not> blank (vp_subject v)
     \<and> \<not> blank (vp_authentication_strength v) \<and> \<not> blank (vp_transport_binding v)"

record authorization_principal =
  pr_name :: string
  pr_assurance :: principal_assurance
  pr_verified :: "verified_principal option"

definition principal_unverified :: "string \<Rightarrow> authorization_principal" where
  "principal_unverified name = \<lparr>pr_name = name, pr_assurance = Unverified, pr_verified = None\<rparr>"

definition principal_verified :: "string \<Rightarrow> verified_principal \<Rightarrow> authorization_principal" where
  "principal_verified name v = \<lparr>pr_name = name, pr_assurance = Verified, pr_verified = Some v\<rparr>"

definition principal_is_verified :: "authorization_principal \<Rightarrow> bool" where
  "principal_is_verified p \<longleftrightarrow> pr_assurance p = Verified
     \<and> (case pr_verified p of None \<Rightarrow> False | Some v \<Rightarrow> has_required_binding_fields v)"

definition accepts_transport_principal ::
  "authorization_principal \<Rightarrow> verified_principal option \<Rightarrow> bool" where
  "accepts_transport_principal p current \<longleftrightarrow>
     (case pr_assurance p of
        Unverified \<Rightarrow> pr_verified p = None
      | Verified \<Rightarrow>
          (case (pr_verified p, current) of
             (Some expected, Some actual) \<Rightarrow>
               has_required_binding_fields expected \<and> has_required_binding_fields actual
               \<and> expected = actual
           | _ \<Rightarrow> False))"

lemma principal_constructors [simp]:
  "\<not> principal_is_verified (principal_unverified n)"
  "principal_is_verified (principal_verified n v) \<longleftrightarrow> has_required_binding_fields v"
  "accepts_transport_principal (principal_unverified n) c"
  by (simp_all add: principal_is_verified_def principal_unverified_def principal_verified_def
      accepts_transport_principal_def)

lemma accepts_verified_conv:
  "pr_assurance p = Verified \<Longrightarrow>
     accepts_transport_principal p c \<longleftrightarrow> principal_is_verified p \<and> c = pr_verified p"
  by (auto simp: accepts_transport_principal_def principal_is_verified_def split: option.splits)

section \<open>Grants\<close>

datatype grant_kind = Standing | OneShot

fun grant_kind_as_str :: "grant_kind \<Rightarrow> string" where
  "grant_kind_as_str Standing = ''standing''"
| "grant_kind_as_str OneShot = ''one_shot''"

datatype authorization_status =
    PendingApproval | Active | Suspended | Expired | Revoked | Consumed

fun authorization_status_as_str :: "authorization_status \<Rightarrow> string" where
  "authorization_status_as_str PendingApproval = ''pending_approval''"
| "authorization_status_as_str Active = ''active''"
| "authorization_status_as_str Suspended = ''suspended''"
| "authorization_status_as_str Expired = ''expired''"
| "authorization_status_as_str Revoked = ''revoked''"
| "authorization_status_as_str Consumed = ''consumed''"

definition status_is_terminal :: "authorization_status \<Rightarrow> bool" where
  "status_is_terminal s \<longleftrightarrow> s \<in> {Expired, Revoked, Consumed}"

record grant_request =
  rq_subject_session_id :: session_id
  rq_device_id :: device_id
  rq_principal :: authorization_principal
  rq_workspace_ids :: "workspace_id fset"
  rq_capability_profile :: capability_profile
  rq_task_scope :: string
  rq_kind :: grant_kind
  rq_lifetime :: duration
  rq_risk_policy_version :: u32

record access_grant =
  gr_grant_id :: grant_id
  gr_subject_session_id :: session_id
  gr_device_id :: device_id
  gr_principal :: authorization_principal
  gr_workspace_ids :: "workspace_id fset"
  gr_capability_profile :: capability_profile
  gr_effective_capabilities :: capability_set
  gr_task_scope :: string
  gr_kind :: grant_kind
  gr_issued_at :: instant
  gr_approved_at :: "instant option"
  gr_expires_at :: instant
  gr_revoked_at :: "instant option"
  gr_revocation_reason :: "string option"
  gr_consumed_at :: "instant option"
  gr_issued_lease_id :: "lease_id option"
  gr_risk_policy_version :: u32
  gr_approval_policy :: approval_policy
  gr_status :: authorization_status
  gr_migrated_from_session_id :: "session_id option"
  gr_migration_note :: "string option"

definition grant_requested :: "grant_id \<Rightarrow> grant_request \<Rightarrow> instant \<Rightarrow> access_grant" where
  "grant_requested gid rq now =
     \<lparr>gr_grant_id = gid,
      gr_subject_session_id = rq_subject_session_id rq,
      gr_device_id = rq_device_id rq,
      gr_principal = rq_principal rq,
      gr_workspace_ids = rq_workspace_ids rq,
      gr_capability_profile = rq_capability_profile rq,
      gr_effective_capabilities = effective_capabilities (rq_capability_profile rq),
      gr_task_scope = rq_task_scope rq,
      gr_kind = rq_kind rq,
      gr_issued_at = now,
      gr_approved_at = None,
      gr_expires_at = now + rq_lifetime rq,
      gr_revoked_at = None,
      gr_revocation_reason = None,
      gr_consumed_at = None,
      gr_issued_lease_id = None,
      gr_risk_policy_version = rq_risk_policy_version rq,
      gr_approval_policy = Standard,
      gr_status = PendingApproval,
      gr_migrated_from_session_id = None,
      gr_migration_note = None\<rparr>"

definition grant_is_expired_at :: "access_grant \<Rightarrow> instant \<Rightarrow> bool" where
  "grant_is_expired_at g now \<longleftrightarrow> now \<ge> gr_expires_at g"

definition grant_is_usable_at :: "access_grant \<Rightarrow> instant \<Rightarrow> bool" where
  "grant_is_usable_at g now \<longleftrightarrow> gr_status g = Active \<and> \<not> grant_is_expired_at g now"

definition grant_is_terminal :: "access_grant \<Rightarrow> bool" where
  "grant_is_terminal g \<longleftrightarrow> status_is_terminal (gr_status g)"

definition allows_workspace :: "access_grant \<Rightarrow> workspace_id \<Rightarrow> bool" where
  "allows_workspace g w \<longleftrightarrow> w |\<in>| gr_workspace_ids g"

definition allows_capability :: "access_grant \<Rightarrow> capability \<Rightarrow> bool" where
  "allows_capability g c \<longleftrightarrow> c |\<in>| gr_effective_capabilities g"

definition may_issue_another_lease :: "access_grant \<Rightarrow> bool" where
  "may_issue_another_lease g \<longleftrightarrow> gr_kind g = Standing \<or> gr_issued_lease_id g = None"

lemma usable_conv [gate_defs]:
  "grant_is_usable_at g now \<longleftrightarrow> gr_status g = Active \<and> now < gr_expires_at g"
  by (auto simp: grant_is_usable_at_def grant_is_expired_at_def)

section \<open>Leases\<close>

record authorization_lease =
  le_lease_id :: lease_id
  le_grant_id :: grant_id
  le_subject_session_id :: session_id
  le_device_id :: device_id
  le_principal :: authorization_principal
  le_workspace_ids :: "workspace_id fset"
  le_capabilities :: capability_set
  le_task_scope :: string
  le_issued_at :: instant
  le_expires_at :: instant
  le_consumed_at :: "instant option"
  le_consumed_by_operation :: "operation_id option"

record lease_request =
  lr_workspace_ids :: "workspace_id fset"
  lr_capabilities :: capability_set
  lr_lifetime :: duration

datatype authorization_error =
    GrantNotApproved authorization_status
  | GrantRevoked
  | GrantExpired instant
  | GrantConsumed
  | ForeignGrant
  | DeviceBindingMismatch
  | PrincipalMismatch
  | WorkspaceNotGranted workspace_id
  | CapabilityNotGranted capability
  | LeaseOutlivesGrant
  | OneShotLeaseAlreadyIssued lease_id
  | LeaseAlreadyConsumed lease_id
  | LeaseExpired lease_id
  | NonPositiveLifetime
  | EmptyScope

definition error_from_grant_state :: "access_grant \<Rightarrow> instant \<Rightarrow> authorization_error" where
  "error_from_grant_state g now =
     (case gr_status g of
        Revoked \<Rightarrow> GrantRevoked
      | Consumed \<Rightarrow> GrantConsumed
      | Expired \<Rightarrow> GrantExpired (gr_expires_at g)
      | _ \<Rightarrow> if grant_is_expired_at g now then GrantExpired (gr_expires_at g)
             else GrantNotApproved (gr_status g))"

text \<open>
  \<open>issued_for\<close> and \<open>validate_against\<close> end with the same scope check: the first workspace, then the
  first capability, that the grant does not allow.
\<close>

definition check_scope ::
  "access_grant \<Rightarrow> workspace_id fset \<Rightarrow> capability_set \<Rightarrow> authorization_error + unit" where
  "check_scope g ws caps =
     (case find_first (\<lambda>w. \<not> allows_workspace g w) ws of
        Some w \<Rightarrow> Inl (WorkspaceNotGranted w)
      | None \<Rightarrow>
          (case find_first (\<lambda>c. \<not> allows_capability g c) caps of
             Some c \<Rightarrow> Inl (CapabilityNotGranted c)
           | None \<Rightarrow> Inr ()))"

definition lease_issued_for ::
  "lease_id \<Rightarrow> access_grant \<Rightarrow> lease_request \<Rightarrow> instant \<Rightarrow> authorization_error + authorization_lease" where
  "lease_issued_for lid g rq now =
     (if lr_lifetime rq \<le> 0 then Inl NonPositiveLifetime
      else if lr_workspace_ids rq = {||} then Inl EmptyScope
      else if \<not> grant_is_usable_at g now then Inl (error_from_grant_state g now)
      else if \<not> may_issue_another_lease g
        then Inl (OneShotLeaseAlreadyIssued (the (gr_issued_lease_id g)))
      else rbind (check_scope g (lr_workspace_ids rq) (lr_capabilities rq))
        (\<lambda>_. Inr
          \<lparr>le_lease_id = lid,
           le_grant_id = gr_grant_id g,
           le_subject_session_id = gr_subject_session_id g,
           le_device_id = gr_device_id g,
           le_principal = gr_principal g,
           le_workspace_ids = lr_workspace_ids rq,
           le_capabilities = lr_capabilities rq,
           le_task_scope = gr_task_scope g,
           le_issued_at = now,
           le_expires_at = min (now + lr_lifetime rq) (gr_expires_at g),
           le_consumed_at = None,
           le_consumed_by_operation = None\<rparr>))"

definition lease_is_valid_at :: "authorization_lease \<Rightarrow> instant \<Rightarrow> bool" where
  "lease_is_valid_at l now \<longleftrightarrow> le_consumed_at l = None \<and> now < le_expires_at l"

definition lease_validate_against ::
  "authorization_lease \<Rightarrow> access_grant \<Rightarrow> instant \<Rightarrow> authorization_error + unit" where
  "lease_validate_against l g now =
     (if le_grant_id l \<noteq> gr_grant_id g then Inl ForeignGrant
      else if \<not> grant_is_usable_at g now then Inl (error_from_grant_state g now)
      else if le_device_id l \<noteq> gr_device_id g then Inl DeviceBindingMismatch
      else if le_principal l \<noteq> gr_principal g then Inl PrincipalMismatch
      else if le_expires_at l > gr_expires_at g then Inl LeaseOutlivesGrant
      else rbind (check_scope g (le_workspace_ids l) (le_capabilities l))
        (\<lambda>_. if le_consumed_at l \<noteq> None then Inl (LeaseAlreadyConsumed (le_lease_id l))
             else if \<not> lease_is_valid_at l now then Inl (LeaseExpired (le_lease_id l))
             else Inr ()))"

definition lease_consumed_by ::
  "authorization_lease \<Rightarrow> operation_id \<Rightarrow> instant \<Rightarrow> authorization_error + authorization_lease" where
  "lease_consumed_by l op now =
     (if le_consumed_at l \<noteq> None then Inl (LeaseAlreadyConsumed (le_lease_id l))
      else if \<not> lease_is_valid_at l now then Inl (LeaseExpired (le_lease_id l))
      else Inr (l\<lparr>le_consumed_at := Some now, le_consumed_by_operation := Some op\<rparr>))"

text \<open>\<open>.expect(..)\<close> in \<open>issued_for\<close> cannot panic: a refusal means a lease id is recorded.\<close>

lemma may_issue_another_lease_False:
  "\<not> may_issue_another_lease g \<Longrightarrow> gr_kind g = OneShot \<and> (\<exists>l. gr_issued_lease_id g = Some l)"
  by (cases "gr_kind g") (auto simp: may_issue_another_lease_def)

lemma check_scope_Inr:
  "check_scope g ws caps = Inr u \<longleftrightarrow>
     ws |\<subseteq>| gr_workspace_ids g \<and> caps |\<subseteq>| gr_effective_capabilities g"
proof -
  have "check_scope g ws caps = Inr u \<longleftrightarrow>
      find_first (\<lambda>w. \<not> allows_workspace g w) ws = None \<and>
      find_first (\<lambda>c. \<not> allows_capability g c) caps = None"
    by (auto simp: check_scope_def split: option.splits)
  then show ?thesis
    by (auto simp: find_first_None allows_workspace_def allows_capability_def)
qed

lemma lease_issued_for_Inr:
  "lease_issued_for lid g rq now = Inr l \<longleftrightarrow>
     0 < lr_lifetime rq \<and> lr_workspace_ids rq \<noteq> {||} \<and> grant_is_usable_at g now
     \<and> may_issue_another_lease g
     \<and> lr_workspace_ids rq |\<subseteq>| gr_workspace_ids g
     \<and> lr_capabilities rq |\<subseteq>| gr_effective_capabilities g
     \<and> l = \<lparr>le_lease_id = lid, le_grant_id = gr_grant_id g,
           le_subject_session_id = gr_subject_session_id g, le_device_id = gr_device_id g,
           le_principal = gr_principal g, le_workspace_ids = lr_workspace_ids rq,
           le_capabilities = lr_capabilities rq, le_task_scope = gr_task_scope g,
           le_issued_at = now, le_expires_at = min (now + lr_lifetime rq) (gr_expires_at g),
           le_consumed_at = None, le_consumed_by_operation = None\<rparr>"
  by (auto simp: lease_issued_for_def rbind_Inr_conv check_scope_Inr)

lemma lease_validate_against_Inr:
  "lease_validate_against l g now = Inr u \<longleftrightarrow>
     le_grant_id l = gr_grant_id g \<and> grant_is_usable_at g now
     \<and> le_device_id l = gr_device_id g \<and> le_principal l = gr_principal g
     \<and> le_expires_at l \<le> gr_expires_at g
     \<and> le_workspace_ids l |\<subseteq>| gr_workspace_ids g
     \<and> le_capabilities l |\<subseteq>| gr_effective_capabilities g
     \<and> lease_is_valid_at l now"
  by (auto simp: lease_validate_against_def rbind_Inr_conv check_scope_Inr lease_is_valid_at_def)

lemma lease_consumed_by_Inr:
  "lease_consumed_by l op now = Inr l' \<longleftrightarrow>
     lease_is_valid_at l now
     \<and> l' = l\<lparr>le_consumed_at := Some now, le_consumed_by_operation := Some op\<rparr>"
  by (auto simp: lease_consumed_by_def lease_is_valid_at_def)

section \<open>Reading a transport-era session as a grant\<close>

datatype legacy_session_mapping_error =
    ActiveWithoutApproval session_id
  | NoWorkspace session_id
  | LegacyNonPositiveLifetime session_id

fun legacy_status :: "session_status \<Rightarrow> authorization_status option" where
  "legacy_status SUnpaired = None"
| "legacy_status SPaired = None"
| "legacy_status SConnected = None"
| "legacy_status SDisconnected = None"
| "legacy_status SPendingApproval = Some PendingApproval"
| "legacy_status SActive = Some Active"
| "legacy_status SSuspended = Some Suspended"
| "legacy_status SExpired = Some Expired"
| "legacy_status SRevoked = Some Revoked"

text \<open>The derived \<open>Debug\<close> form of a session status.\<close>

fun session_status_debug :: "session_status \<Rightarrow> string" where
  "session_status_debug SUnpaired = ''Unpaired''"
| "session_status_debug SPaired = ''Paired''"
| "session_status_debug SDisconnected = ''Disconnected''"
| "session_status_debug SConnected = ''Connected''"
| "session_status_debug SPendingApproval = ''PendingApproval''"
| "session_status_debug SActive = ''Active''"
| "session_status_debug SSuspended = ''Suspended''"
| "session_status_debug SExpired = ''Expired''"
| "session_status_debug SRevoked = ''Revoked''"

definition legacy_migration_note :: "(ulid \<Rightarrow> string) \<Rightarrow> session \<Rightarrow> authorization_status \<Rightarrow> string" where
  "legacy_migration_note put s status =
     (if status = Revoked
      then ''migrated from a transport-era session row that recorded no revocation timestamp; the revocation itself is preserved''
      else ''migrated from transport-era session '' @ id_display put ''sess'' (sess_ulid (ses_session_id s))
           @ '' ('' @ session_status_debug (ses_status s) @ '')'')"

definition legacy_grant :: "(ulid \<Rightarrow> string) \<Rightarrow> session \<Rightarrow> authorization_status \<Rightarrow> access_grant" where
  "legacy_grant put s status =
     \<lparr>gr_grant_id = grant_id_of_session (ses_session_id s),
      gr_subject_session_id = ses_session_id s,
      gr_device_id = ses_device_id s,
      gr_principal = principal_unverified (ses_remote_principal s),
      gr_workspace_ids = ses_workspace_ids s,
      gr_capability_profile = ses_capability_profile s,
      gr_effective_capabilities = ses_effective_capabilities s,
      gr_task_scope = ses_task_scope s,
      gr_kind = Standing,
      gr_issued_at = ses_issued_at s,
      gr_approved_at = ses_approved_at s,
      gr_expires_at = ses_expires_at s,
      gr_revoked_at = None,
      gr_revocation_reason =
        (if status = Revoked then Some ''revoked before the authorization migration'' else None),
      gr_consumed_at = None,
      gr_issued_lease_id = None,
      gr_risk_policy_version = ses_risk_policy_version s,
      gr_approval_policy = ses_approval_policy s,
      gr_status = status,
      gr_migrated_from_session_id = Some (ses_session_id s),
      gr_migration_note = Some (legacy_migration_note put s status)\<rparr>"

definition grant_from_legacy_session ::
  "(ulid \<Rightarrow> string) \<Rightarrow> session \<Rightarrow> legacy_session_mapping_error + access_grant option" where
  "grant_from_legacy_session put s =
     (case legacy_status (ses_status s) of
        None \<Rightarrow> Inr None
      | Some status \<Rightarrow>
          if ses_workspace_ids s = {||} then Inl (NoWorkspace (ses_session_id s))
          else if ses_expires_at s \<le> ses_issued_at s
            then Inl (LegacyNonPositiveLifetime (ses_session_id s))
          else if status = Active \<and> ses_approved_at s = None
            then Inl (ActiveWithoutApproval (ses_session_id s))
          else Inr (Some (legacy_grant put s status)))"

lemma legacy_grant_simps [simp]:
  "gr_grant_id (legacy_grant put s st) = grant_id_of_session (ses_session_id s)"
  "gr_subject_session_id (legacy_grant put s st) = ses_session_id s"
  "gr_device_id (legacy_grant put s st) = ses_device_id s"
  "gr_principal (legacy_grant put s st) = principal_unverified (ses_remote_principal s)"
  "gr_workspace_ids (legacy_grant put s st) = ses_workspace_ids s"
  "gr_capability_profile (legacy_grant put s st) = ses_capability_profile s"
  "gr_effective_capabilities (legacy_grant put s st) = ses_effective_capabilities s"
  "gr_task_scope (legacy_grant put s st) = ses_task_scope s"
  "gr_kind (legacy_grant put s st) = Standing"
  "gr_issued_at (legacy_grant put s st) = ses_issued_at s"
  "gr_approved_at (legacy_grant put s st) = ses_approved_at s"
  "gr_expires_at (legacy_grant put s st) = ses_expires_at s"
  "gr_risk_policy_version (legacy_grant put s st) = ses_risk_policy_version s"
  "gr_approval_policy (legacy_grant put s st) = ses_approval_policy s"
  "gr_status (legacy_grant put s st) = st"
  "gr_issued_lease_id (legacy_grant put s st) = None"
  "gr_migrated_from_session_id (legacy_grant put s st) = Some (ses_session_id s)"
  by (simp_all add: legacy_grant_def)

lemma grant_from_legacy_session_Some:
  "grant_from_legacy_session put s = Inr (Some g) \<longleftrightarrow>
     (\<exists>status. legacy_status (ses_status s) = Some status
        \<and> ses_workspace_ids s \<noteq> {||} \<and> ses_issued_at s < ses_expires_at s
        \<and> (status = Active \<longrightarrow> ses_approved_at s \<noteq> None)
        \<and> g = legacy_grant put s status)"
  by (auto simp: grant_from_legacy_session_def split: option.splits)

lemma legacy_status_Active [simp]: "legacy_status st = Some Active \<longleftrightarrow> st = SActive"
  by (cases st) simp_all

section \<open>Sample records\<close>

text \<open>Concrete records at which the witnesses of this development instantiate the properties.\<close>

definition sample_actor :: verified_principal where
  "sample_actor =
     \<lparr>vp_issuer = ''iss'', vp_subject = ''actor'', vp_account_or_tenant = None,
      vp_client_or_agent = None, vp_authentication_strength = ''mfa'',
      vp_verification_source = AuthenticatedTransport, vp_transport_binding = ''chan''\<rparr>"

definition sample_request :: "grant_kind \<Rightarrow> grant_request" where
  "sample_request kind =
     \<lparr>rq_subject_session_id = SessionId 7, rq_device_id = DeviceId 1,
      rq_principal = principal_unverified ''agent'', rq_workspace_ids = {|WorkspaceId 1|},
      rq_capability_profile = Design, rq_task_scope = ''task'', rq_kind = kind,
      rq_lifetime = 100, rq_risk_policy_version = 4\<rparr>"

definition sample_pending :: "grant_kind \<Rightarrow> access_grant" where
  "sample_pending kind = grant_requested (GrantId 1) (sample_request kind) 0"

definition sample_active :: "grant_kind \<Rightarrow> access_grant" where
  "sample_active kind = (sample_pending kind)\<lparr>gr_approved_at := Some 1, gr_status := Active\<rparr>"

definition sample_lease_request :: lease_request where
  "sample_lease_request =
     \<lparr>lr_workspace_ids = {|WorkspaceId 1|}, lr_capabilities = {|PCB_WRITE|}, lr_lifetime = 500\<rparr>"

definition sample_session :: "session_status \<Rightarrow> session" where
  "sample_session st =
     \<lparr>ses_session_id = SessionId 7, ses_device_id = DeviceId 1, ses_remote_principal = ''agent'',
      ses_workspace_ids = {|WorkspaceId 1|}, ses_capability_profile = Inspect,
      ses_effective_capabilities = inspect_capabilities, ses_task_scope = ''task'',
      ses_issued_at = 0, ses_approved_at = Some 1, ses_expires_at = 100,
      ses_risk_policy_version = 1, ses_approval_policy = Standard, ses_status = st\<rparr>"

lemmas sample_defs = sample_actor_def sample_request_def sample_pending_def sample_active_def
  sample_lease_request_def sample_session_def grant_requested_def

section \<open>Properties\<close>

text \<open>
  A lease cut from a grant is strictly inside it. Whenever \<open>issued_for\<close> hands out a lease, the
  lease names the same grant, subject, device, principal and task, its workspaces and capabilities
  are subsets of the grant's, it expires no later than the grant, it is unspent, and it validates
  against the grant at the moment of issue.
\<close>

theorem issued_lease_is_within_grant_and_validates:
  assumes "lease_issued_for lid g rq now = Inr l"
  shows "le_grant_id l = gr_grant_id g \<and> le_subject_session_id l = gr_subject_session_id g
    \<and> le_device_id l = gr_device_id g \<and> le_principal l = gr_principal g
    \<and> le_task_scope l = gr_task_scope g
    \<and> le_workspace_ids l |\<subseteq>| gr_workspace_ids g
    \<and> le_capabilities l |\<subseteq>| gr_effective_capabilities g
    \<and> now < le_expires_at l \<and> le_expires_at l \<le> gr_expires_at g \<and> le_consumed_at l = None
    \<and> lease_validate_against l g now = Inr ()"
proof -
  from assms have rq: "0 < lr_lifetime rq" and use: "grant_is_usable_at g now"
    and ws: "lr_workspace_ids rq |\<subseteq>| gr_workspace_ids g"
    and caps: "lr_capabilities rq |\<subseteq>| gr_effective_capabilities g"
    by (simp_all add: lease_issued_for_Inr)
  from use have live: "now < gr_expires_at g" by (simp add: usable_conv)
  from assms rq live ws caps use show ?thesis
    by (simp add: lease_issued_for_Inr lease_validate_against_Inr lease_is_valid_at_def)
qed

theorem issued_lease_is_within_grant_and_validates_witness:
  "\<exists>l. lease_issued_for (LeaseId 5) (sample_active OneShot) sample_lease_request 10 = Inr l
     \<and> le_expires_at l = 100
     \<and> lease_validate_against l (sample_active OneShot) 10 = Inr ()"
proof -
  obtain l where l: "lease_issued_for (LeaseId 5) (sample_active OneShot) sample_lease_request 10 = Inr l"
    and "le_expires_at l = 100"
    by (simp add: lease_issued_for_Inr sample_defs usable_conv may_issue_another_lease_def
        design_capabilities_def)
  with issued_lease_is_within_grant_and_validates [OF l] show ?thesis by blast
qed

text \<open>
  \<open>validate_against\<close> is exactly the documented constraint set: a lease is accepted iff it belongs to
  the grant, the grant is active and unexpired, device and principal agree, the scope is inside the
  grant's, the lease does not outlive the grant, and the lease itself is unspent and unexpired.
\<close>

theorem lease_validation_characterised:
  "lease_validate_against l g now = Inr () \<longleftrightarrow>
     le_grant_id l = gr_grant_id g
     \<and> (gr_status g = Active \<and> now < gr_expires_at g)
     \<and> le_device_id l = gr_device_id g \<and> le_principal l = gr_principal g
     \<and> le_expires_at l \<le> gr_expires_at g
     \<and> le_workspace_ids l |\<subseteq>| gr_workspace_ids g
     \<and> le_capabilities l |\<subseteq>| gr_effective_capabilities g
     \<and> le_consumed_at l = None \<and> now < le_expires_at l"
  by (simp add: lease_validate_against_Inr usable_conv lease_is_valid_at_def)

text \<open>
  A grant bound to a verified actor accepts a transport only when that transport presents exactly
  the actor recorded in the grant, transport binding included; a captured identity presented over a
  transport with any other binding is refused, and so is an unauthenticated transport.
\<close>

theorem verified_grant_accepts_only_its_own_binding:
  "accepts_transport_principal (principal_verified name expected) current \<longleftrightarrow>
     has_required_binding_fields expected \<and> current = Some expected"
  by (auto simp: accepts_verified_conv principal_verified_def principal_is_verified_def)

text \<open>
  The legacy adapter mints no authority. Whatever a transport-era row is mapped to is a standing
  grant with the row's own subject, device, workspaces, capabilities and deadline, never a verified
  principal, and it is usable at an instant exactly when the row itself was.
\<close>

theorem legacy_mapping_mints_no_authority:
  assumes "grant_from_legacy_session put s = Inr (Some g)"
  shows "gr_subject_session_id g = ses_session_id s \<and> gr_device_id g = ses_device_id s
    \<and> gr_workspace_ids g = ses_workspace_ids s
    \<and> gr_effective_capabilities g = ses_effective_capabilities s
    \<and> gr_expires_at g = ses_expires_at s \<and> gr_kind g = Standing
    \<and> \<not> principal_is_verified (gr_principal g)
    \<and> (\<forall>now. grant_is_usable_at g now \<longleftrightarrow> session_is_usable_at s now)"
  using assms by (auto simp: grant_from_legacy_session_Some usable_conv session_is_usable_at_def)

theorem legacy_mapping_mints_no_authority_witness:
  "\<exists>g. grant_from_legacy_session (\<lambda>_. ''X'') (sample_session SActive) = Inr (Some g)
     \<and> grant_is_usable_at g 50"
proof -
  have m: "grant_from_legacy_session (\<lambda>_. ''X'') (sample_session SActive)
      = Inr (Some (legacy_grant (\<lambda>_. ''X'') (sample_session SActive) Active))"
    by (simp add: grant_from_legacy_session_def sample_session_def)
  with legacy_mapping_mints_no_authority [OF m] show ?thesis
    by (auto simp: session_is_usable_at_def sample_session_def)
qed

end
