(* ===== verification/Gateway_Sessions.thy ===== *)
theory Gateway_Sessions
  imports Gateway_Authorization
begin

text \<open>
  The transport-era session machine, \<^verbatim>\<open>src/crates/sessions/src/state_machine.rs\<close>, the session
  half of \<^verbatim>\<open>approvals.rs\<close>, and the connectivity fold of \<^verbatim>\<open>transport_boundary.rs\<close>. The clock is the
  instant argument \<open>now\<close>. \<open>session_reachable\<close> is the set of records the machine can produce from a
  fresh unpaired record.
\<close>

section \<open>The session machine\<close>

datatype session_event =
    EPair | ETransportConnected | ETransportDisconnected | ERequestAccess | EApprove
  | EDeny string | EPause | EResume | ECheckExpiry | ERevoke

datatype session_error =
    SessionTerminalState session_status
  | SessionInvalidTransition session_status session_event
  | SessionStorage string
  | NotASessionLevelDecision

fun session_error_code :: "session_error \<Rightarrow> string" where
  "session_error_code (SessionTerminalState _) = ''SESSION_TERMINAL_STATE''"
| "session_error_code (SessionInvalidTransition _ _) = ''SESSION_INVALID_TRANSITION''"
| "session_error_code (SessionStorage _) = ''SESSION_STORAGE''"
| "session_error_code NotASessionLevelDecision = ''SESSION_NOT_A_SESSION_LEVEL_DECISION''"

definition session_is_terminal :: "session \<Rightarrow> bool" where
  "session_is_terminal s \<longleftrightarrow> ses_status s \<in> {SRevoked, SExpired}"

text \<open>The \<open>match (self.status, &event)\<close> table: \<open>None\<close> is the catch-all arm.\<close>

definition session_next_status :: "session_status \<Rightarrow> session_event \<Rightarrow> instant \<Rightarrow> instant \<Rightarrow> session_status option" where
  "session_next_status st e now ex =
     (case (st, e) of
        (SUnpaired, EPair) \<Rightarrow> Some SPaired
      | (SPaired, ETransportConnected) \<Rightarrow> Some SConnected
      | (SDisconnected, ETransportConnected) \<Rightarrow> Some SConnected
      | (SConnected, ETransportDisconnected) \<Rightarrow> Some SDisconnected
      | (SConnected, ERequestAccess) \<Rightarrow> Some SPendingApproval
      | (SPendingApproval, EApprove) \<Rightarrow> Some SActive
      | (SPendingApproval, EDeny _) \<Rightarrow> Some SRevoked
      | (SActive, EPause) \<Rightarrow> Some SSuspended
      | (SSuspended, EResume) \<Rightarrow> Some SActive
      | (SActive, ECheckExpiry) \<Rightarrow> Some (if now \<ge> ex then SExpired else SActive)
      | _ \<Rightarrow> None)"

lemma session_next_status_simps [simp]:
  "session_next_status SUnpaired e now ex = (if e = EPair then Some SPaired else None)"
  "session_next_status SPaired e now ex = (if e = ETransportConnected then Some SConnected else None)"
  "session_next_status SDisconnected e now ex = (if e = ETransportConnected then Some SConnected else None)"
  "session_next_status SConnected e now ex =
     (if e = ETransportDisconnected then Some SDisconnected
      else if e = ERequestAccess then Some SPendingApproval else None)"
  "session_next_status SSuspended e now ex = (if e = EResume then Some SActive else None)"
  "session_next_status SActive e now ex =
     (if e = EPause then Some SSuspended
      else if e = ECheckExpiry then Some (if now \<ge> ex then SExpired else SActive) else None)"
  "session_next_status SPendingApproval e now ex =
     (case e of EApprove \<Rightarrow> Some SActive | EDeny _ \<Rightarrow> Some SRevoked | _ \<Rightarrow> None)"
  "session_next_status SExpired e now ex = None"
  "session_next_status SRevoked e now ex = None"
  by (cases e; simp add: session_next_status_def)+

definition session_transition :: "session \<Rightarrow> session_event \<Rightarrow> instant \<Rightarrow> session_error + session" where
  "session_transition s e now =
     (if session_is_terminal s then Inl (SessionTerminalState (ses_status s))
      else if e = ERevoke then Inr (s\<lparr>ses_status := SRevoked\<rparr>)
      else
        (case session_next_status (ses_status s) e now (ses_expires_at s) of
           None \<Rightarrow> Inl (SessionInvalidTransition (ses_status s) e)
         | Some st \<Rightarrow>
             Inr (if e = EApprove then s\<lparr>ses_approved_at := Some now, ses_status := st\<rparr>
                  else s\<lparr>ses_status := st\<rparr>)))"

definition new_unpaired_session ::
  "session_id \<Rightarrow> device_id \<Rightarrow> string \<Rightarrow> workspace_id fset \<Rightarrow> capability_profile \<Rightarrow> string \<Rightarrow> duration
   \<Rightarrow> instant \<Rightarrow> session" where
  "new_unpaired_session sid dev claim ws profile task ttl now =
     \<lparr>ses_session_id = sid,
      ses_device_id = dev,
      ses_remote_principal = claim,
      ses_workspace_ids = ws,
      ses_capability_profile = profile,
      ses_effective_capabilities = effective_capabilities profile,
      ses_task_scope = task,
      ses_issued_at = now,
      ses_approved_at = None,
      ses_expires_at = now + ttl,
      ses_risk_policy_version = 1,
      ses_approval_policy = Standard,
      ses_status = SUnpaired\<rparr>"

definition apply_session_decision ::
  "session \<Rightarrow> approval_decision \<Rightarrow> instant \<Rightarrow> session_error + session" where
  "apply_session_decision s d now =
     (case d of
        Approved _ \<Rightarrow> session_transition s EApprove now
      | Denied _ reason \<Rightarrow> session_transition s (EDeny reason) now
      | AllowOnce _ \<Rightarrow> Inl NotASessionLevelDecision)"

text \<open>What no session event changes.\<close>

definition session_scope where
  "session_scope s =
     (ses_session_id s, ses_device_id s, ses_remote_principal s, ses_workspace_ids s,
      ses_capability_profile s, ses_effective_capabilities s, ses_task_scope s, ses_issued_at s,
      ses_expires_at s)"

lemma session_transition_Inr:
  "session_transition s e now = Inr s' \<longleftrightarrow>
     \<not> session_is_terminal s
     \<and> (e = ERevoke \<and> s' = s\<lparr>ses_status := SRevoked\<rparr>
        \<or> e \<noteq> ERevoke \<and> (\<exists>st. session_next_status (ses_status s) e now (ses_expires_at s) = Some st
             \<and> s' = (if e = EApprove then s\<lparr>ses_approved_at := Some now, ses_status := st\<rparr>
                     else s\<lparr>ses_status := st\<rparr>)))"
  by (auto simp: session_transition_def split: option.splits)

interpretation session_life: lifecycle session_transition session_is_terminal session_scope
proof
  show "\<exists>err. session_transition s e t = Inl err" if "session_is_terminal s" for s e t
    using that by (simp add: session_transition_def)
  show "session_scope s' = session_scope s" if "session_transition s e t = Inr s'" for s e t s'
    using that by (auto simp: session_transition_Inr session_scope_def split: if_splits)
qed

inductive session_reachable :: "session \<Rightarrow> bool" where
  fresh: "session_reachable (new_unpaired_session sid dev p ws prof task ttl now)"
| event: "session_reachable s \<Longrightarrow> session_transition s e now = Inr s' \<Longrightarrow> session_reachable s'"

text \<open>The table read backwards: which event and which status lead to an approved status.\<close>

lemma session_next_status_approved:
  assumes "session_next_status st e now ex = Some st'" and "st' \<in> {SActive, SSuspended}"
  shows "e = EApprove \<and> st = SPendingApproval \<or> st \<in> {SActive, SSuspended}"
  using assms by (cases st) (auto split: if_splits session_event.splits)

lemma session_reachable_approved:
  "session_reachable s \<Longrightarrow> ses_status s \<in> {SActive, SSuspended} \<Longrightarrow> ses_approved_at s \<noteq> None"
proof (induction rule: session_reachable.induct)
  case (fresh sid dev p ws prof task ttl now)
  then show ?case by (simp add: new_unpaired_session_def)
next
  case (event s e now s')
  from event.hyps(2) consider (revoke) "s' = s\<lparr>ses_status := SRevoked\<rparr>"
    | (approve) st where "e = EApprove" "s' = s\<lparr>ses_approved_at := Some now, ses_status := st\<rparr>"
    | (other) st where "e \<noteq> EApprove" "s' = s\<lparr>ses_status := st\<rparr>"
        "session_next_status (ses_status s) e now (ses_expires_at s) = Some st"
    by (auto simp: session_transition_Inr split: if_splits)
  then show ?case
  proof cases
    case other
    with event.prems session_next_status_approved [OF other(3)]
    have "ses_status s \<in> {SActive, SSuspended}" by auto
    with event.IH other show ?thesis by simp
  qed (use event.prems in auto)
qed

section \<open>Transport connectivity\<close>

datatype transport_connectivity_event =
    PipeConnecting | PipeConnected | PipeDisconnected | PipeReconnecting | PipeConnectFailed

fun transport_next_state :: "transport_connectivity_event \<Rightarrow> transport_state \<Rightarrow> transport_state" where
  "transport_next_state PipeConnected current = TConnected"
| "transport_next_state PipeDisconnected current = TDisconnected"
| "transport_next_state PipeConnectFailed current = TFailed"
| "transport_next_state PipeConnecting current = TConnecting"
| "transport_next_state PipeReconnecting current =
     (if current = TDisconnected then TReconnecting else TConnecting)"

definition transport_state_after ::
  "transport_state \<Rightarrow> transport_connectivity_event \<Rightarrow> transport_state" where
  "transport_state_after current e = transport_next_state e current"

definition fold_transport_events ::
  "transport_state \<Rightarrow> transport_connectivity_event list \<Rightarrow> transport_state" where
  "fold_transport_events current es = foldl transport_state_after current es"

definition is_pipe_usable :: "transport_state \<Rightarrow> bool" where
  "is_pipe_usable st \<longleftrightarrow> st = TConnected"

lemma fold_transport_events_append:
  "fold_transport_events c (es @ [e]) = transport_state_after (fold_transport_events c es) e"
  by (simp add: fold_transport_events_def)

text \<open>Only a connected event makes the pipe usable, whatever happened before.\<close>

lemma pipe_usable_iff_last:
  "is_pipe_usable (fold_transport_events c (es @ [e])) \<longleftrightarrow> e = PipeConnected"
  by (cases e) (simp_all add: fold_transport_events_append transport_state_after_def is_pipe_usable_def)

end
