(* ===== verification/Gateway_Grants.thy ===== *)
theory Gateway_Grants
  imports Gateway_Sessions
begin

text \<open>
  The authorization state machine, \<^verbatim>\<open>src/crates/sessions/src/grant_machine.rs\<close>, with the grant
  half of \<^verbatim>\<open>approvals.rs\<close>. A grant starts pending (\<open>grant_requested\<close>), changes only by local
  decisions or its own clock (\<open>grant_transition\<close>), and cuts and spends leases (\<open>issue_lease\<close>,
  \<open>consume_lease\<close>). \<open>authority_step\<close> is the step relation of one grant together with the leases cut
  from it; the session machine is related to the grant machine by the legacy adapter.
\<close>

section \<open>The grant machine\<close>

datatype authorization_event =
    Approve
  | Deny string
  | Suspend
  | Resume
  | CheckExpiry
  | Revoke "string option"
  | ConsumeLease lease_id

datatype grant_error =
    GrantTerminalState authorization_status
  | GrantInvalidTransition authorization_status authorization_event
  | LeaseNotIssuedByGrant lease_id
  | NotAGrantLevelDecision
  | GrantStorage string
  | AuthorizationFailed authorization_error
  | LegacySession legacy_session_mapping_error
  | SessionFailed session_error

fun grant_error_code :: "grant_error \<Rightarrow> string" where
  "grant_error_code (GrantTerminalState _) = ''AUTHORIZATION_TERMINAL_STATE''"
| "grant_error_code (GrantInvalidTransition _ _) = ''AUTHORIZATION_INVALID_TRANSITION''"
| "grant_error_code (LeaseNotIssuedByGrant _) = ''AUTHORIZATION_LEASE_NOT_ISSUED''"
| "grant_error_code NotAGrantLevelDecision = ''AUTHORIZATION_NOT_A_GRANT_LEVEL_DECISION''"
| "grant_error_code (GrantStorage _) = ''AUTHORIZATION_STORAGE''"
| "grant_error_code (AuthorizationFailed _) = ''AUTHORIZATION_CONSTRAINT_VIOLATION''"
| "grant_error_code (LegacySession _) = ''AUTHORIZATION_LEGACY_STATE_UNUSABLE''"
| "grant_error_code (SessionFailed e) = session_error_code e"

text \<open>The \<open>match (self.status, event)\<close> of \<open>transition\<close>, with its early returns.\<close>

definition grant_next_status ::
  "access_grant \<Rightarrow> authorization_event \<Rightarrow> instant \<Rightarrow> grant_error + authorization_status" where
  "grant_next_status g e now =
     (case (gr_status g, e) of
        (PendingApproval, Approve) \<Rightarrow> Inr Active
      | (PendingApproval, Deny _) \<Rightarrow> Inr Revoked
      | (Active, Suspend) \<Rightarrow> Inr Suspended
      | (Suspended, Resume) \<Rightarrow> Inr Active
      | (PendingApproval, CheckExpiry) \<Rightarrow> Inr (if now \<ge> gr_expires_at g then Expired else gr_status g)
      | (Active, CheckExpiry) \<Rightarrow> Inr (if now \<ge> gr_expires_at g then Expired else gr_status g)
      | (Suspended, CheckExpiry) \<Rightarrow> Inr (if now \<ge> gr_expires_at g then Expired else gr_status g)
      | (Active, ConsumeLease lid) \<Rightarrow>
          if gr_kind g \<noteq> OneShot then Inl (GrantInvalidTransition (gr_status g) e)
          else if gr_issued_lease_id g \<noteq> Some lid then Inl (LeaseNotIssuedByGrant lid)
          else Inr Consumed
      | (from, _) \<Rightarrow> Inl (GrantInvalidTransition from e))"

definition grant_record_event :: "access_grant \<Rightarrow> authorization_event \<Rightarrow> instant \<Rightarrow> access_grant" where
  "grant_record_event g e now =
     (case e of
        Approve \<Rightarrow> g\<lparr>gr_approved_at := Some now\<rparr>
      | Deny reason \<Rightarrow> g\<lparr>gr_revoked_at := Some now, gr_revocation_reason := Some reason\<rparr>
      | ConsumeLease _ \<Rightarrow> g\<lparr>gr_consumed_at := Some now\<rparr>
      | _ \<Rightarrow> g)"

definition grant_transition ::
  "access_grant \<Rightarrow> authorization_event \<Rightarrow> instant \<Rightarrow> grant_error + access_grant" where
  "grant_transition g e now =
     (if grant_is_terminal g then Inl (GrantTerminalState (gr_status g))
      else
        (case e of
           Revoke reason \<Rightarrow>
             Inr (g\<lparr>gr_status := Revoked, gr_revoked_at := Some now, gr_revocation_reason := reason\<rparr>)
         | _ \<Rightarrow> rbind (grant_next_status g e now)
                 (\<lambda>st. Inr ((grant_record_event g e now)\<lparr>gr_status := st\<rparr>))))"

definition issue_lease ::
  "lease_id \<Rightarrow> access_grant \<Rightarrow> lease_request \<Rightarrow> instant \<Rightarrow> grant_error + (access_grant \<times> authorization_lease)" where
  "issue_lease lid g rq now =
     rbind (map_err AuthorizationFailed (lease_issued_for lid g rq now))
       (\<lambda>l. Inr (g\<lparr>gr_issued_lease_id := Some (le_lease_id l)\<rparr>, l))"

definition consume_lease ::
  "access_grant \<Rightarrow> authorization_lease \<Rightarrow> operation_id \<Rightarrow> instant
   \<Rightarrow> grant_error + (access_grant \<times> authorization_lease)" where
  "consume_lease g l op now =
     rbind (map_err AuthorizationFailed (lease_validate_against l g now))
       (\<lambda>_. rbind (map_err AuthorizationFailed (lease_consumed_by l op now))
         (\<lambda>spent.
            if gr_kind g = OneShot
            then rbind (grant_transition g (ConsumeLease (le_lease_id l)) now) (\<lambda>g'. Inr (g', spent))
            else Inr (g, spent)))"

fun authorization_event_for :: "session_event \<Rightarrow> authorization_event option" where
  "authorization_event_for EApprove = Some Approve"
| "authorization_event_for (EDeny reason) = Some (Deny reason)"
| "authorization_event_for EPause = Some Suspend"
| "authorization_event_for EResume = Some Resume"
| "authorization_event_for ERevoke = Some (Revoke None)"
| "authorization_event_for EPair = None"
| "authorization_event_for ETransportConnected = None"
| "authorization_event_for ETransportDisconnected = None"
| "authorization_event_for ERequestAccess = None"
| "authorization_event_for ECheckExpiry = None"

definition within_lifetime :: "access_grant \<Rightarrow> instant \<Rightarrow> bool" where
  "within_lifetime g now \<longleftrightarrow> now < gr_expires_at g \<and> gr_expires_at g - gr_issued_at g > 0"

definition apply_grant_decision ::
  "access_grant \<Rightarrow> approval_decision \<Rightarrow> instant \<Rightarrow> grant_error + access_grant" where
  "apply_grant_decision g d now =
     (case d of
        Approved _ \<Rightarrow> grant_transition g Approve now
      | Denied _ reason \<Rightarrow> grant_transition g (Deny reason) now
      | AllowOnce _ \<Rightarrow> Inl NotAGrantLevelDecision)"

section \<open>Elementary facts\<close>

text \<open>What no authorization event changes: the grant's identity, scope and deadline.\<close>

definition grant_scope where
  "grant_scope g =
     (gr_grant_id g, gr_subject_session_id g, gr_device_id g, gr_principal g, gr_workspace_ids g,
      gr_capability_profile g, gr_effective_capabilities g, gr_task_scope g, gr_kind g,
      gr_issued_at g, gr_expires_at g, gr_issued_lease_id g)"

lemma grant_record_event_frame [frame_simps]:
  "grant_scope (grant_record_event g e now) = grant_scope g"
  "gr_status (grant_record_event g e now) = gr_status g"
  by (cases e; simp add: grant_record_event_def grant_scope_def)+

lemma grant_scope_updates [simp]:
  "grant_scope (g\<lparr>gr_status := st\<rparr>) = grant_scope g"
  "grant_scope (g\<lparr>gr_status := st, gr_revoked_at := r, gr_revocation_reason := m\<rparr>) = grant_scope g"
  by (simp_all add: grant_scope_def)

lemma grant_transition_Inr:
  "grant_transition g e now = Inr g' \<longleftrightarrow>
     \<not> grant_is_terminal g \<and>
     ((\<exists>reason. e = Revoke reason \<and>
         g' = g\<lparr>gr_status := Revoked, gr_revoked_at := Some now, gr_revocation_reason := reason\<rparr>)
      \<or> (\<forall>reason. e \<noteq> Revoke reason) \<and>
        (\<exists>st. grant_next_status g e now = Inr st \<and> g' = (grant_record_event g e now)\<lparr>gr_status := st\<rparr>))"
  by (cases e) (auto simp: grant_transition_def rbind_Inr_conv)

lemma grant_transition_scope:
  "grant_transition g e now = Inr g' \<Longrightarrow> grant_scope g' = grant_scope g"
  by (auto simp: grant_transition_Inr frame_simps)

interpretation grant_life: lifecycle grant_transition grant_is_terminal grant_scope
proof
  show "\<exists>err. grant_transition g e t = Inl err" if "grant_is_terminal g" for g e t
    using that by (simp add: grant_transition_def)
  show "grant_scope g' = grant_scope g" if "grant_transition g e t = Inr g'" for g e t g'
    using that by (rule grant_transition_scope)
qed

text \<open>The only two events that end in \<open>Active\<close> are a local approval and a local resume.\<close>

lemma grant_next_status_Active:
  "grant_next_status g e now = Inr Active \<longleftrightarrow>
     gr_status g = PendingApproval \<and> e = Approve
     \<or> gr_status g = Suspended \<and> e = Resume
     \<or> gr_status g = Active \<and> e = CheckExpiry \<and> now < gr_expires_at g"
  by (cases "gr_status g"; cases e) (auto simp: grant_next_status_def)

lemma grant_next_status_Consumed:
  "grant_next_status g e now = Inr Consumed \<longleftrightarrow>
     (\<exists>lid. gr_status g = Active \<and> e = ConsumeLease lid \<and> gr_kind g = OneShot
        \<and> gr_issued_lease_id g = Some lid)"
  by (cases "gr_status g"; cases e) (auto simp: grant_next_status_def)

lemma grant_transition_becomes_Active:
  assumes "grant_transition g e now = Inr g'" and "gr_status g' = Active" and "gr_status g \<noteq> Active"
  shows "e = Approve \<and> gr_status g = PendingApproval \<or> e = Resume \<and> gr_status g = Suspended"
  using assms by (auto simp: grant_transition_Inr grant_next_status_Active)

lemma grant_transition_usable_cases:
  assumes "grant_transition g e now = Inr g'" and "grant_is_usable_at g' t"
  shows "grant_is_usable_at g t
    \<or> e = Approve \<and> gr_status g = PendingApproval \<or> e = Resume \<and> gr_status g = Suspended"
proof (cases "gr_status g = Active")
  case True
  have "gr_expires_at g' = gr_expires_at g"
    using grant_transition_scope [OF assms(1)] by (simp add: grant_scope_def)
  with True assms(2) show ?thesis by (simp add: usable_conv)
next
  case False
  with assms show ?thesis
    using grant_transition_becomes_Active by (simp add: usable_conv)
qed

lemma issue_lease_Inr:
  "issue_lease lid g rq now = Inr (g', l) \<longleftrightarrow>
     lease_issued_for lid g rq now = Inr l \<and> g' = g\<lparr>gr_issued_lease_id := Some lid\<rparr>"
  by (auto simp: issue_lease_def rbind_Inr_conv lease_issued_for_Inr)

lemma consume_lease_Inr:
  "consume_lease g l op now = Inr (g', l') \<longleftrightarrow>
     lease_validate_against l g now = Inr () \<and> lease_consumed_by l op now = Inr l'
     \<and> (if gr_kind g = OneShot then grant_transition g (ConsumeLease (le_lease_id l)) now = Inr g'
        else g' = g)"
  by (auto simp: consume_lease_def rbind_Inr_conv)

lemma consume_lease_transition:
  "grant_transition g (ConsumeLease lid) now = Inr g' \<longleftrightarrow>
     gr_status g = Active \<and> gr_kind g = OneShot \<and> gr_issued_lease_id g = Some lid
     \<and> g' = g\<lparr>gr_consumed_at := Some now, gr_status := Consumed\<rparr>"
  by (cases "gr_status g")
    (auto simp: grant_transition_Inr grant_next_status_def grant_record_event_def
      grant_is_terminal_def status_is_terminal_def)

section \<open>One grant and its leases\<close>

inductive authority_step ::
  "access_grant \<times> authorization_lease list \<Rightarrow> access_grant \<times> authorization_lease list \<Rightarrow> bool" where
  decide: "grant_transition g e now = Inr g' \<Longrightarrow> authority_step (g, ls) (g', ls)"
| issue: "issue_lease lid g rq now = Inr (g', l) \<Longrightarrow> authority_step (g, ls) (g', ls @ [l])"
| spend: "i < length ls \<Longrightarrow> consume_lease g (ls ! i) op now = Inr (g', l') \<Longrightarrow>
    authority_step (g, ls) (g', ls[i := l'])"

inductive authority_reachable :: "access_grant \<times> authorization_lease list \<Rightarrow> bool" where
  requested: "authority_reachable (grant_requested gid rq now, [])"
| step: "authority_reachable a \<Longrightarrow> authority_step a b \<Longrightarrow> authority_reachable b"

inductive_cases authority_step_elim: "authority_step (g, ls) b"

definition lease_within_grant :: "authorization_lease \<Rightarrow> access_grant \<Rightarrow> bool" where
  "lease_within_grant l g \<longleftrightarrow>
     le_grant_id l = gr_grant_id g \<and> le_subject_session_id l = gr_subject_session_id g
     \<and> le_device_id l = gr_device_id g \<and> le_principal l = gr_principal g
     \<and> le_task_scope l = gr_task_scope g
     \<and> le_workspace_ids l |\<subseteq>| gr_workspace_ids g
     \<and> le_capabilities l |\<subseteq>| gr_effective_capabilities g
     \<and> le_expires_at l \<le> gr_expires_at g"

definition one_shot_inv :: "access_grant \<Rightarrow> authorization_lease list \<Rightarrow> bool" where
  "one_shot_inv g ls \<longleftrightarrow> gr_kind g = OneShot \<longrightarrow>
     (case ls of
        [] \<Rightarrow> True
      | [l] \<Rightarrow> gr_issued_lease_id g = Some (le_lease_id l)
               \<and> (le_consumed_at l \<noteq> None \<longrightarrow> gr_status g = Consumed)
      | _ \<Rightarrow> False)"

definition authority_inv :: "access_grant \<times> authorization_lease list \<Rightarrow> bool" where
  "authority_inv a \<longleftrightarrow> (case a of (g, ls) \<Rightarrow>
     (\<forall>l \<in> set ls. lease_within_grant l g) \<and> one_shot_inv g ls)"

lemma lease_within_grant_scope:
  "lease_within_grant l g \<Longrightarrow> grant_scope g' = grant_scope g \<Longrightarrow> lease_within_grant l g'"
  by (simp add: lease_within_grant_def grant_scope_def)

lemma one_shot_inv_cases:
  assumes "one_shot_inv g ls" and "gr_kind g = OneShot"
  obtains "ls = []"
  | l where "ls = [l]" and "gr_issued_lease_id g = Some (le_lease_id l)"
      and "le_consumed_at l \<noteq> None \<longrightarrow> gr_status g = Consumed"
  using assms by (cases ls; cases "tl ls") (auto simp: one_shot_inv_def)

lemma authority_inv_decide:
  assumes t: "grant_transition g e now = Inr g'" and inv: "authority_inv (g, ls)"
  shows "authority_inv (g', ls)"
proof -
  have sc: "grant_scope g' = grant_scope g"
    using t by (rule grant_transition_scope)
  have live: "gr_status g \<noteq> Consumed"
    using t by (auto simp: grant_transition_Inr grant_is_terminal_def status_is_terminal_def)
  have "one_shot_inv g ls" using inv by (simp add: authority_inv_def)
  then have "one_shot_inv g' ls"
    using sc live by (auto simp: one_shot_inv_def grant_scope_def split: list.splits)
  then show ?thesis
    using inv lease_within_grant_scope [OF _ sc] by (auto simp: authority_inv_def)
qed

lemma authority_inv_issue:
  assumes t: "issue_lease lid g rq now = Inr (g', l)" and inv: "authority_inv (g, ls)"
  shows "authority_inv (g', ls @ [l])"
proof -
  from t have l: "lease_issued_for lid g rq now = Inr l"
    and g': "g' = g\<lparr>gr_issued_lease_id := Some lid\<rparr>"
    by (auto simp: issue_lease_Inr)
  have within: "lease_within_grant x g \<Longrightarrow> lease_within_grant x g'" for x
    by (simp add: g' lease_within_grant_def)
  have new: "lease_within_grant l g" "le_lease_id l = lid" "le_consumed_at l = None"
    using l by (auto simp: lease_issued_for_Inr lease_within_grant_def)
  have "one_shot_inv g' (ls @ [l])"
  proof (cases "gr_kind g = OneShot")
    case True
    have none: "gr_issued_lease_id g = None"
      using l True by (simp add: lease_issued_for_Inr may_issue_another_lease_def)
    from inv have "one_shot_inv g ls" by (simp add: authority_inv_def)
    then have "ls = []"
      using True none by (auto elim: one_shot_inv_cases)
    then show ?thesis using new by (simp add: g' one_shot_inv_def)
  next
    case False
    then show ?thesis by (simp add: g' one_shot_inv_def)
  qed
  then show ?thesis
    using inv within new(1) by (auto simp: authority_inv_def)
qed

lemma authority_inv_spend:
  assumes i: "i < length ls" and t: "consume_lease g (ls ! i) op now = Inr (g', l')"
    and inv: "authority_inv (g, ls)"
  shows "authority_inv (g', ls[i := l'])"
proof -
  let ?l = "ls ! i"
  have l': "l' = ?l\<lparr>le_consumed_at := Some now, le_consumed_by_operation := Some op\<rparr>"
    using t by (simp add: consume_lease_Inr lease_consumed_by_Inr)
  have g': "if gr_kind g = OneShot
      then gr_issued_lease_id g = Some (le_lease_id ?l) \<and> g' = g\<lparr>gr_consumed_at := Some now, gr_status := Consumed\<rparr>
      else g' = g"
    using t by (auto simp: consume_lease_Inr consume_lease_transition split: if_splits)
  have sc: "grant_scope g' = grant_scope g"
    using g' by (auto simp: grant_scope_def split: if_splits)
  have "lease_within_grant ?l g"
    using inv i by (auto simp: authority_inv_def)
  then have "lease_within_grant l' g"
    by (simp add: l' lease_within_grant_def)
  then have "\<forall>x \<in> set (ls[i := l']). lease_within_grant x g'"
    using inv lease_within_grant_scope [OF _ sc] set_update_subset_insert [of ls i l']
    by (auto simp: authority_inv_def)
  moreover have "one_shot_inv g' (ls[i := l'])"
  proof (cases "gr_kind g = OneShot")
    case True
    then have "one_shot_inv g ls" and "g' = g\<lparr>gr_consumed_at := Some now, gr_status := Consumed\<rparr>"
      using inv g' by (auto simp: authority_inv_def)
    with True i show ?thesis
      by (cases ls; cases "tl ls") (auto simp: one_shot_inv_def l')
  next
    case False
    then show ?thesis using g' by (simp add: one_shot_inv_def)
  qed
  ultimately show ?thesis by (simp add: authority_inv_def)
qed

lemma authority_reachable_inv: "authority_reachable a \<Longrightarrow> authority_inv a"
proof (induction rule: authority_reachable.induct)
  case (requested gid rq now)
  then show ?case by (simp add: authority_inv_def one_shot_inv_def)
next
  case (step a b)
  obtain g ls where a: "a = (g, ls)" by (cases a)
  from step.hyps(2) step.IH show ?case
    unfolding a
    by (elim authority_step_elim)
      (auto intro: authority_inv_decide authority_inv_issue authority_inv_spend)
qed

section \<open>From the session machine to the grant machine\<close>

text \<open>
  The two machines agree on what they share. \<open>same_authority\<close> compares the fields that carry authority
  and leaves out provenance (revocation and consumption timestamps and reasons, migration notes),
  which the legacy row never recorded.
\<close>

definition same_authority :: "access_grant \<Rightarrow> access_grant \<Rightarrow> bool" where
  "same_authority g h \<longleftrightarrow>
     grant_scope g = grant_scope h \<and> gr_status g = gr_status h \<and> gr_approved_at g = gr_approved_at h
     \<and> gr_risk_policy_version g = gr_risk_policy_version h \<and> gr_approval_policy g = gr_approval_policy h"

text \<open>The authorization event a session event stands for, with the clock check included.\<close>

definition grant_event_of :: "session_event \<Rightarrow> authorization_event option" where
  "grant_event_of e = (if e = ECheckExpiry then Some CheckExpiry else authorization_event_for e)"

lemma same_authority_legacy:
  "same_authority g (legacy_grant put s st) \<longleftrightarrow>
     grant_scope g = (grant_id_of_session (ses_session_id s), ses_session_id s, ses_device_id s,
       principal_unverified (ses_remote_principal s), ses_workspace_ids s, ses_capability_profile s,
       ses_effective_capabilities s, ses_task_scope s, Standing, ses_issued_at s, ses_expires_at s, None)
     \<and> gr_status g = st \<and> gr_approved_at g = ses_approved_at s
     \<and> gr_risk_policy_version g = ses_risk_policy_version s
     \<and> gr_approval_policy g = ses_approval_policy s"
  by (simp add: same_authority_def grant_scope_def legacy_grant_def)

lemma authority_carrying_steps:
  assumes "legacy_status a = Some st" and "session_next_status a e now ex = Some b"
  shows "(a = SPendingApproval \<and> e = EApprove \<and> b = SActive)
    \<or> (\<exists>r. a = SPendingApproval \<and> e = EDeny r \<and> b = SRevoked)
    \<or> (a = SActive \<and> e = EPause \<and> b = SSuspended)
    \<or> (a = SSuspended \<and> e = EResume \<and> b = SActive)
    \<or> (a = SActive \<and> e = ECheckExpiry \<and> b = (if now \<ge> ex then SExpired else SActive))"
  using assms by (cases a; cases e) simp_all

lemma session_step_simulated:
  assumes st: "legacy_status (ses_status s) = Some st"
    and t: "session_transition s e now = Inr s'"
  shows "\<exists>ae g' st'. grant_event_of e = Some ae
    \<and> grant_transition (legacy_grant put s st) ae now = Inr g'
    \<and> legacy_status (ses_status s') = Some st' \<and> same_authority g' (legacy_grant put s' st')"
proof -
  have live: "\<not> grant_is_terminal (legacy_grant put s st)"
    using t st by (cases "ses_status s")
      (auto simp: session_transition_Inr session_is_terminal_def grant_is_terminal_def status_is_terminal_def)
  note machine = grant_event_of_def grant_transition_def grant_next_status_def
    grant_record_event_def same_authority_legacy grant_scope_def
  show ?thesis
  proof (cases "e = ERevoke")
    case True
    then show ?thesis using t live by (auto simp: session_transition_Inr machine)
  next
    case False
    with t obtain b where b: "session_next_status (ses_status s) e now (ses_expires_at s) = Some b"
      and s': "s' = (if e = EApprove then s\<lparr>ses_approved_at := Some now, ses_status := b\<rparr>
                     else s\<lparr>ses_status := b\<rparr>)"
      by (auto simp: session_transition_Inr)
    from authority_carrying_steps [OF st b] show ?thesis
      using st by (elim disjE conjE exE)
        (simp_all add: s' machine grant_is_terminal_def status_is_terminal_def)
  qed
qed

section \<open>Properties\<close>

text \<open>
  C14: Authority never widens and never comes back. Under any sequence of authorization events at any
  instants, a grant keeps its id, subject, device, principal, workspaces, capabilities, task, kind and
  deadline; and once it is expired, revoked or consumed no sequence of events changes it at all.
\<close>

theorem grant_scope_is_immutable_and_terminal_is_final:
  "grant_scope (apply_events grant_transition g es) = grant_scope g
   \<and> (grant_is_terminal g \<longrightarrow> apply_events grant_transition g es = g)"
  using grant_life.scope_forever grant_life.terminal_forever by blast

theorem grant_scope_is_immutable_and_terminal_is_final_witness:
  "apply_events grant_transition ((sample_active Standing)\<lparr>gr_status := Revoked\<rparr>)
     [(Resume, 3), (Approve, 4)] = (sample_active Standing)\<lparr>gr_status := Revoked\<rparr>"
  using grant_scope_is_immutable_and_terminal_is_final
      [of "(sample_active Standing)\<lparr>gr_status := Revoked\<rparr>" "[(Resume, 3), (Approve, 4)]"]
  by (simp add: grant_is_terminal_def status_is_terminal_def)

text \<open>
  C15: No authority without a local approval. If a freshly recorded request, driven by any sequence of
  events, is ever usable, then a local \<open>Approve\<close> is among those events, and the instant is before the
  deadline fixed when the request was recorded.
\<close>

theorem usable_grant_was_locally_approved:
  assumes "grant_is_usable_at (apply_events grant_transition (grant_requested gid rq now) es) t"
  shows "Approve \<in> fst ` set es \<and> t < now + rq_lifetime rq"
proof -
  have approved: "gr_status g = PendingApproval \<or> grant_is_terminal g \<Longrightarrow>
      gr_status (apply_events grant_transition g es) = Active \<Longrightarrow> Approve \<in> fst ` set es" for g
  proof (induction es arbitrary: g)
    case Nil
    then show ?case by (auto simp: grant_is_terminal_def status_is_terminal_def)
  next
    case (Cons et es)
    obtain e u where et: "et = (e, u)" by (cases et)
    show ?case
    proof (cases "e = Approve")
      case False
      let ?g' = "case grant_transition g e u of Inl _ \<Rightarrow> g | Inr g' \<Rightarrow> g'"
      from Cons.prems(1) False have "gr_status ?g' = PendingApproval \<or> grant_is_terminal ?g'"
        by (cases e; cases "gr_status g")
          (auto simp: grant_transition_def grant_next_status_def grant_is_terminal_def
            status_is_terminal_def)
      with Cons.IH Cons.prems(2) et have "Approve \<in> fst ` set es" by simp
      then show ?thesis by simp
    qed (simp add: et)
  qed
  let ?g = "apply_events grant_transition (grant_requested gid rq now) es"
  have "gr_expires_at ?g = now + rq_lifetime rq"
    using grant_life.scope_forever [of "grant_requested gid rq now" es]
    by (simp add: grant_scope_def grant_requested_def)
  with assms approved [of "grant_requested gid rq now"] show ?thesis
    by (simp add: usable_conv grant_requested_def)
qed

theorem usable_grant_was_locally_approved_witness:
  "grant_is_usable_at
     (apply_events grant_transition (grant_requested (GrantId 1) (sample_request Standing) 0)
        [(Approve, 1), (Suspend, 2), (Resume, 3)]) 99
   \<and> Approve \<in> fst ` set [(Approve, 1::instant), (Suspend, 2), (Resume, 3)]"
proof -
  have u: "grant_is_usable_at
     (apply_events grant_transition (grant_requested (GrantId 1) (sample_request Standing) 0)
        [(Approve, 1), (Suspend, 2), (Resume, 3)]) 99"
    by (simp add: usable_conv sample_defs grant_transition_def grant_next_status_def
        grant_record_event_def grant_is_terminal_def status_is_terminal_def)
  with usable_grant_was_locally_approved [OF u] show ?thesis by blast
qed

text \<open>
  Revocation is authoritative. After a successful revoke, whatever events follow, the grant issues
  no lease and none of its leases can be spent, at any later instant.
\<close>

theorem revoked_grant_issues_and_spends_nothing:
  assumes "grant_transition g (Revoke reason) now = Inr g'"
  shows "(\<exists>err. issue_lease lid (apply_events grant_transition g' es) rq t = Inl err)
    \<and> (\<exists>err. consume_lease (apply_events grant_transition g' es) l op t = Inl err)"
proof -
  have "gr_status g' = Revoked" "grant_is_terminal g'"
    using assms by (auto simp: grant_transition_Inr grant_is_terminal_def status_is_terminal_def)
  then have dead: "\<not> grant_is_usable_at (apply_events grant_transition g' es) t"
    by (simp add: grant_life.terminal_forever usable_conv)
  have "\<exists>err. issue_lease lid (apply_events grant_transition g' es) rq t = Inl err"
    using dead by (auto simp: issue_lease_def lease_issued_for_def)
  moreover have "\<exists>err. consume_lease (apply_events grant_transition g' es) l op t = Inl err"
    using dead by (auto simp: consume_lease_def lease_validate_against_def)
  ultimately show ?thesis by blast
qed

theorem revoked_grant_issues_and_spends_nothing_witness:
  "\<exists>g' err. grant_transition (sample_active Standing) (Revoke None) 5 = Inr g'
     \<and> issue_lease (LeaseId 2) (apply_events grant_transition g' [(Resume, 6)]) sample_lease_request 7 = Inl err"
proof -
  have r: "grant_transition (sample_active Standing) (Revoke None) 5
      = Inr ((sample_active Standing)\<lparr>gr_status := Revoked, gr_revoked_at := Some 5,
               gr_revocation_reason := None\<rparr>)"
    by (simp add: grant_transition_def grant_is_terminal_def status_is_terminal_def sample_defs)
  from revoked_grant_issues_and_spends_nothing [OF r, of "LeaseId 2" "[(Resume, 6)]"
      sample_lease_request 7] r
  show ?thesis by blast
qed

text \<open>
  A one-shot grant authorises at most one operation. In every state reachable by deciding, issuing
  and spending in any order, a one-shot grant has cut at most one lease, at most one lease is spent,
  and once it is spent the grant is consumed.
\<close>

theorem one_shot_grant_spends_at_most_once:
  assumes "authority_reachable (g, ls)" and "gr_kind g = OneShot"
  shows "length ls \<le> 1 \<and> length (filter (\<lambda>l. le_consumed_at l \<noteq> None) ls) \<le> 1
    \<and> ((\<exists>l \<in> set ls. le_consumed_at l \<noteq> None) \<longrightarrow> gr_status g = Consumed)"
proof -
  from assms(1) have "one_shot_inv g ls"
    using authority_reachable_inv by (fastforce simp: authority_inv_def)
  then show ?thesis using assms(2) by (rule one_shot_inv_cases) auto
qed

theorem one_shot_grant_spends_at_most_once_witness:
  "\<exists>g ls. authority_reachable (g, ls) \<and> gr_kind g = OneShot \<and> ls \<noteq> []
     \<and> (\<forall>l \<in> set ls. le_consumed_at l \<noteq> None) \<and> gr_status g = Consumed \<and> length ls \<le> 1"
proof -
  let ?g1 = "sample_active OneShot"
  obtain l where l: "lease_issued_for (LeaseId 5) ?g1 sample_lease_request 10 = Inr l"
    and lid: "le_lease_id l = LeaseId 5"
    by (simp add: lease_issued_for_Inr sample_defs usable_conv may_issue_another_lease_def
        design_capabilities_def)
  let ?g2 = "?g1\<lparr>gr_issued_lease_id := Some (LeaseId 5)\<rparr>"
  let ?g3 = "?g2\<lparr>gr_consumed_at := Some 11, gr_status := Consumed\<rparr>"
  let ?l' = "l\<lparr>le_consumed_at := Some 11, le_consumed_by_operation := Some (OperationId 9)\<rparr>"
  have "authority_reachable (sample_pending OneShot, [])"
    unfolding sample_pending_def by (rule authority_reachable.requested)
  moreover have "authority_step (sample_pending OneShot, []) (?g1, [])"
    by (rule authority_step.decide [where e = Approve and now = 1])
      (simp add: sample_defs grant_transition_def grant_next_status_def grant_record_event_def
        grant_is_terminal_def status_is_terminal_def)
  moreover have "authority_step (?g1, []) (?g2, [] @ [l])"
    by (rule authority_step.issue [where lid = "LeaseId 5" and rq = sample_lease_request and now = 10]) (simp add: issue_lease_Inr l)
  moreover have "authority_step (?g2, [l]) (?g3, [l][0 := ?l'])"
  proof (rule authority_step.spend [where op = "OperationId 9" and now = 11])
    from l show "consume_lease ?g2 ([l] ! 0) (OperationId 9) 11 = Inr (?g3, ?l')"
      by (auto simp: consume_lease_Inr lease_issued_for_Inr lease_validate_against_Inr
          lease_consumed_by_Inr consume_lease_transition lease_is_valid_at_def usable_conv
          sample_defs)
  qed simp
  ultimately have r: "authority_reachable (?g3, [?l'])"
    by (simp, blast intro: authority_reachable.step)
  moreover have "gr_kind ?g3 = OneShot" by (simp add: sample_defs)
  ultimately show ?thesis
    using one_shot_grant_spends_at_most_once [OF r] by force
qed

text \<open>
  Every lease in circulation stays inside its grant: in every reachable state of a grant and its
  leases, each lease names that grant, device, principal and task, and its workspaces, capabilities
  and deadline do not exceed the grant's.
\<close>

theorem reachable_leases_stay_within_grant:
  assumes "authority_reachable (g, ls)" and "l \<in> set ls"
  shows "lease_within_grant l g"
  using authority_reachable_inv [OF assms(1)] assms(2) by (auto simp: authority_inv_def)

theorem reachable_leases_stay_within_grant_witness:
  "\<exists>g l. authority_reachable (g, [l]) \<and> lease_within_grant l g"
proof -
  let ?g1 = "sample_active Standing"
  obtain l where l: "lease_issued_for (LeaseId 5) ?g1 sample_lease_request 10 = Inr l"
    by (simp add: lease_issued_for_Inr sample_defs usable_conv may_issue_another_lease_def
        design_capabilities_def)
  have "authority_reachable (sample_pending Standing, [])"
    unfolding sample_pending_def by (rule authority_reachable.requested)
  moreover have "authority_step (sample_pending Standing, []) (?g1, [])"
    by (rule authority_step.decide [where e = Approve and now = 1])
      (simp add: sample_defs grant_transition_def grant_next_status_def grant_record_event_def
        grant_is_terminal_def status_is_terminal_def)
  moreover have "authority_step (?g1, []) (?g1\<lparr>gr_issued_lease_id := Some (LeaseId 5)\<rparr>, [] @ [l])"
    by (rule authority_step.issue [where lid = "LeaseId 5" and rq = sample_lease_request and now = 10]) (simp add: issue_lease_Inr l)
  ultimately have r: "authority_reachable (?g1\<lparr>gr_issued_lease_id := Some (LeaseId 5)\<rparr>, [l])"
    by (auto intro: authority_reachable.step)
  from reachable_leases_stay_within_grant [OF r] r show ?thesis by auto
qed

text \<open>
  C16: The grant machine refines the session machine. For a session row that carries authority, every
  step the transport-era machine takes is matched by the grant machine on the mapped grant, and the
  mapped grants agree on every field that carries authority; in particular events that only concern
  the pipe are never applicable to such a row.
\<close>

theorem grant_machine_simulates_session_machine:
  assumes "session_reachable s" and "grant_from_legacy_session put s = Inr (Some g)"
    and "session_transition s e now = Inr s'"
  shows "\<exists>ae g' h. grant_event_of e = Some ae \<and> grant_transition g ae now = Inr g'
    \<and> grant_from_legacy_session put s' = Inr (Some h) \<and> same_authority g' h"
proof -
  from assms(2) obtain st where st: "legacy_status (ses_status s) = Some st"
    and g: "g = legacy_grant put s st" and ws: "ses_workspace_ids s \<noteq> {||}"
    and lt: "ses_issued_at s < ses_expires_at s"
    by (auto simp: grant_from_legacy_session_Some)
  from session_step_simulated [OF st assms(3)] obtain ae g' st'
    where step: "grant_event_of e = Some ae" "grant_transition g ae now = Inr g'"
      and st': "legacy_status (ses_status s') = Some st'"
      and same: "same_authority g' (legacy_grant put s' st')"
    unfolding g by blast
  have sc: "session_scope s' = session_scope s"
    using assms(3) by (rule session_life.scope_step)
  have "session_reachable s'"
    using assms(1,3) by (rule session_reachable.event)
  then have "st' = Active \<longrightarrow> ses_approved_at s' \<noteq> None"
    using session_reachable_approved st' by auto
  then have "grant_from_legacy_session put s' = Inr (Some (legacy_grant put s' st'))"
    using st' sc ws lt by (auto simp: grant_from_legacy_session_Some session_scope_def)
  with step same show ?thesis by blast
qed

theorem grant_machine_simulates_session_machine_witness:
  "\<exists>s' g'. session_transition (new_unpaired_session (SessionId 7) (DeviceId 1) ''a'' {|WorkspaceId 1|}
        Inspect ''t'' 100 0\<lparr>ses_status := SPendingApproval\<rparr>) EApprove 5 = Inr s'
     \<and> grant_transition (legacy_grant (\<lambda>_. []) (new_unpaired_session (SessionId 7) (DeviceId 1) ''a''
        {|WorkspaceId 1|} Inspect ''t'' 100 0\<lparr>ses_status := SPendingApproval\<rparr>) PendingApproval) Approve 5
        = Inr g'
     \<and> gr_status g' = Active"
proof -
  let ?fresh = "new_unpaired_session (SessionId 7) (DeviceId 1) ''a'' {|WorkspaceId 1|} Inspect ''t'' 100 0"
  let ?s = "?fresh\<lparr>ses_status := SPendingApproval\<rparr>"
  let ?s' = "?s\<lparr>ses_approved_at := Some 5, ses_status := SActive\<rparr>"
  let ?g = "legacy_grant (\<lambda>_. []) ?s PendingApproval"
  have steps: "session_transition ?fresh EPair 0 = Inr (?fresh\<lparr>ses_status := SPaired\<rparr>)"
    "session_transition (?fresh\<lparr>ses_status := SPaired\<rparr>) ETransportConnected 0 = Inr (?fresh\<lparr>ses_status := SConnected\<rparr>)"
    "session_transition (?fresh\<lparr>ses_status := SConnected\<rparr>) ERequestAccess 0 = Inr ?s"
    by (simp_all add: session_transition_def session_is_terminal_def new_unpaired_session_def)
  have r: "session_reachable ?s"
    by (rule session_reachable.event [OF session_reachable.event [OF session_reachable.event
          [OF session_reachable.fresh steps(1)] steps(2)] steps(3)])
  have m: "grant_from_legacy_session (\<lambda>_. []) ?s = Inr (Some ?g)"
    by (simp add: grant_from_legacy_session_def new_unpaired_session_def)
  have t: "session_transition ?s EApprove 5 = Inr ?s'"
    by (simp add: session_transition_def session_is_terminal_def new_unpaired_session_def)
  from grant_machine_simulates_session_machine [OF r m t] obtain g' h
    where "grant_transition ?g Approve 5 = Inr g'"
      and "grant_from_legacy_session (\<lambda>_. []) ?s' = Inr (Some h)" and "same_authority g' h"
    by (auto simp: grant_event_of_def)
  moreover from this have "gr_status g' = Active"
    by (auto simp: grant_from_legacy_session_Some same_authority_legacy new_unpaired_session_def)
  ultimately show ?thesis using t by blast
qed

end
