(* ===== verification/Gateway_Stores.thy ===== *)
theory Gateway_Stores
  imports Gateway_Grants
begin

text \<open>
  Persistence of sessions, grants and leases: \<^verbatim>\<open>src/crates/sessions/src/repository.rs\<close>,
  \<^verbatim>\<open>src/crates/sessions/src/authorization_repository.rs\<close>, and the start-up migration
  \<^verbatim>\<open>src/crates/sessions/src/migration.rs\<close>.

  A table is the list of its rows in insertion order. A row holds the values that the code writes to
  its columns; the text encodings (\<open>serde_json\<close>, RFC 3339, ULID text) are third-party code that is
  not modelled beyond what queries observe of it: \<open>ORDER BY issued_at\<close> compares the RFC 3339 text, so
  the queries take \<open>stamp\<close>, the printer of instants, and \<open>put\<close>, the printer of ULIDs. The integer
  column \<open>risk_policy_version\<close> keeps its 64-bit value, because the readers treat a negative one
  differently. Every call takes the storage fault it meets, \<open>Some message\<close>, which makes it fail
  without changing the table.
\<close>

section \<open>Sessions\<close>

record session_row =
  sr_session :: session
  sr_risk_policy_version :: int

definition session_to_row :: "session \<Rightarrow> session_row" where
  "session_to_row s = \<lparr>sr_session = s, sr_risk_policy_version = uint (ses_risk_policy_version s)\<rparr>"

text \<open>\<open>risk_policy_version as u32\<close> keeps the low 32 bits.\<close>

definition session_of_row :: "session_row \<Rightarrow> session" where
  "session_of_row r = (sr_session r)\<lparr>ses_risk_policy_version := word_of_int (sr_risk_policy_version r)\<rparr>"

definition session_key :: "session_row \<Rightarrow> session_id" where
  "session_key r = ses_session_id (sr_session r)"

definition merge_session :: "session_row \<Rightarrow> session_row \<Rightarrow> session_row" where
  "merge_session stored new =
     new\<lparr>sr_session := (sr_session new)\<lparr>ses_session_id := ses_session_id (sr_session stored),
        ses_device_id := ses_device_id (sr_session stored),
        ses_issued_at := ses_issued_at (sr_session stored)\<rparr>\<rparr>"

type_synonym session_table = "session_row list"

definition session_save ::
  "string option \<Rightarrow> session \<Rightarrow> session_table \<Rightarrow> (session_error + unit) \<times> session_table" where
  "session_save io s rows =
     (case io of
        Some msg \<Rightarrow> (Inl (SessionStorage msg), rows)
      | None \<Rightarrow> (Inr (), upsert session_key merge_session (session_to_row s) rows))"

definition session_load ::
  "string option \<Rightarrow> session_id \<Rightarrow> session_table \<Rightarrow> session_error + session option" where
  "session_load io sid rows =
     (case io of
        Some msg \<Rightarrow> Inl (SessionStorage msg)
      | None \<Rightarrow> Inr (map_option session_of_row (table_lookup session_key sid rows)))"

definition session_list_active :: "string option \<Rightarrow> session_table \<Rightarrow> session_error + session list" where
  "session_list_active io rows =
     (case io of
        Some msg \<Rightarrow> Inl (SessionStorage msg)
      | None \<Rightarrow> Inr (map session_of_row (filter (\<lambda>r. ses_status (sr_session r) = SActive) rows)))"

definition session_list_all :: "string option \<Rightarrow> session_table \<Rightarrow> session_error + session list" where
  "session_list_all io rows =
     (case io of
        Some msg \<Rightarrow> Inl (SessionStorage msg)
      | None \<Rightarrow> Inr (map session_of_row rows))"

section \<open>Grants and leases\<close>

record grant_row =
  rg_grant :: access_grant
  rg_risk_policy_version :: int

record authorization_store =
  as_grants :: "grant_row list"
  as_leases :: "authorization_lease list"

definition grant_to_row :: "access_grant \<Rightarrow> grant_row" where
  "grant_to_row g = \<lparr>rg_grant = g, rg_risk_policy_version = uint (gr_risk_policy_version g)\<rparr>"

definition grant_key :: "grant_row \<Rightarrow> grant_id" where
  "grant_key r = gr_grant_id (rg_grant r)"

text \<open>Every column but the id, the issue time and the migration source is updated.\<close>

definition merge_grant :: "grant_row \<Rightarrow> grant_row \<Rightarrow> grant_row" where
  "merge_grant stored new =
     new\<lparr>rg_grant := (rg_grant new)\<lparr>gr_grant_id := gr_grant_id (rg_grant stored),
        gr_issued_at := gr_issued_at (rg_grant stored),
        gr_migrated_from_session_id := gr_migrated_from_session_id (rg_grant stored)\<rparr>\<rparr>"

definition merge_lease :: "authorization_lease \<Rightarrow> authorization_lease \<Rightarrow> authorization_lease" where
  "merge_lease stored new =
     stored\<lparr>le_expires_at := le_expires_at new, le_consumed_at := le_consumed_at new,
        le_consumed_by_operation := le_consumed_by_operation new\<rparr>"

definition parse_principal :: "authorization_principal \<Rightarrow> grant_error + authorization_principal" where
  "parse_principal p =
     (case (pr_assurance p, pr_verified p) of
        (Unverified, None) \<Rightarrow> Inr (principal_unverified (pr_name p))
      | (Verified, Some v) \<Rightarrow>
          if \<not> has_required_binding_fields v
          then Inl (GrantStorage ''verified principal row has empty mandatory identity/binding fields'')
          else Inr (principal_verified (pr_name p) v)
      | (Unverified, Some _) \<Rightarrow>
          Inl (GrantStorage ''unverified principal row unexpectedly contains verified metadata'')
      | (Verified, None) \<Rightarrow>
          Inl (GrantStorage ''verified principal row is missing verified metadata''))"

definition parse_grant :: "grant_row \<Rightarrow> grant_error + access_grant" where
  "parse_grant r =
     (if \<not> (0 \<le> rg_risk_policy_version r \<and> rg_risk_policy_version r < 2 ^ 32)
      then Inl (GrantStorage ''negative risk policy version'')
      else rbind (parse_principal (gr_principal (rg_grant r))) (\<lambda>p.
        Inr ((rg_grant r)\<lparr>gr_principal := p,
               gr_risk_policy_version := word_of_int (rg_risk_policy_version r)\<rparr>)))"

definition parse_lease :: "authorization_lease \<Rightarrow> grant_error + authorization_lease" where
  "parse_lease l = rbind (parse_principal (le_principal l)) (\<lambda>p. Inr (l\<lparr>le_principal := p\<rparr>))"

definition with_io :: "string option \<Rightarrow> grant_error + 'a \<Rightarrow> grant_error + 'a" where
  "with_io io r = (case io of Some msg \<Rightarrow> Inl (GrantStorage msg) | None \<Rightarrow> r)"

text \<open>\<open>migrated_from_session_id\<close> is \<open>UNIQUE\<close>; \<open>NULL\<close> values do not collide.\<close>

definition migration_source_taken :: "access_grant \<Rightarrow> grant_row list \<Rightarrow> bool" where
  "migration_source_taken g rows \<longleftrightarrow> gr_migrated_from_session_id g \<noteq> None
     \<and> list_ex (\<lambda>r. gr_migrated_from_session_id (rg_grant r) = gr_migrated_from_session_id g) rows"

definition save_grant ::
  "string option \<Rightarrow> access_grant \<Rightarrow> grant_row list \<Rightarrow> (grant_error + unit) \<times> grant_row list" where
  "save_grant io g rows =
     (case io of
        Some msg \<Rightarrow> (Inl (GrantStorage msg), rows)
      | None \<Rightarrow>
          if table_lookup grant_key (gr_grant_id g) rows = None \<and> migration_source_taken g rows
          then (Inl (GrantStorage ''UNIQUE constraint failed: access_grants.migrated_from_session_id''), rows)
          else (Inr (), upsert grant_key merge_grant (grant_to_row g) rows))"

definition load_grant ::
  "string option \<Rightarrow> grant_id \<Rightarrow> grant_row list \<Rightarrow> grant_error + access_grant option" where
  "load_grant io gid rows = with_io io (map_transpose parse_grant (table_lookup grant_key gid rows))"

text \<open>The sort key of \<open>ORDER BY issued_at, grant_id\<close>: both columns are text.\<close>

definition grant_sort_key :: "(instant \<Rightarrow> string) \<Rightarrow> (ulid \<Rightarrow> string) \<Rightarrow> grant_row \<Rightarrow> string \<times> string" where
  "grant_sort_key stamp put r =
     (stamp (gr_issued_at (rg_grant r)), id_display put ''grant'' (grant_ulid (gr_grant_id (rg_grant r))))"

definition load_grant_for_subject ::
  "(instant \<Rightarrow> string) \<Rightarrow> (ulid \<Rightarrow> string) \<Rightarrow> string option \<Rightarrow> session_id \<Rightarrow> grant_row list
   \<Rightarrow> grant_error + access_grant option" where
  "load_grant_for_subject stamp put io sid rows =
     with_io io
       (case rev (order_by (grant_sort_key stamp put)
            (filter (\<lambda>r. gr_subject_session_id (rg_grant r) = sid) rows)) of
          [] \<Rightarrow> Inr None
        | r # _ \<Rightarrow> rbind (parse_grant r) (\<lambda>g. Inr (Some g)))"

definition status_is_live :: "authorization_status \<Rightarrow> bool" where
  "status_is_live st \<longleftrightarrow> st \<in> {PendingApproval, Active, Suspended}"

definition list_live_grants_for_subject ::
  "(instant \<Rightarrow> string) \<Rightarrow> (ulid \<Rightarrow> string) \<Rightarrow> string option \<Rightarrow> session_id \<Rightarrow> grant_row list
   \<Rightarrow> grant_error + access_grant list" where
  "list_live_grants_for_subject stamp put io sid rows =
     with_io io (collect_results parse_grant
       (order_by (grant_sort_key stamp put)
         (filter (\<lambda>r. gr_subject_session_id (rg_grant r) = sid \<and> status_is_live (gr_status (rg_grant r))) rows)))"

definition same_request :: "access_grant \<Rightarrow> access_grant \<Rightarrow> bool" where
  "same_request g rq \<longleftrightarrow> gr_principal g = gr_principal rq \<and> gr_task_scope g = gr_task_scope rq
     \<and> gr_workspace_ids g = gr_workspace_ids rq \<and> gr_capability_profile g = gr_capability_profile rq"

fun first_same_request :: "access_grant \<Rightarrow> grant_row list \<Rightarrow> grant_error + access_grant option" where
  "first_same_request rq [] = Inr None"
| "first_same_request rq (r # rows) =
     rbind (parse_grant r) (\<lambda>g. if same_request g rq then Inr (Some g) else first_same_request rq rows)"

definition find_live_request ::
  "(instant \<Rightarrow> string) \<Rightarrow> (ulid \<Rightarrow> string) \<Rightarrow> string option \<Rightarrow> access_grant \<Rightarrow> grant_row list
   \<Rightarrow> grant_error + access_grant option" where
  "find_live_request stamp put io rq rows =
     with_io io (first_same_request rq
       (order_by (grant_sort_key stamp put)
         (filter (\<lambda>r. gr_device_id (rg_grant r) = gr_device_id rq \<and> status_is_live (gr_status (rg_grant r))) rows)))"

definition list_all_grants :: "string option \<Rightarrow> grant_row list \<Rightarrow> grant_error + access_grant list" where
  "list_all_grants io rows = with_io io (collect_results parse_grant rows)"

definition save_lease ::
  "string option \<Rightarrow> authorization_lease \<Rightarrow> authorization_lease list
   \<Rightarrow> (grant_error + unit) \<times> authorization_lease list" where
  "save_lease io l rows =
     (case io of
        Some msg \<Rightarrow> (Inl (GrantStorage msg), rows)
      | None \<Rightarrow> (Inr (), upsert le_lease_id merge_lease l rows))"

definition load_lease ::
  "string option \<Rightarrow> lease_id \<Rightarrow> authorization_lease list \<Rightarrow> grant_error + authorization_lease option" where
  "load_lease io lid rows = with_io io (map_transpose parse_lease (table_lookup le_lease_id lid rows))"

definition list_leases_for_grant ::
  "(instant \<Rightarrow> string) \<Rightarrow> string option \<Rightarrow> grant_id \<Rightarrow> authorization_lease list
   \<Rightarrow> grant_error + authorization_lease list" where
  "list_leases_for_grant stamp io gid rows =
     with_io io (collect_results parse_lease
       (order_by (\<lambda>l. (stamp (le_issued_at l), [])) (filter (\<lambda>l. le_grant_id l = gid) rows)))"

section \<open>Start-up migration\<close>

record migration_report =
  mr_grants_written :: nat
  mr_grants_already_present :: nat
  mr_rows_without_authority :: nat
  mr_refused :: "(session_id \<times> legacy_session_mapping_error) list"

definition without_authority :: "migration_report \<Rightarrow> nat" where
  "without_authority r = mr_rows_without_authority r + length (mr_refused r)"

text \<open>
  \<open>io_load\<close> and \<open>io_save\<close> give the fault that reading, respectively writing, the grant of a row meets.
  An error ends the pass; the grants already written stay written.
\<close>

fun migrate_rows ::
  "(ulid \<Rightarrow> string) \<Rightarrow> (session_id \<Rightarrow> string option) \<Rightarrow> (session_id \<Rightarrow> string option)
   \<Rightarrow> session list \<Rightarrow> migration_report \<Rightarrow> grant_row list
   \<Rightarrow> (grant_error + migration_report) \<times> grant_row list" where
  "migrate_rows put io_load io_save [] report rows = (Inr report, rows)"
| "migrate_rows put io_load io_save (s # ss) report rows =
     (case grant_from_legacy_session put s of
        Inr (Some g) \<Rightarrow>
          (case load_grant (io_load (ses_session_id s)) (gr_grant_id g) rows of
             Inl e \<Rightarrow> (Inl e, rows)
           | Inr (Some _) \<Rightarrow>
               migrate_rows put io_load io_save ss
                 (report\<lparr>mr_grants_already_present := mr_grants_already_present report + 1\<rparr>) rows
           | Inr None \<Rightarrow>
               (case save_grant (io_save (ses_session_id s)) g rows of
                  (Inl e, rows') \<Rightarrow> (Inl e, rows')
                | (Inr _, rows') \<Rightarrow>
                    migrate_rows put io_load io_save ss
                      (report\<lparr>mr_grants_written := mr_grants_written report + 1\<rparr>) rows'))
      | Inr None \<Rightarrow>
          migrate_rows put io_load io_save ss
            (report\<lparr>mr_rows_without_authority := mr_rows_without_authority report + 1\<rparr>) rows
      | Inl e \<Rightarrow>
          migrate_rows put io_load io_save ss
            (report\<lparr>mr_refused := mr_refused report @ [(ses_session_id s, e)]\<rparr>) rows)"

definition migrate_legacy_sessions ::
  "(ulid \<Rightarrow> string) \<Rightarrow> string option \<Rightarrow> (session_id \<Rightarrow> string option) \<Rightarrow> (session_id \<Rightarrow> string option)
   \<Rightarrow> session_table \<Rightarrow> grant_row list \<Rightarrow> (grant_error + migration_report) \<times> grant_row list" where
  "migrate_legacy_sessions put io_list io_load io_save sessions rows =
     (case session_list_all io_list sessions of
        Inl e \<Rightarrow> (Inl (SessionFailed e), rows)
      | Inr ss \<Rightarrow>
          migrate_rows put io_load io_save ss
            \<lparr>mr_grants_written = 0, mr_grants_already_present = 0, mr_rows_without_authority = 0,
             mr_refused = []\<rparr> rows)"

section \<open>Lemmas\<close>

lemma merge_session_key [simp]: "session_key (merge_session a b) = session_key a"
  by (simp add: merge_session_def session_key_def)

lemma merge_grant_key [simp]: "grant_key (merge_grant a b) = grant_key a"
  by (simp add: merge_grant_def grant_key_def)

lemma merge_lease_key [simp]: "le_lease_id (merge_lease a b) = le_lease_id a"
  by (simp add: merge_lease_def)

interpretation session_rows: upsert_table session_key merge_session
  by unfold_locales simp

interpretation grant_rows: upsert_table grant_key merge_grant
  by unfold_locales simp

interpretation lease_rows: upsert_table le_lease_id merge_lease
  by unfold_locales simp

lemma session_row_round_trip [simp]: "session_of_row (session_to_row s) = s"
  by (simp add: session_of_row_def session_to_row_def)

text \<open>A principal that the reader accepts, and what it then returns.\<close>

definition principal_ok :: "authorization_principal \<Rightarrow> bool" where
  "principal_ok p \<longleftrightarrow>
     (case pr_assurance p of Unverified \<Rightarrow> pr_verified p = None | Verified \<Rightarrow> principal_is_verified p)"

lemma parse_principal_Inr: "parse_principal p = Inr q \<longleftrightarrow> principal_ok p \<and> q = p"
  by (auto simp: parse_principal_def principal_ok_def principal_is_verified_def principal_unverified_def
      principal_verified_def split: principal_assurance.splits option.splits)

lemma principal_ok_constructors [simp]:
  "principal_ok (principal_unverified n)"
  "principal_ok (principal_verified n v) \<longleftrightarrow> has_required_binding_fields v"
  by (simp_all add: principal_ok_def principal_unverified_def principal_verified_def
      principal_is_verified_def)

lemma parse_grant_Inr:
  "parse_grant r = Inr g \<longleftrightarrow> 0 \<le> rg_risk_policy_version r \<and> rg_risk_policy_version r < 2 ^ 32
     \<and> principal_ok (gr_principal (rg_grant r))
     \<and> g = (rg_grant r)\<lparr>gr_risk_policy_version := word_of_int (rg_risk_policy_version r)\<rparr>"
  by (auto simp: parse_grant_def rbind_Inr_conv parse_principal_Inr)

lemma parse_grant_to_row [simp]:
  "parse_grant (grant_to_row g) = Inr g' \<longleftrightarrow> principal_ok (gr_principal g) \<and> g' = g"
proof -
  have "uint (gr_risk_policy_version g) < 2 ^ 32" using uint_lt2p [of "gr_risk_policy_version g"] by simp
  then show ?thesis by (auto simp: parse_grant_Inr grant_to_row_def)
qed

lemma with_io_Inr: "with_io io r = Inr x \<longleftrightarrow> io = None \<and> r = Inr x"
  by (auto simp: with_io_def split: option.splits)

text \<open>
  A decision replaces a grant by one with the same id, subject, issue time and migration source. Saving
  it makes it the grant the subject is answered with, if the old one was.
\<close>

definition same_record :: "access_grant \<Rightarrow> access_grant \<Rightarrow> bool" where
  "same_record g h \<longleftrightarrow> gr_grant_id g = gr_grant_id h \<and> gr_subject_session_id g = gr_subject_session_id h
     \<and> gr_issued_at g = gr_issued_at h
     \<and> gr_migrated_from_session_id g = gr_migrated_from_session_id h"

lemma merge_same_record:
  assumes "same_record (rg_grant r) h"
  shows "merge_grant r (grant_to_row h) = grant_to_row h"
  using assms by (simp add: merge_grant_def grant_to_row_def same_record_def)

lemma save_grant_Inr:
  "save_grant io g rows = (Inr u, rows') \<Longrightarrow>
     io = None \<and> rows' = upsert grant_key merge_grant (grant_to_row g) rows"
  by (auto simp: save_grant_def split: option.splits if_splits)

lemma save_grant_Inl: "save_grant io g rows = (Inl e, rows') \<Longrightarrow> rows' = rows"
  by (auto simp: save_grant_def split: option.splits if_splits)

lemma load_for_subject_head:
  assumes "load_grant_for_subject stamp put io sid rows = Inr (Some g)"
  obtains r rest where "rev (order_by (grant_sort_key stamp put)
      (filter (\<lambda>r. gr_subject_session_id (rg_grant r) = sid) rows)) = r # rest"
    and "r \<in> set rows" and "gr_subject_session_id g = sid" and "parse_grant r = Inr g" and "io = None"
proof -
  let ?xs = "filter (\<lambda>r. gr_subject_session_id (rg_grant r) = sid) rows"
  from assms obtain r rest where r: "rev (order_by (grant_sort_key stamp put) ?xs) = r # rest"
    and g: "parse_grant r = Inr g" and io: "io = None"
    by (auto simp: load_grant_for_subject_def with_io_Inr rbind_Inr_conv split: list.splits)
  have "r \<in> set (order_by (grant_sort_key stamp put) ?xs)"
    using r by (metis list.set_intros(1) set_rev)
  then have "r \<in> set rows" "gr_subject_session_id (rg_grant r) = sid" by auto
  with r g io show thesis using that by (auto simp: parse_grant_Inr)
qed

lemma subject_after_save:
  assumes "unique_keys grant_key rows"
    and load: "load_grant_for_subject stamp put io sid rows = Inr (Some g)"
    and same: "same_record g h" and ok: "principal_ok (gr_principal h)"
    and saved: "save_grant io' h rows = (Inr u, rows')"
  shows "load_grant_for_subject stamp put None sid rows' = Inr (Some h)"
proof -
  let ?subj = "\<lambda>r. gr_subject_session_id (rg_grant r) = sid"
  let ?k = "grant_sort_key stamp put"
  from load obtain r rest where r: "rev (order_by ?k (filter ?subj rows)) = r # rest"
    and mem: "r \<in> set rows" and sub: "gr_subject_session_id g = sid" and g: "parse_grant r = Inr g"
    by (rule load_for_subject_head)
  have rg: "same_record (rg_grant r) h" using same g by (auto simp: parse_grant_Inr same_record_def)
  have kh: "grant_key (grant_to_row h) = grant_key r" using rg
    by (simp add: grant_key_def grant_to_row_def same_record_def)
  have same_row: "x = r" if "x \<in> set rows" "grant_key x = grant_key r" for x
    using unique_keys_lookup [OF assms(1) that(1)] unique_keys_lookup [OF assms(1) mem] that(2)
    by (metis option.inject)
  have "rows' = map (\<lambda>x. if grant_key x = grant_key (grant_to_row h) then merge_grant x (grant_to_row h) else x) rows"
    using save_grant_Inr [OF saved] upsert_existing [OF assms(1), of "grant_to_row h"] mem kh by auto
  moreover define f where "f = (\<lambda>x. if x = r then grant_to_row h else x)"
  ultimately have rf: "rows' = map f rows"
    using same_row merge_same_record [OF rg] by (auto simp: kh f_def)
  have keep: "?k (f x) = ?k x" for x
    using rg by (auto simp: f_def grant_sort_key_def grant_to_row_def same_record_def)
  have subf: "?subj (f x) \<longleftrightarrow> ?subj x" for x
    using rg by (auto simp: f_def grant_to_row_def same_record_def)
  have "filter ?subj rows' = map f (filter ?subj rows)"
    unfolding rf using subf by (induction rows) auto
  then have "rev (order_by ?k (filter ?subj rows')) = map f (r # rest)"
    using r order_by_map [of ?k f, OF keep] by (simp add: rev_map)
  then show ?thesis
    using ok by (simp add: load_grant_for_subject_def with_io_def f_def rbind_Inr_conv)
qed

lemma save_grant_unique:
  "unique_keys grant_key rows \<Longrightarrow> unique_keys grant_key (snd (save_grant io g rows))"
  by (auto simp: save_grant_def grant_rows.unique_upsert split: option.splits)

lemma load_after_save:
  assumes "save_grant io g rows = (Inr u, rows')" and "principal_ok (gr_principal g)"
    and "gr_grant_id g \<notin> grant_key ` set rows"
  shows "load_grant None (gr_grant_id g) rows' = Inr (Some g)"
proof -
  have k: "grant_key (grant_to_row g) = gr_grant_id g" by (simp add: grant_key_def grant_to_row_def)
  have "table_lookup grant_key (gr_grant_id g) rows = None" using assms(3) by (auto simp: table_lookup_None image_iff)
  with save_grant_Inr [OF assms(1)] have "table_lookup grant_key (gr_grant_id g) rows' = Some (grant_to_row g)"
    by (simp add: grant_rows.lookup_upsert k)
  with assms(2) show ?thesis by (simp add: load_grant_def with_io_def rbind_Inr_conv)
qed

lemma first_same_request_Some:
  "first_same_request rq rows = Inr (Some g) \<Longrightarrow>
     \<exists>r \<in> set rows. parse_grant r = Inr g \<and> same_request g rq"
  by (induction rows) (auto simp: rbind_Inr_conv split: if_splits)

lemma first_same_request_None:
  "first_same_request rq rows = Inr None \<Longrightarrow>
     \<forall>r \<in> set rows. \<exists>g. parse_grant r = Inr g \<and> \<not> same_request g rq"
  by (induction rows) (auto simp: rbind_Inr_conv split: if_splits)

text \<open>A migration pass keeps every grant that was there.\<close>

lemma load_grant_missing:
  "load_grant io gid rows = Inr None \<Longrightarrow> table_lookup grant_key gid rows = None"
  by (cases "table_lookup grant_key gid rows") (auto simp: load_grant_def with_io_Inr rbind_Inr_conv)

lemma save_grant_other:
  assumes "save_grant io g rows = (res, rows')" and "gid \<noteq> gr_grant_id g"
  shows "table_lookup grant_key gid rows' = table_lookup grant_key gid rows"
  using assms
  by (auto simp: save_grant_def grant_rows.lookup_upsert grant_key_def grant_to_row_def
      split: option.splits if_splits)

lemma migrate_rows_Cons_cases:
  obtains (skip) report' where "migrate_rows put io_load io_save (s # ss) report rows =
      migrate_rows put io_load io_save ss report' rows"
      "\<And>g. grant_from_legacy_session put s = Inr (Some g) \<Longrightarrow>
         \<exists>h. load_grant None (gr_grant_id g) rows = Inr (Some h)"
  | (stop) e where "migrate_rows put io_load io_save (s # ss) report rows = (Inl e, rows)"
  | (wrote) g rows' report' where "grant_from_legacy_session put s = Inr (Some g)"
      "table_lookup grant_key (gr_grant_id g) rows = None"
      "save_grant (io_save (ses_session_id s)) g rows = (Inr (), rows')"
      "migrate_rows put io_load io_save (s # ss) report rows =
         migrate_rows put io_load io_save ss report' rows'"
proof -
  consider (none) "grant_from_legacy_session put s = Inr None"
    | (err) e where "grant_from_legacy_session put s = Inl e"
    | (some) g where "grant_from_legacy_session put s = Inr (Some g)"
    by (metis not_Some_eq sumE)
  then show thesis
  proof cases
    case none
    with skip show ?thesis by simp
  next
    case err
    with skip show ?thesis by simp
  next
    case (some g)
    show ?thesis
    proof (cases "load_grant (io_load (ses_session_id s)) (gr_grant_id g) rows")
      case (Inl e)
      with some stop show ?thesis by simp
    next
      case (Inr found)
      show ?thesis
      proof (cases found)
        case (Some h)
        with some Inr have "\<exists>h. load_grant None (gr_grant_id g) rows = Inr (Some h)"
          by (cases "io_load (ses_session_id s)") (auto simp: load_grant_def with_io_def)
        with Some some Inr skip show ?thesis by simp
      next
        case None
        note missing = load_grant_missing [OF Inr [unfolded None]]
        obtain res rows' where save: "save_grant (io_save (ses_session_id s)) g rows = (res, rows')"
          by fastforce
        show ?thesis
        proof (cases res)
          case (Inl e)
          with save have "rows' = rows" by (auto dest: save_grant_Inl)
          with Inl some Inr None save stop \<open>load_grant _ _ _ = Inr found\<close> show ?thesis by simp
        next
          case (Inr u)
          with some None save missing \<open>load_grant _ _ _ = Inr found\<close> wrote show ?thesis by simp
        qed
      qed
    qed
  qed
qed

lemma migrate_rows_keeps:
  assumes "migrate_rows put io_load io_save ss report rows = (res, rows')"
    and "table_lookup grant_key gid rows = Some r"
  shows "table_lookup grant_key gid rows' = Some r"
  using assms
proof (induction ss arbitrary: report rows)
  case (Cons s ss)
  show ?case
  proof (rule migrate_rows_Cons_cases [of put io_load io_save s ss report rows])
    fix g rows1 report1
    assume w: "table_lookup grant_key (gr_grant_id g) rows = None"
      "save_grant (io_save (ses_session_id s)) g rows = (Inr (), rows1)"
      "migrate_rows put io_load io_save (s # ss) report rows = migrate_rows put io_load io_save ss report1 rows1"
    have "table_lookup grant_key gid rows1 = Some r"
      using save_grant_other [OF w(2)] Cons.prems(2) w(1) by (metis option.distinct(1))
    with Cons.IH [of report1 rows1] Cons.prems(1) w(3) show ?thesis by simp
  qed (use Cons in \<open>metis prod.inject\<close>)+
qed simp

lemma load_grant_kept:
  assumes "load_grant None gid rows = Inr (Some h)"
    and "\<And>r. table_lookup grant_key gid rows = Some r \<Longrightarrow> table_lookup grant_key gid rows' = Some r"
  shows "load_grant None gid rows' = Inr (Some h)"
proof -
  from assms(1) obtain r where "table_lookup grant_key gid rows = Some r"
    by (cases "table_lookup grant_key gid rows") (auto simp: load_grant_def with_io_def)
  with assms show ?thesis by (simp add: load_grant_def)
qed

lemma migrate_rows_covers:
  assumes "migrate_rows put io_load io_save ss report rows = (Inr rep, rows')"
    and "s \<in> set ss" and "grant_from_legacy_session put s = Inr (Some g)"
  shows "\<exists>h. load_grant None (gr_grant_id g) rows' = Inr (Some h)"
  using assms
proof (induction ss arbitrary: report rows)
  case (Cons x ss)
  show ?case
  proof (rule migrate_rows_Cons_cases [of put io_load io_save x ss report rows])
    fix report1
    assume m: "migrate_rows put io_load io_save (x # ss) report rows = migrate_rows put io_load io_save ss report1 rows"
      and l: "\<And>g. grant_from_legacy_session put x = Inr (Some g) \<Longrightarrow>
         \<exists>h. load_grant None (gr_grant_id g) rows = Inr (Some h)"
    have r: "migrate_rows put io_load io_save ss report1 rows = (Inr rep, rows')"
      using m Cons.prems(1) by simp
    show ?thesis
    proof (cases "s = x")
      case True
      with l Cons.prems(3) obtain h where "load_grant None (gr_grant_id g) rows = Inr (Some h)" by blast
      from load_grant_kept [OF this migrate_rows_keeps [OF r]] show ?thesis by blast
    next
      case False
      with Cons.prems(2) Cons.IH [OF r _ Cons.prems(3)] show ?thesis by simp
    qed
  next
    fix e assume "migrate_rows put io_load io_save (x # ss) report rows = (Inl e, rows)"
    with Cons.prems(1) show ?thesis by simp
  next
    fix k rows1 report1
    assume k: "grant_from_legacy_session put x = Inr (Some k)"
      and miss: "table_lookup grant_key (gr_grant_id k) rows = None"
      and sv: "save_grant (io_save (ses_session_id x)) k rows = (Inr (), rows1)"
      and m: "migrate_rows put io_load io_save (x # ss) report rows = migrate_rows put io_load io_save ss report1 rows1"
    have r: "migrate_rows put io_load io_save ss report1 rows1 = (Inr rep, rows')"
      using m Cons.prems(1) by simp
    show ?thesis
    proof (cases "s = x")
      case True
      then have "k = g" using k Cons.prems(3) by simp
      moreover have "principal_ok (gr_principal g)"
        using Cons.prems(3) by (auto simp: grant_from_legacy_session_Some legacy_grant_def)
      moreover have "gr_grant_id k \<notin> grant_key ` set rows"
        using miss by (auto simp: table_lookup_None)
      ultimately have "load_grant None (gr_grant_id g) rows1 = Inr (Some g)"
        using load_after_save [OF sv] by simp
      from load_grant_kept [OF this migrate_rows_keeps [OF r]] show ?thesis by blast
    next
      case False
      with Cons.prems(2) Cons.IH [OF r _ Cons.prems(3)] show ?thesis by simp
    qed
  qed
qed simp

lemma migrate_rows_settled:
  assumes "\<forall>s \<in> set ss. \<forall>g. grant_from_legacy_session put s = Inr (Some g) \<longrightarrow>
      (\<exists>h. load_grant None (gr_grant_id g) rows = Inr (Some h))"
  shows "\<exists>rep. migrate_rows put (\<lambda>_. None) (\<lambda>_. None) ss report rows = (Inr rep, rows)
    \<and> mr_grants_written rep = mr_grants_written report"
  using assms
proof (induction ss arbitrary: report)
  case (Cons s ss)
  have IH: "\<exists>rep. migrate_rows put (\<lambda>_. None) (\<lambda>_. None) ss report' rows = (Inr rep, rows)
    \<and> mr_grants_written rep = mr_grants_written report'" for report'
    using Cons by simp
  show ?case
  proof (cases "grant_from_legacy_session put s")
    case (Inl e)
    with IH [of "report\<lparr>mr_refused := mr_refused report @ [(ses_session_id s, e)]\<rparr>"] show ?thesis by simp
  next
    case (Inr m)
    show ?thesis
    proof (cases m)
      case None
      with Inr IH [of "report\<lparr>mr_rows_without_authority := mr_rows_without_authority report + 1\<rparr>"]
      show ?thesis by simp
    next
      case (Some g)
      with Inr Cons.prems obtain h where "load_grant None (gr_grant_id g) rows = Inr (Some h)" by force
      with Some Inr IH [of "report\<lparr>mr_grants_already_present := mr_grants_already_present report + 1\<rparr>"]
      show ?thesis by simp
    qed
  qed
qed simp

section \<open>Properties\<close>

text \<open>
  Migration never overwrites and is idempotent. Whatever storage faults a pass meets, every grant
  row that was present is present unchanged afterwards; and after a pass that completed, another pass
  over the same sessions writes nothing and leaves the table exactly as it is.
\<close>

theorem migration_never_overwrites_and_is_idempotent:
  assumes "migrate_legacy_sessions put io_list io_load io_save sessions rows = (res, rows')"
  shows "(\<forall>gid r. table_lookup grant_key gid rows = Some r \<longrightarrow> table_lookup grant_key gid rows' = Some r)
    \<and> (\<forall>report. res = Inr report \<longrightarrow>
        (\<exists>again. migrate_legacy_sessions put None (\<lambda>_. None) (\<lambda>_. None) sessions rows' = (Inr again, rows')
           \<and> mr_grants_written again = 0))"
proof (intro conjI allI impI)
  fix gid r
  assume "table_lookup grant_key gid rows = Some r"
  with assms show "table_lookup grant_key gid rows' = Some r"
    by (auto simp: migrate_legacy_sessions_def split: sum.splits dest: migrate_rows_keeps)
next
  fix report
  assume "res = Inr report"
  with assms have m: "migrate_rows put io_load io_save (map session_of_row sessions)
      \<lparr>mr_grants_written = 0, mr_grants_already_present = 0, mr_rows_without_authority = 0, mr_refused = []\<rparr> rows
      = (Inr report, rows')"
    by (cases io_list) (auto simp: migrate_legacy_sessions_def session_list_all_def)
  have "\<forall>s \<in> set (map session_of_row sessions). \<forall>g. grant_from_legacy_session put s = Inr (Some g) \<longrightarrow>
      (\<exists>h. load_grant None (gr_grant_id g) rows' = Inr (Some h))"
    using migrate_rows_covers [OF m] by blast
  from migrate_rows_settled [OF this, of
      "\<lparr>mr_grants_written = 0, mr_grants_already_present = 0, mr_rows_without_authority = 0, mr_refused = []\<rparr>"]
  show "\<exists>again. migrate_legacy_sessions put None (\<lambda>_. None) (\<lambda>_. None) sessions rows' = (Inr again, rows')
           \<and> mr_grants_written again = 0"
    by (simp add: migrate_legacy_sessions_def session_list_all_def)
qed

theorem migration_never_overwrites_and_is_idempotent_witness:
  "\<exists>report rows' again. migrate_legacy_sessions (\<lambda>_. []) None (\<lambda>_. None) (\<lambda>_. None)
       [session_to_row (sample_session SActive)] [] = (Inr report, rows')
     \<and> mr_grants_written report = 1
     \<and> migrate_legacy_sessions (\<lambda>_. []) None (\<lambda>_. None) (\<lambda>_. None)
       [session_to_row (sample_session SActive)] rows' = (Inr again, rows')
     \<and> mr_grants_written again = 0"
proof -
  have g: "grant_from_legacy_session (\<lambda>_. []) (sample_session SActive)
      = Inr (Some (legacy_grant (\<lambda>_. []) (sample_session SActive) Active))"
    by (simp add: grant_from_legacy_session_def sample_session_def)
  obtain report rows' where m: "migrate_legacy_sessions (\<lambda>_. []) None (\<lambda>_. None) (\<lambda>_. None)
       [session_to_row (sample_session SActive)] [] = (Inr report, rows')" and w: "mr_grants_written report = 1"
    by (simp add: migrate_legacy_sessions_def session_list_all_def g load_grant_def with_io_def save_grant_def
        migration_source_taken_def)
  from migration_never_overwrites_and_is_idempotent [OF m] m w show ?thesis by blast
qed



text \<open>
  Duplicate detection is exact. When the repository finds a live request, that grant is a stored,
  non-terminal grant for the same device, principal, task, workspaces and profile; when it finds none,
  no stored live grant of the device answers the same request.
\<close>

theorem find_live_request_is_exact:
  "(find_live_request stamp put None rq rows = Inr (Some g) \<longrightarrow>
      (\<exists>r \<in> set rows. parse_grant r = Inr g) \<and> status_is_live (gr_status g)
      \<and> \<not> grant_is_terminal g \<and> gr_device_id g = gr_device_id rq \<and> same_request g rq)
   \<and> (find_live_request stamp put None rq rows = Inr None \<longrightarrow>
      (\<forall>r \<in> set rows. \<forall>h. parse_grant r = Inr h \<and> gr_device_id h = gr_device_id rq
         \<and> status_is_live (gr_status h) \<longrightarrow> \<not> same_request h rq))"
proof (rule conjI; rule impI)
  assume "find_live_request stamp put None rq rows = Inr (Some g)"
  then obtain r where "r \<in> set rows" "gr_device_id (rg_grant r) = gr_device_id rq"
    "status_is_live (gr_status (rg_grant r))" "parse_grant r = Inr g" "same_request g rq"
    by (auto simp: find_live_request_def with_io_def dest!: first_same_request_Some)
  moreover from this have "status_is_live (gr_status g)" "gr_device_id g = gr_device_id rq"
    by (auto simp: parse_grant_Inr)
  moreover from this have "\<not> grant_is_terminal g"
    by (auto simp: status_is_live_def grant_is_terminal_def status_is_terminal_def)
  ultimately show "(\<exists>r \<in> set rows. parse_grant r = Inr g) \<and> status_is_live (gr_status g)
      \<and> \<not> grant_is_terminal g \<and> gr_device_id g = gr_device_id rq \<and> same_request g rq" by blast
next
  assume "find_live_request stamp put None rq rows = Inr None"
  then have none: "\<forall>r \<in> set rows. gr_device_id (rg_grant r) = gr_device_id rq
      \<and> status_is_live (gr_status (rg_grant r)) \<longrightarrow> (\<exists>g. parse_grant r = Inr g \<and> \<not> same_request g rq)"
    by (auto simp: find_live_request_def with_io_def dest!: first_same_request_None)
  show "\<forall>r \<in> set rows. \<forall>h. parse_grant r = Inr h \<and> gr_device_id h = gr_device_id rq
         \<and> status_is_live (gr_status h) \<longrightarrow> \<not> same_request h rq"
  proof (intro ballI allI impI)
    fix r h
    assume r: "r \<in> set rows" and h: "parse_grant r = Inr h \<and> gr_device_id h = gr_device_id rq
         \<and> status_is_live (gr_status h)"
    then have "gr_device_id (rg_grant r) = gr_device_id rq" "status_is_live (gr_status (rg_grant r))"
      by (auto simp: parse_grant_Inr)
    with none r h show "\<not> same_request h rq" by auto
  qed
qed

theorem find_live_request_is_exact_witness:
  "find_live_request (\<lambda>_. []) (\<lambda>_. []) None (sample_pending Standing) [grant_to_row (sample_active Standing)]
     = Inr (Some (sample_active Standing))
   \<and> \<not> grant_is_terminal (sample_active Standing)"
proof -
  have "parse_grant (grant_to_row (sample_active Standing)) = Inr (sample_active Standing)"
    by (simp add: sample_defs)
  then have f: "find_live_request (\<lambda>_. []) (\<lambda>_. []) None (sample_pending Standing)
      [grant_to_row (sample_active Standing)] = Inr (Some (sample_active Standing))"
    by (simp add: find_live_request_def with_io_def order_by_def status_is_live_def same_request_def
        grant_to_row_def sample_defs)
  with find_live_request_is_exact [THEN conjunct1, THEN mp, OF f] show ?thesis by blast
qed

end
