(* ===== verification/Gateway_Paths.thy ===== *)
theory Gateway_Paths
  imports Gateway_Core "HOL-Library.Product_Lexorder"
begin

text \<open>
  \<^verbatim>\<open>std::path\<close> on Unix. The code compares, joins and iterates paths by component, and two \<open>Path\<close>
  values are equal exactly when their components are, so a path is its list of components:
  \<open>path_of_string\<close> is \<open>Path::components\<close> (repeated separators and inner \<open>.\<close> components vanish, a
  leading \<open>.\<close> of a relative path stays), \<open>path_join\<close> is \<open>Path::join\<close>, \<open>starts_with\<close> compares whole
  components. The order is the derived one (\<open>RootDir < CurDir < ParentDir < Normal\<close>), in which a
  \<open>BTreeSet<PathBuf>\<close> iterates.
\<close>

datatype component = RootDir | CurDir | ParentDir | Normal_c string

type_synonym path = "component list"

fun component_rank :: "component \<Rightarrow> nat \<times> string" where
  "component_rank RootDir = (0, [])"
| "component_rank CurDir = (1, [])"
| "component_rank ParentDir = (2, [])"
| "component_rank (Normal_c s) = (3, s)"

lemma component_rank_inj: "component_rank a = component_rank b \<Longrightarrow> a = b"
  by (cases a; cases b) simp_all

instantiation component :: linorder
begin

definition less_eq_component :: "component \<Rightarrow> component \<Rightarrow> bool" where
  "less_eq_component a b \<longleftrightarrow> component_rank a \<le> component_rank b"

definition less_component :: "component \<Rightarrow> component \<Rightarrow> bool" where
  "less_component a b \<longleftrightarrow> component_rank a < component_rank b"

instance
  by standard (auto simp: less_eq_component_def less_component_def intro: component_rank_inj)

end

text \<open>Splitting at the separator keeps empty pieces, as \<open>split('/')\<close> does.\<close>

fun split_at :: "char \<Rightarrow> string \<Rightarrow> string list" where
  "split_at sep [] = [[]]"
| "split_at sep (c # cs) =
     (if c = sep then [] # split_at sep cs
      else (case split_at sep cs of [] \<Rightarrow> [[c]] | w # ws \<Rightarrow> (c # w) # ws))"

definition component_of :: "string \<Rightarrow> component option" where
  "component_of w = (if w = [] \<or> w = ''.'' then None
                     else if w = ''..'' then Some ParentDir else Some (Normal_c w))"

definition path_of_string :: "string \<Rightarrow> path" where
  "path_of_string s =
     (let ws = split_at (CHR ''/'') s; rest = List.map_filter component_of ws in
      if s \<noteq> [] \<and> hd s = CHR ''/'' then RootDir # rest
      else if hd ws = ''.'' then CurDir # rest
      else rest)"

definition is_absolute :: "path \<Rightarrow> bool" where
  "is_absolute p \<longleftrightarrow> p \<noteq> [] \<and> hd p = RootDir"

definition path_join :: "path \<Rightarrow> path \<Rightarrow> path" where
  "path_join base p =
     (if is_absolute p then p
      else if base = [] then p
      else base @ filter (\<lambda>c. c \<noteq> CurDir) p)"

definition starts_with :: "path \<Rightarrow> path \<Rightarrow> bool" where
  "starts_with p base \<longleftrightarrow> prefix base p"

text \<open>\<open>Path::file_name\<close>, \<open>Path::parent\<close>: the last component when it is a normal one; all but the last.\<close>

definition path_file_name :: "path \<Rightarrow> string option" where
  "path_file_name p = (if p = [] then None
     else case last p of Normal_c s \<Rightarrow> Some s | _ \<Rightarrow> None)"

definition path_parent :: "path \<Rightarrow> path option" where
  "path_parent p = (if p = [] \<or> last p = RootDir then None else Some (butlast p))"

lemma path_join_absolute: "is_absolute base \<Longrightarrow> is_absolute (path_join base p)"
  by (cases base) (auto simp: path_join_def is_absolute_def)

lemma path_join_prefix: "\<not> is_absolute p \<Longrightarrow> starts_with (path_join base p) base"
  by (auto simp: path_join_def starts_with_def)

end
