(* ===== verification/Gateway_Effects.thy ===== *)
theory Gateway_Effects
  imports Gateway_Paths
begin

text \<open>
  Tool-effect contracts and their application to the arguments of one operation,
  \<^verbatim>\<open>src/crates/policy/src/operation_effects.rs\<close> (the non-Windows build). A
  \<open>BTreeMap<String, PathArgumentContract>\<close> is the list of its values in key order, each under its own
  argument name; the normalized effects, a map from effects to sets of paths, are the set of its
  (effect, path) pairs, which both iterate in the same order. Resolution threads the accumulated
  effects and the set of arguments being resolved, as the \<open>&mut\<close> parameters do.
\<close>

section \<open>Contracts\<close>

datatype operation_effect = Read | Write | Create | Delete

fun effect_rank :: "operation_effect \<Rightarrow> nat" where
  "effect_rank Read = 0" | "effect_rank Write = 1" | "effect_rank Create = 2" | "effect_rank Delete = 3"

instantiation operation_effect :: linorder
begin

definition less_eq_operation_effect :: "operation_effect \<Rightarrow> operation_effect \<Rightarrow> bool" where
  "less_eq_operation_effect a b \<longleftrightarrow> effect_rank a \<le> effect_rank b"

definition less_operation_effect :: "operation_effect \<Rightarrow> operation_effect \<Rightarrow> bool" where
  "less_operation_effect a b \<longleftrightarrow> effect_rank a < effect_rank b"

instance
proof
  show "a \<le> b \<Longrightarrow> b \<le> a \<Longrightarrow> a = b" for a b :: operation_effect
    by (cases a; cases b) (simp_all add: less_eq_operation_effect_def)
qed (auto simp: less_eq_operation_effect_def less_operation_effect_def)

end

datatype tool_effect_contract_error =
    NoEffects
  | EmptyArgument
  | DuplicateArgument string
  | UndeclaredPathArgument string
  | DuplicatePathArgument string
  | InvalidDefaultPath string
  | EmptyBaseArgument
  | UndeclaredBasePathArgument string string
  | CyclicPathDependency string
  | IndeterminateBasePath string string

datatype normalization_error =
    UnknownArgument string
  | MissingRequiredPathArgument string
  | InvalidPathValue string
  | UnsupportedPathSyntax string
  | NormalizedNoEffects
  | InvalidPathDependency string

record path_argument_contract =
  pa_argument :: string
  pa_effects :: "operation_effect fset"
  pa_required :: bool
  pa_default :: "string option"
  pa_base_argument :: "string option"

type_synonym contract_map = "path_argument_contract list"

record tool_effect_contract =
  tc_arguments :: "string fset"
  tc_effects :: "operation_effect fset"
  tc_path_arguments :: contract_map

section \<open>Argument text\<close>

definition validate_path_text :: "string \<Rightarrow> bool" where
  "validate_path_text p \<longleftrightarrow>
     \<not> (blank p \<or> CHR 0x00 \<in> set p \<or> prefix ''~'' p \<or> prefix ''$'' p \<or> prefix ''%'' p)"

definition is_ascii_alphabetic :: "char \<Rightarrow> bool" where
  "is_ascii_alphabetic c \<longleftrightarrow>
     (let n = of_char c :: nat in 65 \<le> n \<and> n \<le> 90 \<or> 97 \<le> n \<and> n \<le> 122)"

definition has_windows_drive_prefix :: "string \<Rightarrow> bool" where
  "has_windows_drive_prefix p \<longleftrightarrow>
     (case p of c # d # _ \<Rightarrow> is_ascii_alphabetic c \<and> d = CHR '':'' | _ \<Rightarrow> False)"

definition portable_text :: "string \<Rightarrow> string" where
  "portable_text = map (\<lambda>c. if c = CHR 0x5C then CHR ''/'' else c)"

definition normalize_argument_path :: "string \<Rightarrow> path \<Rightarrow> unit + path" where
  "normalize_argument_path raw root =
     (if \<not> validate_path_text raw then Inl ()
      else if has_windows_drive_prefix (portable_text raw) then Inl ()
      else let p = path_of_string (portable_text raw) in
        Inr (if is_absolute p then p else path_join root p))"

definition path_argument_contract_new ::
  "string \<Rightarrow> operation_effect list \<Rightarrow> bool \<Rightarrow> string option \<Rightarrow> string option
   \<Rightarrow> tool_effect_contract_error + path_argument_contract" where
  "path_argument_contract_new arg effs required dflt base =
     (if blank arg then Inl EmptyArgument
      else if effs = [] then Inl NoEffects
      else
        rbind (case dflt of
                 None \<Rightarrow> Inr ()
               | Some d \<Rightarrow> map_err (\<lambda>_. InvalidDefaultPath arg)
                   (rbind (normalize_argument_path d []) (\<lambda>_. Inr ())))
          (\<lambda>_. if (case base of None \<Rightarrow> False | Some b \<Rightarrow> blank b) then Inl EmptyBaseArgument
            else Inr \<lparr>pa_argument = arg, pa_effects = fset_of_list effs, pa_required = required,
                      pa_default = dflt, pa_base_argument = base\<rparr>))"

section \<open>Base dependencies\<close>

definition contract_get :: "contract_map \<Rightarrow> string \<Rightarrow> path_argument_contract option" where
  "contract_get cs a = table_lookup pa_argument a cs"

definition base_of :: "contract_map \<Rightarrow> string \<Rightarrow> string option" where
  "base_of cs a = Option.bind (contract_get cs a) pa_base_argument"

definition check_base_declared ::
  "contract_map \<Rightarrow> path_argument_contract \<Rightarrow> tool_effect_contract_error + unit" where
  "check_base_declared cs c =
     (case pa_base_argument c of
        None \<Rightarrow> Inr ()
      | Some b \<Rightarrow>
          (case contract_get cs b of
             None \<Rightarrow> Inl (UndeclaredBasePathArgument (pa_argument c) b)
           | Some base \<Rightarrow>
               if \<not> pa_required base \<and> pa_default base = None
               then Inl (IndeterminateBasePath (pa_argument c) b)
               else Inr ()))"

text \<open>
  The recursion follows base arguments and stops at the first repetition: an argument that is not
  being visited leaves fewer declared names to visit.
\<close>

function visit_path_dependencies ::
  "string \<Rightarrow> contract_map \<Rightarrow> string fset \<Rightarrow> tool_effect_contract_error + string fset" where
  "visit_path_dependencies a cs visiting =
     (if a |\<in>| visiting then Inl (CyclicPathDependency a)
      else
        let entered = finsert a visiting in
        case base_of cs a of
          None \<Rightarrow> Inr (entered |-| {|a|})
        | Some b \<Rightarrow> rbind (visit_path_dependencies b cs entered) (\<lambda>v. Inr (v |-| {|a|})))"
  by pat_completeness auto

lemma base_of_Some_declared: "base_of cs a = Some b \<Longrightarrow> a \<in> pa_argument ` set cs"
  by (auto simp: base_of_def contract_get_def bind_eq_Some_conv dest: table_lookup_Some_key)

termination visit_path_dependencies
proof (relation "measure (\<lambda>(a, cs, visiting). card (pa_argument ` set cs - fset visiting))")
  fix a :: string and cs :: contract_map and visiting entered :: "string fset" and b
  assume new: "a |\<notin>| visiting" and e: "entered = finsert a visiting" and base: "base_of cs a = Some b"
  have "a \<in> pa_argument ` set cs" using base by (rule base_of_Some_declared)
  then have "card (pa_argument ` set cs - fset entered) < card (pa_argument ` set cs - fset visiting)"
    using new unfolding e by (intro psubset_card_mono) auto
  then show "((b, cs, entered), (a, cs, visiting)) \<in> measure (\<lambda>(a, cs, visiting).
      card (pa_argument ` set cs - fset visiting))"
    by simp
qed simp

declare visit_path_dependencies.simps [simp del]

fun visit_all :: "string list \<Rightarrow> contract_map \<Rightarrow> string fset \<Rightarrow> tool_effect_contract_error + unit" where
  "visit_all [] cs visiting = Inr ()"
| "visit_all (a # as) cs visiting =
     rbind (visit_path_dependencies a cs visiting) (\<lambda>v. visit_all as cs v)"

definition validate_path_dependencies :: "contract_map \<Rightarrow> tool_effect_contract_error + unit" where
  "validate_path_dependencies cs =
     rbind (collect_results (check_base_declared cs) cs)
       (\<lambda>_. visit_all (map pa_argument cs) cs {||})"

fun collect_arguments :: "string list \<Rightarrow> string fset \<Rightarrow> tool_effect_contract_error + string fset" where
  "collect_arguments [] acc = Inr acc"
| "collect_arguments (a # as) acc =
     (if blank a then Inl EmptyArgument
      else if a |\<in>| acc then Inl (DuplicateArgument a)
      else collect_arguments as (finsert a acc))"

fun collect_path_arguments ::
  "string fset \<Rightarrow> path_argument_contract list \<Rightarrow> contract_map \<Rightarrow> tool_effect_contract_error + contract_map" where
  "collect_path_arguments declared [] acc = Inr acc"
| "collect_path_arguments declared (c # cs) acc =
     (if pa_argument c |\<notin>| declared then Inl (UndeclaredPathArgument (pa_argument c))
      else if contract_get acc (pa_argument c) \<noteq> None then Inl (DuplicatePathArgument (pa_argument c))
      else collect_path_arguments declared cs (insort_key pa_argument c acc))"

definition tool_effect_contract_new ::
  "string list \<Rightarrow> operation_effect list \<Rightarrow> path_argument_contract list
   \<Rightarrow> tool_effect_contract_error + tool_effect_contract" where
  "tool_effect_contract_new args effs pas =
     rbind (collect_arguments args {||}) (\<lambda>declared.
     rbind (collect_path_arguments declared pas []) (\<lambda>pmap.
     rbind (validate_path_dependencies pmap) (\<lambda>_.
     if effs = [] \<and> pmap = [] then Inl NoEffects
     else Inr \<lparr>tc_arguments = declared, tc_effects = fset_of_list effs, tc_path_arguments = pmap\<rparr>)))"

section \<open>Normalization\<close>

type_synonym normalized_effects = "(operation_effect \<times> path) fset"

definition paths_for :: "normalized_effects \<Rightarrow> operation_effect \<Rightarrow> path list" where
  "paths_for n e = map snd (filter (\<lambda>(f, p). f = e) (sorted_list_of_fset n))"

definition effects_iter :: "normalized_effects \<Rightarrow> (operation_effect \<times> path) list" where
  "effects_iter n = sorted_list_of_fset n"

fun string_values :: "string \<Rightarrow> json list \<Rightarrow> normalization_error + string list" where
  "string_values arg [] = Inr []"
| "string_values arg (JString s # js) = rbind (string_values arg js) (\<lambda>ss. Inr (s # ss))"
| "string_values arg (_ # js) = Inl (InvalidPathValue arg)"

definition raw_paths ::
  "path_argument_contract \<Rightarrow> arguments \<Rightarrow> normalization_error + string list" where
  "raw_paths c args =
     (let implicit = (case pa_default c of
          Some d \<Rightarrow> Inr [d]
        | None \<Rightarrow> if pa_required c then Inl (MissingRequiredPathArgument (pa_argument c)) else Inr []) in
      case map_of args (pa_argument c) of
        None \<Rightarrow> implicit
      | Some JNull \<Rightarrow> implicit
      | Some (JString p) \<Rightarrow> Inr [p]
      | Some (JArray ps) \<Rightarrow> string_values (pa_argument c) ps
      | Some _ \<Rightarrow> Inl (InvalidPathValue (pa_argument c)))"

text \<open>The two nested loops over raw texts and base paths, in that order.\<close>

definition denoted_paths ::
  "string \<Rightarrow> string list \<Rightarrow> path list \<Rightarrow> normalization_error + path list" where
  "denoted_paths arg raws bases =
     collect_results (\<lambda>(raw, base). map_err (\<lambda>_. UnsupportedPathSyntax arg)
        (normalize_argument_path raw base)) (List.product raws bases)"

definition effect_pairs :: "operation_effect fset \<Rightarrow> path list \<Rightarrow> normalized_effects" where
  "effect_pairs effs ps = ffUnion ((\<lambda>e. (\<lambda>p. (e, p)) |`| fset_of_list ps) |`| effs)"

function resolve_path_argument ::
  "contract_map \<Rightarrow> arguments \<Rightarrow> path \<Rightarrow> path_argument_contract \<Rightarrow> normalized_effects \<Rightarrow> string fset
   \<Rightarrow> normalization_error + path list \<times> normalized_effects \<times> string fset" where
  "resolve_path_argument cs args root c normalized resolving =
     (if pa_argument c |\<in>| resolving then Inl (InvalidPathDependency (pa_argument c))
      else
        let entered = finsert (pa_argument c) resolving in
        rbind (raw_paths c args) (\<lambda>raws.
        if raws = [] then Inr ([], normalized, entered |-| {|pa_argument c|})
        else
          rbind
            (case pa_base_argument c of
               None \<Rightarrow> Inr ([root], normalized, entered)
             | Some b \<Rightarrow>
                 (case contract_get cs b of
                    None \<Rightarrow> Inl (InvalidPathDependency (pa_argument c))
                  | Some base \<Rightarrow> resolve_path_argument cs args root base normalized entered))
            (\<lambda>(bases, normalized', resolving').
               if bases = [] then Inl (InvalidPathDependency (pa_argument c))
               else rbind (denoted_paths (pa_argument c) raws bases) (\<lambda>ps.
                 Inr (ps, normalized' |\<union>| effect_pairs (pa_effects c) ps,
                      resolving' |-| {|pa_argument c|})))))"
  by pat_completeness auto

termination resolve_path_argument
proof (relation "measure (\<lambda>(cs, args, root, c, normalized, resolving).
    card (insert (pa_argument c) (pa_argument ` set cs) - fset resolving))")
  fix cs :: contract_map and args :: arguments and root :: path and c base :: path_argument_contract
    and normalized :: normalized_effects and resolving entered :: "string fset" and raws :: "string list"
    and b :: string
  assume new: "pa_argument c |\<notin>| resolving" and e: "entered = finsert (pa_argument c) resolving"
    and base: "contract_get cs b = Some base"
  have "pa_argument base \<in> pa_argument ` set cs"
    using base by (auto simp: contract_get_def dest: table_lookup_Some_key)
  then have "insert (pa_argument base) (pa_argument ` set cs) - fset entered
      \<subset> insert (pa_argument c) (pa_argument ` set cs) - fset resolving"
    using new unfolding e by auto
  then have "card (insert (pa_argument base) (pa_argument ` set cs) - fset entered)
      < card (insert (pa_argument c) (pa_argument ` set cs) - fset resolving)"
    by (intro psubset_card_mono) auto
  then show "((cs, args, root, base, normalized, entered), (cs, args, root, c, normalized, resolving))
      \<in> measure (\<lambda>(cs, args, root, c, normalized, resolving).
          card (insert (pa_argument c) (pa_argument ` set cs) - fset resolving))"
    by simp
qed simp

declare resolve_path_argument.simps [simp del]

fun resolve_all ::
  "contract_map \<Rightarrow> arguments \<Rightarrow> path \<Rightarrow> path_argument_contract list \<Rightarrow> normalized_effects \<Rightarrow> string fset
   \<Rightarrow> normalization_error + normalized_effects" where
  "resolve_all cs args root [] normalized resolving = Inr normalized"
| "resolve_all cs args root (c # rest) normalized resolving =
     rbind (resolve_path_argument cs args root c normalized resolving)
       (\<lambda>(_, normalized', resolving'). resolve_all cs args root rest normalized' resolving')"

definition normalize_effects ::
  "tool_effect_contract \<Rightarrow> arguments \<Rightarrow> path \<Rightarrow> normalization_error + normalized_effects" where
  "normalize_effects t args root =
     (case List.find (\<lambda>(k, _). k |\<notin>| tc_arguments t) args of
        Some (k, _) \<Rightarrow> Inl (UnknownArgument k)
      | None \<Rightarrow>
          rbind (resolve_all (tc_path_arguments t) args root (tc_path_arguments t)
                   ((\<lambda>e. (e, root)) |`| tc_effects t) {||})
            (\<lambda>n. if n = {||} then Inl NormalizedNoEffects else Inr n))"

section \<open>What a resolved argument denotes\<close>

text \<open>
  The declarative reading of a contract: a raw text of argument \<open>c\<close> denotes the path it names below the
  workspace root, or below each path its base argument denotes.
\<close>

inductive denotes :: "contract_map \<Rightarrow> arguments \<Rightarrow> path \<Rightarrow> path_argument_contract \<Rightarrow> path \<Rightarrow> bool"
  for cs args root where
  direct: "\<lbrakk>raw_paths c args = Inr raws; raw \<in> set raws; pa_base_argument c = None;
     normalize_argument_path raw root = Inr p\<rbrakk> \<Longrightarrow> denotes cs args root c p"
| based: "\<lbrakk>raw_paths c args = Inr raws; raw \<in> set raws; pa_base_argument c = Some b;
     contract_get cs b = Some base; denotes cs args root base q;
     normalize_argument_path raw q = Inr p\<rbrakk> \<Longrightarrow> denotes cs args root c p"

inductive_simps denotes_conv: "denotes cs args root c p"

definition declared_effects ::
  "contract_map \<Rightarrow> arguments \<Rightarrow> path \<Rightarrow> path_argument_contract \<Rightarrow> (operation_effect \<times> path) set" where
  "declared_effects cs args root c = {(e, p). e |\<in>| pa_effects c \<and> denotes cs args root c p}"

lemma fset_effect_pairs: "fset (effect_pairs effs ps) = {(e, p). e |\<in>| effs \<and> p \<in> set ps}"
  by (auto simp: effect_pairs_def ffUnion.rep_eq fset_of_list.rep_eq)

lemma denoted_paths_set:
  assumes "denoted_paths arg raws bases = Inr ps"
  shows "set ps = {p. \<exists>raw \<in> set raws. \<exists>base \<in> set bases. normalize_argument_path raw base = Inr p}"
proof -
  let ?f = "\<lambda>(raw, base). map_err (\<lambda>_. UnsupportedPathSyntax arg) (normalize_argument_path raw base)"
  from assms have l: "list_all2 (\<lambda>x y. ?f x = Inr y) (List.product raws bases) ps"
    by (simp add: denoted_paths_def collect_results_Inr)
  have "set ps = {p. \<exists>x \<in> set (List.product raws bases). ?f x = Inr p}"
  proof (intro set_eqI iffI)
    fix p assume "p \<in> set ps"
    with l show "p \<in> {p. \<exists>x \<in> set (List.product raws bases). ?f x = Inr p}"
      by (metis (mono_tags, lifting) in_set_conv_nth list_all2_conv_all_nth mem_Collect_eq)
  next
    fix p assume "p \<in> {p. \<exists>x \<in> set (List.product raws bases). ?f x = Inr p}"
    then obtain x where x: "x \<in> set (List.product raws bases)" "?f x = Inr p" by blast
    then obtain i where "i < length ps" "?f x = Inr (ps ! i)"
      using l by (metis (mono_tags, lifting) in_set_conv_nth list_all2_conv_all_nth)
    with x show "p \<in> set ps" by auto
  qed
  then show ?thesis by fastforce
qed

lemma denoted_paths_nonempty:
  assumes "denoted_paths arg raws bases = Inr ps" and "raws \<noteq> []" and "bases \<noteq> []"
  shows "ps \<noteq> []"
proof
  assume "ps = []"
  with assms(1) have "List.product raws bases = []"
    by (auto simp: denoted_paths_def collect_results_Inr)
  with assms(2,3) show False by (cases raws; cases bases) auto
qed

text \<open>The base paths of one argument, and the state its resolution passes on.\<close>

abbreviation (input) resolve_bases where
  "resolve_bases cs args root c n entered \<equiv>
     (case pa_base_argument c of
        None \<Rightarrow> Inr ([root], n, entered)
      | Some b \<Rightarrow>
          (case contract_get cs b of
             None \<Rightarrow> Inl (InvalidPathDependency (pa_argument c))
           | Some base \<Rightarrow> resolve_path_argument cs args root base n entered))"

lemma resolve_path_argument_Inr:
  assumes "resolve_path_argument cs args root c n r = Inr (ps, n', r')"
  obtains raws where "raw_paths c args = Inr raws" and "pa_argument c |\<notin>| r"
    and "raws = [] \<and> ps = [] \<and> n' = n \<and> r' = r
      \<or> raws \<noteq> [] \<and> (\<exists>bases n1 r1. resolve_bases cs args root c n (finsert (pa_argument c) r) = Inr (bases, n1, r1)
           \<and> bases \<noteq> [] \<and> denoted_paths (pa_argument c) raws bases = Inr ps
           \<and> n' = n1 |\<union>| effect_pairs (pa_effects c) ps \<and> r' = r1 |-| {|pa_argument c|})"
proof -
  have new: "pa_argument c |\<notin>| r"
    using assms unfolding resolve_path_argument.simps [of cs args root c n r]
    by (auto split: if_splits)
  then have leave: "finsert (pa_argument c) r |-| {|pa_argument c|} = r" by auto
  from assms new obtain raws where raws: "raw_paths c args = Inr raws"
    and rest: "(if raws = [] then Inr ([], n, finsert (pa_argument c) r |-| {|pa_argument c|})
        else rbind (resolve_bases cs args root c n (finsert (pa_argument c) r))
            (\<lambda>(bases, n1, r1).
               if bases = [] then Inl (InvalidPathDependency (pa_argument c))
               else rbind (denoted_paths (pa_argument c) raws bases) (\<lambda>ps.
                 Inr (ps, n1 |\<union>| effect_pairs (pa_effects c) ps, r1 |-| {|pa_argument c|}))))
       = Inr (ps, n', r')"
    unfolding resolve_path_argument.simps [of cs args root c n r]
    by (auto simp: Let_def rbind_Inr_conv)
  show thesis
  proof (cases "raws = []")
    case True
    with rest leave show ?thesis using that [OF raws new] by simp
  next
    case False
    with rest obtain bases n1 r1 where
      "resolve_bases cs args root c n (finsert (pa_argument c) r) = Inr (bases, n1, r1)"
      "bases \<noteq> []" "denoted_paths (pa_argument c) raws bases = Inr ps"
      "n' = n1 |\<union>| effect_pairs (pa_effects c) ps" "r' = r1 |-| {|pa_argument c|}"
      by (simp only: if_False rbind_Inr_conv) (auto split: if_splits simp: rbind_Inr_conv)
    with False show ?thesis using that [OF raws new] by blast
  qed
qed

lemma resolve_path_argument_exact:
  assumes "resolve_path_argument cs args root c n r = Inr (ps, n', r')"
  shows "set ps = {p. denotes cs args root c p} \<and> r' = r
    \<and> fset n \<union> declared_effects cs args root c \<subseteq> fset n'
    \<and> fset n' \<subseteq> fset n \<union> (\<Union>d \<in> insert c (set cs). declared_effects cs args root d)"
  using assms
proof (induction cs args root c n r arbitrary: ps n' r' rule: resolve_path_argument.induct)
  case (1 cs args root c n r)
  from "1.prems" obtain raws where raws: "raw_paths c args = Inr raws" and new: "pa_argument c |\<notin>| r"
    and rest: "raws = [] \<and> ps = [] \<and> n' = n \<and> r' = r
      \<or> raws \<noteq> [] \<and> (\<exists>bases n1 r1. resolve_bases cs args root c n (finsert (pa_argument c) r) = Inr (bases, n1, r1)
           \<and> bases \<noteq> [] \<and> denoted_paths (pa_argument c) raws bases = Inr ps
           \<and> n' = n1 |\<union>| effect_pairs (pa_effects c) ps \<and> r' = r1 |-| {|pa_argument c|})"
    by (rule resolve_path_argument_Inr)
  show ?case
  proof (cases "raws = []")
    case True
    with rest raws show ?thesis
      by (auto simp: declared_effects_def denotes_conv [of _ _ _ c])
  next
    case False
    with rest obtain bases n1 r1 where
      b: "resolve_bases cs args root c n (finsert (pa_argument c) r) = Inr (bases, n1, r1)"
      and d: "denoted_paths (pa_argument c) raws bases = Inr ps"
      and n': "n' = n1 |\<union>| effect_pairs (pa_effects c) ps" and r': "r' = r1 |-| {|pa_argument c|}"
      by blast
    have "r1 = finsert (pa_argument c) r \<and> fset n \<subseteq> fset n1
      \<and> fset n1 \<subseteq> fset n \<union> (\<Union>d \<in> set cs. declared_effects cs args root d)
      \<and> set ps = {p. denotes cs args root c p}"
    proof (cases "pa_base_argument c")
      case None
      with b have "bases = [root]" "n1 = n" "r1 = finsert (pa_argument c) r" by auto
      moreover have "set ps = {p. denotes cs args root c p}"
        using None raws denoted_paths_set [OF d] \<open>bases = [root]\<close> by (auto simp: denotes_conv [of _ _ _ c])
      ultimately show ?thesis by auto
    next
      case (Some x)
      with b obtain base where g: "contract_get cs x = Some base"
        and rb: "resolve_path_argument cs args root base n (finsert (pa_argument c) r) = Inr (bases, n1, r1)"
        by (auto split: option.splits)
      have "base \<in> set cs"
        using g by (auto simp: contract_get_def dest: table_lookup_Some_key)
      have IH: "set bases = {p. denotes cs args root base p} \<and> r1 = finsert (pa_argument c) r
        \<and> fset n \<union> declared_effects cs args root base \<subseteq> fset n1
        \<and> fset n1 \<subseteq> fset n \<union> (\<Union>d \<in> insert base (set cs). declared_effects cs args root d)"
        using "1.IH" [OF new refl False Some g rb] .
      moreover have "set ps = {p. denotes cs args root c p}"
        using Some g raws denoted_paths_set [OF d] IH by (auto simp: denotes_conv [of _ _ _ c])
      moreover have "insert base (set cs) = set cs" using \<open>base \<in> set cs\<close> by auto
      ultimately show ?thesis by auto
    qed
    then show ?thesis
      using new by (auto simp: n' r' fset_effect_pairs declared_effects_def)
  qed
qed

lemma resolve_all_exact:
  assumes "resolve_all cs args root ds n r = Inr n'" and "set ds \<subseteq> set cs"
  shows "fset n \<union> (\<Union>d \<in> set ds. declared_effects cs args root d) \<subseteq> fset n'
    \<and> fset n' \<subseteq> fset n \<union> (\<Union>d \<in> set cs. declared_effects cs args root d)"
  using assms
proof (induction ds arbitrary: n r)
  case Nil
  then show ?case by simp
next
  case (Cons d ds)
  then obtain ps n1 r1 where r: "resolve_path_argument cs args root d n r = Inr (ps, n1, r1)"
    and a: "resolve_all cs args root ds n1 r1 = Inr n'"
    by (auto simp: rbind_Inr_conv)
  have "insert d (set cs) = set cs" using Cons.prems(2) by auto
  with resolve_path_argument_exact [OF r]
  have "fset n \<union> declared_effects cs args root d \<subseteq> fset n1"
    "fset n1 \<subseteq> fset n \<union> (\<Union>d \<in> set cs. declared_effects cs args root d)"
    by auto
  moreover have "fset n1 \<union> (\<Union>d \<in> set ds. declared_effects cs args root d) \<subseteq> fset n'
    \<and> fset n' \<subseteq> fset n1 \<union> (\<Union>d \<in> set cs. declared_effects cs args root d)"
    using a Cons.prems(2) by (intro Cons.IH) auto
  ultimately show ?case by auto
qed

lemma normalize_effects_Inr:
  "normalize_effects t args root = Inr n \<longleftrightarrow>
     fst ` set args \<subseteq> fset (tc_arguments t) \<and> n \<noteq> {||}
     \<and> resolve_all (tc_path_arguments t) args root (tc_path_arguments t)
         ((\<lambda>e. (e, root)) |`| tc_effects t) {||} = Inr n"
proof -
  let ?bad = "\<lambda>(k, _). k |\<notin>| tc_arguments t"
  have "List.find ?bad args = None \<longleftrightarrow> fst ` set args \<subseteq> fset (tc_arguments t)"
    by (auto simp: find_None_iff)
  then show ?thesis
    by (cases "List.find ?bad args") (auto simp: normalize_effects_def rbind_Inr_conv)
qed

section \<open>Validated contracts\<close>

text \<open>The invariant that \<open>ToolEffectContract::new\<close> establishes.\<close>

definition contract_ok :: "contract_map \<Rightarrow> bool" where
  "contract_ok cs \<longleftrightarrow> unique_keys pa_argument cs
     \<and> (\<forall>c \<in> set cs. check_base_declared cs c = Inr ())
     \<and> (\<forall>a \<in> pa_argument ` set cs. visit_path_dependencies a cs {||} = Inr {||})"

lemma visit_restores:
  "visit_path_dependencies a cs v = Inr w \<Longrightarrow> w = v"
proof (induction a cs v arbitrary: w rule: visit_path_dependencies.induct)
  case (1 a cs v)
  from "1.prems" have new: "a |\<notin>| v"
    unfolding visit_path_dependencies.simps [of a cs v] by (auto split: if_splits)
  show ?case
  proof (cases "base_of cs a")
    case None
    with "1.prems" new show ?thesis
      unfolding visit_path_dependencies.simps [of a cs v] by (auto simp: Let_def)
  next
    case (Some b)
    with "1.prems" new obtain u where "visit_path_dependencies b cs (finsert a v) = Inr u" "w = u |-| {|a|}"
      unfolding visit_path_dependencies.simps [of a cs v] by (auto simp: Let_def rbind_Inr_conv)
    with "1.IH" [OF new refl Some] new show ?thesis by auto
  qed
qed

lemma visit_Inr_conv:
  "visit_path_dependencies a cs v = Inr w \<longleftrightarrow>
     a |\<notin>| v \<and> w = v \<and> (\<forall>b. base_of cs a = Some b \<longrightarrow>
       visit_path_dependencies b cs (finsert a v) = Inr (finsert a v))"
proof (cases "a |\<in>| v")
  case True
  then show ?thesis by (simp add: visit_path_dependencies.simps [of a cs v])
next
  case False
  then have "finsert a v |-| {|a|} = v" by auto
  with False show ?thesis
    unfolding visit_path_dependencies.simps [of a cs v]
    by (cases "base_of cs a") (auto simp: Let_def rbind_Inr_conv dest: visit_restores)
qed

lemma visit_all_Inr:
  "visit_all as cs v = Inr () \<longleftrightarrow> (\<forall>a \<in> set as. visit_path_dependencies a cs v = Inr v)"
proof (induction as)
  case (Cons a as)
  have "rbind (visit_path_dependencies a cs v) (\<lambda>w. visit_all as cs w) = Inr ()
      \<longleftrightarrow> visit_path_dependencies a cs v = Inr v \<and> visit_all as cs v = Inr ()"
    by (auto simp: rbind_Inr_conv dest: visit_restores)
  with Cons show ?case by simp
qed simp

lemma collect_path_arguments_unique:
  "collect_path_arguments declared cs acc = Inr m \<Longrightarrow> unique_keys pa_argument acc \<Longrightarrow>
     unique_keys pa_argument m"
proof (induction declared cs acc rule: collect_path_arguments.induct)
  case (2 declared c cs acc)
  then have "pa_argument c \<notin> pa_argument ` set acc"
    by (fastforce simp: contract_get_def table_lookup_None split: if_splits)
  moreover have "distinct (map pa_argument (insort_key pa_argument c xs))
      \<longleftrightarrow> pa_argument c \<notin> pa_argument ` set xs \<and> distinct (map pa_argument xs)" for xs
    by (induction xs) (auto simp: set_insort_key)
  ultimately show ?case
    using 2 by (auto simp: unique_keys_def split: if_splits)
qed (simp add: unique_keys_def)

lemma contract_new_ok:
  assumes "tool_effect_contract_new args effs pas = Inr t"
  shows "contract_ok (tc_path_arguments t)"
proof -
  from assms obtain declared m where
    m: "collect_path_arguments declared pas [] = Inr m" and v: "validate_path_dependencies m = Inr ()"
    and t: "tc_path_arguments t = m"
    by (auto simp: tool_effect_contract_new_def rbind_Inr_conv split: if_splits)
  have "unique_keys pa_argument m"
    using collect_path_arguments_unique [OF m] by (simp add: unique_keys_def)
  moreover from v obtain us where us: "collect_results (check_base_declared m) m = Inr us"
    and "visit_all (map pa_argument m) m {||} = Inr ()"
    by (auto simp: validate_path_dependencies_def rbind_Inr_conv)
  moreover have "check_base_declared m c = Inr ()" if "c \<in> set m" for c
    using us that by (auto simp: collect_results_Inr list_all2_conv_all_nth in_set_conv_nth)
  ultimately show ?thesis
    by (simp add: contract_ok_def t visit_all_Inr)
qed

lemma raw_paths_not_dependency: "raw_paths c args \<noteq> Inl (InvalidPathDependency x)"
proof -
  have "string_values a js \<noteq> Inl (InvalidPathDependency x)" for a js
    by (induction a js rule: string_values.induct) (auto simp: rbind_Inl_conv)
  then show ?thesis
    by (auto simp: raw_paths_def Let_def split: option.splits json.splits)
qed

lemma denoted_paths_not_dependency: "denoted_paths a raws bases \<noteq> Inl (InvalidPathDependency x)"
proof -
  let ?f = "\<lambda>(raw, base). map_err (\<lambda>_. UnsupportedPathSyntax a) (normalize_argument_path raw base)"
  have "collect_results ?f xs \<noteq> Inl (InvalidPathDependency x)" for xs
    by (induction xs) (auto simp: rbind_Inl_conv map_err_Inl_conv)
  then show ?thesis by (simp add: denoted_paths_def)
qed

text \<open>A declared base (required, or with a default) is without raw paths only when it is passed \<open>[]\<close>.\<close>

lemma raw_paths_empty_base:
  assumes "raw_paths c args = Inr []" and "pa_required c \<or> pa_default c \<noteq> None"
  shows "map_of args (pa_argument c) = Some (JArray [])"
proof -
  have "string_values a js = Inr [] \<Longrightarrow> js = []" for a js
    by (cases "(a, js)" rule: string_values.cases) (auto simp: rbind_Inr_conv)
  with assms show ?thesis
    by (auto simp: raw_paths_def Let_def split: option.splits json.splits if_splits)
qed

lemma resolve_empty_raws:
  assumes "resolve_path_argument cs args root c n r = Inr ([], n', r')"
  shows "raw_paths c args = Inr []"
  using assms
  by (rule resolve_path_argument_Inr) (auto dest: denoted_paths_nonempty)

definition passed_empty_base :: "contract_map \<Rightarrow> arguments \<Rightarrow> string \<Rightarrow> bool" where
  "passed_empty_base cs args x \<longleftrightarrow>
     (\<exists>b. base_of cs x = Some b \<and> map_of args b = Some (JArray []))"

lemma resolve_dependency_error:
  assumes "\<forall>c \<in> set cs. check_base_declared cs c = Inr ()"
    and "contract_get cs a = Some c" and "visit_path_dependencies a cs r = Inr r"
    and "resolve_path_argument cs args root c n r = Inl (InvalidPathDependency x)"
  shows "passed_empty_base cs args x"
  using assms
proof (induction cs args root c n r arbitrary: a rule: resolve_path_argument.induct)
  case (1 cs args root c n r)
  have a: "pa_argument c = a" and mem: "c \<in> set cs"
    using "1.prems"(2) by (auto simp: contract_get_def dest: table_lookup_Some_key)
  have new: "pa_argument c |\<notin>| r" using "1.prems"(3) a visit_Inr_conv [of a cs r r] by simp
  let ?r = "finsert (pa_argument c) r"
  from "1.prems"(4) new obtain raws where raws: "raw_paths c args = Inr raws" and ne: "raws \<noteq> []"
    and err: "rbind (resolve_bases cs args root c n ?r)
            (\<lambda>(bases, n1, r1).
               if bases = [] then Inl (InvalidPathDependency (pa_argument c))
               else rbind (denoted_paths (pa_argument c) raws bases) (\<lambda>ps.
                 Inr (ps, n1 |\<union>| effect_pairs (pa_effects c) ps, r1 |-| {|pa_argument c|})))
       = Inl (InvalidPathDependency x)"
    unfolding resolve_path_argument.simps [of cs args root c n r]
    by (auto simp: Let_def rbind_Inl_conv [of "raw_paths c args"] raw_paths_not_dependency
        split: if_splits)
  show ?case
  proof (cases "pa_base_argument c")
    case None
    with err show ?thesis by (auto simp: rbind_Inl_conv denoted_paths_not_dependency)
  next
    case (Some b)
    with "1.prems"(1) mem obtain base where g: "contract_get cs b = Some base"
      and det: "pa_required base \<or> pa_default base \<noteq> None"
      by (fastforce simp: check_base_declared_def split: option.splits if_splits)
    have bo: "base_of cs a = Some b"
      using "1.prems"(2) Some by (simp add: base_of_def)
    have sub: "visit_path_dependencies b cs ?r = Inr ?r"
      using "1.prems"(3) bo a visit_Inr_conv [of a cs r r] by simp
    show ?thesis
    proof (cases "resolve_path_argument cs args root base n ?r")
      case (Inl e)
      with err Some g have "e = InvalidPathDependency x" by simp
      with Inl "1.IH" [OF new refl ne Some g "1.prems"(1) g sub] show ?thesis by simp
    next
      case (Inr res)
      obtain bases n1 r1 where res: "res = (bases, n1, r1)" by (cases res)
      with err Some g Inr have "bases = []" and x: "x = a"
        by (auto simp: rbind_Inl_conv denoted_paths_not_dependency a split: if_splits)
      with Inr res have "raw_paths base args = Inr []"
        by (blast intro: resolve_empty_raws)
      with det have "map_of args (pa_argument base) = Some (JArray [])"
        by (intro raw_paths_empty_base)
      moreover have "pa_argument base = b"
        using g by (auto simp: contract_get_def dest: table_lookup_Some_key)
      ultimately show ?thesis using bo x by (auto simp: passed_empty_base_def)
    qed
  qed
qed

lemma resolve_all_dependency_error:
  assumes "contract_ok cs" and "set ds \<subseteq> set cs"
    and "resolve_all cs args root ds n {||} = Inl (InvalidPathDependency x)"
  shows "passed_empty_base cs args x"
  using assms
proof (induction ds arbitrary: n)
  case (Cons d ds)
  have d: "contract_get cs (pa_argument d) = Some d"
    using Cons.prems by (auto simp: contract_get_def contract_ok_def intro: unique_keys_lookup)
  show ?case
  proof (cases "resolve_path_argument cs args root d n {||}")
    case (Inl e)
    with Cons.prems d show ?thesis
      by (intro resolve_dependency_error [where c = d and r = "{||}" and root = root and n = n])
        (auto simp: contract_ok_def)
  next
    case (Inr res)
    obtain ps n1 r1 where "res = (ps, n1, r1)" by (cases res)
    with Inr have "r1 = {||}" by (auto dest: resolve_path_argument_exact)
    with Inr \<open>res = _\<close> Cons show ?thesis by auto
  qed
qed simp

section \<open>Properties\<close>

text \<open>
  C19: Path authority is exactly what the reviewed contract declares. When normalization succeeds, every
  supplied argument is declared, the result is not empty, and an (effect, path) pair is in it if and
  only if the effect is declared for the workspace as a whole and the path is the root, or the path is
  denoted by a declared path argument that has this effect.
\<close>

theorem normalized_effects_are_exactly_the_declared_ones:
  assumes "normalize_effects t args root = Inr n"
  shows "fst ` set args \<subseteq> fset (tc_arguments t) \<and> n \<noteq> {||}
    \<and> (\<forall>e p. (e, p) |\<in>| n \<longleftrightarrow>
          e |\<in>| tc_effects t \<and> p = root
          \<or> (\<exists>c \<in> set (tc_path_arguments t).
               e |\<in>| pa_effects c \<and> denotes (tc_path_arguments t) args root c p))"
proof -
  from assms have keys: "fst ` set args \<subseteq> fset (tc_arguments t)" "n \<noteq> {||}"
    and all: "resolve_all (tc_path_arguments t) args root (tc_path_arguments t)
         ((\<lambda>e. (e, root)) |`| tc_effects t) {||} = Inr n"
    by (simp_all add: normalize_effects_Inr)
  from resolve_all_exact [OF all]
  have "fset n = fset ((\<lambda>e. (e, root)) |`| tc_effects t)
      \<union> (\<Union>d \<in> set (tc_path_arguments t). declared_effects (tc_path_arguments t) args root d)"
    by blast
  then have "(e, p) |\<in>| n \<longleftrightarrow> e |\<in>| tc_effects t \<and> p = root
      \<or> (\<exists>c \<in> set (tc_path_arguments t). (e, p) \<in> declared_effects (tc_path_arguments t) args root c)" for e p
    by auto
  with keys show ?thesis by (simp add: declared_effects_def)
qed

text \<open>A contract with a base argument, and the arguments of one call.\<close>

definition sample_base :: path_argument_contract where
  "sample_base = \<lparr>pa_argument = ''base'', pa_effects = {|Read|}, pa_required = False,
     pa_default = Some ''nested'', pa_base_argument = None\<rparr>"

definition sample_child :: path_argument_contract where
  "sample_child = \<lparr>pa_argument = ''child'', pa_effects = {|Write|}, pa_required = True,
     pa_default = None, pa_base_argument = Some ''base''\<rparr>"

definition sample_tool :: tool_effect_contract where
  "sample_tool = \<lparr>tc_arguments = {|''base'', ''child''|}, tc_effects = {||},
     tc_path_arguments = [sample_base, sample_child]\<rparr>"

lemmas sample_tool_defs = sample_base_def sample_child_def sample_tool_def

lemma sample_tool_new:
  "tool_effect_contract_new [''base'', ''child''] [] [sample_base, sample_child] = Inr sample_tool"
  by (simp add: tool_effect_contract_new_def sample_tool_defs contract_get_def blank_def is_white_def
      validate_path_dependencies_def check_base_declared_def visit_path_dependencies.simps
      base_of_def Let_def) (auto simp: less_list_code)

lemma sample_text:
  "normalize_argument_path ''x'' [RootDir, Normal_c ''w'', Normal_c ''nested''] =
     Inr [RootDir, Normal_c ''w'', Normal_c ''nested'', Normal_c ''x'']"
  "normalize_argument_path ''nested'' [RootDir, Normal_c ''w''] = Inr [RootDir, Normal_c ''w'', Normal_c ''nested'']"
  by (simp_all add: normalize_argument_path_def validate_path_text_def blank_def is_white_def
      has_windows_drive_prefix_def portable_text_def path_of_string_def component_of_def Let_def
      is_absolute_def path_join_def List.map_filter_def)

lemma sample_normalized:
  "normalize_effects sample_tool [(''child'', JString ''x'')] [RootDir, Normal_c ''w''] =
     Inr {|(Read, [RootDir, Normal_c ''w'', Normal_c ''nested'']),
           (Write, [RootDir, Normal_c ''w'', Normal_c ''nested'', Normal_c ''x''])|}"
  by (simp add: normalize_effects_def sample_tool_defs resolve_path_argument.simps raw_paths_def
      contract_get_def denoted_paths_def sample_text effect_pairs_def Let_def finsert_commute)

theorem normalized_effects_are_exactly_the_declared_ones_witness:
  "denotes [sample_base, sample_child] [(''child'', JString ''x'')] [RootDir, Normal_c ''w''] sample_child
     [RootDir, Normal_c ''w'', Normal_c ''nested'', Normal_c ''x'']"
proof -
  let ?p = "[RootDir, Normal_c ''w'', Normal_c ''nested'', Normal_c ''x'']"
  from normalized_effects_are_exactly_the_declared_ones [OF sample_normalized, THEN conjunct2,
      THEN conjunct2, THEN spec, THEN spec, of Write ?p]
  have "\<exists>c \<in> set (tc_path_arguments sample_tool). Write |\<in>| pa_effects c
     \<and> denotes (tc_path_arguments sample_tool) [(''child'', JString ''x'')] [RootDir, Normal_c ''w''] c
       [RootDir, Normal_c ''w'', Normal_c ''nested'', Normal_c ''x'']"
    by (simp add: sample_tool_def)
  then show ?thesis by (auto simp: sample_tool_defs)
qed

text \<open>
  A contract that passed validation cannot fail on its own dependencies. If normalizing the
  arguments of a call against a contract built by \<open>ToolEffectContract::new\<close> ends in an invalid path
  dependency, the caller supplied the empty array for the base argument of the reported argument: no
  cycle and no undeclared base is ever met.
\<close>

theorem validated_contract_has_no_dependency_cycle:
  assumes "tool_effect_contract_new names effs pas = Inr t"
    and "normalize_effects t args root = Inl (InvalidPathDependency x)"
  shows "\<exists>b. base_of (tc_path_arguments t) x = Some b \<and> map_of args b = Some (JArray [])"
proof -
  from assms(2) have "resolve_all (tc_path_arguments t) args root (tc_path_arguments t)
         ((\<lambda>e. (e, root)) |`| tc_effects t) {||} = Inl (InvalidPathDependency x)"
    by (auto simp: normalize_effects_def rbind_Inl_conv split: option.splits if_splits)
  from resolve_all_dependency_error [OF contract_new_ok [OF assms(1)] subset_refl this]
  show ?thesis by (simp add: passed_empty_base_def)
qed

theorem validated_contract_has_no_dependency_cycle_witness:
  "\<exists>b. base_of [sample_base, sample_child] ''child'' = Some b
     \<and> map_of [(''base'', JArray []), (''child'', JString ''x'')] b = Some (JArray [])"
proof -
  have "normalize_effects sample_tool [(''base'', JArray []), (''child'', JString ''x'')] [RootDir]
      = Inl (InvalidPathDependency ''child'')"
    by (simp add: normalize_effects_def sample_tool_defs resolve_path_argument.simps raw_paths_def
        contract_get_def Let_def)
  from validated_contract_has_no_dependency_cycle [OF sample_tool_new this] show ?thesis
    by (simp add: sample_tool_def)
qed

end
