(* ===== verification/Gateway_Catalog.thy ===== *)
theory Gateway_Catalog
  imports Gateway_Paths
begin

text \<open>
  The pinned upstream tool catalogue, \<^verbatim>\<open>src/crates/policy/src/tool_catalog.rs\<close>: validation of a decoded
  snapshot, membership by binary search, and the parser of the generated tools reference. TOML decoding
  is a parameter; \<open>lines\<close>, \<open>strip_suffix\<close>, \<open>parse::<usize>\<close> and \<open>binary_search_by\<close> are the standard
  library's, written out.
\<close>

datatype tool_catalog_error =
    CatalogMalformed string
  | CatalogDuplicateTool string
  | EmptyToolName
  | MissingDeclaredCount
  | DeclaredCountMismatch nat nat

record tool_catalog_snapshot =
  sn_source_repository :: string
  sn_source_ref :: string
  sn_source_sha :: string
  sn_tools :: "string list"

section \<open>Standard library\<close>

text \<open>
  \<open>slice::binary_search_by\<close>: the window of candidates starts at \<open>base\<close> and has \<open>sz\<close> elements; each
  round keeps the upper half unless its first element is greater than the key.
\<close>

function bs_narrow :: "'a::linorder list \<Rightarrow> 'a \<Rightarrow> nat \<Rightarrow> nat \<Rightarrow> nat" where
  "bs_narrow xs k base sz =
     (if sz > 1 then
        let half = sz div 2; mid = base + half in
        bs_narrow xs k (if xs ! mid > k then base else mid) (sz - half)
      else base)"
  by pat_completeness auto

termination bs_narrow
  by (relation "measure (\<lambda>(xs, k, base, sz). sz)") auto

declare bs_narrow.simps [simp del]

definition binary_search :: "'a::linorder list \<Rightarrow> 'a \<Rightarrow> nat + nat" where
  "binary_search xs k =
     (if xs = [] then Inl 0
      else let base = bs_narrow xs k 0 (length xs) in
        if xs ! base = k then Inr base
        else Inl (base + (if xs ! base < k then 1 else 0)))"

definition strip_suffix :: "string \<Rightarrow> string \<Rightarrow> string option" where
  "strip_suffix suf s = (if suffix suf s then Some (take (length s - length suf) s) else None)"

definition lines :: "string \<Rightarrow> string list" where
  "lines s =
     (let ls = split_at (CHR 0x0A) s;
          kept = (if last ls = [] then butlast ls else ls) in
      map (\<lambda>l. case strip_suffix [CHR 0x0D] l of None \<Rightarrow> l | Some m \<Rightarrow> m) kept)"

definition digit_value :: "char \<Rightarrow> nat option" where
  "digit_value c = (let n = of_char c :: nat in if 48 \<le> n \<and> n \<le> 57 then Some (n - 48) else None)"

fun parse_digits :: "nat \<Rightarrow> string \<Rightarrow> nat option" where
  "parse_digits acc [] = Some acc"
| "parse_digits acc (c # cs) =
     Option.bind (digit_value c) (\<lambda>d.
       let acc' = acc * 10 + d in if acc' < 2 ^ 64 then parse_digits acc' cs else None)"

definition parse_usize :: "string \<Rightarrow> nat option" where
  "parse_usize s =
     (case s of
        [] \<Rightarrow> None
      | c # cs \<Rightarrow> if c = CHR ''+'' then (if cs = [] then None else parse_digits 0 cs)
                   else parse_digits 0 s)"

fun find_map :: "('a \<Rightarrow> 'b option) \<Rightarrow> 'a list \<Rightarrow> 'b option" where
  "find_map f [] = None"
| "find_map f (x # xs) = (case f x of Some y \<Rightarrow> Some y | None \<Rightarrow> find_map f xs)"

section \<open>Snapshots\<close>

fun validate_tools :: "string fset \<Rightarrow> string list \<Rightarrow> tool_catalog_error + unit" where
  "validate_tools seen [] = Inr ()"
| "validate_tools seen (t # ts) =
     (if blank t then Inl EmptyToolName
      else if t |\<in>| seen then Inl (CatalogDuplicateTool t)
      else validate_tools (finsert t seen) ts)"

definition snapshot_validate :: "tool_catalog_snapshot \<Rightarrow> tool_catalog_error + unit" where
  "snapshot_validate s = validate_tools {||} (sn_tools s)"

definition snapshot_from_toml_str ::
  "(string \<Rightarrow> string + tool_catalog_snapshot) \<Rightarrow> string \<Rightarrow> tool_catalog_error + tool_catalog_snapshot" where
  "snapshot_from_toml_str decode source =
     rbind (map_err CatalogMalformed (decode source)) (\<lambda>s.
     rbind (snapshot_validate s) (\<lambda>_. Inr (s\<lparr>sn_tools := sort (sn_tools s)\<rparr>)))"

definition snapshot_from_tool_names ::
  "string \<Rightarrow> string \<Rightarrow> string \<Rightarrow> string list \<Rightarrow> tool_catalog_snapshot" where
  "snapshot_from_tool_names repo ref sha names =
     \<lparr>sn_source_repository = repo, sn_source_ref = ref, sn_source_sha = sha,
      sn_tools = sorted_list_of_fset (fset_of_list names)\<rparr>"

definition snapshot_contains :: "tool_catalog_snapshot \<Rightarrow> string \<Rightarrow> bool" where
  "snapshot_contains s t \<longleftrightarrow> (case binary_search (sn_tools s) t of Inr _ \<Rightarrow> True | Inl _ \<Rightarrow> False)"

section \<open>The generated tools reference\<close>

definition declared_tool_count :: "string \<Rightarrow> nat option" where
  "declared_tool_count markdown =
     find_map (\<lambda>line.
       Option.bind (strip_prefix ''Total public tools: '' (trim line)) (\<lambda>v.
       Option.bind (strip_suffix ''.'' v) parse_usize)) (lines markdown)"

definition tool_row_name :: "string \<Rightarrow> string option" where
  "tool_row_name line =
     (let l = trim line; cells = split_at (CHR ''|'') l in
      if \<not> prefix ''| `'' l then None
      else if length cells \<le> 1 then None
      else Option.bind (strip_prefix ''`'' (trim (cells ! 1))) (\<lambda>v.
           Option.bind (strip_suffix ''`'' v) (\<lambda>name. if name = [] then None else Some name)))"

fun collect_rows :: "string list \<Rightarrow> string fset \<Rightarrow> tool_catalog_error + string fset" where
  "collect_rows [] acc = Inr acc"
| "collect_rows (l # ls) acc =
     (case tool_row_name l of
        None \<Rightarrow> collect_rows ls acc
      | Some name \<Rightarrow> if name |\<in>| acc then Inl (CatalogDuplicateTool name)
                      else collect_rows ls (finsert name acc))"

definition from_tools_reference_markdown ::
  "string \<Rightarrow> string \<Rightarrow> string \<Rightarrow> string \<Rightarrow> tool_catalog_error + tool_catalog_snapshot" where
  "from_tools_reference_markdown repo ref sha markdown =
     rbind (ok_or MissingDeclaredCount (declared_tool_count markdown)) (\<lambda>declared.
     rbind (collect_rows (lines markdown) {||}) (\<lambda>tools.
     if tools = {||}
       then Inl (CatalogMalformed ''generated tools reference contained no public tool rows'')
     else if fcard tools \<noteq> declared then Inl (DeclaredCountMismatch declared (fcard tools))
     else Inr (snapshot_from_tool_names repo ref sha (sorted_list_of_fset tools))))"

section \<open>Lemmas\<close>

lemma bs_narrow_bound:
  "sz \<ge> 1 \<Longrightarrow> base + sz \<le> length xs \<Longrightarrow> bs_narrow xs k base sz < length xs"
proof (induction xs k base sz rule: bs_narrow.induct)
  case (1 xs k base sz)
  then show ?case
    by (subst bs_narrow.simps) (auto simp: Let_def)
qed

lemma bs_narrow_finds:
  assumes "sorted xs" and "sz \<ge> 1" and "base + sz \<le> length xs"
    and "\<exists>i. base \<le> i \<and> i < base + sz \<and> xs ! i = k"
  shows "xs ! bs_narrow xs k base sz = k"
  using assms
proof (induction xs k base sz rule: bs_narrow.induct)
  case (1 xs k base sz)
  show ?case
  proof (cases "sz > 1")
    case False
    with "1.prems" show ?thesis by (subst bs_narrow.simps) (auto simp: le_less_Suc_eq)
  next
    case True
    let ?half = "sz div 2" and ?mid = "base + sz div 2"
    let ?b = "if xs ! ?mid > k then base else ?mid"
    from "1.prems"(4) obtain i where i: "base \<le> i" "i < base + sz" "xs ! i = k" by blast
    have mid: "?mid < length xs" using True "1.prems"(3) by simp
    have "\<exists>j. ?b \<le> j \<and> j < ?b + (sz - ?half) \<and> xs ! j = k"
    proof (cases "xs ! ?mid > k")
      case gt: True
      then have "i < ?mid"
        using i "1.prems"(1,3) by (metis leI linorder_not_le order.strict_trans2 sorted_nth_mono)
      with gt i True show ?thesis by (intro exI [of _ i]) auto
    next
      case le: False
      show ?thesis
      proof (cases "i \<ge> ?mid")
        case True
        with le i show ?thesis by (intro exI [of _ i]) auto
      next
        case False
        then have "xs ! i \<le> xs ! ?mid" using "1.prems"(1) mid by (intro sorted_nth_mono) auto
        with le i have "xs ! ?mid = k" by auto
        with le True show ?thesis by (intro exI [of _ ?mid]) auto
      qed
    qed
    with "1.IH" [OF True refl refl "1.prems"(1)] True "1.prems"(3)
    show ?thesis by (subst bs_narrow.simps) (auto simp: Let_def)
  qed
qed

lemma binary_search_sorted:
  assumes "sorted xs"
  shows "(\<exists>i. binary_search xs k = Inr i) \<longleftrightarrow> k \<in> set xs"
proof (cases "xs = []")
  case False
  then have "length xs \<ge> 1" by (cases xs) auto
  with bs_narrow_bound [of "length xs" 0 xs k] bs_narrow_finds [OF assms, of "length xs" 0 k]
  show ?thesis
    using False by (auto simp: binary_search_def Let_def in_set_conv_nth)
qed (simp add: binary_search_def)

lemma validate_tools_Inr:
  "validate_tools seen ts = Inr u \<longleftrightarrow>
     list_all (\<lambda>t. \<not> blank t) ts \<and> distinct ts \<and> fset seen \<inter> set ts = {}"
  by (induction ts arbitrary: seen) auto

lemma collect_rows_Inr:
  "collect_rows ls acc = Inr r \<longleftrightarrow>
     distinct (List.map_filter tool_row_name ls) \<and> fset acc \<inter> set (List.map_filter tool_row_name ls) = {}
     \<and> r = acc |\<union>| fset_of_list (List.map_filter tool_row_name ls)"
proof (induction ls arbitrary: acc)
  case (Cons l ls)
  show ?case
    by (cases "tool_row_name l") (auto simp: Cons.IH List.map_filter_simps)
qed (auto simp: List.map_filter_simps)

section \<open>Properties\<close>

text \<open>
  Catalogue lookup is exact. For a snapshot decoded and validated, or parsed from the generated
  tools reference, the binary search \<open>contains\<close> answers yes exactly for the names of the source: the
  decoded list, respectively the names in the table rows, which are as many as the document declares.
\<close>

theorem catalog_lookup_is_exact:
  "(snapshot_from_toml_str decode src = Inr s \<longrightarrow>
      (\<exists>raw. decode src = Inr raw \<and> (\<forall>t. snapshot_contains s t \<longleftrightarrow> t \<in> set (sn_tools raw))))
   \<and> (from_tools_reference_markdown repo ref sha markdown = Inr m \<longrightarrow>
      (let rows = List.map_filter tool_row_name (lines markdown) in
       (\<forall>t. snapshot_contains m t \<longleftrightarrow> t \<in> set rows) \<and> rows \<noteq> []
       \<and> declared_tool_count markdown = Some (length rows)))"
proof -
  have exact: "snapshot_contains s t \<longleftrightarrow> t \<in> set (sn_tools s)" if "sorted (sn_tools s)" for s t
    using binary_search_sorted [OF that, of t]
    by (auto simp: snapshot_contains_def split: sum.splits)
  have "\<exists>raw. decode src = Inr raw \<and> (\<forall>t. snapshot_contains s t \<longleftrightarrow> t \<in> set (sn_tools raw))"
    if "snapshot_from_toml_str decode src = Inr s"
    using that by (auto simp: snapshot_from_toml_str_def rbind_Inr_conv exact)
  moreover have "let rows = List.map_filter tool_row_name (lines markdown) in
       (\<forall>t. snapshot_contains m t \<longleftrightarrow> t \<in> set rows) \<and> rows \<noteq> []
       \<and> declared_tool_count markdown = Some (length rows)"
    if m: "from_tools_reference_markdown repo ref sha markdown = Inr m"
  proof -
    let ?rows = "List.map_filter tool_row_name (lines markdown)"
    from m have d: "distinct ?rows" "?rows \<noteq> []"
      and c: "declared_tool_count markdown = Some (fcard (fset_of_list ?rows))"
      and m': "m = snapshot_from_tool_names repo ref sha (sorted_list_of_fset (fset_of_list ?rows))"
      by (auto simp: from_tools_reference_markdown_def rbind_Inr_conv collect_rows_Inr
          split: if_splits)
    have "fcard (fset_of_list ?rows) = length ?rows"
      using d(1) by (simp add: distinct_card fcard.rep_eq fset_of_list.rep_eq)
    moreover have "snapshot_contains m t \<longleftrightarrow> t \<in> set ?rows" for t
      unfolding m' by (subst exact)
        (auto simp: snapshot_from_tool_names_def sorted_list_of_fset.rep_eq fset_of_list.rep_eq)
    ultimately show ?thesis using c d by (simp add: Let_def)
  qed
  ultimately show ?thesis by blast
qed

definition sample_catalog :: tool_catalog_snapshot where
  "sample_catalog = \<lparr>sn_source_repository = ''r'', sn_source_ref = ''m'', sn_source_sha = ''0'',
     sn_tools = [''b'', ''c'', ''a'']\<rparr>"

theorem catalog_lookup_is_exact_witness:
  "\<exists>s. snapshot_from_toml_str (\<lambda>_. Inr sample_catalog) [] = Inr s
     \<and> snapshot_contains s ''a'' \<and> \<not> snapshot_contains s ''d''"
proof -
  have "snapshot_validate sample_catalog = Inr ()"
    by (simp add: snapshot_validate_def sample_catalog_def blank_def is_white_def)
  then have s: "snapshot_from_toml_str (\<lambda>_. Inr sample_catalog) []
      = Inr (sample_catalog\<lparr>sn_tools := sort (sn_tools sample_catalog)\<rparr>)"
    by (simp add: snapshot_from_toml_str_def)
  from catalog_lookup_is_exact [THEN conjunct1, THEN mp, OF s] s show ?thesis
    by (auto simp: sample_catalog_def)
qed

end
