(* ===== verification/Gateway_Registry.thy ===== *)
theory Gateway_Registry
  imports Gateway_Effects Gateway_Catalog
begin

text \<open>
  The reviewed tool registry, \<^verbatim>\<open>src/crates/policy/src/tool_registry.rs\<close>, from the decoded TOML file on
  (\<open>toml::from_str\<close> is the parameter \<open>decode\<close>, and the embedded catalogue snapshot is an argument).
  The \<open>HashMap\<close> of entries is an association list with distinct keys. Messages that print a nested
  error keep that error as a value.
\<close>

definition TOOL_EFFECT_CONTRACT_VERSION :: u32 where
  "TOOL_EFFECT_CONTRACT_VERSION = 1"

definition OPERATION_RISK_POLICY_VERSION :: u32 where
  "OPERATION_RISK_POLICY_VERSION = 4"

datatype boolean_risk_factor = BConfirmedOverwrite

datatype risk_breadth_dimension = ItemCount | PathCount

datatype risk_rule =
    ArgumentCardinality (rule_argument: string) risk_breadth_dimension u64
      (rule_requires_effect: operation_effect) (rule_escalate_to: risk_level)
  | BooleanEquals (rule_argument: string) bool bool
      (rule_requires_effect: operation_effect) (rule_escalate_to: risk_level) boolean_risk_factor

datatype effect_contract_fault = ContractFault tool_effect_contract_error | UnknownOperationEffect string

datatype risk_rule_fault =
    RulesRequireContract
  | MinimumCountBelowTwo
  | UnknownBreadthDimension string
  | RuleArgumentAbsent string
  | RuleEffectAbsent string
  | UnknownEscalation string
  | EscalationNotStrict
  | UnknownBooleanFactor string
  | DuplicateRule

datatype tool_registry_error =
    RegistryMalformed string
  | UnknownCapability string string
  | UnknownRisk string string
  | RegistryDuplicateTool string
  | MissingContractSource
  | UnsupportedContractVersion u32
  | ContractSourceMismatch string string string
  | IncompleteEffectContract string string
  | InvalidEffectContract string effect_contract_fault
  | InvalidRiskRule string risk_rule_fault
  | StaleTool string

section \<open>Decoded entries\<close>

datatype risk_rule_raw =
    RawArgumentCardinality string string u64 string string
  | RawBooleanEquals string bool bool string string string

record path_argument_raw =
  par_argument :: string
  par_base_argument :: "string option"
  par_effects :: "string list"
  par_required :: bool
  par_default :: "string option"

record tool_entry_raw =
  ter_name :: string
  ter_capability :: string
  ter_risk :: string
  ter_arguments :: "string list option"
  ter_effects :: "string list option"
  ter_path_arguments :: "path_argument_raw list"
  ter_risk_rules :: "risk_rule_raw list"

record tool_registry_file =
  trf_contract_version :: "u32 option"
  trf_source_repository :: "string option"
  trf_source_ref :: "string option"
  trf_source_sha :: "string option"
  trf_tool :: "tool_entry_raw list"

record tool_contract_source =
  tcs_contract_version :: u32
  tcs_source_repository :: string
  tcs_source_ref :: string
  tcs_source_sha :: string

record tool_entry =
  te_capability :: capability
  te_risk :: risk_level
  te_effect_contract :: "tool_effect_contract option"
  te_risk_rules :: "risk_rule list"

record tool_registry =
  reg_entries :: "(string \<times> tool_entry) list"
  reg_source :: "tool_contract_source option"

section \<open>Parsing\<close>

definition parse_contract_source ::
  "tool_registry_file \<Rightarrow> tool_registry_error + tool_contract_source option" where
  "parse_contract_source f =
     (let field_count = of_bool (trf_contract_version f \<noteq> None) + of_bool (trf_source_repository f \<noteq> None)
          + of_bool (trf_source_ref f \<noteq> None) + of_bool (trf_source_sha f \<noteq> None) :: nat in
      if field_count = 0 then Inr None
      else if field_count \<noteq> 4 then Inl MissingContractSource
      else
        let version = (case trf_contract_version f of None \<Rightarrow> 0 | Some v \<Rightarrow> v) in
        if version \<noteq> TOOL_EFFECT_CONTRACT_VERSION then Inl (UnsupportedContractVersion version)
        else
          rbind (ok_or MissingContractSource (trf_source_repository f)) (\<lambda>repo.
          rbind (ok_or MissingContractSource (trf_source_ref f)) (\<lambda>ref.
          rbind (ok_or MissingContractSource (trf_source_sha f)) (\<lambda>sha.
          Inr (Some \<lparr>tcs_contract_version = version, tcs_source_repository = repo,
                     tcs_source_ref = ref, tcs_source_sha = sha\<rparr>)))))"

definition validate_source_fields ::
  "tool_contract_source \<Rightarrow> tool_catalog_snapshot \<Rightarrow> tool_registry_error + unit" where
  "validate_source_fields source sn =
     (case List.find (\<lambda>(field, expected, actual). expected \<noteq> actual)
        [(''source_repository'', sn_source_repository sn, tcs_source_repository source),
         (''source_ref'', sn_source_ref sn, tcs_source_ref source),
         (''source_sha'', sn_source_sha sn, tcs_source_sha source)] of
        None \<Rightarrow> Inr ()
      | Some (field, expected, actual) \<Rightarrow> Inl (ContractSourceMismatch field expected actual))"

definition validate_source ::
  "tool_registry \<Rightarrow> tool_catalog_snapshot \<Rightarrow> tool_registry_error + unit" where
  "validate_source reg sn =
     rbind (ok_or MissingContractSource (reg_source reg)) (\<lambda>s. validate_source_fields s sn)"

definition parse_effect :: "string \<Rightarrow> string \<Rightarrow> tool_registry_error + operation_effect" where
  "parse_effect tool e =
     (if e = ''read'' then Inr Read
      else if e = ''write'' then Inr Write
      else if e = ''create'' then Inr Create
      else if e = ''delete'' then Inr Delete
      else Inl (InvalidEffectContract tool (UnknownOperationEffect e)))"

definition parse_effects :: "string \<Rightarrow> string list \<Rightarrow> tool_registry_error + operation_effect list" where
  "parse_effects tool es = collect_results (parse_effect tool) es"

definition parse_path_argument ::
  "string \<Rightarrow> path_argument_raw \<Rightarrow> tool_registry_error + path_argument_contract" where
  "parse_path_argument tool p =
     rbind (parse_effects tool (par_effects p)) (\<lambda>effs.
     map_err (\<lambda>e. InvalidEffectContract tool (ContractFault e))
       (path_argument_contract_new (par_argument p) effs (par_required p) (par_default p)
          (par_base_argument p)))"

definition parse_effect_contract ::
  "tool_entry_raw \<Rightarrow> tool_contract_source option \<Rightarrow> tool_registry_error + tool_effect_contract option" where
  "parse_effect_contract raw source =
     (let has_partial_contract = ter_arguments raw \<noteq> None \<or> ter_path_arguments raw \<noteq> [] in
      case ter_effects raw of
        None \<Rightarrow>
          if has_partial_contract
          then Inl (IncompleteEffectContract (ter_name raw)
            ''effects must be declared whenever arguments or path arguments are present'')
          else Inr None
      | Some effects \<Rightarrow>
          if source = None then Inl MissingContractSource
          else
            rbind (ok_or (IncompleteEffectContract (ter_name raw)
                     ''arguments must be declared for an effectful tool'') (ter_arguments raw)) (\<lambda>args.
            rbind (parse_effects (ter_name raw) effects) (\<lambda>effs.
            rbind (collect_results (parse_path_argument (ter_name raw)) (ter_path_arguments raw)) (\<lambda>pas.
            rbind (map_err (\<lambda>e. InvalidEffectContract (ter_name raw) (ContractFault e))
                     (tool_effect_contract_new args effs pas)) (\<lambda>t. Inr (Some t))))))"

definition parse_risk_breadth_dimension ::
  "string \<Rightarrow> string \<Rightarrow> tool_registry_error + risk_breadth_dimension" where
  "parse_risk_breadth_dimension tool raw =
     (if raw = ''item_count'' then Inr ItemCount
      else if raw = ''path_count'' then Inr PathCount
      else Inl (InvalidRiskRule tool (UnknownBreadthDimension raw)))"

definition validate_rule_argument ::
  "string \<Rightarrow> tool_effect_contract \<Rightarrow> string \<Rightarrow> tool_registry_error + unit" where
  "validate_rule_argument tool t arg =
     (if arg |\<in>| tc_arguments t then Inr () else Inl (InvalidRiskRule tool (RuleArgumentAbsent arg)))"

definition contract_has_effect :: "tool_effect_contract \<Rightarrow> operation_effect \<Rightarrow> bool" where
  "contract_has_effect t e \<longleftrightarrow>
     e |\<in>| tc_effects t \<or> list_ex (\<lambda>p. e |\<in>| pa_effects p) (tc_path_arguments t)"

definition validate_rule_effect ::
  "string \<Rightarrow> tool_effect_contract \<Rightarrow> string \<Rightarrow> tool_registry_error + operation_effect" where
  "validate_rule_effect tool t raw =
     rbind (parse_effects tool [raw]) (\<lambda>es.
       if contract_has_effect t (hd es) then Inr (hd es)
       else Inl (InvalidRiskRule tool (RuleEffectAbsent raw)))"

definition validate_rule_escalation ::
  "string \<Rightarrow> risk_level \<Rightarrow> string \<Rightarrow> tool_registry_error + risk_level" where
  "validate_rule_escalation tool base raw =
     rbind (ok_or (InvalidRiskRule tool (UnknownEscalation raw)) (risk_parse raw)) (\<lambda>r.
       if r \<le> base then Inl (InvalidRiskRule tool EscalationNotStrict) else Inr r)"

fun parse_risk_rule ::
  "string \<Rightarrow> risk_level \<Rightarrow> tool_effect_contract \<Rightarrow> risk_rule_raw \<Rightarrow> tool_registry_error + risk_rule" where
  "parse_risk_rule tool base t (RawArgumentCardinality arg breadth minimum eff esc) =
     rbind (validate_rule_argument tool t arg) (\<lambda>_.
     if minimum < 2 then Inl (InvalidRiskRule tool MinimumCountBelowTwo)
     else
       rbind (parse_risk_breadth_dimension tool breadth) (\<lambda>dim.
       rbind (validate_rule_effect tool t eff) (\<lambda>e.
       rbind (validate_rule_escalation tool base esc) (\<lambda>r.
       Inr (ArgumentCardinality arg dim minimum e r)))))"
| "parse_risk_rule tool base t (RawBooleanEquals arg expected dflt eff esc factor) =
     rbind (validate_rule_argument tool t arg) (\<lambda>_.
     rbind (validate_rule_effect tool t eff) (\<lambda>e.
     rbind (validate_rule_escalation tool base esc) (\<lambda>r.
     if factor = ''confirmed_overwrite'' then Inr (BooleanEquals arg expected dflt e r BConfirmedOverwrite)
     else Inl (InvalidRiskRule tool (UnknownBooleanFactor factor)))))"

fun parse_rules_loop ::
  "string \<Rightarrow> risk_level \<Rightarrow> tool_effect_contract \<Rightarrow> risk_rule_raw list \<Rightarrow> risk_rule list
   \<Rightarrow> tool_registry_error + risk_rule list" where
  "parse_rules_loop tool base t [] rules = Inr rules"
| "parse_rules_loop tool base t (raw # raws) rules =
     rbind (parse_risk_rule tool base t raw) (\<lambda>rule.
     if rule \<in> set rules then Inl (InvalidRiskRule tool DuplicateRule)
     else parse_rules_loop tool base t raws (rules @ [rule]))"

definition parse_risk_rules ::
  "tool_entry_raw \<Rightarrow> risk_level \<Rightarrow> tool_effect_contract option \<Rightarrow> tool_registry_error + risk_rule list" where
  "parse_risk_rules raw base ec =
     (if ter_risk_rules raw = [] then Inr []
      else rbind (ok_or (InvalidRiskRule (ter_name raw) RulesRequireContract) ec) (\<lambda>t.
        parse_rules_loop (ter_name raw) base t (ter_risk_rules raw) []))"

definition parse_entry ::
  "tool_contract_source option \<Rightarrow> tool_entry_raw \<Rightarrow> tool_registry_error + tool_entry" where
  "parse_entry source raw =
     rbind (ok_or (UnknownCapability (ter_name raw) (ter_capability raw))
              (capability_parse (ter_capability raw))) (\<lambda>cap.
     rbind (ok_or (UnknownRisk (ter_name raw) (ter_risk raw)) (risk_parse (ter_risk raw))) (\<lambda>risk.
     rbind (parse_effect_contract raw source) (\<lambda>ec.
     rbind (parse_risk_rules raw risk ec) (\<lambda>rules.
     Inr \<lparr>te_capability = cap, te_risk = risk, te_effect_contract = ec, te_risk_rules = rules\<rparr>))))"

fun parse_entries ::
  "tool_contract_source option \<Rightarrow> tool_entry_raw list \<Rightarrow> (string \<times> tool_entry) list
   \<Rightarrow> tool_registry_error + (string \<times> tool_entry) list" where
  "parse_entries source [] entries = Inr entries"
| "parse_entries source (raw # raws) entries =
     rbind (parse_entry source raw) (\<lambda>entry.
     if map_of entries (ter_name raw) \<noteq> None then Inl (RegistryDuplicateTool (ter_name raw))
     else parse_entries source raws ((ter_name raw, entry) # entries))"

definition registry_from_toml_str ::
  "(string \<Rightarrow> string + tool_registry_file) \<Rightarrow> tool_catalog_snapshot \<Rightarrow> string
   \<Rightarrow> tool_registry_error + tool_registry" where
  "registry_from_toml_str decode embedded text =
     rbind (map_err RegistryMalformed (decode text)) (\<lambda>f.
     rbind (parse_contract_source f) (\<lambda>source.
     rbind (parse_entries source (trf_tool f) []) (\<lambda>entries.
     let reg = \<lparr>reg_entries = entries, reg_source = source\<rparr> in
     if source \<noteq> None then rbind (validate_source reg embedded) (\<lambda>_. Inr reg) else Inr reg)))"

section \<open>Queries\<close>

definition registry_resolve :: "tool_registry \<Rightarrow> string \<Rightarrow> (capability \<times> risk_level) option" where
  "registry_resolve reg tool =
     map_option (\<lambda>e. (te_capability e, te_risk e)) (map_of (reg_entries reg) tool)"

definition registry_effect_contract :: "tool_registry \<Rightarrow> string \<Rightarrow> tool_effect_contract option" where
  "registry_effect_contract reg tool = Option.bind (map_of (reg_entries reg) tool) te_effect_contract"

definition registry_risk_rules :: "tool_registry \<Rightarrow> string \<Rightarrow> risk_rule list" where
  "registry_risk_rules reg tool =
     (case map_of (reg_entries reg) tool of None \<Rightarrow> [] | Some e \<Rightarrow> te_risk_rules e)"

record tool_registry_coverage =
  cov_classified :: "string list"
  cov_unclassified :: "string list"
  cov_stale :: "string list"
  cov_effect_modelled :: "string list"
  cov_effect_unmodelled :: "string list"
  cov_catalog_total :: nat
  cov_registry_total :: nat

definition effect_contract_names :: "tool_registry \<Rightarrow> string list" where
  "effect_contract_names reg =
     sort (map fst (filter (\<lambda>(_, e). te_effect_contract e \<noteq> None) (reg_entries reg)))"

definition coverage_against_tool_names :: "tool_registry \<Rightarrow> string list \<Rightarrow> tool_registry_coverage" where
  "coverage_against_tool_names reg names =
     (let catalog = fset_of_list names;
          registry = fset_of_list (map fst (reg_entries reg));
          effect_modelled = effect_contract_names reg;
          modelled = fset_of_list effect_modelled in
      \<lparr>cov_classified = sorted_list_of_fset (catalog |\<inter>| registry),
       cov_unclassified = sorted_list_of_fset (catalog |-| registry),
       cov_stale = sorted_list_of_fset (registry |-| catalog),
       cov_effect_modelled = effect_modelled,
       cov_effect_unmodelled = sorted_list_of_fset (registry |-| modelled),
       cov_catalog_total = fcard catalog,
       cov_registry_total = fcard registry\<rparr>)"

definition coverage_against ::
  "tool_registry \<Rightarrow> tool_catalog_snapshot \<Rightarrow> tool_registry_coverage" where
  "coverage_against reg sn = coverage_against_tool_names reg (sn_tools sn)"

definition try_embedded ::
  "(string \<Rightarrow> string + tool_registry_file) \<Rightarrow> tool_catalog_snapshot \<Rightarrow> string
   \<Rightarrow> tool_registry_error + tool_registry" where
  "try_embedded decode embedded asset =
     rbind (registry_from_toml_str decode embedded asset) (\<lambda>reg.
     if reg_source reg = None then Inl MissingContractSource
     else
       (case cov_stale (coverage_against reg embedded) of
          stale # _ \<Rightarrow> Inl (StaleTool stale)
        | [] \<Rightarrow> Inr reg))"

section \<open>What a loaded registry promises\<close>

definition rule_ok :: "risk_level \<Rightarrow> tool_effect_contract \<Rightarrow> risk_rule \<Rightarrow> bool" where
  "rule_ok base t rule \<longleftrightarrow> base < rule_escalate_to rule \<and> rule_argument rule |\<in>| tc_arguments t
     \<and> contract_has_effect t (rule_requires_effect rule)
     \<and> (case rule of ArgumentCardinality _ _ m _ _ \<Rightarrow> 2 \<le> m | _ \<Rightarrow> True)"

definition entry_ok :: "tool_contract_source option \<Rightarrow> tool_entry \<Rightarrow> bool" where
  "entry_ok source e \<longleftrightarrow>
     (case te_effect_contract e of
        None \<Rightarrow> te_risk_rules e = []
      | Some t \<Rightarrow> source \<noteq> None \<and> contract_ok (tc_path_arguments t)
          \<and> (tc_effects t \<noteq> {||} \<or> tc_path_arguments t \<noteq> [])
          \<and> (\<forall>r \<in> set (te_risk_rules e). rule_ok (te_risk e) t r))"

text \<open>
  The trait \<open>ToolCapabilityResolver\<close> as a record of its three methods, and the contract the policy
  engine relies on: a loaded resolver knows every tool it has an effect contract for, its contracts are
  validated, and its rules only raise the risk of tools that have a contract.
\<close>

record tool_capability_resolver =
  rs_resolve :: "string \<Rightarrow> (capability \<times> risk_level) option"
  rs_effect_contract :: "string \<Rightarrow> tool_effect_contract option"
  rs_risk_rules :: "string \<Rightarrow> risk_rule list"

definition registry_resolver :: "tool_registry \<Rightarrow> tool_capability_resolver" where
  "registry_resolver reg =
     \<lparr>rs_resolve = registry_resolve reg, rs_effect_contract = registry_effect_contract reg,
      rs_risk_rules = registry_risk_rules reg\<rparr>"

definition registry_loaded :: "tool_registry \<Rightarrow> bool" where
  "registry_loaded reg \<longleftrightarrow>
     (\<exists>decode embedded text. registry_from_toml_str decode embedded text = Inr reg)"

locale tool_resolver =
  fixes loaded :: "'r \<Rightarrow> bool"
    and view :: "'r \<Rightarrow> tool_capability_resolver"
  assumes contract_known: "loaded r \<Longrightarrow> rs_effect_contract (view r) tool = Some t \<Longrightarrow>
      \<exists>cr. rs_resolve (view r) tool = Some cr"
    and contract_valid: "loaded r \<Longrightarrow> rs_effect_contract (view r) tool = Some t \<Longrightarrow>
      contract_ok (tc_path_arguments t)"
    and rules_raise: "loaded r \<Longrightarrow> rs_resolve (view r) tool = Some (cap, base) \<Longrightarrow>
      rule \<in> set (rs_risk_rules (view r) tool) \<Longrightarrow> base < rule_escalate_to rule"
    and rules_covered: "loaded r \<Longrightarrow> rule \<in> set (rs_risk_rules (view r) tool) \<Longrightarrow>
      \<exists>t. rs_effect_contract (view r) tool = Some t \<and> rule_argument rule |\<in>| tc_arguments t
        \<and> contract_has_effect t (rule_requires_effect rule)"
begin

lemma unmodelled_has_no_rules:
  assumes "loaded r" and "rs_effect_contract (view r) tool = None"
  shows "rs_risk_rules (view r) tool = []"
  using rules_covered [OF assms(1), of _ tool] assms(2)
  by (cases "rs_risk_rules (view r) tool") auto

end

lemma parse_risk_rule_ok: "parse_risk_rule tool base t raw = Inr rule \<Longrightarrow> rule_ok base t rule"
  by (cases raw)
    (auto simp: rbind_Inr_conv validate_rule_argument_def validate_rule_effect_def
      validate_rule_escalation_def rule_ok_def not_less not_le split: if_splits)

lemma parse_rules_loop_ok:
  "parse_rules_loop tool base t raws rules = Inr rules' \<Longrightarrow> \<forall>r \<in> set rules. rule_ok base t r
     \<Longrightarrow> \<forall>r \<in> set rules'. rule_ok base t r"
  by (induction tool base t raws rules rule: parse_rules_loop.induct)
    (auto simp: rbind_Inr_conv split: if_splits dest: parse_risk_rule_ok)

lemma tool_effect_contract_new_nonempty:
  "tool_effect_contract_new args effs pas = Inr t \<Longrightarrow> tc_effects t \<noteq> {||} \<or> tc_path_arguments t \<noteq> []"
  by (auto simp: tool_effect_contract_new_def rbind_Inr_conv split: if_splits)

lemma parse_effect_contract_Some:
  assumes "parse_effect_contract raw source = Inr (Some t)"
  shows "source \<noteq> None \<and> contract_ok (tc_path_arguments t)
    \<and> (tc_effects t \<noteq> {||} \<or> tc_path_arguments t \<noteq> [])"
  using assms
  by (fastforce simp: parse_effect_contract_def Let_def rbind_Inr_conv
      dest: contract_new_ok tool_effect_contract_new_nonempty split: option.splits if_splits)

lemma parse_entry_ok: "parse_entry source raw = Inr e \<Longrightarrow> entry_ok source e"
  by (auto simp: parse_entry_def rbind_Inr_conv entry_ok_def parse_risk_rules_def
      dest: parse_effect_contract_Some parse_rules_loop_ok split: option.splits if_splits)

lemma parse_entries_ok:
  "parse_entries source raws es = Inr es' \<Longrightarrow> \<forall>e \<in> snd ` set es. entry_ok source e
     \<Longrightarrow> \<forall>e \<in> snd ` set es'. entry_ok source e"
proof (induction source raws es rule: parse_entries.induct)
  case (2 source raw raws es)
  then obtain x where "parse_entry source raw = Inr x" "map_of es (ter_name raw) = None"
    "parse_entries source raws ((ter_name raw, x) # es) = Inr es'"
    by (auto simp: rbind_Inr_conv split: if_splits)
  with 2 parse_entry_ok show ?case by auto
qed simp

lemma parse_entries_distinct:
  "parse_entries source raws es = Inr es' \<Longrightarrow> distinct (map fst es) \<Longrightarrow> distinct (map fst es')"
  by (induction source raws es rule: parse_entries.induct)
    (auto simp: rbind_Inr_conv map_of_eq_None_iff split: if_splits)

lemma registry_from_toml_str_Inr:
  assumes "registry_from_toml_str decode embedded text = Inr reg"
  obtains f where "decode text = Inr f" and "parse_contract_source f = Inr (reg_source reg)"
    and "parse_entries (reg_source reg) (trf_tool f) [] = Inr (reg_entries reg)"
    and "\<And>s. reg_source reg = Some s \<Longrightarrow> validate_source_fields s embedded = Inr ()"
  using assms
  by (auto simp: registry_from_toml_str_def rbind_Inr_conv Let_def validate_source_def
      split: if_splits)

lemma registry_entries_ok:
  assumes "registry_from_toml_str decode embedded text = Inr reg" and "map_of (reg_entries reg) n = Some e"
  shows "entry_ok (reg_source reg) e"
proof -
  obtain f :: tool_registry_file where "parse_entries (reg_source reg) (trf_tool f) [] = Inr (reg_entries reg)"
    by (rule registry_from_toml_str_Inr [OF assms(1)]) blast
  from parse_entries_ok [OF this] map_of_SomeD [OF assms(2)] show ?thesis by force
qed

lemma validate_source_fields_Inr:
  "validate_source_fields s sn = Inr u \<longleftrightarrow>
     tcs_source_repository s = sn_source_repository sn \<and> tcs_source_ref s = sn_source_ref sn
     \<and> tcs_source_sha s = sn_source_sha sn"
  by (auto simp: validate_source_fields_def)

interpretation registry: tool_resolver registry_loaded registry_resolver
proof
  have ok: "entry_ok (reg_source reg) e" if "registry_loaded reg" "map_of (reg_entries reg) tool = Some e"
    for reg tool e
    using that registry_entries_ok unfolding registry_loaded_def by blast
  fix reg assume l: "registry_loaded reg"
  show "\<exists>cr. rs_resolve (registry_resolver reg) tool = Some cr"
    if "rs_effect_contract (registry_resolver reg) tool = Some t" for tool t
    using that by (auto simp: registry_resolver_def registry_effect_contract_def registry_resolve_def
        bind_eq_Some_conv)
  show "contract_ok (tc_path_arguments t)"
    if "rs_effect_contract (registry_resolver reg) tool = Some t" for tool t
    using that ok [OF l] by (fastforce simp: registry_resolver_def registry_effect_contract_def
        bind_eq_Some_conv entry_ok_def)
  show "base < rule_escalate_to rule"
    if "rs_resolve (registry_resolver reg) tool = Some (cap, base)"
      "rule \<in> set (rs_risk_rules (registry_resolver reg) tool)" for tool cap base rule
    using that ok [OF l, of tool] by (auto simp: registry_resolver_def registry_resolve_def
        registry_risk_rules_def entry_ok_def rule_ok_def split: option.splits)
  show "\<exists>t. rs_effect_contract (registry_resolver reg) tool = Some t
        \<and> rule_argument rule |\<in>| tc_arguments t \<and> contract_has_effect t (rule_requires_effect rule)"
    if "rule \<in> set (rs_risk_rules (registry_resolver reg) tool)" for tool rule
  proof -
    from that obtain e where e: "map_of (reg_entries reg) tool = Some e" "rule \<in> set (te_risk_rules e)"
      by (cases "map_of (reg_entries reg) tool") (auto simp: registry_resolver_def registry_risk_rules_def)
    with ok [OF l e(1)] show ?thesis
      by (auto simp: registry_resolver_def registry_effect_contract_def entry_ok_def rule_ok_def
          split: option.splits)
  qed
qed

section \<open>Properties\<close>

text \<open>
  C21: Startup accepts only a pinned, fresh and validated registry. If the embedded registry loads, its
  source fields equal those of the catalogue snapshot, every tool it resolves is in the catalogue, and
  for every tool with an effect contract that contract is validated (no undeclared or cyclic base) and
  each of its risk rules strictly raises the tool's base risk and refers to a declared argument and
  effect; a tool without a contract has no rules.
\<close>

theorem embedded_registry_is_pinned_fresh_and_validated:
  assumes "try_embedded decode embedded asset = Inr reg"
  shows "(\<exists>s. reg_source reg = Some s \<and> tcs_source_sha s = sn_source_sha embedded
        \<and> tcs_source_ref s = sn_source_ref embedded
        \<and> tcs_source_repository s = sn_source_repository embedded)
    \<and> (\<forall>tool cap base. registry_resolve reg tool = Some (cap, base) \<longrightarrow>
        tool \<in> set (sn_tools embedded)
        \<and> (\<forall>t. registry_effect_contract reg tool = Some t \<longrightarrow> contract_ok (tc_path_arguments t)
             \<and> (\<forall>rule \<in> set (registry_risk_rules reg tool).
                  base < rule_escalate_to rule \<and> rule_argument rule |\<in>| tc_arguments t
                  \<and> contract_has_effect t (rule_requires_effect rule)))
        \<and> (registry_effect_contract reg tool = None \<longrightarrow> registry_risk_rules reg tool = []))"
proof -
  from assms have l: "registry_from_toml_str decode embedded asset = Inr reg"
    and src: "reg_source reg \<noteq> None" and fresh: "cov_stale (coverage_against reg embedded) = []"
    by (auto simp: try_embedded_def rbind_Inr_conv split: if_splits list.splits)
  have loaded: "registry_loaded reg" using l unfolding registry_loaded_def by blast
  have views: "rs_resolve (registry_resolver reg) = registry_resolve reg"
    "rs_effect_contract (registry_resolver reg) = registry_effect_contract reg"
    "rs_risk_rules (registry_resolver reg) = registry_risk_rules reg"
    by (simp_all add: registry_resolver_def)
  note laws = registry.contract_valid [OF loaded, unfolded views]
    registry.rules_raise [OF loaded, unfolded views]
    registry.rules_covered [OF loaded, unfolded views]
    registry.unmodelled_has_no_rules [OF loaded, unfolded views]
  obtain s where "reg_source reg = Some s" "validate_source_fields s embedded = Inr ()"
    using src by (rule_tac registry_from_toml_str_Inr [OF l]) blast
  moreover have "tool \<in> set (sn_tools embedded)" if "registry_resolve reg tool = Some cr" for tool cr
  proof -
    from fresh have "fset_of_list (map fst (reg_entries reg)) |-| fset_of_list (sn_tools embedded) = {||}"
      by (simp add: coverage_against_def coverage_against_tool_names_def Let_def
          sorted_list_of_fset.rep_eq fset_inject [symmetric])
    moreover have "tool \<in> fst ` set (reg_entries reg)"
      using that by (force simp: registry_resolve_def dest: map_of_SomeD)
    ultimately show ?thesis
      by (metis fminusI fset_of_list_elem fempty_iff list.set_map)
  qed
  moreover have "base < rule_escalate_to rule \<and> rule_argument rule |\<in>| tc_arguments t
      \<and> contract_has_effect t (rule_requires_effect rule)"
    if "registry_resolve reg tool = Some (cap, base)" "registry_effect_contract reg tool = Some t"
      "rule \<in> set (registry_risk_rules reg tool)" for tool cap base t rule
    using laws(2) [OF that(1,3)] laws(3) [OF that(3)] that(2) by auto
  ultimately show ?thesis
    using laws(1,4) by (auto simp: validate_source_fields_Inr)
qed

definition sample_entry_raw :: tool_entry_raw where
  "sample_entry_raw = \<lparr>ter_name = ''a'', ter_capability = ''pcb.write'', ter_risk = ''normal'',
     ter_arguments = Some [''overwrite''], ter_effects = Some [''write''], ter_path_arguments = [],
     ter_risk_rules = [RawBooleanEquals ''overwrite'' True False ''write'' ''high'' ''confirmed_overwrite'']\<rparr>"

definition sample_registry_file :: tool_registry_file where
  "sample_registry_file = \<lparr>trf_contract_version = Some 1, trf_source_repository = Some ''r'',
     trf_source_ref = Some ''m'', trf_source_sha = Some ''0'', trf_tool = [sample_entry_raw]\<rparr>"

definition sample_registry :: tool_registry where
  "sample_registry =
     \<lparr>reg_entries = [(''a'', \<lparr>te_capability = PCB_WRITE, te_risk = Normal,
        te_effect_contract = Some \<lparr>tc_arguments = {|''overwrite''|}, tc_effects = {|Write|}, tc_path_arguments = []\<rparr>,
        te_risk_rules = [BooleanEquals ''overwrite'' True False Write High BConfirmedOverwrite]\<rparr>)],
      reg_source = Some \<lparr>tcs_contract_version = 1, tcs_source_repository = ''r'', tcs_source_ref = ''m'',
        tcs_source_sha = ''0''\<rparr>\<rparr>"

lemma sample_registry_loads: "try_embedded (\<lambda>_. Inr sample_registry_file) sample_catalog [] = Inr sample_registry"
proof -
  have contract: "tool_effect_contract_new [''overwrite''] [Write] []
      = Inr \<lparr>tc_arguments = {|''overwrite''|}, tc_effects = {|Write|}, tc_path_arguments = []\<rparr>"
    by (simp add: tool_effect_contract_new_def blank_def is_white_def validate_path_dependencies_def)
  have entry: "parse_entry (reg_source sample_registry) sample_entry_raw = Inr (snd (hd (reg_entries sample_registry)))"
    by (simp add: parse_entry_def sample_entry_raw_def sample_registry_def capability_parse_def
        capability_ALL_def risk_parse_def parse_effect_contract_def parse_effects_def parse_effect_def
        contract parse_risk_rules_def validate_rule_argument_def validate_rule_effect_def
        contract_has_effect_def validate_rule_escalation_def less_eq_risk_level_def Let_def)
  have "registry_from_toml_str (\<lambda>_. Inr sample_registry_file) sample_catalog [] = Inr sample_registry"
    using entry by (simp add: registry_from_toml_str_def sample_registry_file_def sample_registry_def
        sample_catalog_def parse_contract_source_def TOOL_EFFECT_CONTRACT_VERSION_def Let_def
        validate_source_def validate_source_fields_def sample_entry_raw_def)
  then show ?thesis
    by (simp add: try_embedded_def sample_registry_def coverage_against_def
        coverage_against_tool_names_def sample_catalog_def sorted_list_of_fset.rep_eq Let_def)
qed

theorem embedded_registry_is_pinned_fresh_and_validated_witness:
  "registry_resolve sample_registry ''a'' = Some (PCB_WRITE, Normal) \<and> ''a'' \<in> set (sn_tools sample_catalog)
   \<and> (\<exists>s. reg_source sample_registry = Some s \<and> tcs_source_sha s = sn_source_sha sample_catalog)"
  using embedded_registry_is_pinned_fresh_and_validated [OF sample_registry_loads]
  by (auto simp: registry_resolve_def sample_registry_def)

end
