(* ===== verification/Gateway_Risk.thy ===== *)
theory Gateway_Risk
  imports Gateway_Registry
begin

text \<open>
  Deterministic operation-risk assessment, \<^verbatim>\<open>src/crates/policy/src/risk_assessment.rs\<close>: the reviewed
  rules are walked in order; each may fail, and each that fires raises the effective risk and records a
  factor. Counts are \<open>u64\<close>; \<open>u64::try_from\<close> on a \<open>usize\<close> cannot fail on the supported targets, and
  the model keeps the failing branch.
\<close>

fun array_count :: "json \<Rightarrow> risk_assessment_error + u64" where
  "array_count (JArray vs) =
     (if length vs \<ge> 2 ^ 64 then Inl ArgumentCardinalityOverflow else Inr (of_nat (length vs)))"
| "array_count _ = Inl ArgumentNotArray"

fun rule_factor ::
  "arguments \<Rightarrow> normalized_effects \<Rightarrow> risk_rule \<Rightarrow> risk_assessment_error + risk_factor option" where
  "rule_factor args n (ArgumentCardinality arg dim minimum eff esc) =
     (if paths_for n eff = [] then Inl RequiredEffectMissing
      else
        rbind (ok_or RequiredArgumentMissing (map_of args arg)) (\<lambda>v.
        rbind (array_count v) (\<lambda>observed.
        Inr (if observed \<ge> minimum then Some (BulkArgumentCardinality arg observed minimum esc)
             else None))))"
| "rule_factor args n (BooleanEquals arg expected dflt eff esc factor) =
     (if paths_for n eff = [] then Inl RequiredEffectMissing
      else
        rbind (case map_of args arg of
                 Some (JBool b) \<Rightarrow> Inr b
               | Some _ \<Rightarrow> Inl ArgumentNotBoolean
               | None \<Rightarrow> Inr dflt) (\<lambda>resolved.
        Inr (if resolved = expected
             then (case factor of BConfirmedOverwrite \<Rightarrow> Some (ConfirmedOverwrite arg esc))
             else None)))"

fun assess_rules ::
  "arguments \<Rightarrow> normalized_effects \<Rightarrow> risk_rule list \<Rightarrow> risk_level \<Rightarrow> risk_factor list
   \<Rightarrow> risk_assessment_error + risk_level \<times> risk_factor list" where
  "assess_rules args n [] effective factors = Inr (effective, factors)"
| "assess_rules args n (rule # rules) effective factors =
     rbind (rule_factor args n rule) (\<lambda>f.
     case f of
       None \<Rightarrow> assess_rules args n rules effective factors
     | Some factor \<Rightarrow> assess_rules args n rules (max effective (rule_escalate_to rule)) (factors @ [factor]))"

definition assess_operation_risk ::
  "risk_rule list \<Rightarrow> arguments \<Rightarrow> normalized_effects \<Rightarrow> risk_level \<Rightarrow> risk_assessment_error + risk_assessment" where
  "assess_operation_risk rules args n base =
     rbind (assess_rules args n rules base []) (\<lambda>(effective, factors).
       risk_assessment_new OPERATION_RISK_POLICY_VERSION base effective factors)"

section \<open>Lemmas\<close>

fun factor_escalation :: "risk_factor \<Rightarrow> risk_level" where
  "factor_escalation (BulkArgumentCardinality _ _ _ r) = r"
| "factor_escalation (ConfirmedOverwrite _ r) = r"

lemma rule_factor_escalation:
  "rule_factor args n rule = Inr (Some f) \<Longrightarrow> factor_escalation f = rule_escalate_to rule"
  by (cases rule)
    (auto simp: rbind_Inr_conv split: if_split_asm boolean_risk_factor.split_asm)

lemma paths_for_Nil: "paths_for n e = [] \<longleftrightarrow> (\<forall>p. (e, p) |\<notin>| n)"
  by (auto simp: paths_for_def filter_empty_conv sorted_list_of_fset.rep_eq)

lemma assess_rules_Inr:
  "assess_rules args n rules eff fs = Inr (eff', fs') \<Longrightarrow>
     \<exists>new. fs' = fs @ new \<and> eff' = fold (\<lambda>f r. max r (factor_escalation f)) new eff
       \<and> (\<forall>rule \<in> set rules. \<exists>f. rule_factor args n rule = Inr f)
       \<and> set new = {f. \<exists>rule \<in> set rules. rule_factor args n rule = Inr (Some f)}"
proof (induction rules arbitrary: eff fs)
  case (Cons rule rules)
  then obtain f where f: "rule_factor args n rule = Inr f" by (auto simp: rbind_Inr_conv)
  show ?case
  proof (cases f)
    case None
    with f Cons.prems have "assess_rules args n rules eff fs = Inr (eff', fs')" by simp
    from Cons.IH [OF this] f None show ?thesis by auto
  next
    case (Some factor)
    with f Cons.prems have
      "assess_rules args n rules (max eff (rule_escalate_to rule)) (fs @ [factor]) = Inr (eff', fs')" by simp
    from Cons.IH [OF this] obtain new where new: "fs' = (fs @ [factor]) @ new"
      "eff' = fold (\<lambda>f r. max r (factor_escalation f)) new (max eff (rule_escalate_to rule))"
      "\<forall>rule \<in> set rules. \<exists>f. rule_factor args n rule = Inr f"
      "set new = {f. \<exists>rule \<in> set rules. rule_factor args n rule = Inr (Some f)}" by blast
    with f Some rule_factor_escalation [of args n rule factor] show ?thesis
      by (intro exI [of _ "factor # new"]) auto
  qed
qed simp

lemma fold_max_factors:
  "fold (\<lambda>f r. max r (factor_escalation f)) fs base = Max (insert base (factor_escalation ` set fs))"
proof (induction fs arbitrary: base)
  case (Cons f fs)
  have "Max (insert (max base (factor_escalation f)) (factor_escalation ` set fs))
      = Max (insert base (insert (factor_escalation f) (factor_escalation ` set fs)))"
    by (cases "factor_escalation ` set fs = {}") (simp_all add: max.assoc)
  with Cons show ?case by simp
qed simp

lemma assess_operation_risk_Inr:
  "assess_operation_risk rules args n base = Inr a \<longleftrightarrow>
     (\<exists>eff fs. assess_rules args n rules base [] = Inr (eff, fs) \<and> base \<le> eff
       \<and> a = \<lparr>ra_policy_version = OPERATION_RISK_POLICY_VERSION, ra_base_risk = base,
              ra_effective_risk = eff, ra_factors = fs\<rparr>)"
  by (auto simp: assess_operation_risk_def rbind_Inr_conv risk_assessment_new_Inr)

section \<open>Properties\<close>

text \<open>
  Risk only goes up, and only for a recorded reason. A successful assessment keeps the tool's base
  risk, its factors are exactly those of the rules that fire, and its effective risk is the maximum of
  the base risk and the factors' escalations; it carries the current policy version. The
  below-base error cannot occur.
\<close>

theorem assessed_risk_is_max_of_base_and_fired_rules:
  "assess_operation_risk rules args n base \<noteq> Inl EffectiveRiskBelowBase
   \<and> (\<forall>a. assess_operation_risk rules args n base = Inr a \<longrightarrow>
        ra_policy_version a = OPERATION_RISK_POLICY_VERSION \<and> ra_base_risk a = base
        \<and> ra_effective_risk a = Max (insert base (factor_escalation ` set (ra_factors a)))
        \<and> set (ra_factors a) = {f. \<exists>rule \<in> set rules. rule_factor args n rule = Inr (Some f)}
        \<and> (\<forall>rule \<in> set rules. \<exists>f. rule_factor args n rule = Inr f))"
proof (rule conjI)
  have ge: "base \<le> eff" if "assess_rules args n rules base [] = Inr (eff, fs)" for eff fs
  proof -
    from assess_rules_Inr [OF that] obtain new
      where "eff = fold (\<lambda>f r. max r (factor_escalation f)) new base" by blast
    then have "eff = Max (insert base (factor_escalation ` set new))" by (simp only: fold_max_factors)
    then show ?thesis by simp
  qed
  have rf: "rule_factor args n rule \<noteq> Inl EffectiveRiskBelowBase" for rule
  proof -
    have "array_count v \<noteq> Inl EffectiveRiskBelowBase" for v by (cases v) auto
    then show ?thesis
      by (cases rule) (auto simp: rbind_Inl_conv split: json.splits option.splits)
  qed
  have "assess_rules args n rules eff fs \<noteq> Inl EffectiveRiskBelowBase" for eff fs
    by (induction rules arbitrary: eff fs) (auto simp: rbind_Inl_conv rf split: option.splits)
  with ge show "assess_operation_risk rules args n base \<noteq> Inl EffectiveRiskBelowBase"
    by (auto simp: assess_operation_risk_def rbind_Inl_conv risk_assessment_new_def)
next
  show "\<forall>a. assess_operation_risk rules args n base = Inr a \<longrightarrow>
        ra_policy_version a = OPERATION_RISK_POLICY_VERSION \<and> ra_base_risk a = base
        \<and> ra_effective_risk a = Max (insert base (factor_escalation ` set (ra_factors a)))
        \<and> set (ra_factors a) = {f. \<exists>rule \<in> set rules. rule_factor args n rule = Inr (Some f)}
        \<and> (\<forall>rule \<in> set rules. \<exists>f. rule_factor args n rule = Inr f)"
  proof (intro allI impI)
    fix a assume "assess_operation_risk rules args n base = Inr a"
    then obtain eff fs where r: "assess_rules args n rules base [] = Inr (eff, fs)"
      and a: "a = \<lparr>ra_policy_version = OPERATION_RISK_POLICY_VERSION, ra_base_risk = base,
              ra_effective_risk = eff, ra_factors = fs\<rparr>"
      by (auto simp: assess_operation_risk_Inr)
    from assess_rules_Inr [OF r] obtain new where "fs = new"
      "eff = fold (\<lambda>f r. max r (factor_escalation f)) new base"
      "\<forall>rule \<in> set rules. \<exists>f. rule_factor args n rule = Inr f"
      "set new = {f. \<exists>rule \<in> set rules. rule_factor args n rule = Inr (Some f)}" by auto
    then show "ra_policy_version a = OPERATION_RISK_POLICY_VERSION \<and> ra_base_risk a = base
        \<and> ra_effective_risk a = Max (insert base (factor_escalation ` set (ra_factors a)))
        \<and> set (ra_factors a) = {f. \<exists>rule \<in> set rules. rule_factor args n rule = Inr (Some f)}
        \<and> (\<forall>rule \<in> set rules. \<exists>f. rule_factor args n rule = Inr f)"
      by (simp add: a fold_max_factors)
  qed
qed

theorem assessed_risk_is_max_of_base_and_fired_rules_witness:
  "\<exists>a. assess_operation_risk [BooleanEquals ''overwrite'' True False Write High BConfirmedOverwrite]
      [(''overwrite'', JBool True)] {|(Write, [RootDir])|} Normal = Inr a
    \<and> ra_effective_risk a = High \<and> ra_factors a = [ConfirmedOverwrite ''overwrite'' High]"
proof -
  let ?rules = "[BooleanEquals ''overwrite'' True False Write High BConfirmedOverwrite]"
  have p: "paths_for {|(Write, [RootDir])|} Write \<noteq> []" by (auto simp: paths_for_Nil)
  have nh: "max Normal High = High" "Normal \<le> High"
    by (simp_all add: max_def less_eq_risk_level_def)
  obtain a where a: "assess_operation_risk ?rules [(''overwrite'', JBool True)] {|(Write, [RootDir])|} Normal = Inr a"
    "ra_factors a = [ConfirmedOverwrite ''overwrite'' High]"
    by (simp add: assess_operation_risk_Inr p nh)
  from assessed_risk_is_max_of_base_and_fired_rules [THEN conjunct2, THEN spec, THEN mp, OF a(1)] a
  show ?thesis by (auto simp: nh)
qed

end
