(* ===== verification/Gateway_Workspace.thy ===== *)
theory Gateway_Workspace
  imports Gateway_Paths
begin

text \<open>
  Workspace boundary enforcement, \<^verbatim>\<open>src/crates/workspace/src/boundary.rs\<close>, and the workspace table,
  \<^verbatim>\<open>src/crates/workspace/src/repository.rs\<close>.

  The file system is a record of the three questions the code asks: \<open>Path::exists\<close>,
  \<open>dunce::canonicalize\<close> (an error carries its message) and whether \<open>symlink_metadata\<close> reports a
  symbolic link. \<open>posix\<close> instantiates it with POSIX path resolution over a tree of directories, files
  and links, for concrete examples. A storage call takes the fault it meets, if any: \<open>Some message\<close>
  makes it fail and leaves the table unchanged. Rows hold typed values: the text encoding of ids and
  instants belongs to the \<open>ulid\<close> and \<open>time\<close> crates.
\<close>

section \<open>File system\<close>

record filesystem =
  fs_exists :: "path \<Rightarrow> bool"
  fs_canonicalize :: "path \<Rightarrow> string + path"
  fs_is_symlink :: "path \<Rightarrow> bool"

datatype node = Dir | File | Link path

fun walk :: "nat \<Rightarrow> (path \<Rightarrow> node option) \<Rightarrow> path \<Rightarrow> component list \<Rightarrow> path option" where
  "walk 0 t cur cs = None"
| "walk (Suc n) t cur [] = Some cur"
| "walk (Suc n) t cur (RootDir # cs) = walk n t [RootDir] cs"
| "walk (Suc n) t cur (CurDir # cs) = walk n t cur cs"
| "walk (Suc n) t cur (ParentDir # cs) =
     walk n t (case path_parent cur of None \<Rightarrow> cur | Some p \<Rightarrow> p) cs"
| "walk (Suc n) t cur (Normal_c s # cs) =
     (case t (cur @ [Normal_c s]) of
        None \<Rightarrow> None
      | Some (Link target) \<Rightarrow> walk n t cur (target @ cs)
      | Some Dir \<Rightarrow> walk n t (cur @ [Normal_c s]) cs
      | Some File \<Rightarrow> if cs = [] then Some (cur @ [Normal_c s]) else None)"

definition posix :: "(path \<Rightarrow> node option) \<Rightarrow> filesystem" where
  "posix t =
     \<lparr>fs_exists = (\<lambda>p. walk 64 t [] p \<noteq> None),
      fs_canonicalize = (\<lambda>p. case walk 64 t [] p of None \<Rightarrow> Inl ''not found'' | Some q \<Rightarrow> Inr q),
      fs_is_symlink = (\<lambda>p. p \<noteq> [] \<and> (\<exists>q target. walk 64 t [] (butlast p) = Some q
         \<and> t (q @ [last p]) = Some (Link target)))\<rparr>"

section \<open>The boundary\<close>

datatype workspace_error =
    RelativeRoot
  | RootNotFound string
  | PathEscapesRoot
  | SymlinkEscapesRoot

fun workspace_error_code :: "workspace_error \<Rightarrow> string" where
  "workspace_error_code RelativeRoot = ''WORKSPACE_RELATIVE_ROOT''"
| "workspace_error_code (RootNotFound _) = ''WORKSPACE_ROOT_NOT_FOUND''"
| "workspace_error_code PathEscapesRoot = ''WORKSPACE_PATH_ESCAPES_ROOT''"
| "workspace_error_code SymlinkEscapesRoot = ''WORKSPACE_SYMLINK_ESCAPES_ROOT''"

record workspace_authorization =
  ws_workspace_id :: workspace_id
  ws_display_name :: string
  ws_canonical_root :: path
  ws_created_at :: instant
  ws_enabled :: bool

definition workspace_authorization_new ::
  "filesystem \<Rightarrow> workspace_id \<Rightarrow> instant \<Rightarrow> string \<Rightarrow> path \<Rightarrow> workspace_error + workspace_authorization" where
  "workspace_authorization_new fs wid now name root =
     (if \<not> is_absolute root then Inl RelativeRoot
      else rbind (map_err RootNotFound (fs_canonicalize fs root)) (\<lambda>canonical.
        Inr \<lparr>ws_workspace_id = wid, ws_display_name = name, ws_canonical_root = canonical,
             ws_created_at = now, ws_enabled = True\<rparr>))"

fun normalize_step :: "path \<Rightarrow> component \<Rightarrow> path" where
  "normalize_step result CurDir = result"
| "normalize_step result ParentDir = (case path_parent result of None \<Rightarrow> result | Some p \<Rightarrow> p)"
| "normalize_step result c = path_join result [c]"

definition lexical_normalize :: "path \<Rightarrow> path" where
  "lexical_normalize p = foldl normalize_step [] p"

function split_loop :: "(path \<Rightarrow> bool) \<Rightarrow> path \<Rightarrow> path \<Rightarrow> path \<times> path" where
  "split_loop exists_p existing remaining =
     (if existing = [] \<or> exists_p existing then (existing, remaining)
      else
        (case path_file_name existing of
           None \<Rightarrow> (existing, remaining)
         | Some name \<Rightarrow>
             (case path_parent existing of
                None \<Rightarrow> (existing, remaining)
              | Some p \<Rightarrow> split_loop exists_p p (Normal_c name # remaining))))"
  by pat_completeness auto

termination split_loop
  by (relation "measure (\<lambda>(e, existing, r). length existing)")
    (auto simp: path_parent_def split: if_splits)

declare split_loop.simps [simp del]

definition split_existing_prefix :: "(path \<Rightarrow> bool) \<Rightarrow> path \<Rightarrow> path \<times> path" where
  "split_existing_prefix exists_p p = split_loop exists_p p []"

definition is_contained :: "path \<Rightarrow> path \<Rightarrow> bool" where
  "is_contained root candidate \<longleftrightarrow>
     \<not> length candidate < length root \<and> take (length root) candidate = root"

fun symlink_scan :: "filesystem \<Rightarrow> path \<Rightarrow> path \<Rightarrow> component list \<Rightarrow> bool" where
  "symlink_scan fs root current [] = False"
| "symlink_scan fs root current (c # cs) =
     (let next = path_join current [c] in
      if fs_is_symlink fs next
         \<and> (case fs_canonicalize fs current of Inl _ \<Rightarrow> False | Inr q \<Rightarrow> is_contained root q)
      then True
      else symlink_scan fs root next cs)"

definition symlink_inside_workspace :: "filesystem \<Rightarrow> path \<Rightarrow> path \<Rightarrow> bool" where
  "symlink_inside_workspace fs root p = symlink_scan fs root [] p"

definition resolve_within ::
  "filesystem \<Rightarrow> workspace_authorization \<Rightarrow> path \<Rightarrow> workspace_error + path" where
  "resolve_within fs w requested =
     (let normalized = lexical_normalize requested;
          (existing_prefix, remaining) = split_existing_prefix (fs_exists fs) normalized in
      rbind (if existing_prefix = [] then Inr (ws_canonical_root w)
             else map_err RootNotFound (fs_canonicalize fs existing_prefix)) (\<lambda>canonical_existing.
      let candidate = (if remaining = [] then canonical_existing
                       else path_join canonical_existing remaining) in
      if \<not> is_contained (ws_canonical_root w) candidate
      then Inl (if symlink_inside_workspace fs (ws_canonical_root w) existing_prefix
                then SymlinkEscapesRoot else PathEscapesRoot)
      else Inr candidate))"

section \<open>The workspace table\<close>

type_synonym workspace_table = "workspace_authorization list"

definition merge_workspace ::
  "workspace_authorization \<Rightarrow> workspace_authorization \<Rightarrow> workspace_authorization" where
  "merge_workspace stored w =
     stored\<lparr>ws_display_name := ws_display_name w, ws_enabled := ws_enabled w\<rparr>"

text \<open>\<open>workspace_id\<close> is the primary key and \<open>canonical_root\<close> is \<open>UNIQUE\<close>.\<close>

definition workspace_save ::
  "string option \<Rightarrow> workspace_authorization \<Rightarrow> workspace_table \<Rightarrow> (workspace_error + unit) \<times> workspace_table" where
  "workspace_save io w rows =
     (case io of
        Some msg \<Rightarrow> (Inl (RootNotFound msg), rows)
      | None \<Rightarrow>
          if table_lookup ws_workspace_id (ws_workspace_id w) rows = None
             \<and> ws_canonical_root w \<in> ws_canonical_root ` set rows
          then (Inl (RootNotFound ''UNIQUE constraint failed: workspaces.canonical_root''), rows)
          else (Inr (), upsert ws_workspace_id merge_workspace w rows))"

definition workspace_load ::
  "string option \<Rightarrow> workspace_id \<Rightarrow> workspace_table \<Rightarrow> workspace_error + workspace_authorization option" where
  "workspace_load io wid rows =
     (case io of Some msg \<Rightarrow> Inl (RootNotFound msg) | None \<Rightarrow> Inr (table_lookup ws_workspace_id wid rows))"

definition workspace_list ::
  "string option \<Rightarrow> workspace_table \<Rightarrow> workspace_error + workspace_authorization list" where
  "workspace_list io rows = (case io of Some msg \<Rightarrow> Inl (RootNotFound msg) | None \<Rightarrow> Inr rows)"

definition workspace_remove ::
  "string option \<Rightarrow> workspace_id \<Rightarrow> workspace_table \<Rightarrow> (workspace_error + unit) \<times> workspace_table" where
  "workspace_remove io wid rows =
     (case io of
        Some msg \<Rightarrow> (Inl (RootNotFound msg), rows)
      | None \<Rightarrow> (Inr (), table_delete ws_workspace_id wid rows))"

section \<open>Lemmas\<close>

lemma is_contained_iff_prefix: "is_contained root c \<longleftrightarrow> prefix root c"
  by (auto simp: is_contained_def prefix_def) (metis append_take_drop_id)

lemma split_loop_parts:
  assumes "split_loop ex p r = (a, b)"
  obtains m where "a @ m = p" and "b = m @ r" and "\<forall>c \<in> set m. \<exists>s. c = Normal_c s"
proof -
  have "\<exists>m. a @ m = p \<and> b = m @ r \<and> (\<forall>c \<in> set m. \<exists>s. c = Normal_c s)"
    using assms
  proof (induction ex p r rule: split_loop.induct)
    case (1 ex p r)
    show ?case
    proof (cases "p = [] \<or> ex p \<or> path_file_name p = None \<or> path_parent p = None")
      case True
      with "1.prems" have "a = p \<and> b = r"
        unfolding split_loop.simps [of ex p r] by (auto split: option.splits if_splits)
      then show ?thesis by simp
    next
      case False
      then obtain s q where p: "p \<noteq> []" "\<not> ex p" "path_file_name p = Some s" "path_parent p = Some q"
        by auto
      then have ps: "p = q @ [Normal_c s]"
        by (auto simp: path_file_name_def path_parent_def split: component.splits if_splits)
          (metis append_butlast_last_id)
      from "1.prems" p have "split_loop ex q (Normal_c s # r) = (a, b)"
        unfolding split_loop.simps [of ex p r] by simp
      from "1.IH" [OF _ p(3,4) this] p obtain m where
        "a @ m = q" "b = m @ Normal_c s # r" "\<forall>c \<in> set m. \<exists>s. c = Normal_c s" by auto
      with ps show ?thesis by (intro exI [of _ "m @ [Normal_c s]"]) auto
    qed
  qed
  then show thesis using that by blast
qed

lemma split_existing_whole: "ex p \<Longrightarrow> split_existing_prefix ex p = (p, [])"
  by (simp add: split_existing_prefix_def split_loop.simps)

lemma join_normals:
  assumes "\<forall>c \<in> set m. \<exists>s. c = Normal_c s"
  shows "path_join base m = base @ m"
proof -
  have "filter (\<lambda>c. c \<noteq> CurDir) m = m" using assms by (intro filter_True) auto
  moreover have "\<not> is_absolute m" using assms by (cases m) (auto simp: is_absolute_def)
  ultimately show ?thesis by (auto simp: path_join_def)
qed

lemma resolve_within_Inr:
  assumes "resolve_within fs w p = Inr c"
  obtains a m q where "a @ m = lexical_normalize p" and "\<forall>x \<in> set m. \<exists>s. x = Normal_c s"
    and "split_existing_prefix (fs_exists fs) (lexical_normalize p) = (a, m)"
    and "a = [] \<and> q = ws_canonical_root w \<or> a \<noteq> [] \<and> fs_canonicalize fs a = Inr q"
    and "c = q @ m" and "prefix (ws_canonical_root w) c"
proof -
  obtain a m where s: "split_existing_prefix (fs_exists fs) (lexical_normalize p) = (a, m)"
    by (cases "split_existing_prefix (fs_exists fs) (lexical_normalize p)")
  then have parts: "a @ m = lexical_normalize p" "\<forall>x \<in> set m. \<exists>s. x = Normal_c s"
    unfolding split_existing_prefix_def by (auto elim: split_loop_parts)
  from assms s obtain q where q: "(if a = [] then Inr (ws_canonical_root w)
      else map_err RootNotFound (fs_canonicalize fs a)) = Inr q"
    and c: "c = (if m = [] then q else path_join q m)" "is_contained (ws_canonical_root w) c"
    by (auto simp: resolve_within_def rbind_Inr_conv Let_def split: if_splits)
  have "c = q @ m" using c(1) join_normals [OF parts(2)] by (cases "m = []") auto
  moreover have "a = [] \<and> q = ws_canonical_root w \<or> a \<noteq> [] \<and> fs_canonicalize fs a = Inr q"
    using q by (auto split: if_splits)
  ultimately show thesis using that parts s c(2) by (simp add: is_contained_iff_prefix)
qed

text \<open>Lexical normalization of an absolute path keeps it absolute and removes every dot component.\<close>

definition plain :: "path \<Rightarrow> bool" where
  "plain p \<longleftrightarrow> CurDir \<notin> set p \<and> ParentDir \<notin> set p"

lemma normalize_step_plain: "plain r \<Longrightarrow> plain (normalize_step r c)"
  by (cases c)
    (auto simp: plain_def path_join_def is_absolute_def path_parent_def dest: in_set_butlastD
      split: option.splits if_splits)

lemma lexical_normalize_plain: "plain (lexical_normalize p)"
proof -
  have "plain r \<Longrightarrow> plain (foldl normalize_step r p)" for r
    by (induction p arbitrary: r) (auto intro: normalize_step_plain)
  then show ?thesis by (simp add: lexical_normalize_def plain_def)
qed

text \<open>A path whose components are a leading root and normal names is its own normal form.\<close>

lemma lexical_normalize_id:
  assumes "\<forall>x \<in> set ns. \<exists>s. x = Normal_c s"
  shows "lexical_normalize (RootDir # ns) = RootDir # ns"
proof -
  have "foldl normalize_step (RootDir # r) ns = RootDir # r @ ns" for r
    using assms
  proof (induction ns arbitrary: r)
    case (Cons x ns)
    then obtain s where "x = Normal_c s" by auto
    with Cons.IH [of "r @ [x]"] Cons.prems show ?case
      by (simp add: path_join_def is_absolute_def)
  qed simp
  from this [of "[]"] show ?thesis
    by (simp add: lexical_normalize_def path_join_def is_absolute_def)
qed

lemma merge_workspace_key [simp]:
  "ws_workspace_id (merge_workspace s w) = ws_workspace_id s"
  "ws_canonical_root (merge_workspace s w) = ws_canonical_root s"
  by (simp_all add: merge_workspace_def)

interpretation workspace_rows: upsert_table ws_workspace_id merge_workspace
  by unfold_locales simp

lemma walk_plain: "walk n t cur cs = Some q \<Longrightarrow> plain cur \<Longrightarrow> plain q"
proof (induction n t cur cs arbitrary: q rule: walk.induct)
  case (5 n t cur cs)
  have "plain (case path_parent cur of None \<Rightarrow> cur | Some p \<Rightarrow> p)"
    using "5.prems"(2) by (auto simp: plain_def path_parent_def dest: in_set_butlastD split: if_splits)
  with 5 show ?case by simp
next
  case (6 n t cur s cs)
  have "plain (cur @ [Normal_c s])" using "6.prems"(2) by (simp add: plain_def)
  with 6 show ?case by (auto split: option.splits node.splits if_splits)
qed (auto simp: plain_def)

text \<open>What the boundary relies on of \<open>dunce::canonicalize\<close>: its results contain no dot components.\<close>

definition canonical_fs :: "filesystem \<Rightarrow> bool" where
  "canonical_fs fs \<longleftrightarrow> (\<forall>a q. fs_canonicalize fs a = Inr q \<longrightarrow> plain q)"

lemma posix_canonical: "canonical_fs (posix t)"
  by (auto simp: canonical_fs_def posix_def plain_def split: option.splits dest!: walk_plain)

text \<open>Every operation on the table keeps ids and canonical roots unique.\<close>

definition workspaces_ok :: "workspace_table \<Rightarrow> bool" where
  "workspaces_ok rows \<longleftrightarrow> unique_keys ws_workspace_id rows \<and> unique_keys ws_canonical_root rows"

lemma workspace_roots_upsert:
  "map ws_canonical_root (upsert ws_workspace_id merge_workspace w rows) =
     (if ws_workspace_id w \<in> ws_workspace_id ` set rows then map ws_canonical_root rows
      else map ws_canonical_root rows @ [ws_canonical_root w])"
  by (induction rows) auto

inductive workspace_step :: "workspace_table \<Rightarrow> workspace_table \<Rightarrow> bool" where
  save: "workspace_step rows (snd (workspace_save io w rows))"
| remove: "workspace_step rows (snd (workspace_remove io wid rows))"

lemma workspace_step_ok: "workspace_step rows rows' \<Longrightarrow> workspaces_ok rows \<Longrightarrow> workspaces_ok rows'"
proof (induction rule: workspace_step.induct)
  case (save rows io w)
  show ?case
  proof (cases "io = None \<and> \<not> (table_lookup ws_workspace_id (ws_workspace_id w) rows = None
      \<and> ws_canonical_root w \<in> ws_canonical_root ` set rows)")
    case True
    then have "snd (workspace_save io w rows) = upsert ws_workspace_id merge_workspace w rows"
      by (auto simp: workspace_save_def)
    moreover have "unique_keys ws_canonical_root (upsert ws_workspace_id merge_workspace w rows)"
      using True save by (auto simp: unique_keys_def workspace_roots_upsert workspaces_ok_def
          table_lookup_None image_iff)
    ultimately show ?thesis using save by (simp add: workspaces_ok_def workspace_rows.unique_upsert)
  next
    case False
    then have "snd (workspace_save io w rows) = rows"
      by (cases io) (auto simp: workspace_save_def)
    with save show ?thesis by simp
  qed
next
  case (remove rows io wid)
  then show ?case
    by (cases io) (auto simp: workspace_remove_def workspaces_ok_def unique_delete
        unique_keys_def table_delete_def distinct_map_filter)
qed

section \<open>Properties\<close>

text \<open>
  C20: Containment. An accepted path lies inside the canonical root by whole components and contains no
  dot component, provided canonicalization returns dot-free paths; and for an existing absolute path
  without dot components the decision is exactly containment of its canonical location: it is accepted,
  as that location, if and only if the canonical root is a component-wise prefix of it.
\<close>

theorem accepted_path_is_inside_the_workspace:
  assumes "canonical_fs fs" and "plain (ws_canonical_root w)"
  shows "(resolve_within fs w p = Inr c \<longrightarrow> prefix (ws_canonical_root w) c \<and> plain c)
    \<and> (p = RootDir # map Normal_c names \<and> fs_exists fs p \<longrightarrow>
        (resolve_within fs w p = Inr c \<longleftrightarrow>
           fs_canonicalize fs p = Inr c \<and> prefix (ws_canonical_root w) c))"
proof (intro conjI impI)
  assume "resolve_within fs w p = Inr c"
  then obtain a m q where m: "\<forall>x \<in> set m. \<exists>s. x = Normal_c s"
    and q: "a = [] \<and> q = ws_canonical_root w \<or> a \<noteq> [] \<and> fs_canonicalize fs a = Inr q"
    and c: "c = q @ m" "prefix (ws_canonical_root w) c"
    by (rule resolve_within_Inr)
  have "plain q" using q assms unfolding canonical_fs_def by blast
  moreover have "plain m" using m by (auto simp: plain_def)
  ultimately show "prefix (ws_canonical_root w) c" "plain c" using c by (auto simp: plain_def)
next
  assume p: "p = RootDir # map Normal_c names \<and> fs_exists fs p"
  then have n: "lexical_normalize p = p" using lexical_normalize_id [of "map Normal_c names"] by auto
  have s: "split_existing_prefix (fs_exists fs) p = (p, [])" using p by (metis split_existing_whole)
  have "p \<noteq> []" using p by simp
  then show "resolve_within fs w p = Inr c \<longleftrightarrow>
      fs_canonicalize fs p = Inr c \<and> prefix (ws_canonical_root w) c"
    by (auto simp: resolve_within_def n s Let_def rbind_Inr_conv is_contained_iff_prefix split: if_splits)
qed

text \<open>A small tree: the workspace \<open>/w\<close>, a sibling \<open>/w2\<close>, and a link out of the workspace.\<close>

definition sample_tree :: "path \<Rightarrow> node option" where
  "sample_tree p =
     (if p = [RootDir, Normal_c ''w''] \<or> p = [RootDir, Normal_c ''w2''] \<or> p = [RootDir, Normal_c ''out'']
         \<or> p = [RootDir, Normal_c ''out'', Normal_c ''d''] then Some Dir
      else if p = [RootDir, Normal_c ''w'', Normal_c ''a''] \<or> p = [RootDir, Normal_c ''w2'', Normal_c ''a'']
         \<or> p = [RootDir, Normal_c ''out'', Normal_c ''secret''] then Some File
      else if p = [RootDir, Normal_c ''w'', Normal_c ''link'']
         then Some (Link [RootDir, Normal_c ''out'', Normal_c ''d''])
      else if p = [RootDir, Normal_c ''w'', Normal_c ''dangling'']
         then Some (Link [RootDir, Normal_c ''out'', Normal_c ''new''])
      else None)"

definition sample_workspace :: workspace_authorization where
  "sample_workspace = \<lparr>ws_workspace_id = WorkspaceId 1, ws_display_name = ''w'',
     ws_canonical_root = [RootDir, Normal_c ''w''], ws_created_at = 0, ws_enabled = True\<rparr>"

lemma sample_walks:
  "walk 64 sample_tree [] [RootDir, Normal_c ''w''] = Some [RootDir, Normal_c ''w'']"
  "walk 64 sample_tree [] [RootDir, Normal_c ''w'', Normal_c ''a''] = Some [RootDir, Normal_c ''w'', Normal_c ''a'']"
  "walk 64 sample_tree [] [RootDir, Normal_c ''w2'', Normal_c ''a''] = Some [RootDir, Normal_c ''w2'', Normal_c ''a'']"
  "walk 64 sample_tree [] [RootDir, Normal_c ''w'', Normal_c ''secret''] = None"
  "walk 64 sample_tree [] [RootDir, Normal_c ''w'', Normal_c ''dangling''] = None"
  "walk 64 sample_tree [] [RootDir, Normal_c ''w'', Normal_c ''link'', ParentDir, Normal_c ''secret'']
     = Some [RootDir, Normal_c ''out'', Normal_c ''secret'']"
  by code_simp+

lemma sample_fs:
  "fs_exists (posix sample_tree) = (\<lambda>p. walk 64 sample_tree [] p \<noteq> None)"
  "fs_canonicalize (posix sample_tree) =
     (\<lambda>p. case walk 64 sample_tree [] p of None \<Rightarrow> Inl ''not found'' | Some q \<Rightarrow> Inr q)"
  by (simp_all add: posix_def)

lemmas sample_resolve = resolve_within_def lexical_normalize_def path_join_def is_absolute_def
  sample_fs sample_walks split_existing_prefix_def split_loop.simps path_file_name_def path_parent_def
  sample_workspace_def Let_def is_contained_def

theorem accepted_path_is_inside_the_workspace_witness:
  "resolve_within (posix sample_tree) sample_workspace [RootDir, Normal_c ''w'', Normal_c ''a'']
     = Inr [RootDir, Normal_c ''w'', Normal_c ''a'']
   \<and> resolve_within (posix sample_tree) sample_workspace [RootDir, Normal_c ''w2'', Normal_c ''a'']
     \<noteq> Inr [RootDir, Normal_c ''w2'', Normal_c ''a'']"
proof -
  have root: "plain (ws_canonical_root sample_workspace)" by (simp add: sample_workspace_def plain_def)
  show ?thesis
    using accepted_path_is_inside_the_workspace [where fs = "posix sample_tree" and w = sample_workspace
        and p = "[RootDir, Normal_c ''w'', Normal_c ''a'']" and names = "[''w'', ''a'']"
        and c = "[RootDir, Normal_c ''w'', Normal_c ''a'']", OF posix_canonical root]
      accepted_path_is_inside_the_workspace [where fs = "posix sample_tree" and w = sample_workspace
        and p = "[RootDir, Normal_c ''w2'', Normal_c ''a'']" and names = "[''w2'', ''a'']"
        and c = "[RootDir, Normal_c ''w2'', Normal_c ''a'']", OF posix_canonical root]
    by (simp add: sample_fs sample_walks) (simp add: sample_workspace_def)
qed

text \<open>
  Two accepted requests whose operating-system meaning lies outside the workspace: dots are resolved
  before links, and a dangling link does not exist, so it counts as a name to be created.
\<close>

lemma dotdot_through_link_is_accepted_but_leaves_workspace:
  "resolve_within (posix sample_tree) sample_workspace
       [RootDir, Normal_c ''w'', Normal_c ''link'', ParentDir, Normal_c ''secret'']
     = Inr [RootDir, Normal_c ''w'', Normal_c ''secret'']
   \<and> fs_canonicalize (posix sample_tree)
       [RootDir, Normal_c ''w'', Normal_c ''link'', ParentDir, Normal_c ''secret'']
     = Inr [RootDir, Normal_c ''out'', Normal_c ''secret'']"
  by (simp add: sample_resolve)

lemma dangling_link_is_accepted_but_points_outside:
  "resolve_within (posix sample_tree) sample_workspace [RootDir, Normal_c ''w'', Normal_c ''dangling'']
     = Inr [RootDir, Normal_c ''w'', Normal_c ''dangling'']
   \<and> sample_tree [RootDir, Normal_c ''w'', Normal_c ''dangling'']
     = Some (Link [RootDir, Normal_c ''out'', Normal_c ''new''])"
  by (simp add: sample_resolve) (simp add: sample_tree_def)

text \<open>
  A workspace id never moves. Whatever is saved or removed, with whatever storage faults, ids and
  canonical roots stay unique, and as long as a row with a given id is present its canonical root and
  creation time are those of the first save.
\<close>

theorem workspace_root_is_fixed_at_first_save:
  assumes "workspaces_ok rows" and "workspace_step rows rows'"
  shows "workspaces_ok rows'
    \<and> (\<forall>wid w w'. table_lookup ws_workspace_id wid rows = Some w \<longrightarrow>
         table_lookup ws_workspace_id wid rows' = Some w' \<longrightarrow>
         ws_canonical_root w' = ws_canonical_root w \<and> ws_created_at w' = ws_created_at w)"
proof (intro conjI allI impI)
  show "workspaces_ok rows'" using assms by (blast intro: workspace_step_ok)
  fix wid w w'
  assume old: "table_lookup ws_workspace_id wid rows = Some w"
    and new: "table_lookup ws_workspace_id wid rows' = Some w'"
  from assms(2) old new have "w' = w \<or> (\<exists>v. w' = merge_workspace w v)"
  proof (induction rule: workspace_step.induct)
    case (save rows io v)
    then show ?case
      by (auto simp: workspace_save_def workspace_rows.lookup_upsert split: option.splits if_splits)
  next
    case (remove rows io v)
    then show ?case
      by (auto simp: workspace_remove_def lookup_delete split: option.splits if_splits)
  qed
  then show "ws_canonical_root w' = ws_canonical_root w" "ws_created_at w' = ws_created_at w"
    by (auto simp: merge_workspace_def)
qed

theorem workspace_root_is_fixed_at_first_save_witness:
  "\<exists>rows'. workspace_step [sample_workspace] rows'
     \<and> table_lookup ws_workspace_id (WorkspaceId 1) rows'
       = Some (sample_workspace\<lparr>ws_enabled := False\<rparr>)
     \<and> workspaces_ok rows'"
proof -
  let ?v = "sample_workspace\<lparr>ws_canonical_root := [RootDir], ws_enabled := False\<rparr>"
  have ok: "workspaces_ok [sample_workspace]" by (simp add: workspaces_ok_def unique_keys_def)
  have s: "workspace_step [sample_workspace] (snd (workspace_save None ?v [sample_workspace]))"
    by (rule workspace_step.save)
  from workspace_root_is_fixed_at_first_save [OF ok s] s show ?thesis
    by (intro exI [of _ "snd (workspace_save None ?v [sample_workspace])"])
      (simp add: workspace_save_def merge_workspace_def sample_workspace_def)
qed

end
