(* ===== verification/Gateway_Policy.thy ===== *)
theory Gateway_Policy
  imports Gateway_Authorization Gateway_Risk Gateway_Workspace
begin

text \<open>
  The policy evaluator, \<^verbatim>\<open>src/crates/policy/src/engine.rs\<close>: the ordered checks that turn an operation
  request, the grant that answers it and the target workspace into Allow, Deny or RequireApproval. The
  engine is generic in its tool resolver, so it takes the resolver record; the clock is the instant
  \<open>now\<close>; the file system is an argument because the containment check reads it.
\<close>

datatype deny_reason =
    DMalformedRequest
  | DSessionNotActive
  | DSessionExpired
  | DSessionRevoked
  | DOneShotGrantConsumed
  | DAuthorizationNotEstablished
  | DPrincipalBindingMismatch
  | DWorkspaceNotAuthorized
  | DPathEscapesWorkspace
  | DUnknownTool
  | DUnmodelledToolContract
  | DMalformedToolArguments
  | DCapabilityNotGranted

datatype approval_reason = HighRiskOperation

datatype policy_decision =
    Allow capability risk_assessment
  | Deny deny_reason
  | RequireApproval approval_reason risk_assessment capability

definition normalize_operation_effects ::
  "tool_capability_resolver \<Rightarrow> operation_request \<Rightarrow> workspace_authorization
   \<Rightarrow> deny_reason + normalized_effects" where
  "normalize_operation_effects rs rq w =
     (if blank (op_tool_name rq) then Inl DMalformedRequest
      else if rs_resolve rs (op_tool_name rq) = None then Inl DUnknownTool
      else
        rbind (ok_or DUnmodelledToolContract (rs_effect_contract rs (op_tool_name rq))) (\<lambda>contract.
        map_err (\<lambda>e. case e of NormalizedNoEffects \<Rightarrow> DUnmodelledToolContract | _ \<Rightarrow> DMalformedToolArguments)
          (normalize_effects contract (op_arguments rq) (ws_canonical_root w))))"

fun deny_of_assessment :: "risk_assessment_error \<Rightarrow> deny_reason" where
  "deny_of_assessment RequiredArgumentMissing = DMalformedToolArguments"
| "deny_of_assessment ArgumentNotArray = DMalformedToolArguments"
| "deny_of_assessment ArgumentNotBoolean = DMalformedToolArguments"
| "deny_of_assessment ArgumentCardinalityOverflow = DMalformedToolArguments"
| "deny_of_assessment RequiredEffectMissing = DUnmodelledToolContract"
| "deny_of_assessment EffectiveRiskBelowBase = DUnmodelledToolContract"

definition evaluate_with_grant ::
  "tool_capability_resolver \<Rightarrow> filesystem \<Rightarrow> operation_request \<Rightarrow> access_grant
   \<Rightarrow> workspace_authorization \<Rightarrow> instant \<Rightarrow> policy_decision" where
  "evaluate_with_grant rs fs rq g w now =
     (if blank (op_tool_name rq) then Deny DMalformedRequest
      else if op_session_id rq \<noteq> gr_subject_session_id g then Deny DAuthorizationNotEstablished
      else if gr_status g = Revoked then Deny DSessionRevoked
      else if gr_status g = Expired then Deny DSessionExpired
      else if gr_status g = Consumed then Deny DOneShotGrantConsumed
      else if gr_status g \<noteq> Active then Deny DSessionNotActive
      else if now \<ge> gr_expires_at g then Deny DSessionExpired
      else if op_workspace_id rq \<noteq> ws_workspace_id w \<or> \<not> allows_workspace g (op_workspace_id rq)
        then Deny DWorkspaceNotAuthorized
      else
        (case normalize_operation_effects rs rq w of
           Inl reason \<Rightarrow> Deny reason
         | Inr effects \<Rightarrow>
             if list_ex (\<lambda>(_, p). case resolve_within fs w p of Inl _ \<Rightarrow> True | Inr _ \<Rightarrow> False)
                  (effects_iter effects)
             then Deny DPathEscapesWorkspace
             else
               (case rs_resolve rs (op_tool_name rq) of
                  None \<Rightarrow> Deny DUnknownTool
                | Some (cap, risk) \<Rightarrow>
                    if \<not> allows_capability g cap then Deny DCapabilityNotGranted
                    else
                      (case assess_operation_risk (rs_risk_rules rs (op_tool_name rq)) (op_arguments rq)
                          effects risk of
                         Inl e \<Rightarrow> Deny (deny_of_assessment e)
                       | Inr assessment \<Rightarrow>
                           if ra_effective_risk assessment \<ge> High
                           then RequireApproval HighRiskOperation assessment cap
                           else Allow cap assessment))))"

definition evaluate ::
  "(ulid \<Rightarrow> string) \<Rightarrow> tool_capability_resolver \<Rightarrow> filesystem \<Rightarrow> operation_request \<Rightarrow> session
   \<Rightarrow> workspace_authorization \<Rightarrow> instant \<Rightarrow> policy_decision" where
  "evaluate put rs fs rq s w now =
     (case grant_from_legacy_session put s of
        Inr (Some g) \<Rightarrow> evaluate_with_grant rs fs rq g w now
      | Inr None \<Rightarrow>
          Deny (case ses_status s of
                  SRevoked \<Rightarrow> DSessionRevoked
                | SExpired \<Rightarrow> DSessionExpired
                | _ \<Rightarrow> DAuthorizationNotEstablished)
      | Inl _ \<Rightarrow> Deny DAuthorizationNotEstablished)"

section \<open>What a decision other than Deny means\<close>

text \<open>
  The specification of the evaluator: the conjunction of every check, with the effects, the capability
  and the assessment they establish.
\<close>

definition permitted ::
  "tool_capability_resolver \<Rightarrow> filesystem \<Rightarrow> operation_request \<Rightarrow> access_grant
   \<Rightarrow> workspace_authorization \<Rightarrow> instant \<Rightarrow> capability \<Rightarrow> risk_assessment \<Rightarrow> bool" where
  "permitted rs fs rq g w now cap a \<longleftrightarrow>
     \<not> blank (op_tool_name rq) \<and> op_session_id rq = gr_subject_session_id g
     \<and> grant_is_usable_at g now
     \<and> op_workspace_id rq = ws_workspace_id w \<and> allows_workspace g (ws_workspace_id w)
     \<and> (\<exists>base contract n.
          rs_resolve rs (op_tool_name rq) = Some (cap, base) \<and> allows_capability g cap
          \<and> rs_effect_contract rs (op_tool_name rq) = Some contract
          \<and> normalize_effects contract (op_arguments rq) (ws_canonical_root w) = Inr n
          \<and> (\<forall>e p. (e, p) |\<in>| n \<longrightarrow> (\<exists>q. resolve_within fs w p = Inr q))
          \<and> assess_operation_risk (rs_risk_rules rs (op_tool_name rq)) (op_arguments rq) n base = Inr a)"

fun decision_permits :: "policy_decision \<Rightarrow> (capability \<times> risk_assessment) option" where
  "decision_permits (Allow cap a) = Some (cap, a)"
| "decision_permits (RequireApproval _ a cap) = Some (cap, a)"
| "decision_permits (Deny _) = None"

lemma effects_all_inside:
  "\<not> list_ex (\<lambda>(_, p). case resolve_within fs w p of Inl _ \<Rightarrow> True | Inr _ \<Rightarrow> False) (effects_iter n)
   \<longleftrightarrow> (\<forall>e p. (e, p) |\<in>| n \<longrightarrow> (\<exists>q. resolve_within fs w p = Inr q))"
proof -
  have iter: "set (effects_iter n) = fset n"
    by (auto simp: effects_iter_def)
  have bad: "(case resolve_within fs w p of Inl _ \<Rightarrow> True | Inr _ \<Rightarrow> False)
      \<longleftrightarrow> \<not> (\<exists>q. resolve_within fs w p = Inr q)" for p
    by (auto split: sum.splits)
  show ?thesis
    unfolding list_ex_iff iter bad by fastforce
qed

lemma normalize_operation_effects_Inr:
  "normalize_operation_effects rs rq w = Inr n \<longleftrightarrow>
     \<not> blank (op_tool_name rq) \<and> rs_resolve rs (op_tool_name rq) \<noteq> None
     \<and> (\<exists>contract. rs_effect_contract rs (op_tool_name rq) = Some contract
          \<and> normalize_effects contract (op_arguments rq) (ws_canonical_root w) = Inr n)"
  by (auto simp: normalize_operation_effects_def rbind_Inr_conv)

text \<open>The decision after the authority and workspace checks have passed.\<close>

lemma evaluate_with_grant_core:
  assumes "\<not> blank (op_tool_name rq)" and "op_session_id rq = gr_subject_session_id g"
    and "grant_is_usable_at g now"
    and "op_workspace_id rq = ws_workspace_id w" and "allows_workspace g (ws_workspace_id w)"
    and "normalize_operation_effects rs rq w = Inr n"
    and "\<forall>e p. (e, p) |\<in>| n \<longrightarrow> (\<exists>q. resolve_within fs w p = Inr q)"
    and "rs_resolve rs (op_tool_name rq) = Some (cap, base)" and "allows_capability g cap"
  shows "evaluate_with_grant rs fs rq g w now =
     (case assess_operation_risk (rs_risk_rules rs (op_tool_name rq)) (op_arguments rq) n base of
        Inl e \<Rightarrow> Deny (deny_of_assessment e)
      | Inr a \<Rightarrow> if ra_effective_risk a \<ge> High then RequireApproval HighRiskOperation a cap else Allow cap a)"
proof -
  have "\<not> list_ex (\<lambda>(_, p). case resolve_within fs w p of Inl _ \<Rightarrow> True | Inr _ \<Rightarrow> False) (effects_iter n)"
    using assms(7) by (simp add: effects_all_inside)
  with assms show ?thesis by (simp add: evaluate_with_grant_def usable_conv not_le)
qed

lemma permitted_decision:
  assumes "permitted rs fs rq g w now cap a"
  shows "evaluate_with_grant rs fs rq g w now =
     (if ra_effective_risk a \<ge> High then RequireApproval HighRiskOperation a cap else Allow cap a)"
proof -
  from assms obtain base contract n where "rs_resolve rs (op_tool_name rq) = Some (cap, base)"
    "allows_capability g cap" "rs_effect_contract rs (op_tool_name rq) = Some contract"
    "normalize_effects contract (op_arguments rq) (ws_canonical_root w) = Inr n"
    "\<forall>e p. (e, p) |\<in>| n \<longrightarrow> (\<exists>q. resolve_within fs w p = Inr q)"
    and a: "assess_operation_risk (rs_risk_rules rs (op_tool_name rq)) (op_arguments rq) n base = Inr a"
    unfolding permitted_def by blast
  with assms evaluate_with_grant_core [of rq g now w rs n fs cap base] show ?thesis
    by (auto simp: permitted_def normalize_operation_effects_Inr)
qed

lemma decision_permitted:
  assumes "decision_permits (evaluate_with_grant rs fs rq g w now) = Some (cap, a)"
  shows "permitted rs fs rq g w now cap a"
proof -
  let ?esc = "\<lambda>n. list_ex (\<lambda>(_, p). case resolve_within fs w p of Inl _ \<Rightarrow> True | Inr _ \<Rightarrow> False) (effects_iter n)"
  from assms have front: "\<not> blank (op_tool_name rq)" "op_session_id rq = gr_subject_session_id g"
    "grant_is_usable_at g now" "op_workspace_id rq = ws_workspace_id w"
    "allows_workspace g (ws_workspace_id w)"
    by (auto simp: evaluate_with_grant_def usable_conv split: if_splits)
  from assms front obtain n where n: "normalize_operation_effects rs rq w = Inr n" and inside: "\<not> ?esc n"
    by (auto simp: evaluate_with_grant_def usable_conv not_le split: sum.splits if_splits)
  obtain cap' base where r: "rs_resolve rs (op_tool_name rq) = Some (cap', base)"
    using n by (auto simp: normalize_operation_effects_Inr)
  from assms front n inside r have allowed: "allows_capability g cap'"
    by (auto simp: evaluate_with_grant_def usable_conv not_le split: if_splits)
  have inside': "\<forall>e p. (e, p) |\<in>| n \<longrightarrow> (\<exists>q. resolve_within fs w p = Inr q)"
    using inside by (simp only: effects_all_inside)
  from assms obtain a' where "assess_operation_risk (rs_risk_rules rs (op_tool_name rq)) (op_arguments rq) n base = Inr a'"
    and "cap' = cap" and "a' = a"
    unfolding evaluate_with_grant_core [OF front n inside' r allowed]
    by (auto split: sum.splits if_splits)
  with front n inside' r allowed show ?thesis
    unfolding permitted_def normalize_operation_effects_Inr by blast
qed

text \<open>Consequences of a resolver's contract for every engine built on it.\<close>

context tool_resolver
begin

lemma allowed_risk:
  assumes "loaded r" and "evaluate_with_grant (view r) fs rq g w now = Allow cap a"
  shows "ra_base_risk a < High \<and> (\<forall>f \<in> set (ra_factors a). factor_escalation f < High)
    \<and> (\<exists>base. rs_resolve (view r) (op_tool_name rq) = Some (cap, base)
        \<and> (\<forall>f \<in> set (ra_factors a). base < factor_escalation f))"
proof -
  have "permitted (view r) fs rq g w now cap a"
    using assms(2) by (intro decision_permitted) simp
  then obtain base n where r: "rs_resolve (view r) (op_tool_name rq) = Some (cap, base)"
    and a: "assess_operation_risk (rs_risk_rules (view r) (op_tool_name rq)) (op_arguments rq) n base = Inr a"
    and p: "permitted (view r) fs rq g w now cap a"
    unfolding permitted_def by blast
  have low: "ra_effective_risk a < High"
    using permitted_decision [OF p] assms(2) by (auto split: if_splits)
  from assess_operation_risk_Inr [THEN iffD1, OF a] obtain eff fs' where
    r0: "assess_rules (op_arguments rq) n (rs_risk_rules (view r) (op_tool_name rq)) base [] = Inr (eff, fs')"
    and af: "ra_factors a = fs'" "ra_effective_risk a = eff" "ra_base_risk a = base" by auto
  from assess_rules_Inr [OF r0] have e: "eff = Max (insert base (factor_escalation ` set fs'))"
    and fired: "set fs' = {f. \<exists>rule \<in> set (rs_risk_rules (view r) (op_tool_name rq)).
        rule_factor (op_arguments rq) n rule = Inr (Some f)}"
    by (auto simp: fold_max_factors)
  have "base < factor_escalation f" if "f \<in> set fs'" for f
  proof -
    from that fired obtain rule where "rule \<in> set (rs_risk_rules (view r) (op_tool_name rq))"
      and "rule_factor (op_arguments rq) n rule = Inr (Some f)" by auto
    then show ?thesis using rules_raise [OF assms(1) r] rule_factor_escalation by metis
  qed
  moreover have "factor_escalation f \<le> eff" if "f \<in> set fs'" for f
    unfolding e using that by simp
  moreover have "base \<le> eff" unfolding e by simp
  ultimately show ?thesis using low af r by (auto intro: le_less_trans)
qed

end

section \<open>A sample request\<close>

definition sample_operation :: "bool \<Rightarrow> operation_request" where
  "sample_operation overwrite =
     \<lparr>op_operation_id = OperationId 9, op_session_id = SessionId 7, op_workspace_id = WorkspaceId 1,
      op_tool_name = ''a'', op_arguments = [(''overwrite'', JBool overwrite)], op_target_path = None,
      op_requested_at = 10\<rparr>"

definition sample_assessment :: "bool \<Rightarrow> risk_assessment" where
  "sample_assessment overwrite =
     \<lparr>ra_policy_version = 4, ra_base_risk = Normal,
      ra_effective_risk = (if overwrite then High else Normal),
      ra_factors = (if overwrite then [ConfirmedOverwrite ''overwrite'' High] else [])\<rparr>"

lemma sample_permitted:
  "permitted (registry_resolver sample_registry) (posix sample_tree) (sample_operation b)
     (sample_active Standing) sample_workspace 10 PCB_WRITE (sample_assessment b)"
proof -
  let ?n = "{|(Write, [RootDir, Normal_c ''w''])|}"
  let ?t = "\<lparr>tc_arguments = {|''overwrite''|}, tc_effects = {|Write|}, tc_path_arguments = []\<rparr>"
  have "\<not> blank ''a''" by (simp add: blank_def is_white_def)
  moreover have "normalize_effects ?t [(''overwrite'', JBool b)] [RootDir, Normal_c ''w''] = Inr ?n"
    by (simp add: normalize_effects_def)
  moreover have "resolve_within (posix sample_tree) sample_workspace [RootDir, Normal_c ''w'']
      = Inr [RootDir, Normal_c ''w'']"
    by (simp add: sample_resolve)
  moreover have "assess_operation_risk [BooleanEquals ''overwrite'' True False Write High BConfirmedOverwrite]
      [(''overwrite'', JBool b)] ?n Normal = Inr (sample_assessment b)"
  proof -
    have "paths_for ?n Write \<noteq> []" by (auto simp: paths_for_Nil)
    then show ?thesis
      by (cases b) (auto simp: assess_operation_risk_Inr sample_assessment_def
          OPERATION_RISK_POLICY_VERSION_def max_def less_eq_risk_level_def)
  qed
  ultimately show ?thesis
    by (simp add: permitted_def sample_operation_def sample_workspace_def usable_conv sample_defs
        allows_workspace_def allows_capability_def registry_resolver_def registry_resolve_def
        registry_effect_contract_def registry_risk_rules_def sample_registry_def
        design_capabilities_def)
qed

lemma sample_decision:
  "evaluate_with_grant (registry_resolver sample_registry) (posix sample_tree) (sample_operation b)
     (sample_active Standing) sample_workspace 10 =
     (if b then RequireApproval HighRiskOperation (sample_assessment b) PCB_WRITE
      else Allow PCB_WRITE (sample_assessment b))"
  using permitted_decision [OF sample_permitted [of b]]
  by (simp add: sample_assessment_def less_eq_risk_level_def)

section \<open>Properties\<close>

text \<open>
  C17: The evaluator decides exactly by its checks. A request is allowed, or sent for approval, with a
  given capability and assessment if and only if every check holds: a named tool, the grant answers
  this subject and is active and unexpired, request, workspace and grant agree on the workspace, the
  tool is known with a reviewed contract, its normalized effects all resolve inside the workspace, the
  grant has the tool's capability, and the assessment succeeds; it is allowed without approval exactly
  when the effective risk is below High.
\<close>

theorem policy_decision_characterised:
  "(evaluate_with_grant rs fs rq g w now = Allow cap a \<longleftrightarrow>
      permitted rs fs rq g w now cap a \<and> ra_effective_risk a < High)
   \<and> (evaluate_with_grant rs fs rq g w now = RequireApproval HighRiskOperation a cap \<longleftrightarrow>
      permitted rs fs rq g w now cap a \<and> High \<le> ra_effective_risk a)"
proof -
  have allow: "evaluate_with_grant rs fs rq g w now = Allow cap a \<Longrightarrow> permitted rs fs rq g w now cap a"
    by (rule decision_permitted) simp
  have ask: "evaluate_with_grant rs fs rq g w now = RequireApproval HighRiskOperation a cap \<Longrightarrow>
      permitted rs fs rq g w now cap a"
    by (rule decision_permitted) simp
  show ?thesis
  proof (cases "permitted rs fs rq g w now cap a")
    case True
    from permitted_decision [OF True] True show ?thesis
      by (cases "High \<le> ra_effective_risk a") (simp_all add: not_le not_less)
  next
    case False
    with allow ask show ?thesis by blast
  qed
qed

text \<open>
  C18: Path confinement. When an operation is allowed or sent for approval, the tool has a reviewed
  contract, and every path that any declared path argument denotes in the forwarded arguments, whatever
  its effect, resolves to a location inside the canonical workspace root; so does the root itself for a
  contract with workspace-wide effects. The request's own \<open>target_path\<close> plays no part.
\<close>

theorem authorized_operation_stays_in_workspace:
  assumes "decision_permits (evaluate_with_grant rs fs rq g w now) = Some (cap, a)"
  shows "(\<exists>contract. rs_effect_contract rs (op_tool_name rq) = Some contract
      \<and> (\<forall>c \<in> set (tc_path_arguments contract). \<forall>p.
           pa_effects c \<noteq> {||}
           \<longrightarrow> denotes (tc_path_arguments contract) (op_arguments rq) (ws_canonical_root w) c p
           \<longrightarrow> (\<exists>q. resolve_within fs w p = Inr q \<and> prefix (ws_canonical_root w) q)))
    \<and> (\<forall>t. evaluate_with_grant rs fs (rq\<lparr>op_target_path := t\<rparr>) g w now
          = evaluate_with_grant rs fs rq g w now)"
proof (rule conjI)
  from decision_permitted [OF assms] obtain contract n where
    c: "rs_effect_contract rs (op_tool_name rq) = Some contract"
    and n: "normalize_effects contract (op_arguments rq) (ws_canonical_root w) = Inr n"
    and inside: "\<forall>e p. (e, p) |\<in>| n \<longrightarrow> (\<exists>q. resolve_within fs w p = Inr q)"
    unfolding permitted_def by blast
  have "\<exists>q. resolve_within fs w p = Inr q \<and> prefix (ws_canonical_root w) q"
    if "d \<in> set (tc_path_arguments contract)" "pa_effects d \<noteq> {||}"
      "denotes (tc_path_arguments contract) (op_arguments rq) (ws_canonical_root w) d p" for d p
  proof -
    from that(2) obtain e where "e |\<in>| pa_effects d" by auto
    with resolve_all_exact [of "tc_path_arguments contract" "op_arguments rq" "ws_canonical_root w"
        "tc_path_arguments contract" _ "{||}" n] n that
    have "(e, p) |\<in>| n" by (force simp: normalize_effects_Inr declared_effects_def)
    with inside obtain q where "resolve_within fs w p = Inr q" by blast
    then show ?thesis by (blast elim: resolve_within_Inr)
  qed
  with c show "\<exists>contract. rs_effect_contract rs (op_tool_name rq) = Some contract
      \<and> (\<forall>c \<in> set (tc_path_arguments contract). \<forall>p.
           pa_effects c \<noteq> {||}
           \<longrightarrow> denotes (tc_path_arguments contract) (op_arguments rq) (ws_canonical_root w) c p
           \<longrightarrow> (\<exists>q. resolve_within fs w p = Inr q \<and> prefix (ws_canonical_root w) q))" by blast
  have same: "op_tool_name (rq\<lparr>op_target_path := t\<rparr>) = op_tool_name rq"
    "op_arguments (rq\<lparr>op_target_path := t\<rparr>) = op_arguments rq"
    "op_session_id (rq\<lparr>op_target_path := t\<rparr>) = op_session_id rq"
    "op_workspace_id (rq\<lparr>op_target_path := t\<rparr>) = op_workspace_id rq" for t
    by simp_all
  show "\<forall>t. evaluate_with_grant rs fs (rq\<lparr>op_target_path := t\<rparr>) g w now
          = evaluate_with_grant rs fs rq g w now"
    unfolding evaluate_with_grant_def normalize_operation_effects_def same by simp
qed

theorem authorized_operation_stays_in_workspace_witness:
  "\<exists>contract. rs_effect_contract (registry_resolver sample_registry) ''a'' = Some contract
   \<and> evaluate_with_grant (registry_resolver sample_registry) (posix sample_tree)
       ((sample_operation True)\<lparr>op_target_path := Some ''/etc''\<rparr>) (sample_active Standing) sample_workspace 10
     = RequireApproval HighRiskOperation (sample_assessment True) PCB_WRITE"
proof -
  have "decision_permits (evaluate_with_grant (registry_resolver sample_registry) (posix sample_tree)
      (sample_operation True) (sample_active Standing) sample_workspace 10)
    = Some (PCB_WRITE, sample_assessment True)"
    by (simp add: sample_decision)
  from authorized_operation_stays_in_workspace [OF this] show ?thesis
    by (auto simp: sample_decision) (simp add: sample_operation_def)
qed

text \<open>
  High-risk work never runs unattended on a loaded registry. If the engine built on a registry that
  loaded allows an operation outright, the tool's reviewed base risk and every fired escalation are
  below High, and each fired rule really raised the base risk.
\<close>

theorem allowed_operation_is_below_high_risk:
  assumes "registry_from_toml_str decode embedded text = Inr reg"
    and "evaluate_with_grant (registry_resolver reg) fs rq g w now = Allow cap a"
  shows "ra_base_risk a < High \<and> (\<forall>f \<in> set (ra_factors a). factor_escalation f < High)
    \<and> (\<exists>base. registry_resolve reg (op_tool_name rq) = Some (cap, base)
        \<and> (\<forall>f \<in> set (ra_factors a). base < factor_escalation f))"
proof -
  have "registry_loaded reg" using assms(1) unfolding registry_loaded_def by blast
  from registry.allowed_risk [OF this assms(2)] show ?thesis by (simp add: registry_resolver_def)
qed

theorem allowed_operation_is_below_high_risk_witness:
  "evaluate_with_grant (registry_resolver sample_registry) (posix sample_tree) (sample_operation False)
     (sample_active Standing) sample_workspace 10 = Allow PCB_WRITE (sample_assessment False)
   \<and> ra_base_risk (sample_assessment False) < High"
proof -
  have l: "registry_from_toml_str (\<lambda>_. Inr sample_registry_file) sample_catalog [] = Inr sample_registry"
    using sample_registry_loads by (auto simp: try_embedded_def rbind_Inr_conv split: if_splits list.splits)
  have d: "evaluate_with_grant (registry_resolver sample_registry) (posix sample_tree) (sample_operation False)
     (sample_active Standing) sample_workspace 10 = Allow PCB_WRITE (sample_assessment False)"
    by (simp add: sample_decision)
  from allowed_operation_is_below_high_risk [OF l d] d show ?thesis by simp
qed

text \<open>
  The compatibility adapter adds no authority. If evaluating a transport-era session row allows an
  operation or sends it for approval, the row itself is active, approved and unexpired, it is the row
  the request names, and the workspace and the capability are in the row's own scope.
\<close>

theorem legacy_evaluation_needs_usable_session:
  assumes "decision_permits (evaluate put rs fs rq s w now) = Some (cap, a)"
  shows "session_is_usable_at s now \<and> ses_approved_at s \<noteq> None \<and> op_session_id rq = ses_session_id s
    \<and> ws_workspace_id w |\<in>| ses_workspace_ids s \<and> cap |\<in>| ses_effective_capabilities s"
proof -
  from assms obtain g where g: "grant_from_legacy_session put s = Inr (Some g)"
    and d: "decision_permits (evaluate_with_grant rs fs rq g w now) = Some (cap, a)"
    by (auto simp: evaluate_def split: sum.splits option.splits)
  from g obtain st where st: "legacy_status (ses_status s) = Some st" and gg: "g = legacy_grant put s st"
    and ap: "st = Active \<longrightarrow> ses_approved_at s \<noteq> None"
    by (auto simp: grant_from_legacy_session_Some)
  from decision_permitted [OF d] have "grant_is_usable_at g now" "op_session_id rq = gr_subject_session_id g"
    "allows_workspace g (ws_workspace_id w)" "allows_capability g cap"
    unfolding permitted_def by blast+
  then show ?thesis
    using st ap by (cases "ses_status s")
      (auto simp: gg legacy_grant_def usable_conv session_is_usable_at_def allows_workspace_def
        allows_capability_def)
qed

theorem legacy_evaluation_needs_usable_session_witness:
  "\<exists>d. evaluate (\<lambda>_. []) (registry_resolver sample_registry) (posix sample_tree) (sample_operation False)
      ((sample_session SActive)\<lparr>ses_effective_capabilities := design_capabilities\<rparr>) sample_workspace 10 = d
    \<and> decision_permits d \<noteq> None
    \<and> session_is_usable_at ((sample_session SActive)\<lparr>ses_effective_capabilities := design_capabilities\<rparr>) 10"
proof -
  let ?s = "(sample_session SActive)\<lparr>ses_effective_capabilities := design_capabilities\<rparr>"
  let ?g = "legacy_grant (\<lambda>_. []) ?s Active"
  have g: "grant_from_legacy_session (\<lambda>_. []) ?s = Inr (Some ?g)"
    by (simp add: grant_from_legacy_session_def sample_session_def)
  have "permitted (registry_resolver sample_registry) (posix sample_tree) (sample_operation False)
      ?g sample_workspace 10 PCB_WRITE (sample_assessment False)"
    using sample_permitted [of False]
    by (simp add: permitted_def usable_conv allows_workspace_def allows_capability_def legacy_grant_def
        sample_defs sample_operation_def sample_workspace_def)
  from permitted_decision [OF this] have d: "decision_permits (evaluate (\<lambda>_. []) (registry_resolver sample_registry)
      (posix sample_tree) (sample_operation False) ?s sample_workspace 10) = Some (PCB_WRITE, sample_assessment False)"
    by (simp add: evaluate_def g)
  from legacy_evaluation_needs_usable_session [OF d] d show ?thesis by auto
qed

end
