(* ===== verification/Gateway_Audit.thy ===== *)
theory Gateway_Audit
  imports Gateway_Policy
begin

text \<open>
  The audit log: the event record of \<^verbatim>\<open>src/crates/core/src/audit.rs\<close> and its repository,
  \<^verbatim>\<open>src/crates/audit/src/repository.rs\<close>. A row keeps, next to the typed columns, the raw columns that
  the reader parses itself: the assurance, verification source and capability names, and the 64-bit
  integers of the policy version and the duration. \<open>operation_id\<close> is the primary key. Storage faults
  are arguments, and a failing call leaves the log unchanged.
\<close>

datatype policy_result_kind = PRAllow | PRDeny | PRRequireApproval

datatype approval_decision_kind = KApproved | KAllowOnce | KDenied

datatype execution_status = NotExecuted | Success | Failed

record audit_event =
  ae_operation_id :: operation_id
  ae_timestamp :: instant
  ae_session_id :: "session_id option"
  ae_workspace_id :: "workspace_id option"
  ae_remote_principal :: "string option"
  ae_principal_assurance :: principal_assurance
  ae_verified_principal_issuer :: "string option"
  ae_verified_principal_subject :: "string option"
  ae_principal_verification_source :: "principal_verification_source option"
  ae_authentication_strength :: "string option"
  ae_requested_tool :: string
  ae_capability :: "capability option"
  ae_risk :: "risk_level option"
  ae_risk_policy_version :: "u32 option"
  ae_base_risk :: "risk_level option"
  ae_risk_factors :: "risk_factor list"
  ae_policy_result :: policy_result_kind
  ae_approval_decision :: "approval_decision_kind option"
  ae_execution_status :: execution_status
  ae_error_class :: "string option"
  ae_duration_ms :: "u64 option"

definition is_some_nonblank :: "string option \<Rightarrow> bool" where
  "is_some_nonblank x \<longleftrightarrow> (case x of None \<Rightarrow> False | Some v \<Rightarrow> \<not> blank v)"

definition has_consistent_principal_evidence :: "audit_event \<Rightarrow> bool" where
  "has_consistent_principal_evidence e \<longleftrightarrow>
     (case ae_principal_assurance e of
        Unverified \<Rightarrow>
          ae_verified_principal_issuer e = None \<and> ae_verified_principal_subject e = None
          \<and> ae_principal_verification_source e = None \<and> ae_authentication_strength e = None
      | Verified \<Rightarrow>
          is_some_nonblank (ae_verified_principal_issuer e)
          \<and> is_some_nonblank (ae_verified_principal_subject e)
          \<and> ae_principal_verification_source e \<noteq> None
          \<and> is_some_nonblank (ae_authentication_strength e))"

datatype audit_error = AuditNotFound | AuditStorage string

fun audit_error_code :: "audit_error \<Rightarrow> string" where
  "audit_error_code AuditNotFound = ''AUDIT_NOT_FOUND''"
| "audit_error_code (AuditStorage _) = ''AUDIT_STORAGE''"

section \<open>Rows\<close>

record audit_row =
  ar_event :: audit_event
  ar_principal_assurance :: string
  ar_principal_verification_source :: "string option"
  ar_capability :: "string option"
  ar_risk_policy_version :: "int option"
  ar_duration_ms :: "int option"

type_synonym audit_table = "audit_row list"

text \<open>\<open>d as i64\<close> on the way in and \<open>d as u64\<close> on the way out reinterpret the same 64 bits.\<close>

definition audit_to_row :: "audit_event \<Rightarrow> audit_row" where
  "audit_to_row e =
     \<lparr>ar_event = e,
      ar_principal_assurance = assurance_as_str (ae_principal_assurance e),
      ar_principal_verification_source =
        map_option verification_source_as_str (ae_principal_verification_source e),
      ar_capability = map_option capability_as_str (ae_capability e),
      ar_risk_policy_version = map_option uint (ae_risk_policy_version e),
      ar_duration_ms = map_option sint (ae_duration_ms e)\<rparr>"

definition parse_version :: "int \<Rightarrow> audit_error + u32" where
  "parse_version v =
     (if 0 \<le> v \<and> v < 2 ^ 32 then Inr (word_of_int v)
      else Inl (AuditStorage ''invalid risk policy version in audit row''))"

definition audit_parse_raw :: "audit_row \<Rightarrow> audit_error + audit_event" where
  "audit_parse_raw r =
     rbind (ok_or (AuditStorage ''unknown principal assurance in audit row'')
              (assurance_parse (ar_principal_assurance r))) (\<lambda>assurance.
     rbind (map_transpose (\<lambda>s. ok_or (AuditStorage ''unknown principal verification source in audit row'')
              (verification_source_parse s)) (ar_principal_verification_source r)) (\<lambda>source.
     rbind (map_transpose (\<lambda>s. ok_or (AuditStorage ''unknown capability in audit row'')
              (capability_parse s)) (ar_capability r)) (\<lambda>cap.
     rbind (map_transpose parse_version (ar_risk_policy_version r)) (\<lambda>version.
     let e = (ar_event r)\<lparr>ae_principal_assurance := assurance, ae_principal_verification_source := source,
               ae_capability := cap, ae_risk_policy_version := version,
               ae_duration_ms := map_option word_of_int (ar_duration_ms r)\<rparr> in
     if \<not> has_consistent_principal_evidence e
     then Inl (AuditStorage ''inconsistent audit principal verification evidence'')
     else Inr e))))"

definition audit_key :: "audit_row \<Rightarrow> operation_id" where
  "audit_key r = ae_operation_id (ar_event r)"

section \<open>Operations\<close>

definition audit_record ::
  "string option \<Rightarrow> audit_event \<Rightarrow> audit_table \<Rightarrow> (audit_error + unit) \<times> audit_table" where
  "audit_record io e rows =
     (if \<not> has_consistent_principal_evidence e
      then (Inl (AuditStorage ''inconsistent audit principal verification evidence''), rows)
      else
        (case io of
           Some msg \<Rightarrow> (Inl (AuditStorage msg), rows)
         | None \<Rightarrow>
             if ae_operation_id e \<in> audit_key ` set rows
             then (Inl (AuditStorage ''UNIQUE constraint failed: audit_events.operation_id''), rows)
             else (Inr (), rows @ [audit_to_row e])))"

text \<open>An \<open>UPDATE\<close> of one key: the rows, and an error when no row was changed.\<close>

definition audit_update ::
  "string option \<Rightarrow> operation_id \<Rightarrow> (audit_row \<Rightarrow> audit_row) \<Rightarrow> audit_table
   \<Rightarrow> (audit_error + unit) \<times> audit_table" where
  "audit_update io op f rows =
     (case io of
        Some msg \<Rightarrow> (Inl (AuditStorage msg), rows)
      | None \<Rightarrow>
          if op \<notin> audit_key ` set rows then (Inl AuditNotFound, rows)
          else (Inr (), map (\<lambda>r. if audit_key r = op then f r else r) rows))"

definition update_execution ::
  "string option \<Rightarrow> operation_id \<Rightarrow> execution_status \<Rightarrow> string option \<Rightarrow> u64 option \<Rightarrow> audit_table
   \<Rightarrow> (audit_error + unit) \<times> audit_table" where
  "update_execution io op status cls dur rows =
     audit_update io op
       (\<lambda>r. r\<lparr>ar_event := (ar_event r)\<lparr>ae_execution_status := status, ae_error_class := cls\<rparr>,
              ar_duration_ms := map_option sint dur\<rparr>) rows"

definition update_approval_decision ::
  "string option \<Rightarrow> operation_id \<Rightarrow> approval_decision_kind \<Rightarrow> audit_table
   \<Rightarrow> (audit_error + unit) \<times> audit_table" where
  "update_approval_decision io op d rows =
     audit_update io op (\<lambda>r. r\<lparr>ar_event := (ar_event r)\<lparr>ae_approval_decision := Some d\<rparr>\<rparr>) rows"

definition audit_query ::
  "string option \<Rightarrow> audit_row list \<Rightarrow> audit_error + audit_event list" where
  "audit_query io rows =
     (case io of Some msg \<Rightarrow> Inl (AuditStorage msg) | None \<Rightarrow> collect_results audit_parse_raw rows)"

definition list_incomplete :: "string option \<Rightarrow> audit_table \<Rightarrow> audit_error + audit_event list" where
  "list_incomplete io rows =
     audit_query io (filter (\<lambda>r. ae_policy_result (ar_event r) = PRAllow
        \<and> ae_execution_status (ar_event r) = NotExecuted) rows)"

definition by_timestamp_desc :: "(instant \<Rightarrow> string) \<Rightarrow> audit_row list \<Rightarrow> audit_row list" where
  "by_timestamp_desc stamp rows = rev (order_by (\<lambda>r. (stamp (ae_timestamp (ar_event r)), [])) rows)"

definition list_recent ::
  "(instant \<Rightarrow> string) \<Rightarrow> string option \<Rightarrow> nat \<Rightarrow> audit_table \<Rightarrow> audit_error + audit_event list" where
  "list_recent stamp io limit rows = audit_query io (take limit (by_timestamp_desc stamp rows))"

definition list_for_session ::
  "(instant \<Rightarrow> string) \<Rightarrow> string option \<Rightarrow> session_id \<Rightarrow> audit_table \<Rightarrow> audit_error + audit_event list" where
  "list_for_session stamp io sid rows =
     audit_query io (by_timestamp_desc stamp
       (filter (\<lambda>r. ae_session_id (ar_event r) = Some sid) rows))"

section \<open>The log as an interface\<close>

text \<open>
  What the daemon relies on: recorded ids are never forgotten, and recording is accepted only for a new
  id, which it adds. Then each id is recorded at most once in the whole life of the log.
\<close>

locale audit_log =
  fixes ids :: "'log \<Rightarrow> 'id set"
    and step :: "'log \<Rightarrow> 'log \<Rightarrow> bool"
    and recorded_in :: "'id \<Rightarrow> 'log \<Rightarrow> 'log \<Rightarrow> bool"
  assumes step_keeps: "step l l' \<Longrightarrow> ids l \<subseteq> ids l'"
    and record_fresh: "recorded_in i l l' \<Longrightarrow> i \<notin> ids l"
    and record_adds: "recorded_in i l l' \<Longrightarrow> i \<in> ids l'"

sublocale audit_log \<subseteq> kept_forever step "\<lambda>l. i \<in> ids l" for i
  by unfold_locales (use step_keeps in blast)

context audit_log
begin

lemma recorded_once:
  assumes "recorded_in i l l1" and "step\<^sup>*\<^sup>* l1 l2"
  shows "\<not> recorded_in i l2 l3"
  using kept_star [OF assms(2) record_adds [OF assms(1)]] record_fresh by blast

end

definition audit_ids :: "audit_table \<Rightarrow> operation_id set" where
  "audit_ids rows = audit_key ` set rows"

inductive audit_step :: "audit_table \<Rightarrow> audit_table \<Rightarrow> bool" where
  recording: "audit_step rows (snd (audit_record io e rows))"
| execution: "audit_step rows (snd (update_execution io op st cls dur rows))"
| approval: "audit_step rows (snd (update_approval_decision io op d rows))"

definition audit_recorded :: "operation_id \<Rightarrow> audit_table \<Rightarrow> audit_table \<Rightarrow> bool" where
  "audit_recorded op rows rows' \<longleftrightarrow>
     (\<exists>io e. ae_operation_id e = op \<and> audit_record io e rows = (Inr (), rows'))"

lemma audit_update_keys:
  assumes "\<And>r. audit_key (f r) = audit_key r"
  shows "map audit_key (snd (audit_update io op f rows)) = map audit_key rows"
  using assms by (auto simp: audit_update_def split: option.splits)

lemma update_keys [simp]:
  "map audit_key (snd (update_execution io op st cls dur rows)) = map audit_key rows"
  "map audit_key (snd (update_approval_decision io op d rows)) = map audit_key rows"
  by (simp_all add: update_execution_def update_approval_decision_def audit_update_keys audit_key_def)

lemma audit_ids_map: "map audit_key xs = map audit_key ys \<Longrightarrow> audit_ids xs = audit_ids ys"
  unfolding audit_ids_def by (metis list.set_map)

lemma update_ids [simp]:
  "audit_ids (snd (update_execution io op st cls dur rows)) = audit_ids rows"
  "audit_ids (snd (update_approval_decision io op d rows)) = audit_ids rows"
  by (rule audit_ids_map, simp)+

lemma audit_record_Inr:
  "audit_record io e rows = (Inr u, rows') \<longleftrightarrow> has_consistent_principal_evidence e \<and> io = None
     \<and> ae_operation_id e \<notin> audit_ids rows \<and> rows' = rows @ [audit_to_row e]"
  by (auto simp: audit_record_def audit_ids_def split: option.splits)

lemma audit_record_Inl: "audit_record io e rows = (Inl err, rows') \<Longrightarrow> rows' = rows"
  by (auto simp: audit_record_def split: option.splits if_splits)

lemma audit_to_row_key [simp]: "audit_key (audit_to_row e) = ae_operation_id e"
  by (simp add: audit_key_def audit_to_row_def)

interpretation audit: audit_log audit_ids audit_step audit_recorded
proof
  show "audit_ids l \<subseteq> audit_ids l'" if "audit_step l l'" for l l'
    using that
  proof (induction rule: audit_step.induct)
    case (recording rows io e)
    show ?case
      by (cases "audit_record io e rows") (auto simp: audit_record_def audit_ids_def split: if_splits option.splits)
  qed simp_all
  show "op \<notin> audit_ids l" if "audit_recorded op l l'" for op l l'
    using that by (auto simp: audit_recorded_def audit_record_Inr)
  show "op \<in> audit_ids l'" if "audit_recorded op l l'" for op l l'
    using that by (auto simp: audit_recorded_def audit_record_Inr audit_ids_def)
qed

lemma audit_round_trip: "has_consistent_principal_evidence e \<Longrightarrow> audit_parse_raw (audit_to_row e) = Inr e"
proof -
  assume c: "has_consistent_principal_evidence e"
  have v: "map_transpose parse_version (map_option uint (ae_risk_policy_version e)) = Inr (ae_risk_policy_version e)"
  proof (cases "ae_risk_policy_version e")
    case (Some w)
    moreover have "uint w < 2 ^ 32" using uint_lt2p [of w] by simp
    ultimately show ?thesis by (simp add: parse_version_def)
  qed simp
  have s: "map_transpose (\<lambda>s. ok_or err (verification_source_parse s))
      (map_option verification_source_as_str (ae_principal_verification_source e))
      = Inr (ae_principal_verification_source e)" for err :: audit_error
    by (cases "ae_principal_verification_source e") (simp_all add: verification_source_text.parse_show)
  have k: "map_transpose (\<lambda>s. ok_or err (capability_parse s)) (map_option capability_as_str (ae_capability e))
      = Inr (ae_capability e)" for err :: audit_error
    by (cases "ae_capability e") (simp_all add: capability_text.parse_show)
  have d: "map_option word_of_int (map_option sint (ae_duration_ms e)) = ae_duration_ms e"
    by (cases "ae_duration_ms e") simp_all
  show ?thesis
    using c v s k d by (simp add: audit_parse_raw_def audit_to_row_def assurance_text.parse_show Let_def)
qed

section \<open>Properties\<close>


definition sample_event :: audit_event where
  "sample_event =
     \<lparr>ae_operation_id = OperationId 9, ae_timestamp = 10, ae_session_id = Some (SessionId 7),
      ae_workspace_id = Some (WorkspaceId 1), ae_remote_principal = Some ''agent'',
      ae_principal_assurance = Unverified, ae_verified_principal_issuer = None,
      ae_verified_principal_subject = None, ae_principal_verification_source = None,
      ae_authentication_strength = None, ae_requested_tool = ''a'', ae_capability = Some PCB_WRITE,
      ae_risk = Some Normal, ae_risk_policy_version = Some 4, ae_base_risk = Some Normal,
      ae_risk_factors = [], ae_policy_result = PRAllow, ae_approval_decision = None,
      ae_execution_status = NotExecuted, ae_error_class = None, ae_duration_ms = Some (- 1)\<rparr>"

lemma sample_event_consistent: "has_consistent_principal_evidence sample_event"
  by (simp add: has_consistent_principal_evidence_def sample_event_def)


text \<open>
  An approved high-risk operation whose outcome was never written is not among the incomplete ones: the
  query looks at the policy result only.
\<close>

lemma approved_unfinished_operation_is_not_listed_incomplete:
  "list_incomplete None [audit_to_row (sample_event\<lparr>ae_policy_result := PRRequireApproval,
      ae_approval_decision := Some KAllowOnce, ae_execution_status := NotExecuted\<rparr>)] = Inr []"
  by (simp add: list_incomplete_def audit_query_def audit_to_row_def)

end
