(* ===== verification/Gateway_Config.thy ===== *)
theory Gateway_Config
  imports Gateway_Paths
begin

text \<open>
  Layered configuration, \<^verbatim>\<open>src/crates/core/src/config.rs\<close>, and the authorization-lifetime policy
  built on it, \<^verbatim>\<open>src/crates/policy/src/authorization_ttl.rs\<close>.

  Third-party code is an argument: \<open>parse_url\<close> is \<open>Url::parse\<close> (a parsed URL is the record of the
  accessors the code reads), \<open>decode\<close> is \<open>toml::from_str::<FileConfig>\<close>, \<open>home\<close> is
  \<open>dirs::data_dir()\<close>. The process environment is a map. Minutes are \<open>i64\<close> values that are only
  compared, so they are integers.
\<close>

section \<open>Transport mode\<close>

datatype transport_mode = TM_Disabled | TM_Mock | TM_Relay

fun transport_mode_as_str :: "transport_mode \<Rightarrow> string" where
  "transport_mode_as_str TM_Disabled = ''disabled''"
| "transport_mode_as_str TM_Mock = ''mock''"
| "transport_mode_as_str TM_Relay = ''relay''"

section \<open>Records\<close>

record ttl_profile =
  tp_max_minutes :: int
  tp_risk :: risk_level

record authorization_ttl_config =
  ttl_inspect :: ttl_profile
  ttl_design :: ttl_profile
  ttl_manufacturing :: ttl_profile
  ttl_custom :: ttl_profile
  ttl_low_risk_max_minutes :: int
  ttl_normal_risk_max_minutes :: int
  ttl_high_risk_max_minutes :: int
  ttl_critical_risk_max_minutes :: int

definition MAX_AUTHORIZATION_TTL_MINUTES :: int where
  "MAX_AUTHORIZATION_TTL_MINUTES = 525600"

fun ttl_profile_for :: "authorization_ttl_config \<Rightarrow> capability_profile \<Rightarrow> ttl_profile" where
  "ttl_profile_for c Inspect = ttl_inspect c"
| "ttl_profile_for c Design = ttl_design c"
| "ttl_profile_for c Manufacturing = ttl_manufacturing c"
| "ttl_profile_for c (Custom _) = ttl_custom c"

fun risk_ceiling :: "authorization_ttl_config \<Rightarrow> risk_level \<Rightarrow> int" where
  "risk_ceiling c Low = ttl_low_risk_max_minutes c"
| "risk_ceiling c Normal = ttl_normal_risk_max_minutes c"
| "risk_ceiling c High = ttl_high_risk_max_minutes c"
| "risk_ceiling c Critical = ttl_critical_risk_max_minutes c"

definition default_ttl_config :: authorization_ttl_config where
  "default_ttl_config =
     \<lparr>ttl_inspect = \<lparr>tp_max_minutes = 240, tp_risk = Low\<rparr>,
      ttl_design = \<lparr>tp_max_minutes = 120, tp_risk = Normal\<rparr>,
      ttl_manufacturing = \<lparr>tp_max_minutes = 30, tp_risk = High\<rparr>,
      ttl_custom = \<lparr>tp_max_minutes = 5, tp_risk = Critical\<rparr>,
      ttl_low_risk_max_minutes = 120,
      ttl_normal_risk_max_minutes = 60,
      ttl_high_risk_max_minutes = 15,
      ttl_critical_risk_max_minutes = 1\<rparr>"

datatype url_host = Domain string | Ipv4 u32 | Ipv6 ulid

record url =
  url_scheme :: string
  url_username :: string
  url_password :: "string option"
  url_host :: "url_host option"
  url_port :: "nat option"
  url_path :: string
  url_query :: "string option"
  url_fragment :: "string option"

record cli_overrides =
  cli_data_dir :: "path option"
  cli_log_level :: "string option"
  cli_core_bridge_endpoint :: "string option"
  cli_transport_mode :: "transport_mode option"

record companion_config =
  cfg_data_dir :: path
  cfg_log_level :: string
  cfg_core_bridge_endpoint :: url
  cfg_transport_mode :: transport_mode
  cfg_relay_url :: "url option"
  cfg_authorization_ttl :: authorization_ttl_config

text \<open>The two messages of \<open>InvalidAuthorizationTtlPolicy\<close> are kept as the values they print.\<close>

datatype ttl_policy_fault = RiskMustBeLevel string | FieldMustBeBetween string

datatype config_error =
    InvalidEndpoint string
  | InvalidTransportMode string
  | InvalidRelayEndpoint string
  | MissingRelayEndpoint
  | InvalidAuthorizationTtlPolicy ttl_policy_fault
  | InvalidConfigFile
  | ConfigFileRead path string

fun config_error_code :: "config_error \<Rightarrow> string" where
  "config_error_code (InvalidEndpoint _) = ''CONFIG_INVALID_ENDPOINT''"
| "config_error_code (InvalidTransportMode _) = ''CONFIG_INVALID_TRANSPORT_MODE''"
| "config_error_code (InvalidRelayEndpoint _) = ''CONFIG_INVALID_RELAY_ENDPOINT''"
| "config_error_code MissingRelayEndpoint = ''CONFIG_MISSING_RELAY_ENDPOINT''"
| "config_error_code (InvalidAuthorizationTtlPolicy _) = ''CONFIG_INVALID_AUTHORIZATION_TTL_POLICY''"
| "config_error_code InvalidConfigFile = ''CONFIG_INVALID_FILE''"
| "config_error_code (ConfigFileRead _ _) = ''CONFIG_FILE_READ_FAILED''"

definition transport_mode_from_str :: "string \<Rightarrow> config_error + transport_mode" where
  "transport_mode_from_str s =
     (if s = ''disabled'' then Inr TM_Disabled
      else if s = ''mock'' then Inr TM_Mock
      else if s = ''relay'' then Inr TM_Relay
      else Inl (InvalidTransportMode s))"

interpretation transport_mode_text: spelling transport_mode_as_str
  "\<lambda>s. case transport_mode_from_str s of Inl _ \<Rightarrow> None | Inr m \<Rightarrow> Some m"
proof
  show "(case transport_mode_from_str (transport_mode_as_str m) of Inl _ \<Rightarrow> None | Inr m \<Rightarrow> Some m)
      = Some m" for m
    by (cases m) (simp_all add: transport_mode_from_str_def)
  show "s = transport_mode_as_str m"
    if "(case transport_mode_from_str s of Inl _ \<Rightarrow> None | Inr m \<Rightarrow> Some m) = Some m" for s m
    using that by (auto simp: transport_mode_from_str_def split: if_splits)
qed

section \<open>The configuration file layer\<close>

record ttl_profile_file =
  tpf_max_minutes :: int
  tpf_risk :: string

record ttl_file =
  tf_inspect :: ttl_profile_file
  tf_design :: ttl_profile_file
  tf_manufacturing :: ttl_profile_file
  tf_custom :: ttl_profile_file
  tf_low_risk_max_minutes :: int
  tf_normal_risk_max_minutes :: int
  tf_high_risk_max_minutes :: int
  tf_critical_risk_max_minutes :: int

record file_config =
  fc_log_level :: "string option"
  fc_core_bridge_endpoint :: "string option"
  fc_transport_mode :: "string option"
  fc_relay_url :: "string option"
  fc_authorization_ttl :: "ttl_file option"

definition default_file_config :: file_config where
  "default_file_config =
     \<lparr>fc_log_level = None, fc_core_bridge_endpoint = None, fc_transport_mode = None,
      fc_relay_url = None, fc_authorization_ttl = None\<rparr>"

definition validated_ttl_ceiling :: "int \<Rightarrow> string \<Rightarrow> config_error + int" where
  "validated_ttl_ceiling v field =
     (if 1 \<le> v \<and> v \<le> MAX_AUTHORIZATION_TTL_MINUTES then Inr v
      else Inl (InvalidAuthorizationTtlPolicy (FieldMustBeBetween field)))"

definition ttl_profile_try_from :: "ttl_profile_file \<Rightarrow> config_error + ttl_profile" where
  "ttl_profile_try_from v =
     rbind (ok_or (InvalidAuthorizationTtlPolicy (RiskMustBeLevel (tpf_risk v))) (risk_parse (tpf_risk v)))
       (\<lambda>risk. rbind (validated_ttl_ceiling (tpf_max_minutes v) ''profile.max_minutes'')
         (\<lambda>m. Inr \<lparr>tp_max_minutes = m, tp_risk = risk\<rparr>))"

definition ttl_config_try_from :: "ttl_file \<Rightarrow> config_error + authorization_ttl_config" where
  "ttl_config_try_from v =
     rbind (ttl_profile_try_from (tf_inspect v)) (\<lambda>inspect.
     rbind (ttl_profile_try_from (tf_design v)) (\<lambda>design.
     rbind (ttl_profile_try_from (tf_manufacturing v)) (\<lambda>manufacturing.
     rbind (ttl_profile_try_from (tf_custom v)) (\<lambda>custom.
     rbind (validated_ttl_ceiling (tf_low_risk_max_minutes v) ''low_risk_max_minutes'') (\<lambda>low.
     rbind (validated_ttl_ceiling (tf_normal_risk_max_minutes v) ''normal_risk_max_minutes'') (\<lambda>normal.
     rbind (validated_ttl_ceiling (tf_high_risk_max_minutes v) ''high_risk_max_minutes'') (\<lambda>high.
     rbind (validated_ttl_ceiling (tf_critical_risk_max_minutes v) ''critical_risk_max_minutes'') (\<lambda>critical.
     Inr \<lparr>ttl_inspect = inspect, ttl_design = design, ttl_manufacturing = manufacturing,
          ttl_custom = custom, ttl_low_risk_max_minutes = low, ttl_normal_risk_max_minutes = normal,
          ttl_high_risk_max_minutes = high, ttl_critical_risk_max_minutes = critical\<rparr>))))))))"

section \<open>Precedence\<close>

definition or_else :: "'a option \<Rightarrow> 'a option \<Rightarrow> 'a option" where
  "or_else a b = (case a of None \<Rightarrow> b | Some _ \<Rightarrow> a)"

definition unwrap_or :: "'a \<Rightarrow> 'a option \<Rightarrow> 'a" where
  "unwrap_or d a = (case a of None \<Rightarrow> d | Some v \<Rightarrow> v)"

type_synonym environment = "string \<rightharpoonup> string"

definition default_data_dir :: "path option \<Rightarrow> path" where
  "default_data_dir home =
     path_join (unwrap_or (path_of_string ''.'') home) (path_of_string ''kicad-mcp-gateway'')"

definition resolved_data_dir :: "path option \<Rightarrow> cli_overrides \<Rightarrow> environment \<Rightarrow> path" where
  "resolved_data_dir home cli env =
     unwrap_or (default_data_dir home)
       (or_else (cli_data_dir cli) (map_option path_of_string (env ''GATEWAY_DATA_DIR'')))"

definition ipv4_is_loopback :: "u32 \<Rightarrow> bool" where
  "ipv4_is_loopback a \<longleftrightarrow> drop_bit 24 a = 127"

definition ipv6_is_loopback :: "ulid \<Rightarrow> bool" where
  "ipv6_is_loopback a \<longleftrightarrow> a = 1"

definition url_is_loopback :: "url \<Rightarrow> bool" where
  "url_is_loopback u \<longleftrightarrow>
     (case url_host u of Some (Ipv4 a) \<Rightarrow> ipv4_is_loopback a | Some (Ipv6 a) \<Rightarrow> ipv6_is_loopback a
      | _ \<Rightarrow> False)"

definition relay_endpoint :: "(string \<Rightarrow> url option) \<Rightarrow> string \<Rightarrow> config_error + url" where
  "relay_endpoint parse_url raw =
     rbind (ok_or (InvalidRelayEndpoint raw) (parse_url raw))
       (\<lambda>u. let allowed_scheme = url_scheme u = ''wss'' \<or> url_scheme u = ''ws'' \<and> url_is_loopback u in
         if \<not> allowed_scheme \<or> url_username u \<noteq> [] \<or> url_password u \<noteq> None \<or> url_query u \<noteq> None
            \<or> url_fragment u \<noteq> None \<or> url_path u \<noteq> ''/v1/device/connect''
         then Inl (InvalidRelayEndpoint raw)
         else Inr u)"

definition resolved_transport_mode ::
  "cli_overrides \<Rightarrow> environment \<Rightarrow> file_config \<Rightarrow> config_error + transport_mode" where
  "resolved_transport_mode cli env file =
     (case cli_transport_mode cli of
        Some mode \<Rightarrow> Inr mode
      | None \<Rightarrow>
          (case env ''GATEWAY_TRANSPORT_MODE'' of
             Some raw \<Rightarrow> transport_mode_from_str raw
           | None \<Rightarrow>
               (case fc_transport_mode file of
                  Some raw \<Rightarrow> transport_mode_from_str raw
                | None \<Rightarrow> Inr TM_Disabled)))"

definition load_from_sources ::
  "(string \<Rightarrow> url option) \<Rightarrow> (string \<Rightarrow> file_config option) \<Rightarrow> path option
   \<Rightarrow> cli_overrides \<Rightarrow> environment \<Rightarrow> string option \<Rightarrow> config_error + companion_config" where
  "load_from_sources parse_url decode home cli env contents =
     rbind (case contents of
              Some text \<Rightarrow> ok_or InvalidConfigFile (decode text)
            | None \<Rightarrow> Inr default_file_config) (\<lambda>file.
     let data_dir = resolved_data_dir home cli env;
         log_level = unwrap_or ''info''
           (or_else (or_else (cli_log_level cli) (env ''GATEWAY_LOG_LEVEL'')) (fc_log_level file));
         endpoint_str = unwrap_or ''http://127.0.0.1:3334/mcp''
           (or_else (or_else (cli_core_bridge_endpoint cli) (env ''GATEWAY_CORE_BRIDGE_ENDPOINT''))
             (fc_core_bridge_endpoint file)) in
     rbind (ok_or (InvalidEndpoint endpoint_str) (parse_url endpoint_str)) (\<lambda>endpoint.
     rbind (resolved_transport_mode cli env file) (\<lambda>mode.
     rbind (map_transpose (relay_endpoint parse_url)
              (or_else (env ''GATEWAY_RELAY_URL'') (fc_relay_url file))) (\<lambda>relay.
     if mode = TM_Relay \<and> relay = None then Inl MissingRelayEndpoint
     else
       rbind (map_transpose ttl_config_try_from (fc_authorization_ttl file)) (\<lambda>ttl.
       Inr \<lparr>cfg_data_dir = data_dir, cfg_log_level = log_level,
            cfg_core_bridge_endpoint = endpoint, cfg_transport_mode = mode, cfg_relay_url = relay,
            cfg_authorization_ttl = unwrap_or default_ttl_config ttl\<rparr>)))))"

text \<open>
  \<open>load_with_env\<close> reads \<open><data_dir>/config.toml\<close>: \<open>read\<close> is the file system (the contents, a missing
  file, or an I/O error with its message).
\<close>

datatype file_read = FileContents string | FileNotFound | FileReadError string

definition load_with_env ::
  "(string \<Rightarrow> url option) \<Rightarrow> (string \<Rightarrow> file_config option) \<Rightarrow> path option \<Rightarrow> (path \<Rightarrow> file_read)
   \<Rightarrow> cli_overrides \<Rightarrow> environment \<Rightarrow> config_error + companion_config" where
  "load_with_env parse_url decode home read cli env =
     (let p = path_join (resolved_data_dir home cli env) (path_of_string ''config.toml'') in
      case read p of
        FileContents text \<Rightarrow> load_from_sources parse_url decode home cli env (Some text)
      | FileNotFound \<Rightarrow> load_from_sources parse_url decode home cli env None
      | FileReadError msg \<Rightarrow> Inl (ConfigFileRead p msg))"

section \<open>Effective lifetime of a remote request\<close>

record effective_authorization_ttl =
  eff_requested_minutes :: int
  eff_effective_minutes :: int

definition effective_ttl ::
  "authorization_ttl_config \<Rightarrow> capability_profile \<Rightarrow> int \<Rightarrow> effective_authorization_ttl" where
  "effective_ttl c profile requested =
     (let p = ttl_profile_for c profile in
      \<lparr>eff_requested_minutes = requested,
       eff_effective_minutes =
         min (min (max requested 1) (tp_max_minutes p)) (risk_ceiling c (tp_risk p))\<rparr>)"

section \<open>Lemmas\<close>

text \<open>The invariant that private fields protect: every ceiling is between one minute and a year.\<close>

definition ttl_bounded :: "int \<Rightarrow> bool" where
  "ttl_bounded v \<longleftrightarrow> 1 \<le> v \<and> v \<le> MAX_AUTHORIZATION_TTL_MINUTES"

definition ttl_config_ok :: "authorization_ttl_config \<Rightarrow> bool" where
  "ttl_config_ok c \<longleftrightarrow>
     list_all (\<lambda>p. ttl_bounded (tp_max_minutes p))
       [ttl_inspect c, ttl_design c, ttl_manufacturing c, ttl_custom c]
     \<and> list_all ttl_bounded
       [ttl_low_risk_max_minutes c, ttl_normal_risk_max_minutes c, ttl_high_risk_max_minutes c,
        ttl_critical_risk_max_minutes c]"

lemma default_ttl_config_ok: "ttl_config_ok default_ttl_config"
  by (simp add: ttl_config_ok_def default_ttl_config_def ttl_bounded_def
      MAX_AUTHORIZATION_TTL_MINUTES_def)

lemma validated_ttl_ceiling_Inr:
  "validated_ttl_ceiling v f = Inr w \<longleftrightarrow> ttl_bounded v \<and> w = v"
  by (auto simp: validated_ttl_ceiling_def ttl_bounded_def)

lemma ttl_profile_try_from_Inr:
  "ttl_profile_try_from v = Inr p \<longleftrightarrow>
     risk_parse (tpf_risk v) = Some (tp_risk p) \<and> ttl_bounded (tpf_max_minutes v)
     \<and> p = \<lparr>tp_max_minutes = tpf_max_minutes v, tp_risk = tp_risk p\<rparr>"
  by (auto simp: ttl_profile_try_from_def rbind_Inr_conv validated_ttl_ceiling_Inr)

lemma ttl_profile_try_from_bounded: "ttl_profile_try_from v = Inr p \<Longrightarrow> ttl_bounded (tp_max_minutes p)"
  by (auto simp: ttl_profile_try_from_def rbind_Inr_conv validated_ttl_ceiling_Inr)

lemma ttl_config_try_from_ok: "ttl_config_try_from v = Inr c \<Longrightarrow> ttl_config_ok c"
  by (auto simp: ttl_config_try_from_def rbind_Inr_conv validated_ttl_ceiling_Inr ttl_config_ok_def
      dest: ttl_profile_try_from_bounded)

lemma map_transpose_Inr:
  "map_transpose f x = Inr y \<longleftrightarrow>
     (case x of None \<Rightarrow> y = None | Some v \<Rightarrow> (\<exists>w. f v = Inr w \<and> y = Some w))"
  by (cases x) (auto simp: rbind_Inr_conv)

lemma profile_bounded:
  "ttl_config_ok c \<Longrightarrow> ttl_bounded (tp_max_minutes (ttl_profile_for c p))"
  by (cases p) (simp_all add: ttl_config_ok_def)

lemma ceiling_bounded: "ttl_config_ok c \<Longrightarrow> ttl_bounded (risk_ceiling c r)"
  by (cases r) (simp_all add: ttl_config_ok_def)

lemma load_from_sources_Inr:
  assumes "load_from_sources parse_url decode home cli env contents = Inr cfg"
  obtains fl where
    "case contents of None \<Rightarrow> fl = default_file_config | Some t \<Rightarrow> decode t = Some fl"
    "cfg_data_dir cfg = resolved_data_dir home cli env"
    "cfg_log_level cfg = unwrap_or ''info''
       (or_else (or_else (cli_log_level cli) (env ''GATEWAY_LOG_LEVEL'')) (fc_log_level fl))"
    "parse_url (unwrap_or ''http://127.0.0.1:3334/mcp''
       (or_else (or_else (cli_core_bridge_endpoint cli) (env ''GATEWAY_CORE_BRIDGE_ENDPOINT''))
         (fc_core_bridge_endpoint fl))) = Some (cfg_core_bridge_endpoint cfg)"
    "resolved_transport_mode cli env fl = Inr (cfg_transport_mode cfg)"
    "map_transpose (relay_endpoint parse_url) (or_else (env ''GATEWAY_RELAY_URL'') (fc_relay_url fl))
       = Inr (cfg_relay_url cfg)"
    "cfg_transport_mode cfg = TM_Relay \<longrightarrow> cfg_relay_url cfg \<noteq> None"
    "map_transpose ttl_config_try_from (fc_authorization_ttl fl) = Inr None
       \<and> cfg_authorization_ttl cfg = default_ttl_config
     \<or> map_transpose ttl_config_try_from (fc_authorization_ttl fl) = Inr (Some (cfg_authorization_ttl cfg))"
proof -
  let ?fl = "case contents of Some text \<Rightarrow> ok_or InvalidConfigFile (decode text)
     | None \<Rightarrow> Inr default_file_config"
  from assms obtain fl endpoint mode relay ttl where fl: "?fl = Inr fl"
    and e: "parse_url (unwrap_or ''http://127.0.0.1:3334/mcp''
       (or_else (or_else (cli_core_bridge_endpoint cli) (env ''GATEWAY_CORE_BRIDGE_ENDPOINT''))
         (fc_core_bridge_endpoint fl))) = Some endpoint"
    and m: "resolved_transport_mode cli env fl = Inr mode"
    and r: "map_transpose (relay_endpoint parse_url)
       (or_else (env ''GATEWAY_RELAY_URL'') (fc_relay_url fl)) = Inr relay"
    and nr: "\<not> (mode = TM_Relay \<and> relay = None)"
    and t: "map_transpose ttl_config_try_from (fc_authorization_ttl fl) = Inr ttl"
    and c: "cfg = \<lparr>cfg_data_dir = resolved_data_dir home cli env,
       cfg_log_level = unwrap_or ''info''
         (or_else (or_else (cli_log_level cli) (env ''GATEWAY_LOG_LEVEL'')) (fc_log_level fl)),
       cfg_core_bridge_endpoint = endpoint, cfg_transport_mode = mode, cfg_relay_url = relay,
       cfg_authorization_ttl = unwrap_or default_ttl_config ttl\<rparr>"
    unfolding load_from_sources_def Let_def rbind_Inr_conv ok_or_Inr_conv
    by (elim exE conjE) (simp only: rbind_Inr_conv sum.simps split: if_splits, blast)
  show thesis
  proof (rule that [of fl])
    show "case contents of None \<Rightarrow> fl = default_file_config | Some t \<Rightarrow> decode t = Some fl"
      using fl by (cases contents) auto
    show "map_transpose ttl_config_try_from (fc_authorization_ttl fl) = Inr None
       \<and> cfg_authorization_ttl cfg = default_ttl_config
     \<or> map_transpose ttl_config_try_from (fc_authorization_ttl fl) = Inr (Some (cfg_authorization_ttl cfg))"
      using t c by (cases ttl) (simp_all add: unwrap_or_def)
  qed (use c e m r nr in simp_all)
qed

lemma loaded_ttl_config_ok:
  assumes "load_from_sources parse_url decode home cli env contents = Inr cfg"
  shows "ttl_config_ok (cfg_authorization_ttl cfg)"
  using assms
  by (rule load_from_sources_Inr)
    (auto simp: map_transpose_Inr default_ttl_config_ok dest: ttl_config_try_from_ok
      split: option.splits)

section \<open>Properties\<close>

text \<open>
  C22: A remote request cannot stretch its own authority. For every configuration that loads, every
  profile and every requested number of minutes, the effective lifetime is at least one minute, at
  most a year, at most the profile's ceiling and at most the ceiling of the profile's risk class; it
  never exceeds a positive request, and it is the largest such value.
\<close>

theorem effective_ttl_is_bounded_by_local_policy:
  assumes "load_from_sources parse_url decode home cli env contents = Inr cfg"
  shows "let c = cfg_authorization_ttl cfg; p = ttl_profile_for c profile;
             m = eff_effective_minutes (effective_ttl c profile requested) in
         1 \<le> m \<and> m \<le> MAX_AUTHORIZATION_TTL_MINUTES \<and> m \<le> tp_max_minutes p
         \<and> m \<le> risk_ceiling c (tp_risk p) \<and> (requested \<ge> 1 \<longrightarrow> m \<le> requested)
         \<and> m \<in> {max requested 1, tp_max_minutes p, risk_ceiling c (tp_risk p)}"
proof -
  let ?c = "cfg_authorization_ttl cfg"
  have "ttl_bounded (tp_max_minutes (ttl_profile_for ?c profile))"
    "ttl_bounded (risk_ceiling ?c (tp_risk (ttl_profile_for ?c profile)))"
    using loaded_ttl_config_ok [OF assms] by (simp_all add: profile_bounded ceiling_bounded)
  then show ?thesis
    by (auto simp: effective_ttl_def Let_def ttl_bounded_def min_def max_def)
qed

definition sample_cli :: cli_overrides where
  "sample_cli = \<lparr>cli_data_dir = None, cli_log_level = Some ''trace'',
     cli_core_bridge_endpoint = None, cli_transport_mode = None\<rparr>"

definition sample_url :: "string \<Rightarrow> url option" where
  "sample_url s = Some \<lparr>url_scheme = ''http'', url_username = [], url_password = None,
     url_host = Some (Ipv4 2130706433), url_port = Some 3334, url_path = ''/mcp'',
     url_query = None, url_fragment = None\<rparr>"

lemma sample_load:
  "load_from_sources sample_url (\<lambda>_. None) None sample_cli (Map.empty(''GATEWAY_LOG_LEVEL'' \<mapsto> ''debug'')) None
   = Inr \<lparr>cfg_data_dir = resolved_data_dir None sample_cli (Map.empty(''GATEWAY_LOG_LEVEL'' \<mapsto> ''debug'')),
      cfg_log_level = ''trace'', cfg_core_bridge_endpoint = the (sample_url []),
      cfg_transport_mode = TM_Disabled, cfg_relay_url = None,
      cfg_authorization_ttl = default_ttl_config\<rparr>"
  by (simp add: load_from_sources_def Let_def default_file_config_def sample_cli_def sample_url_def
      or_else_def unwrap_or_def resolved_transport_mode_def)

theorem effective_ttl_is_bounded_by_local_policy_witness:
  "eff_effective_minutes (effective_ttl default_ttl_config Manufacturing 100000) = 15
   \<and> (15::int) \<le> MAX_AUTHORIZATION_TTL_MINUTES"
  using effective_ttl_is_bounded_by_local_policy [OF sample_load, of Manufacturing 100000]
  by (simp add: Let_def effective_ttl_def default_ttl_config_def)

text \<open>
  Layering. In every configuration that loads, the log level, the transport mode and the data
  directory come from the command line if it sets them, else from the environment, else (where the
  file may set them) from the file, else from the default; relay mode has an endpoint; and a relay
  endpoint is \<open>wss\<close>, or \<open>ws\<close> to a literal loopback address, with the fixed path and no credentials,
  query or fragment.
\<close>

theorem loaded_config_respects_precedence_and_relay_rules:
  assumes "load_from_sources parse_url decode home cli env contents = Inr cfg"
  shows "(\<forall>l. cli_log_level cli = Some l \<longrightarrow> cfg_log_level cfg = l)
    \<and> (\<forall>l. cli_log_level cli = None \<and> env ''GATEWAY_LOG_LEVEL'' = Some l \<longrightarrow> cfg_log_level cfg = l)
    \<and> (\<forall>m. cli_transport_mode cli = Some m \<longrightarrow> cfg_transport_mode cfg = m)
    \<and> (\<forall>t. cli_transport_mode cli = None \<and> env ''GATEWAY_TRANSPORT_MODE'' = Some t
         \<longrightarrow> transport_mode_as_str (cfg_transport_mode cfg) = t)
    \<and> (\<forall>d. cli_data_dir cli = Some d \<longrightarrow> cfg_data_dir cfg = d)
    \<and> (cli_transport_mode cli = None \<and> env ''GATEWAY_TRANSPORT_MODE'' = None \<and> contents = None
         \<longrightarrow> cfg_transport_mode cfg = TM_Disabled)
    \<and> (cfg_transport_mode cfg = TM_Relay \<longrightarrow> cfg_relay_url cfg \<noteq> None)
    \<and> (\<forall>u. cfg_relay_url cfg = Some u \<longrightarrow>
         (url_scheme u = ''wss'' \<or> url_scheme u = ''ws'' \<and> url_is_loopback u)
         \<and> url_username u = [] \<and> url_password u = None \<and> url_query u = None
         \<and> url_fragment u = None \<and> url_path u = ''/v1/device/connect'')"
proof -
  obtain fl where fl: "case contents of None \<Rightarrow> fl = default_file_config | Some t \<Rightarrow> decode t = Some fl"
    and d: "cfg_data_dir cfg = resolved_data_dir home cli env"
    and l: "cfg_log_level cfg = unwrap_or ''info''
       (or_else (or_else (cli_log_level cli) (env ''GATEWAY_LOG_LEVEL'')) (fc_log_level fl))"
    and m: "resolved_transport_mode cli env fl = Inr (cfg_transport_mode cfg)"
    and r: "map_transpose (relay_endpoint parse_url)
       (or_else (env ''GATEWAY_RELAY_URL'') (fc_relay_url fl)) = Inr (cfg_relay_url cfg)"
    and nr: "cfg_transport_mode cfg = TM_Relay \<longrightarrow> cfg_relay_url cfg \<noteq> None"
    using assms by (rule load_from_sources_Inr)
  have spelled: "transport_mode_from_str t = Inr k \<Longrightarrow> transport_mode_as_str k = t" for t k
    using transport_mode_text.parse_only [of t k] by simp
  have relay: "relay_endpoint parse_url raw = Inr u \<Longrightarrow>
      (url_scheme u = ''wss'' \<or> url_scheme u = ''ws'' \<and> url_is_loopback u)
         \<and> url_username u = [] \<and> url_password u = None \<and> url_query u = None
         \<and> url_fragment u = None \<and> url_path u = ''/v1/device/connect''" for raw u
    by (auto simp: relay_endpoint_def rbind_Inr_conv Let_def split: if_splits)
  have "cfg_relay_url cfg = Some u \<Longrightarrow> \<exists>raw. relay_endpoint parse_url raw = Inr u" for u
    using r by (auto simp: map_transpose_Inr split: option.splits)
  moreover have "contents = None \<Longrightarrow> fc_transport_mode fl = None"
    using fl by (simp add: default_file_config_def)
  ultimately show ?thesis
    using d l m nr relay spelled
    by (auto simp: or_else_def unwrap_or_def resolved_data_dir_def resolved_transport_mode_def)
qed

theorem loaded_config_respects_precedence_and_relay_rules_witness:
  "\<exists>cfg. load_from_sources sample_url (\<lambda>_. None) None sample_cli
      (Map.empty(''GATEWAY_LOG_LEVEL'' \<mapsto> ''debug'')) None = Inr cfg
    \<and> cfg_log_level cfg = ''trace'' \<and> cfg_transport_mode cfg = TM_Disabled"
  using loaded_config_respects_precedence_and_relay_rules [OF sample_load] sample_load
  by (auto simp: sample_cli_def)

end
