(* ===== verification/Gateway_Protocol.thy ===== *)
theory Gateway_Protocol
  imports Gateway_Core
begin

text \<open>
  The wire formats of \<^verbatim>\<open>src/crates/protocol\<close>: the versioned transport envelope (\<^verbatim>\<open>envelope.rs\<close>), the
  newline-delimited framing of the local control channel (\<^verbatim>\<open>codec.rs\<close>), and the readiness handshake
  of that channel (\<^verbatim>\<open>ipc.rs\<close>). JSON text is produced and parsed by \<open>serde_json\<close>, so \<open>to_vec\<close> and
  \<open>from_slice\<close> are the parameters \<open>encode\<close> and \<open>decode\<close>; what the framing relies on is \<open>json_codec\<close>:
  what is encoded is decoded again, and the encoding holds no newline byte.
\<close>

section \<open>Envelopes\<close>

definition PROTOCOL_VERSION :: string where
  "PROTOCOL_VERSION = ''0.1.0''"

datatype envelope_error = IncompatibleVersion (expected_major: string) (actual: string)

datatype message_type =
    PairingBegin | PairingChallenge | PairingProof | PairingResult | SessionRequest | SessionDecision
  | MOperationRequest | OperationResult | SessionRevoke | Heartbeat

record envelope =
  env_protocol_version :: string
  env_message_id :: string
  env_message_type :: message_type
  env_device_id :: "device_id option"
  env_timestamp :: "string option"
  env_correlation_id :: "string option"
  env_payload :: json

definition envelope_new :: "string \<Rightarrow> message_type \<Rightarrow> json \<Rightarrow> envelope" where
  "envelope_new mid mt payload =
     \<lparr>env_protocol_version = PROTOCOL_VERSION, env_message_id = mid, env_message_type = mt,
      env_device_id = None, env_timestamp = None, env_correlation_id = None, env_payload = payload\<rparr>"

definition with_device_id :: "device_id \<Rightarrow> envelope \<Rightarrow> envelope" where
  "with_device_id dev e = e\<lparr>env_device_id := Some dev\<rparr>"

definition with_correlation_id :: "string \<Rightarrow> envelope \<Rightarrow> envelope" where
  "with_correlation_id c e = e\<lparr>env_correlation_id := Some c\<rparr>"

text \<open>\<open>split('.').next()\<close>: the text before the first dot.\<close>

definition major_component :: "string \<Rightarrow> string" where
  "major_component v = takeWhile (\<lambda>c. c \<noteq> CHR ''.'') v"

definition check_protocol_version :: "envelope \<Rightarrow> envelope_error + unit" where
  "check_protocol_version e =
     (if major_component PROTOCOL_VERSION = major_component (env_protocol_version e) then Inr ()
      else Inl (IncompatibleVersion (major_component PROTOCOL_VERSION) (env_protocol_version e)))"

lemma check_protocol_version_Inr:
  "check_protocol_version e = Inr u \<longleftrightarrow>
     env_protocol_version e = ''0'' \<or> (\<exists>rest. env_protocol_version e = ''0.'' @ rest)"
proof -
  have "takeWhile (\<lambda>c. c \<noteq> CHR ''.'') v = ''0'' \<longleftrightarrow> v = ''0'' \<or> (\<exists>rest. v = ''0.'' @ rest)" for v
  proof (cases v)
    case (Cons a w)
    then show ?thesis by (cases w) auto
  qed simp
  then show ?thesis
    by (auto simp: check_protocol_version_def major_component_def PROTOCOL_VERSION_def eq_commute
        [of "''0''"])
qed

section \<open>Framing\<close>

type_synonym byte = "8 word"

definition MAX_MESSAGE_BYTES :: nat where
  "MAX_MESSAGE_BYTES = 1024 * 1024"

datatype codec_error = CodecIo string | CodecJson string | ConnectionClosed | MessageTooLarge nat

text \<open>How the bytes of a connection end: the peer closes it, or reading fails.\<close>

datatype stream_end = Closed | Broken string

definition write_message ::
  "('a \<Rightarrow> string + byte list) \<Rightarrow> string option \<Rightarrow> 'a \<Rightarrow> byte list \<Rightarrow> (codec_error + unit) \<times> byte list" where
  "write_message encode io v out =
     (case encode v of
        Inl e \<Rightarrow> (Inl (CodecJson e), out)
      | Inr bytes \<Rightarrow>
          if length bytes > MAX_MESSAGE_BYTES then (Inl (MessageTooLarge MAX_MESSAGE_BYTES), out)
          else
            (case io of
               Some msg \<Rightarrow> (Inl (CodecIo msg), out)
             | None \<Rightarrow> (Inr (), out @ bytes @ [10])))"

text \<open>The loop of \<open>read_message\<close>: the bytes of one message, and what is left to read.\<close>

fun read_loop :: "stream_end \<Rightarrow> byte list \<Rightarrow> byte list \<Rightarrow> (codec_error + byte list) \<times> byte list" where
  "read_loop fin buf [] =
     (case fin of
        Broken msg \<Rightarrow> (Inl (CodecIo msg), [])
      | Closed \<Rightarrow> (if buf = [] then Inl ConnectionClosed else Inr buf, []))"
| "read_loop fin buf (b # bs) =
     (if b = 10 then (Inr buf, bs)
      else
        let buf' = buf @ [b] in
        if length buf' > MAX_MESSAGE_BYTES then (Inl (MessageTooLarge MAX_MESSAGE_BYTES), bs)
        else read_loop fin buf' bs)"

definition read_message ::
  "(byte list \<Rightarrow> string + 'a) \<Rightarrow> stream_end \<Rightarrow> byte list \<Rightarrow> (codec_error + 'a) \<times> byte list" where
  "read_message decode fin input =
     (case read_loop fin [] input of
        (Inl e, rest) \<Rightarrow> (Inl e, rest)
      | (Inr buf, rest) \<Rightarrow> (map_err CodecJson (decode buf), rest))"

definition json_codec :: "('a \<Rightarrow> string + byte list) \<Rightarrow> (byte list \<Rightarrow> string + 'a) \<Rightarrow> bool" where
  "json_codec encode decode \<longleftrightarrow>
     (\<forall>v bytes. encode v = Inr bytes \<longrightarrow> decode bytes = Inr v \<and> 10 \<notin> set bytes)"

fun write_all :: "('a \<Rightarrow> string + byte list) \<Rightarrow> 'a list \<Rightarrow> byte list \<Rightarrow> (codec_error + unit) \<times> byte list" where
  "write_all encode [] out = (Inr (), out)"
| "write_all encode (v # vs) out =
     (case write_message encode None v out of
        (Inl e, out') \<Rightarrow> (Inl e, out')
      | (Inr _, out') \<Rightarrow> write_all encode vs out')"

text \<open>The connection loop: read one message after the other until the first error.\<close>

fun read_all :: "nat \<Rightarrow> (byte list \<Rightarrow> string + 'a) \<Rightarrow> stream_end \<Rightarrow> byte list \<Rightarrow> 'a list \<times> codec_error option" where
  "read_all 0 decode fin input = ([], None)"
| "read_all (Suc n) decode fin input =
     (case read_message decode fin input of
        (Inl e, _) \<Rightarrow> ([], Some e)
      | (Inr v, rest) \<Rightarrow> (let (vs, e) = read_all n decode fin rest in (v # vs, e)))"

section \<open>The readiness handshake\<close>

definition DAEMON_PRODUCT_ID :: string where
  "DAEMON_PRODUCT_ID = ''kicad-mcp-gateway''"

definition LOCAL_IPC_PROTOCOL_VERSION :: u32 where
  "LOCAL_IPC_PROTOCOL_VERSION = 7"

record daemon_identity_view =
  div_product_id :: string
  div_protocol_version :: u32
  div_daemon_version :: string
  div_instance_id :: string

datatype daemon_identity_error =
    ProductMismatch
  | ProtocolMismatch u32 u32
  | MissingInstanceId
  | InvalidDaemonVersion
  | DaemonVersionMismatch string string

definition is_ascii_alphanumeric :: "char \<Rightarrow> bool" where
  "is_ascii_alphanumeric c \<longleftrightarrow> (let n = of_char c :: nat in
     48 \<le> n \<and> n \<le> 57 \<or> 65 \<le> n \<and> n \<le> 90 \<or> 97 \<le> n \<and> n \<le> 122)"

definition valid_daemon_version :: "string \<Rightarrow> bool" where
  "valid_daemon_version v \<longleftrightarrow> v \<noteq> [] \<and> utf8_len v \<le> 64
     \<and> list_all (\<lambda>c. is_ascii_alphanumeric c \<or> c \<in> {CHR ''.'', CHR ''-'', CHR ''+''}) v"

definition validate_for_client :: "daemon_identity_view \<Rightarrow> daemon_identity_error + unit" where
  "validate_for_client v =
     (if div_product_id v \<noteq> DAEMON_PRODUCT_ID then Inl ProductMismatch
      else if div_protocol_version v \<noteq> LOCAL_IPC_PROTOCOL_VERSION
        then Inl (ProtocolMismatch LOCAL_IPC_PROTOCOL_VERSION (div_protocol_version v))
      else if trim (div_instance_id v) = [] then Inl MissingInstanceId
      else if \<not> valid_daemon_version (div_daemon_version v) then Inl InvalidDaemonVersion
      else Inr ())"

definition validate_daemon_version :: "daemon_identity_view \<Rightarrow> string \<Rightarrow> daemon_identity_error + unit" where
  "validate_daemon_version v expected =
     (if div_daemon_version v \<noteq> expected
      then Inl (DaemonVersionMismatch expected (div_daemon_version v)) else Inr ())"

section \<open>Lemmas\<close>

lemma read_loop_frame:
  assumes "10 \<notin> set bytes" and "length buf + length bytes \<le> MAX_MESSAGE_BYTES"
  shows "read_loop fin buf (bytes @ 10 # rest) = (Inr (buf @ bytes), rest)"
  using assms by (induction bytes arbitrary: buf) (auto simp: Let_def)

text \<open>The buffer never grows past one byte more than the limit, and only consumed bytes count.\<close>

lemma read_loop_consumes:
  assumes "length buf \<le> MAX_MESSAGE_BYTES"
  shows "length input \<le> length (snd (read_loop fin buf input)) + (MAX_MESSAGE_BYTES + 1 - length buf)"
  using assms
proof (induction fin buf input rule: read_loop.induct)
  case (2 fin buf b bs)
  then show ?case
    by (cases "Suc (length buf) \<le> MAX_MESSAGE_BYTES") (force simp: Let_def not_le)+
qed (simp split: stream_end.splits)

lemma read_loop_bound:
  assumes "fst (read_loop fin buf input) = Inr bytes" and "length buf \<le> MAX_MESSAGE_BYTES"
  shows "length bytes \<le> MAX_MESSAGE_BYTES"
  using assms
  by (induction fin buf input rule: read_loop.induct)
    (auto simp: Let_def split: stream_end.splits if_splits)

lemma read_loop_oversized:
  assumes "10 \<notin> set (take (MAX_MESSAGE_BYTES + 1 - length buf) input)"
    and "length buf \<le> MAX_MESSAGE_BYTES" and "MAX_MESSAGE_BYTES < length buf + length input"
  shows "fst (read_loop fin buf input) = Inl (MessageTooLarge MAX_MESSAGE_BYTES)"
  using assms
proof (induction fin buf input rule: read_loop.induct)
  case (2 fin buf b bs)
  obtain k where k: "MAX_MESSAGE_BYTES + 1 - length buf = Suc k" using 2(3) by (metis Suc_diff_le Suc_eq_plus1)
  from 2(2) have "b \<noteq> 10" "10 \<notin> set (take k bs)" unfolding k by auto
  moreover have "MAX_MESSAGE_BYTES + 1 - length (buf @ [b]) = k" using k by simp
  ultimately show ?case using 2 by (cases "length (buf @ [b]) > MAX_MESSAGE_BYTES") (simp_all add: Let_def)
qed simp

lemma write_message_Inr:
  "write_message encode io v out = (Inr u, out') \<longleftrightarrow>
     (\<exists>bytes. encode v = Inr bytes \<and> length bytes \<le> MAX_MESSAGE_BYTES \<and> io = None
        \<and> out' = out @ bytes @ [10])"
  by (auto simp: write_message_def split: sum.splits option.splits if_splits)

lemma read_written:
  assumes "json_codec encode decode" and "encode v = Inr bytes" and "length bytes \<le> MAX_MESSAGE_BYTES"
  shows "read_message decode fin (bytes @ 10 # rest) = (Inr v, rest)"
  using assms read_loop_frame [of bytes "[]" fin rest] by (simp add: read_message_def json_codec_def)

lemma write_all_frames:
  assumes "json_codec encode decode" and "write_all encode vs out = (Inr (), out')"
  shows "\<exists>tail. out' = out @ tail \<and> read_all (length vs + 1) decode Closed tail = (vs, Some ConnectionClosed)"
  using assms(2)
proof (induction vs arbitrary: out)
  case Nil
  then show ?case by (simp add: read_message_def)
next
  case (Cons v vs)
  obtain res out1 where w: "write_message encode None v out = (res, out1)" by (cases "write_message encode None v out")
  with Cons.prems have res: "res = Inr ()" by (auto split: sum.splits)
  with w obtain bytes where b: "encode v = Inr bytes" "length bytes \<le> MAX_MESSAGE_BYTES"
    and o1: "out1 = out @ bytes @ [10]" by (auto simp: write_message_Inr)
  from Cons.prems w res have "write_all encode vs out1 = (Inr (), out')" by simp
  from Cons.IH [OF this] obtain tail where t: "out' = out1 @ tail"
      "read_all (length vs + 1) decode Closed tail = (vs, Some ConnectionClosed)" by blast
  have "read_all (length (v # vs) + 1) decode Closed (bytes @ 10 # tail) = (v # vs, Some ConnectionClosed)"
    using read_written [OF assms(1) b, of Closed tail] t(2) by simp
  then show ?case using o1 t(1) by (intro exI [of _ "bytes @ 10 # tail"]) simp
qed

lemma validate_for_client_Inr:
  "validate_for_client v = Inr u \<longleftrightarrow> div_product_id v = DAEMON_PRODUCT_ID
     \<and> div_protocol_version v = LOCAL_IPC_PROTOCOL_VERSION \<and> \<not> blank (div_instance_id v)
     \<and> valid_daemon_version (div_daemon_version v)"
  by (auto simp: validate_for_client_def trim_Nil_iff_blank)

section \<open>Properties\<close>

text \<open>
  C26: Framing of the control channel. Any sequence of messages that was written is read back as the same
  sequence, followed by the end of the connection; and on arbitrary input one read consumes at most one
  byte more than the limit, accepts no frame above the limit, and refuses a line that runs over it.
\<close>

theorem framed_messages_round_trip_within_bounds:
  assumes "json_codec encode decode" and "write_all encode vs [] = (Inr (), wire)"
  shows "read_all (length vs + 1) decode Closed wire = (vs, Some ConnectionClosed)
    \<and> (\<forall>fin input. length input \<le> length (snd (read_message decode fin input)) + (MAX_MESSAGE_BYTES + 1))
    \<and> (\<forall>fin input. 10 \<notin> set (take (MAX_MESSAGE_BYTES + 1) input) \<and> MAX_MESSAGE_BYTES < length input \<longrightarrow>
         fst (read_message decode fin input) = Inl (MessageTooLarge MAX_MESSAGE_BYTES))"
proof (intro conjI allI impI)
  show "read_all (length vs + 1) decode Closed wire = (vs, Some ConnectionClosed)"
    using write_all_frames [OF assms] by auto
next
  fix fin and input :: "byte list"
  show "length input \<le> length (snd (read_message decode fin input)) + (MAX_MESSAGE_BYTES + 1)"
    using read_loop_consumes [of "[]" input fin]
    by (auto simp: read_message_def split: prod.splits sum.splits)
next
  fix fin and input :: "byte list"
  assume "10 \<notin> set (take (MAX_MESSAGE_BYTES + 1) input) \<and> MAX_MESSAGE_BYTES < length input"
  then have "fst (read_loop fin [] input) = Inl (MessageTooLarge MAX_MESSAGE_BYTES)"
    by (intro read_loop_oversized) auto
  then show "fst (read_message decode fin input) = Inl (MessageTooLarge MAX_MESSAGE_BYTES)"
    by (auto simp: read_message_def split: prod.splits sum.splits)
qed

theorem framed_messages_round_trip_within_bounds_witness:
  "read_all 3 (\<lambda>bs. Inr (bs = [116])) Closed [116, 10, 102, 10] = ([True, False], Some ConnectionClosed)"
proof -
  let ?encode = "\<lambda>b. Inr (if b then [116] else [102]) :: string + byte list"
  let ?decode = "\<lambda>bs. Inr (bs = [116]) :: string + bool"
  have c: "json_codec ?encode ?decode" by (auto simp: json_codec_def split: if_splits)
  have w: "write_all ?encode [True, False] [] = (Inr (), [116, 10, 102, 10])"
    by (simp add: write_message_def MAX_MESSAGE_BYTES_def)
  from framed_messages_round_trip_within_bounds [OF c w] show ?thesis by (simp add: numeral_3_eq_3)
qed

end
