(* ===== verification/Gateway_Daemon.thy ===== *)
theory Gateway_Daemon
  imports Gateway_Stores Gateway_Audit Gateway_Config Gateway_Protocol
begin

text \<open>
  The daemon: \<^verbatim>\<open>src/apps/daemon/src/remote_processor.rs\<close> (everything that arrives over the transport,
  and the approval queue) and the state-changing local requests of \<^verbatim>\<open>src/apps/daemon/src/handlers.rs\<close>
  over the state of \<^verbatim>\<open>state.rs\<close>.

  \<open>daemon\<close> is the shared state: the tables of the repositories, the queue of operations that await
  approval (a \<open>HashMap\<close>; here the list of its entries, whose order nothing depends on), whether a
  transport is set and its connectivity, and two logs of what leaves the daemon: the tool calls made
  through the core bridge and the envelopes handed to the transport.

  \<open>world\<close> is everything a handler meets from outside while it runs: the clocks, fresh identifiers, the
  answer of the device identity store, the tool registry and file system, the decoders of payloads
  (\<open>serde_json::from_value\<close>), the reply of the core bridge with its duration, and for every kind of
  storage call the fault it meets, \<open>Some message\<close>.

  A handler that reads, awaits and writes again is the composition of its phases, so that
  \<^verbatim>\<open>Gateway_Interleaving\<close> can run the same phases of several handlers interleaved.
\<close>

section \<open>State\<close>

record pending_operation =
  po_request :: operation_request
  po_capability :: capability
  po_risk :: risk_assessment

datatype core_bridge_error =
    EndpointNotAllowed string
  | Unreachable string
  | Timeout
  | ProtocolError string
  | ToolError "int option" string

fun core_bridge_error_code :: "core_bridge_error \<Rightarrow> string" where
  "core_bridge_error_code (EndpointNotAllowed _) = ''CORE_BRIDGE_ENDPOINT_NOT_ALLOWED''"
| "core_bridge_error_code (Unreachable _) = ''CORE_UNREACHABLE''"
| "core_bridge_error_code Timeout = ''CORE_TIMEOUT''"
| "core_bridge_error_code (ProtocolError _) = ''CORE_PROTOCOL_ERROR''"
| "core_bridge_error_code (ToolError _ _) = ''CORE_TOOL_ERROR''"

fun core_bridge_error_text :: "core_bridge_error \<Rightarrow> string" where
  "core_bridge_error_text (EndpointNotAllowed e) = ''core bridge endpoint '' @ [CHR 0x27] @ e @ [CHR 0x27]
     @ '' is not a loopback/local address; only localhost targets are allowed by default''"
| "core_bridge_error_text (Unreachable m) = ''kicad-mcp-pro is unreachable: '' @ m"
| "core_bridge_error_text Timeout = ''kicad-mcp-pro call timed out''"
| "core_bridge_error_text (ProtocolError m) =
     ''kicad-mcp-pro returned a malformed or unexpected response: '' @ m"
| "core_bridge_error_text (ToolError _ m) = ''kicad-mcp-pro tool call failed: '' @ m"

record daemon =
  d_workspaces :: workspace_table
  d_sessions :: session_table
  d_grants :: "grant_row list"
  d_audit :: audit_table
  d_pending :: "(operation_id \<times> pending_operation) list"
  d_transport :: bool
  d_transport_state :: transport_state
  d_calls :: "operation_request list"
  d_sent :: "envelope list"

record session_request_payload =
  sp_remote_principal :: string
  sp_workspace_id :: workspace_id
  sp_capability_profile :: capability_profile
  sp_task_scope :: string
  sp_ttl_minutes :: int

record world =
  w_stamp :: "instant \<Rightarrow> string"
  w_put :: "ulid \<Rightarrow> string"
  w_now :: instant
  w_utc :: instant
  w_session_ulid :: ulid
  w_grant_ulid :: ulid
  w_workspace_ulid :: ulid
  w_message_id :: string
  w_identity :: "string + device_id option"
  w_resolver :: tool_capability_resolver
  w_fs :: filesystem
  w_ttl :: authorization_ttl_config
  w_decode_session_request :: "json \<Rightarrow> string + session_request_payload"
  w_decode_operation_request :: "json \<Rightarrow> string + operation_request"
  w_bridge :: "operation_request \<Rightarrow> core_bridge_error + json"
  w_duration_ms :: u64
  f_workspace_load :: "string option"
  f_workspace_write :: "string option"
  f_session_load :: "string option"
  f_session_save :: "string option"
  f_grant_load :: "string option"
  f_find_live :: "string option"
  f_grant_save :: "string option"
  f_audit_record :: "string option"
  f_audit_approval :: "string option"
  f_audit_execution :: "operation_id \<Rightarrow> string option"

datatype daemon_error =
    DaemonIdentityFailed string
  | DaemonSession session_error
  | DaemonAuthorization grant_error
  | DaemonWorkspace workspace_error
  | SecretStoreUnavailable
  | SessionNotFound
  | AuthorizationNotEstablished
  | NoAuthorizationDecision
  | AuditPersistence string
  | Internal string

fun daemon_error_code :: "daemon_error \<Rightarrow> string" where
  "daemon_error_code (DaemonIdentityFailed c) = c"
| "daemon_error_code (DaemonSession e) = session_error_code e"
| "daemon_error_code (DaemonAuthorization e) = grant_error_code e"
| "daemon_error_code (DaemonWorkspace e) = workspace_error_code e"
| "daemon_error_code SecretStoreUnavailable = ''IDENTITY_SECRET_STORE_UNAVAILABLE''"
| "daemon_error_code SessionNotFound = ''SESSION_NOT_FOUND''"
| "daemon_error_code AuthorizationNotEstablished = ''AUTHORIZATION_NOT_ESTABLISHED''"
| "daemon_error_code NoAuthorizationDecision = ''AUTHORIZATION_NOT_A_DECISION_FOR_THIS_STATE''"
| "daemon_error_code (AuditPersistence c) = c"
| "daemon_error_code (Internal _) = ''IPC_INTERNAL''"

section \<open>Envelopes the daemon sends\<close>

definition transport_send :: "envelope \<Rightarrow> daemon \<Rightarrow> daemon" where
  "transport_send e d = d\<lparr>d_sent := d_sent d @ [e]\<rparr>"

definition send_if_connected :: "envelope \<Rightarrow> daemon \<Rightarrow> daemon" where
  "send_if_connected e d = (if d_transport d then transport_send e d else d)"

definition operation_text :: "world \<Rightarrow> operation_id \<Rightarrow> string" where
  "operation_text w op = id_display (w_put w) ''op'' (op_ulid op)"

definition operation_result_envelope :: "world \<Rightarrow> operation_request \<Rightarrow> bool \<Rightarrow> json \<Rightarrow> envelope" where
  "operation_result_envelope w rq success payload =
     with_correlation_id (operation_text w (op_operation_id rq))
       (envelope_new (w_message_id w) OperationResult
         (JObject [(''operation_id'', JString (operation_text w (op_operation_id rq))),
                   (''success'', JBool success), (''result'', payload)]))"

definition AUDIT_FAIL_CLOSED_MESSAGE :: string where
  "AUDIT_FAIL_CLOSED_MESSAGE = ''durable audit record could not be persisted; operation was not executed''"

definition audit_refusal_envelope :: "world \<Rightarrow> operation_request \<Rightarrow> string \<Rightarrow> bool \<Rightarrow> envelope" where
  "audit_refusal_envelope w rq cls retryable =
     operation_result_envelope w rq False
       (JObject [(''error_class'', JString cls), (''error'', JString AUDIT_FAIL_CLOSED_MESSAGE),
                 (''retryable'', JBool retryable), (''executed'', JBool False)])"

fun deny_reason_debug :: "deny_reason \<Rightarrow> string" where
  "deny_reason_debug DMalformedRequest = ''MalformedRequest''"
| "deny_reason_debug DSessionNotActive = ''SessionNotActive''"
| "deny_reason_debug DSessionExpired = ''SessionExpired''"
| "deny_reason_debug DSessionRevoked = ''SessionRevoked''"
| "deny_reason_debug DOneShotGrantConsumed = ''OneShotGrantConsumed''"
| "deny_reason_debug DAuthorizationNotEstablished = ''AuthorizationNotEstablished''"
| "deny_reason_debug DPrincipalBindingMismatch = ''PrincipalBindingMismatch''"
| "deny_reason_debug DWorkspaceNotAuthorized = ''WorkspaceNotAuthorized''"
| "deny_reason_debug DPathEscapesWorkspace = ''PathEscapesWorkspace''"
| "deny_reason_debug DUnknownTool = ''UnknownTool''"
| "deny_reason_debug DUnmodelledToolContract = ''UnmodelledToolContract''"
| "deny_reason_debug DMalformedToolArguments = ''MalformedToolArguments''"
| "deny_reason_debug DCapabilityNotGranted = ''CapabilityNotGranted''"

section \<open>Session requests\<close>

definition bound_local_device_id :: "world \<Rightarrow> device_id option \<Rightarrow> device_id option" where
  "bound_local_device_id w claimed =
     (case claimed of
        None \<Rightarrow> None
      | Some dev \<Rightarrow> if w_identity w = Inr (Some dev) then Some dev else None)"

definition minutes :: "int \<Rightarrow> duration" where
  "minutes m = m * (60 * 1000000000)"

text \<open>The session row and the grant that a well-formed request asks for.\<close>

definition requested_session ::
  "world \<Rightarrow> device_id \<Rightarrow> workspace_authorization \<Rightarrow> session_request_payload \<Rightarrow> session_error + session" where
  "requested_session w dev ws p =
     (let ttl = minutes (eff_effective_minutes
            (effective_ttl (w_ttl w) (sp_capability_profile p) (sp_ttl_minutes p)));
          s = new_unpaired_session (SessionId (w_session_ulid w)) dev (sp_remote_principal p)
                {|ws_workspace_id ws|} (sp_capability_profile p) (sp_task_scope p) ttl (w_now w) in
      rbind (session_transition s EPair (w_now w)) (\<lambda>s.
      rbind (session_transition s ETransportConnected (w_now w)) (\<lambda>s.
      session_transition s ERequestAccess (w_now w))))"

definition requested_grant ::
  "world \<Rightarrow> device_id \<Rightarrow> workspace_authorization \<Rightarrow> session_request_payload \<Rightarrow> verified_principal option
   \<Rightarrow> session \<Rightarrow> access_grant" where
  "requested_grant w dev ws p vp s =
     grant_requested (GrantId (w_grant_ulid w))
       \<lparr>rq_subject_session_id = ses_session_id s,
        rq_device_id = dev,
        rq_principal =
          (case vp of
             Some v \<Rightarrow> principal_verified (sp_remote_principal p) v
           | None \<Rightarrow> principal_unverified (sp_remote_principal p)),
        rq_workspace_ids = {|ws_workspace_id ws|},
        rq_capability_profile = sp_capability_profile p,
        rq_task_scope = sp_task_scope p,
        rq_kind = Standing,
        rq_lifetime = minutes (eff_effective_minutes
            (effective_ttl (w_ttl w) (sp_capability_profile p) (sp_ttl_minutes p))),
        rq_risk_policy_version = OPERATION_RISK_POLICY_VERSION\<rparr> (w_now w)"

text \<open>Both writes of an accepted request; the second runs only if the first succeeded.\<close>

definition persist_request :: "world \<Rightarrow> session \<Rightarrow> access_grant \<Rightarrow> daemon \<Rightarrow> daemon" where
  "persist_request w s g d =
     (case session_save (f_session_save w) s (d_sessions d) of
        (Inl _, _) \<Rightarrow> d
      | (Inr _, sessions) \<Rightarrow>
          d\<lparr>d_sessions := sessions, d_grants := snd (save_grant (f_grant_save w) g (d_grants d))\<rparr>)"

definition handle_session_request ::
  "world \<Rightarrow> envelope \<Rightarrow> verified_principal option \<Rightarrow> daemon \<Rightarrow> daemon" where
  "handle_session_request w env vp d =
     (if (case vp of None \<Rightarrow> False | Some actor \<Rightarrow> \<not> has_required_binding_fields actor) then d
      else
        (case w_decode_session_request w (env_payload env) of
           Inl _ \<Rightarrow> d
         | Inr p \<Rightarrow>
             (case bound_local_device_id w (env_device_id env) of
                None \<Rightarrow> d
              | Some dev \<Rightarrow>
                  (case workspace_load (f_workspace_load w) (sp_workspace_id p) (d_workspaces d) of
                     Inl _ \<Rightarrow> d
                   | Inr None \<Rightarrow> d
                   | Inr (Some ws) \<Rightarrow>
                       (case requested_session w dev ws p of
                          Inl _ \<Rightarrow> d
                        | Inr s \<Rightarrow>
                            let g = requested_grant w dev ws p vp s in
                            (case find_live_request (w_stamp w) (w_put w) (f_find_live w) g (d_grants d) of
                               Inl _ \<Rightarrow> d
                             | Inr (Some _) \<Rightarrow> d
                             | Inr None \<Rightarrow> persist_request w s g d))))))"

section \<open>Operation requests\<close>

text \<open>\<open>.ok().flatten()\<close> makes an unreadable grant or row the same as a missing one.\<close>

definition resolve_grant ::
  "world \<Rightarrow> daemon \<Rightarrow> operation_request \<Rightarrow> access_grant option \<times> session option" where
  "resolve_grant w d rq =
     (let s = ok_flatten (session_load (f_session_load w) (op_session_id rq) (d_sessions d)) in
      case ok_flatten (load_grant_for_subject (w_stamp w) (w_put w) (f_grant_load w) (op_session_id rq)
             (d_grants d)) of
        Some g \<Rightarrow> (Some g, s)
      | None \<Rightarrow>
          ((case s of
              None \<Rightarrow> None
            | Some row \<Rightarrow> ok_flatten (grant_from_legacy_session (w_put w) row)), s))"

definition evaluate_operation_request ::
  "world \<Rightarrow> daemon \<Rightarrow> operation_request \<Rightarrow> policy_decision \<times> access_grant option \<times> session option" where
  "evaluate_operation_request w d rq =
     (let (g, s) = resolve_grant w d rq;
          ws = ok_flatten (workspace_load (f_workspace_load w) (op_workspace_id rq) (d_workspaces d));
          decision =
            (case (g, ws) of
               (Some g, Some ws) \<Rightarrow> evaluate_with_grant (w_resolver w) (w_fs w) rq g ws (w_now w)
             | _ \<Rightarrow> policy_decision.Deny
                     (case ws of Some _ \<Rightarrow> DAuthorizationNotEstablished | None \<Rightarrow> DWorkspaceNotAuthorized)) in
      (decision, g, s))"

definition build_audit_event ::
  "world \<Rightarrow> operation_request \<Rightarrow> access_grant option \<Rightarrow> session option \<Rightarrow> policy_decision \<Rightarrow> audit_event" where
  "build_audit_event w rq g s decision =
     (let risk = map_option snd (decision_permits decision);
          verified =
            (case g of
               None \<Rightarrow> None
             | Some g \<Rightarrow> if principal_is_verified (gr_principal g) then pr_verified (gr_principal g) else None) in
      \<lparr>ae_operation_id = op_operation_id rq,
       ae_timestamp = w_utc w,
       ae_session_id = Some (op_session_id rq),
       ae_workspace_id = Some (op_workspace_id rq),
       ae_remote_principal =
         (case g of
            Some g \<Rightarrow> Some (pr_name (gr_principal g))
          | None \<Rightarrow> map_option ses_remote_principal s),
       ae_principal_assurance = (if verified \<noteq> None then Verified else Unverified),
       ae_verified_principal_issuer = map_option vp_issuer verified,
       ae_verified_principal_subject = map_option vp_subject verified,
       ae_principal_verification_source = map_option vp_verification_source verified,
       ae_authentication_strength = map_option vp_authentication_strength verified,
       ae_requested_tool = op_tool_name rq,
       ae_capability = map_option fst (decision_permits decision),
       ae_risk = map_option ra_effective_risk risk,
       ae_risk_policy_version = map_option ra_policy_version risk,
       ae_base_risk = map_option ra_base_risk risk,
       ae_risk_factors = (case risk of None \<Rightarrow> [] | Some r \<Rightarrow> ra_factors r),
       ae_policy_result =
         (case decision of
            Allow _ _ \<Rightarrow> PRAllow
          | policy_decision.Deny _ \<Rightarrow> PRDeny
          | RequireApproval _ _ _ \<Rightarrow> PRRequireApproval),
       ae_approval_decision = None,
       ae_execution_status = NotExecuted,
       ae_error_class = None,
       ae_duration_ms = None\<rparr>)"

text \<open>The call to the core bridge, and what follows its reply.\<close>

definition core_call :: "world \<Rightarrow> operation_request \<Rightarrow> daemon \<Rightarrow> (core_bridge_error + json) \<times> daemon" where
  "core_call w rq d = (w_bridge w rq, d\<lparr>d_calls := d_calls d @ [rq]\<rparr>)"

definition finish_execution ::
  "world \<Rightarrow> operation_request \<Rightarrow> core_bridge_error + json \<Rightarrow> daemon \<Rightarrow> daemon" where
  "finish_execution w rq reply d =
     (let (success, payload, cls) =
            (case reply of
               Inr v \<Rightarrow> (True, v, None)
             | Inl e \<Rightarrow> (False, JObject [(''error'', JString (core_bridge_error_text e))],
                          Some (core_bridge_error_code e)));
          audit = snd (update_execution (f_audit_execution w (op_operation_id rq)) (op_operation_id rq)
            (if success then Success else Failed) cls (Some (w_duration_ms w)) (d_audit d)) in
      transport_send (operation_result_envelope w rq success payload) (d\<lparr>d_audit := audit\<rparr>))"

definition execute_and_respond :: "world \<Rightarrow> operation_request \<Rightarrow> daemon \<Rightarrow> daemon" where
  "execute_and_respond w rq d = (let (reply, d1) = core_call w rq d in finish_execution w rq reply d1)"

text \<open>
  The phases of an operation request: the gate (device binding, decoding, evaluation, principal
  binding), the durable record, and the dispatch of the recorded decision.
\<close>

definition operation_gate ::
  "world \<Rightarrow> envelope \<Rightarrow> verified_principal option \<Rightarrow> daemon
   \<Rightarrow> (operation_request \<times> policy_decision \<times> access_grant option \<times> session option) option" where
  "operation_gate w env vp d =
     (case bound_local_device_id w (env_device_id env) of
        None \<Rightarrow> None
      | Some dev \<Rightarrow>
          (case w_decode_operation_request w (env_payload env) of
             Inl _ \<Rightarrow> None
           | Inr rq \<Rightarrow>
               let (decision, g, s) = evaluate_operation_request w d rq;
                   bound_device = (case g of Some g \<Rightarrow> Some (gr_device_id g) | None \<Rightarrow> map_option ses_device_id s) in
               if bound_device \<noteq> Some dev then None
               else
                 Some (rq,
                   (case g of
                      Some g \<Rightarrow>
                        if \<not> accepts_transport_principal (gr_principal g) vp
                        then policy_decision.Deny DPrincipalBindingMismatch else decision
                    | None \<Rightarrow> decision), g, s)))"

definition dispatch_decision :: "world \<Rightarrow> operation_request \<Rightarrow> policy_decision \<Rightarrow> daemon \<Rightarrow> daemon" where
  "dispatch_decision w rq decision d =
     (case decision of
        Allow _ _ \<Rightarrow> execute_and_respond w rq d
      | policy_decision.Deny reason \<Rightarrow>
          transport_send (operation_result_envelope w rq False
            (JObject [(''denied'', JString (deny_reason_debug reason))])) d
      | RequireApproval _ risk cap \<Rightarrow>
          d\<lparr>d_pending := AList.update (op_operation_id rq)
              \<lparr>po_request = rq, po_capability = cap, po_risk = risk\<rparr> (d_pending d)\<rparr>)"

definition record_decision ::
  "world \<Rightarrow> operation_request \<Rightarrow> access_grant option \<Rightarrow> session option \<Rightarrow> policy_decision \<Rightarrow> daemon
   \<Rightarrow> bool \<times> daemon" where
  "record_decision w rq g s decision d =
     (case audit_record (f_audit_record w) (build_audit_event w rq g s decision) (d_audit d) of
        (Inl e, _) \<Rightarrow> (False, transport_send (audit_refusal_envelope w rq (audit_error_code e) False) d)
      | (Inr _, audit) \<Rightarrow> (True, d\<lparr>d_audit := audit\<rparr>))"

definition handle_operation_request ::
  "world \<Rightarrow> envelope \<Rightarrow> verified_principal option \<Rightarrow> daemon \<Rightarrow> daemon" where
  "handle_operation_request w env vp d =
     (case operation_gate w env vp d of
        None \<Rightarrow> d
      | Some (rq, decision, g, s) \<Rightarrow>
          let (ok, d1) = record_decision w rq g s decision d in
          if ok then dispatch_decision w rq decision d1 else d1)"

definition handle_inbound_envelope ::
  "world \<Rightarrow> envelope \<Rightarrow> verified_principal option \<Rightarrow> daemon \<Rightarrow> daemon" where
  "handle_inbound_envelope w env vp d =
     (case check_protocol_version env of
        Inl _ \<Rightarrow> d
      | Inr _ \<Rightarrow>
          (case env_message_type env of
             SessionRequest \<Rightarrow> handle_session_request w env vp d
           | MOperationRequest \<Rightarrow> handle_operation_request w env vp d
           | _ \<Rightarrow> d))"

section \<open>The approval queue\<close>

definition take_pending :: "operation_id \<Rightarrow> daemon \<Rightarrow> (pending_operation \<times> daemon) option" where
  "take_pending op d =
     map_option (\<lambda>p. (p, d\<lparr>d_pending := AList.delete op (d_pending d)\<rparr>)) (map_of (d_pending d) op)"

definition requeue_pending_operation :: "operation_id \<Rightarrow> pending_operation \<Rightarrow> daemon \<Rightarrow> daemon" where
  "requeue_pending_operation op p d =
     (case map_of (d_pending d) op of
        Some _ \<Rightarrow> d
      | None \<Rightarrow> d\<lparr>d_pending := d_pending d @ [(op, p)]\<rparr>)"

definition still_authorized :: "world \<Rightarrow> pending_operation \<Rightarrow> daemon \<Rightarrow> bool" where
  "still_authorized w p d =
     (case fst (evaluate_operation_request w d (po_request p)) of
        RequireApproval _ risk cap \<Rightarrow> cap = po_capability p \<and> risk = po_risk p
      | _ \<Rightarrow> False)"

text \<open>
  The decision is made durable before anything runs. The boolean says that the operation may run now.
\<close>

definition commit_approval ::
  "world \<Rightarrow> operation_id \<Rightarrow> pending_operation \<Rightarrow> bool \<Rightarrow> daemon \<Rightarrow> (daemon_error + unit) \<times> bool \<times> daemon" where
  "commit_approval w op p still d =
     (case update_approval_decision (f_audit_approval w) op KAllowOnce (d_audit d) of
        (Inl e, _) \<Rightarrow> (Inl (AuditPersistence (audit_error_code e)), False, requeue_pending_operation op p d)
      | (Inr _, audit) \<Rightarrow>
          let d1 = d\<lparr>d_audit := audit\<rparr> in
          if \<not> still
          then
            (Inl (Internal ''pending operation is no longer authorized''), False,
             send_if_connected (operation_result_envelope w (po_request p) False
                 (JObject [(''denied'', JString ''authorization changed before approval'')]))
               (d1\<lparr>d_audit := snd (update_execution (f_audit_execution w op) op Failed
                  (Some ''POLICY_REVALIDATION_DENIED'') None (d_audit d1))\<rparr>))
          else (Inr (), d_transport d1, d1))"

definition approve_pending_operation ::
  "world \<Rightarrow> operation_id \<Rightarrow> daemon \<Rightarrow> (daemon_error + unit) \<times> daemon" where
  "approve_pending_operation w op d =
     (case take_pending op d of
        None \<Rightarrow> (Inl (Internal ''no such pending operation''), d)
      | Some (p, d1) \<Rightarrow>
          let (res, run, d2) = commit_approval w op p (still_authorized w p d1) d1 in
          (res, if run then execute_and_respond w (po_request p) d2 else d2))"

definition finish_denial ::
  "world \<Rightarrow> operation_id \<Rightarrow> pending_operation \<Rightarrow> daemon \<Rightarrow> (daemon_error + unit) \<times> daemon" where
  "finish_denial w op p d =
     (let (res, audit) = update_approval_decision (f_audit_approval w) op KDenied (d_audit d);
          audit' = snd (update_execution (f_audit_execution w op) op Failed (Some ''DENIED_BY_USER'') None audit) in
      (map_err (\<lambda>e. AuditPersistence (audit_error_code e)) res,
       send_if_connected (operation_result_envelope w (po_request p) False
           (JObject [(''denied'', JString ''by user'')])) (d\<lparr>d_audit := audit'\<rparr>)))"

definition deny_pending_operation ::
  "world \<Rightarrow> operation_id \<Rightarrow> daemon \<Rightarrow> (daemon_error + unit) \<times> daemon" where
  "deny_pending_operation w op d =
     (case take_pending op d of
        None \<Rightarrow> (Inl (Internal ''no such pending operation''), d)
      | Some (p, d1) \<Rightarrow> finish_denial w op p d1)"

definition fail_all :: "world \<Rightarrow> operation_id list \<Rightarrow> audit_table \<Rightarrow> audit_table" where
  "fail_all w ops audit =
     foldl (\<lambda>a op. snd (update_execution (f_audit_execution w op) op Failed (Some ''SESSION_REVOKED'') None a))
       audit ops"

definition invalidate_pending_for_session :: "world \<Rightarrow> session_id \<Rightarrow> daemon \<Rightarrow> nat \<times> daemon" where
  "invalidate_pending_for_session w sid d =
     (let removed = map fst (filter (\<lambda>(_, p). op_session_id (po_request p) = sid) (d_pending d)) in
      (length removed,
       d\<lparr>d_pending := filter (\<lambda>(_, p). op_session_id (po_request p) \<noteq> sid) (d_pending d),
         d_audit := fail_all w removed (d_audit d)\<rparr>))"

record pending_summary =
  ps_operation_id :: operation_id
  ps_session_id :: session_id
  ps_workspace_id :: workspace_id
  ps_tool_name :: string
  ps_risk :: risk_assessment

definition list_pending_operations :: "daemon \<Rightarrow> pending_summary list" where
  "list_pending_operations d =
     map (\<lambda>(_, p). \<lparr>ps_operation_id = op_operation_id (po_request p), ps_session_id = op_session_id (po_request p),
        ps_workspace_id = op_workspace_id (po_request p), ps_tool_name = op_tool_name (po_request p),
        ps_risk = po_risk p\<rparr>) (d_pending d)"

section \<open>Local decisions\<close>

definition authority_for_subject :: "world \<Rightarrow> session_id \<Rightarrow> daemon \<Rightarrow> daemon_error + access_grant option" where
  "authority_for_subject w sid d =
     rbind (map_err DaemonAuthorization
       (load_grant_for_subject (w_stamp w) (w_put w) (f_grant_load w) sid (d_grants d))) (\<lambda>g.
     case g of
       Some g \<Rightarrow> Inr (Some g)
     | None \<Rightarrow>
         rbind (map_err DaemonSession (session_load (f_session_load w) sid (d_sessions d))) (\<lambda>s.
         Inr (case s of
                None \<Rightarrow> None
              | Some row \<Rightarrow> ok_flatten (grant_from_legacy_session (w_put w) row))))"

text \<open>The phases of a decision: read and transition, save the grant, mirror and clean up.\<close>

definition decide_read :: "world \<Rightarrow> session_id \<Rightarrow> session_event \<Rightarrow> daemon \<Rightarrow> daemon_error + access_grant" where
  "decide_read w sid e d =
     rbind (authority_for_subject w sid d) (\<lambda>found.
     rbind (ok_or SessionNotFound found) (\<lambda>g.
     rbind (ok_or NoAuthorizationDecision (authorization_event_for e)) (\<lambda>ae.
     map_err DaemonAuthorization (grant_transition g ae (w_now w)))))"

definition decide_save :: "world \<Rightarrow> access_grant \<Rightarrow> daemon \<Rightarrow> (daemon_error + unit) \<times> daemon" where
  "decide_save w g d =
     (case save_grant (f_grant_save w) g (d_grants d) of
        (res, rows) \<Rightarrow> (map_err DaemonAuthorization res, d\<lparr>d_grants := rows\<rparr>))"

definition decide_finish ::
  "world \<Rightarrow> session_id \<Rightarrow> session_event \<Rightarrow> access_grant \<Rightarrow> daemon \<Rightarrow> (daemon_error + unit) \<times> daemon" where
  "decide_finish w sid e g d =
     (case session_load (f_session_load w) sid (d_sessions d) of
        Inl err \<Rightarrow> (Inl (DaemonSession err), d)
      | Inr found \<Rightarrow>
          let (res, sessions) =
                (case found of
                   None \<Rightarrow> (Inr (), d_sessions d)
                 | Some s \<Rightarrow>
                     (case session_transition s e (w_now w) of
                        Inl _ \<Rightarrow> (Inr (), d_sessions d)
                      | Inr s' \<Rightarrow> session_save (f_session_save w) s' (d_sessions d)));
              d1 = d\<lparr>d_sessions := sessions\<rparr> in
          (case res of
             Inl err \<Rightarrow> (Inl (DaemonSession err), d1)
           | Inr _ \<Rightarrow>
               (Inr (), if gr_status g = Revoked then snd (invalidate_pending_for_session w sid d1) else d1)))"

definition decide_session ::
  "world \<Rightarrow> session_id \<Rightarrow> session_event \<Rightarrow> daemon \<Rightarrow> (daemon_error + unit) \<times> daemon" where
  "decide_session w sid e d =
     (case decide_read w sid e d of
        Inl err \<Rightarrow> (Inl err, d)
      | Inr g \<Rightarrow>
          (case decide_save w g d of
             (Inl err, d1) \<Rightarrow> (Inl err, d1)
           | (Inr _, d1) \<Rightarrow> decide_finish w sid e g d1))"

definition authorize_workspace ::
  "world \<Rightarrow> path \<Rightarrow> string \<Rightarrow> daemon \<Rightarrow> (daemon_error + workspace_authorization) \<times> daemon" where
  "authorize_workspace w root name d =
     (case workspace_authorization_new (w_fs w) (WorkspaceId (w_workspace_ulid w)) (w_utc w) name root of
        Inl e \<Rightarrow> (Inl (DaemonWorkspace e), d)
      | Inr ws \<Rightarrow>
          (case workspace_save (f_workspace_write w) ws (d_workspaces d) of
             (Inl e, rows) \<Rightarrow> (Inl (DaemonWorkspace e), d\<lparr>d_workspaces := rows\<rparr>)
           | (Inr _, rows) \<Rightarrow> (Inr ws, d\<lparr>d_workspaces := rows\<rparr>)))"

definition remove_workspace :: "world \<Rightarrow> workspace_id \<Rightarrow> daemon \<Rightarrow> (daemon_error + unit) \<times> daemon" where
  "remove_workspace w wid d =
     (case workspace_remove (f_workspace_write w) wid (d_workspaces d) of
        (res, rows) \<Rightarrow> (map_err DaemonWorkspace res, d\<lparr>d_workspaces := rows\<rparr>))"

definition record_transport_event :: "transport_connectivity_event \<Rightarrow> daemon \<Rightarrow> daemon" where
  "record_transport_event e d = d\<lparr>d_transport_state := transport_state_after (d_transport_state d) e\<rparr>"

section \<open>Elementary facts\<close>

lemmas send_defs = transport_send_def send_if_connected_def

lemma audit_ids_simps [simp]:
  "audit_ids [] = {}" "audit_ids (r # rows) = insert (audit_key r) (audit_ids rows)"
  "audit_ids (rows @ rows') = audit_ids rows \<union> audit_ids rows'"
  by (auto simp: audit_ids_def)

lemma transport_send_frame [simp]:
  "d_workspaces (transport_send e d) = d_workspaces d" "d_sessions (transport_send e d) = d_sessions d"
  "d_grants (transport_send e d) = d_grants d" "d_audit (transport_send e d) = d_audit d"
  "d_pending (transport_send e d) = d_pending d" "d_transport (transport_send e d) = d_transport d"
  "d_calls (transport_send e d) = d_calls d"
  by (simp_all add: transport_send_def)

lemma send_if_connected_frame [simp]:
  "d_workspaces (send_if_connected e d) = d_workspaces d" "d_sessions (send_if_connected e d) = d_sessions d"
  "d_grants (send_if_connected e d) = d_grants d" "d_audit (send_if_connected e d) = d_audit d"
  "d_pending (send_if_connected e d) = d_pending d" "d_transport (send_if_connected e d) = d_transport d"
  "d_calls (send_if_connected e d) = d_calls d"
  by (simp_all add: send_if_connected_def)

text \<open>The audit table after the outcome of a call was written.\<close>

definition outcome_audit ::
  "world \<Rightarrow> operation_request \<Rightarrow> core_bridge_error + json \<Rightarrow> audit_table \<Rightarrow> audit_table" where
  "outcome_audit w rq reply audit =
     snd (update_execution (f_audit_execution w (op_operation_id rq)) (op_operation_id rq)
       (case reply of Inr _ \<Rightarrow> Success | Inl _ \<Rightarrow> Failed)
       (case reply of Inr _ \<Rightarrow> None | Inl e \<Rightarrow> Some (core_bridge_error_code e)) (Some (w_duration_ms w)) audit)"

lemma finish_execution_frame [simp]:
  "d_workspaces (finish_execution w rq reply d) = d_workspaces d"
  "d_sessions (finish_execution w rq reply d) = d_sessions d"
  "d_grants (finish_execution w rq reply d) = d_grants d"
  "d_pending (finish_execution w rq reply d) = d_pending d"
  "d_transport (finish_execution w rq reply d) = d_transport d"
  "d_calls (finish_execution w rq reply d) = d_calls d"
  "d_audit (finish_execution w rq reply d) = outcome_audit w rq reply (d_audit d)"
  by (simp_all add: finish_execution_def outcome_audit_def split: sum.splits)

lemma core_call_simps [simp]:
  "fst (core_call w rq d) = w_bridge w rq"
  "snd (core_call w rq d) = d\<lparr>d_calls := d_calls d @ [rq]\<rparr>"
  by (simp_all add: core_call_def)

lemma execute_and_respond_frame [simp]:
  "d_workspaces (execute_and_respond w rq d) = d_workspaces d"
  "d_sessions (execute_and_respond w rq d) = d_sessions d"
  "d_grants (execute_and_respond w rq d) = d_grants d"
  "d_pending (execute_and_respond w rq d) = d_pending d"
  "d_transport (execute_and_respond w rq d) = d_transport d"
  "d_calls (execute_and_respond w rq d) = d_calls d @ [rq]"
  "d_audit (execute_and_respond w rq d) = outcome_audit w rq (w_bridge w rq) (d_audit d)"
  by (simp_all add: execute_and_respond_def core_call_def)

text \<open>
  What the execution and approval updates leave of a row: its key, policy result and session, and, for
  the execution update, the approval decision.
\<close>

definition row_says :: "operation_id \<Rightarrow> policy_result_kind \<Rightarrow> approval_decision_kind option \<Rightarrow> audit_table \<Rightarrow> bool" where
  "row_says op k a rows \<longleftrightarrow>
     (\<exists>r \<in> set rows. audit_key r = op \<and> ae_policy_result (ar_event r) = k \<and> ae_approval_decision (ar_event r) = a)"

lemma audit_key_update [simp]:
  "audit_key (r\<lparr>ar_event := (ar_event r)\<lparr>ae_execution_status := st, ae_error_class := cls\<rparr>, ar_duration_ms := dur\<rparr>)
     = audit_key r"
  "audit_key (r\<lparr>ar_event := (ar_event r)\<lparr>ae_approval_decision := a\<rparr>\<rparr>) = audit_key r"
  by (simp_all add: audit_key_def)

lemma row_says_map:
  "row_says op k a (map f rows) \<longleftrightarrow>
     (\<exists>r \<in> set rows. audit_key (f r) = op \<and> ae_policy_result (ar_event (f r)) = k
        \<and> ae_approval_decision (ar_event (f r)) = a)"
  by (simp add: row_says_def)

lemma row_says_update_execution [simp]:
  "row_says op k a (snd (update_execution io op' st cls dur rows)) \<longleftrightarrow> row_says op k a rows"
proof -
  let ?f = "\<lambda>r. if audit_key r = op' then r\<lparr>ar_event := (ar_event r)\<lparr>ae_execution_status := st, ae_error_class := cls\<rparr>,
      ar_duration_ms := map_option sint dur\<rparr> else r"
  have "row_says op k a (map ?f rows) \<longleftrightarrow> row_says op k a rows"
    unfolding row_says_map unfolding row_says_def by (rule bex_cong) simp_all
  then show ?thesis by (simp add: update_execution_def audit_update_def split: option.splits)
qed

lemma row_says_approval_other:
  assumes "op \<noteq> op'"
  shows "row_says op k a (snd (update_approval_decision io op' dec rows)) \<longleftrightarrow> row_says op k a rows"
proof -
  let ?f = "\<lambda>r. if audit_key r = op' then r\<lparr>ar_event := (ar_event r)\<lparr>ae_approval_decision := Some dec\<rparr>\<rparr> else r"
  have "row_says op k a (map ?f rows) \<longleftrightarrow> row_says op k a rows"
    unfolding row_says_map unfolding row_says_def by (rule bex_cong) (use assms in auto)
  then show ?thesis by (simp add: update_approval_decision_def audit_update_def split: option.splits)
qed

lemma row_says_approval:
  assumes "update_approval_decision io op dec rows = (Inr u, rows')" and "row_says op k a rows"
  shows "row_says op k (Some dec) rows'"
proof -
  let ?f = "\<lambda>r. if audit_key r = op then r\<lparr>ar_event := (ar_event r)\<lparr>ae_approval_decision := Some dec\<rparr>\<rparr> else r"
  from assms(1) have rows': "rows' = map ?f rows"
    by (auto simp: update_approval_decision_def audit_update_def split: option.splits if_splits)
  from assms(2) obtain r where "r \<in> set rows" "audit_key r = op" "ae_policy_result (ar_event r) = k"
    unfolding row_says_def by blast
  then show ?thesis unfolding rows' row_says_map by (intro bexI [of _ r]) simp_all
qed

lemma row_says_append: "row_says op k a rows \<Longrightarrow> row_says op k a (rows @ xs)"
  by (auto simp: row_says_def)

lemma outcome_audit_simps [simp]:
  "audit_ids (outcome_audit w rq reply rows) = audit_ids rows"
  "row_says op k a (outcome_audit w rq reply rows) \<longleftrightarrow> row_says op k a rows"
  by (simp_all add: outcome_audit_def)

lemma fail_all_simps [simp]:
  "audit_ids (fail_all w ops rows) = audit_ids rows"
  "row_says op k a (fail_all w ops rows) \<longleftrightarrow> row_says op k a rows"
  unfolding fail_all_def by (induction ops arbitrary: rows) auto

text \<open>The event the daemon builds always carries consistent principal evidence.\<close>

lemma built_event_consistent: "has_consistent_principal_evidence (build_audit_event w rq g s decision)"
proof (cases "\<exists>h. g = Some h \<and> principal_is_verified (gr_principal h)")
  case True
  then obtain h v where "g = Some h" "pr_verified (gr_principal h) = Some v" "has_required_binding_fields v"
    "principal_is_verified (gr_principal h)"
    by (auto simp: principal_is_verified_def split: option.splits)
  then show ?thesis
    by (simp add: has_consistent_principal_evidence_def build_audit_event_def Let_def is_some_nonblank_def
        has_required_binding_fields_def)
next
  case False
  then show ?thesis
    by (auto simp: has_consistent_principal_evidence_def build_audit_event_def Let_def split: option.splits)
qed

lemma built_event_simps [simp]:
  "ae_operation_id (build_audit_event w rq g s decision) = op_operation_id rq"
  "ae_approval_decision (build_audit_event w rq g s decision) = None"
  "ae_policy_result (build_audit_event w rq g s decision) =
     (case decision of Allow _ _ \<Rightarrow> PRAllow | policy_decision.Deny _ \<Rightarrow> PRDeny
      | RequireApproval _ _ _ \<Rightarrow> PRRequireApproval)"
  by (simp_all add: build_audit_event_def Let_def)

text \<open>
  Recording a decision succeeds exactly for a new operation id without a storage fault; otherwise the
  only effect is the refusal.
\<close>

lemma record_decision_ok:
  assumes "record_decision w rq g s decision d = (True, d1)"
  shows "f_audit_record w = None \<and> op_operation_id rq \<notin> audit_ids (d_audit d)
    \<and> d1 = d\<lparr>d_audit := d_audit d @ [audit_to_row (build_audit_event w rq g s decision)]\<rparr>"
  using assms built_event_consistent [of w rq g s decision]
  by (auto simp: record_decision_def audit_record_def audit_ids_def split: option.splits if_splits)

lemma record_decision_refused:
  assumes "record_decision w rq g s decision d = (False, d1)"
  shows "(f_audit_record w \<noteq> None \<or> op_operation_id rq \<in> audit_ids (d_audit d))
    \<and> d1 = transport_send (audit_refusal_envelope w rq ''AUDIT_STORAGE'' False) d"
  using assms built_event_consistent [of w rq g s decision]
  by (auto simp: record_decision_def audit_record_def audit_ids_def split: option.splits if_splits)

lemma row_says_recorded:
  "row_says (op_operation_id rq) (ae_policy_result (build_audit_event w rq g s decision)) None
     (rows @ [audit_to_row (build_audit_event w rq g s decision)])"
proof -
  have "ar_event (audit_to_row e) = e" for e by (simp add: audit_to_row_def)
  then show ?thesis unfolding row_says_def by (simp add: audit_key_def)
qed

text \<open>A decision to permit was made on a grant the request resolves to and a stored workspace.\<close>

lemma evaluation_permits:
  assumes "evaluate_operation_request w d rq = (decision, g, s)"
    and "decision_permits decision = Some (cap, a)"
  obtains h ws where "g = Some h" and "fst (resolve_grant w d rq) = Some h"
    and "table_lookup ws_workspace_id (op_workspace_id rq) (d_workspaces d) = Some ws"
    and "permitted (w_resolver w) (w_fs w) rq h ws (w_now w) cap a"
    and "decision = (if ra_effective_risk a \<ge> High then RequireApproval HighRiskOperation a cap else Allow cap a)"
proof -
  obtain g' s' where r: "resolve_grant w d rq = (g', s')" by fastforce
  let ?ws = "ok_flatten (workspace_load (f_workspace_load w) (op_workspace_id rq) (d_workspaces d))"
  from assms r obtain h ws where g: "g = Some h" and h: "g' = Some h" and ws: "?ws = Some ws"
    and dec: "decision = evaluate_with_grant (w_resolver w) (w_fs w) rq h ws (w_now w)"
    by (auto simp: evaluate_operation_request_def Let_def split: option.splits)
  have look: "table_lookup ws_workspace_id (op_workspace_id rq) (d_workspaces d) = Some ws"
    using ws by (auto simp: ok_flatten_def workspace_load_def split: option.splits sum.splits)
  have p: "permitted (w_resolver w) (w_fs w) rq h ws (w_now w) cap a"
    using assms(2) dec by (intro decision_permitted) simp
  from that [OF g _ look p] r h dec permitted_decision [OF p] show thesis by simp
qed

text \<open>What passing the gate means for a decision that permits something.\<close>

lemma gate_permits:
  assumes "operation_gate w env vp d = Some (rq, decision, g, s)"
    and "decision_permits decision = Some (cap, a)"
  obtains dev h ws where "env_device_id env = Some dev" and "w_identity w = Inr (Some dev)"
    and "w_decode_operation_request w (env_payload env) = Inr rq"
    and "g = Some h" and "fst (resolve_grant w d rq) = Some h" and "gr_device_id h = dev"
    and "accepts_transport_principal (gr_principal h) vp"
    and "table_lookup ws_workspace_id (op_workspace_id rq) (d_workspaces d) = Some ws"
    and "permitted (w_resolver w) (w_fs w) rq h ws (w_now w) cap a"
    and "decision = (if ra_effective_risk a \<ge> High then RequireApproval HighRiskOperation a cap else Allow cap a)"
proof -
  from assms(1) obtain dev where dev: "bound_local_device_id w (env_device_id env) = Some dev"
    and rq: "w_decode_operation_request w (env_payload env) = Inr rq"
    by (auto simp: operation_gate_def Let_def split: option.splits sum.splits prod.splits if_splits)
  have ident: "env_device_id env = Some dev" "w_identity w = Inr (Some dev)"
    using dev by (auto simp: bound_local_device_id_def split: option.splits if_splits)
  obtain decision' where e: "evaluate_operation_request w d rq = (decision', g, s)"
    and bound: "(case g of Some g \<Rightarrow> Some (gr_device_id g) | None \<Rightarrow> map_option ses_device_id s) = Some dev"
    and dec: "decision = (case g of
        Some g \<Rightarrow> if \<not> accepts_transport_principal (gr_principal g) vp
                  then policy_decision.Deny DPrincipalBindingMismatch else decision'
      | None \<Rightarrow> decision')"
    using assms(1) dev rq
    by (cases "evaluate_operation_request w d rq") (auto simp: operation_gate_def Let_def split: if_splits)
  have dec': "decision' = decision"
    using dec assms(2) by (auto split: option.splits if_splits)
  from evaluation_permits [OF e [unfolded dec'] assms(2)] obtain h ws where h: "g = Some h"
    "fst (resolve_grant w d rq) = Some h"
    "table_lookup ws_workspace_id (op_workspace_id rq) (d_workspaces d) = Some ws"
    "permitted (w_resolver w) (w_fs w) rq h ws (w_now w) cap a"
    "decision = (if ra_effective_risk a \<ge> High then RequireApproval HighRiskOperation a cap else Allow cap a)"
    by blast
  moreover have "gr_device_id h = dev" using bound h(1) by simp
  moreover have "accepts_transport_principal (gr_principal h) vp"
    using dec h(1) assms(2) by (auto split: if_splits)
  ultimately show thesis using that ident rq by blast
qed

text \<open>The three outcomes of an operation request, on the fields that matter.\<close>

lemma handle_operation_request_cases:
  obtains (dropped) "handle_operation_request w env vp d = d"
  | (refused) rq where "w_decode_operation_request w (env_payload env) = Inr rq"
      "f_audit_record w \<noteq> None \<or> op_operation_id rq \<in> audit_ids (d_audit d)"
      "handle_operation_request w env vp d =
         transport_send (audit_refusal_envelope w rq ''AUDIT_STORAGE'' False) d"
  | (recorded) rq decision g s where "operation_gate w env vp d = Some (rq, decision, g, s)"
      "f_audit_record w = None" "op_operation_id rq \<notin> audit_ids (d_audit d)"
      "handle_operation_request w env vp d = dispatch_decision w rq decision
         (d\<lparr>d_audit := d_audit d @ [audit_to_row (build_audit_event w rq g s decision)]\<rparr>)"
proof (cases "operation_gate w env vp d")
  case None
  then show thesis by (intro dropped) (simp add: handle_operation_request_def)
next
  case (Some p)
  obtain rq decision g s where p: "p = (rq, decision, g, s)" by (cases p)
  have rq: "w_decode_operation_request w (env_payload env) = Inr rq"
    using Some p
    by (auto simp: operation_gate_def Let_def split: option.splits sum.splits prod.splits if_splits)
  obtain ok d1 where r: "record_decision w rq g s decision d = (ok, d1)" by fastforce
  show thesis
  proof (cases ok)
    case True
    with record_decision_ok [of w rq g s decision d d1] r Some p show thesis
      by (intro recorded [of rq decision g s]) (auto simp: handle_operation_request_def)
  next
    case False
    with record_decision_refused [of w rq g s decision d d1] r Some p rq show thesis
      by (intro refused [of rq]) (auto simp: handle_operation_request_def)
  qed
qed

lemma handle_session_request_frame [simp]:
  "d_calls (handle_session_request w env vp d) = d_calls d"
  "d_pending (handle_session_request w env vp d) = d_pending d"
  "d_audit (handle_session_request w env vp d) = d_audit d"
  "d_workspaces (handle_session_request w env vp d) = d_workspaces d"
  "d_transport (handle_session_request w env vp d) = d_transport d"
  "d_sent (handle_session_request w env vp d) = d_sent d"
proof -
  have p: "d_calls (persist_request w s g d) = d_calls d" "d_pending (persist_request w s g d) = d_pending d"
    "d_audit (persist_request w s g d) = d_audit d" "d_workspaces (persist_request w s g d) = d_workspaces d"
    "d_transport (persist_request w s g d) = d_transport d" "d_sent (persist_request w s g d) = d_sent d" for s g
    by (auto simp: persist_request_def split: prod.splits sum.splits)
  have c: "\<exists>s g. handle_session_request w env vp d = d \<or> handle_session_request w env vp d = persist_request w s g d"
    by (auto simp: handle_session_request_def Let_def split: option.splits sum.splits)
  from c p show "d_calls (handle_session_request w env vp d) = d_calls d" by metis
  from c p show "d_pending (handle_session_request w env vp d) = d_pending d" by metis
  from c p show "d_audit (handle_session_request w env vp d) = d_audit d" by metis
  from c p show "d_workspaces (handle_session_request w env vp d) = d_workspaces d" by metis
  from c p show "d_transport (handle_session_request w env vp d) = d_transport d" by metis
  from c p show "d_sent (handle_session_request w env vp d) = d_sent d" by metis
qed

lemma dispatch_frame [simp]:
  "d_workspaces (dispatch_decision w rq decision d) = d_workspaces d"
  "d_sessions (dispatch_decision w rq decision d) = d_sessions d"
  "d_grants (dispatch_decision w rq decision d) = d_grants d"
  "d_transport (dispatch_decision w rq decision d) = d_transport d"
  "audit_ids (d_audit (dispatch_decision w rq decision d)) = audit_ids (d_audit d)"
  "row_says op k a (d_audit (dispatch_decision w rq decision d)) = row_says op k a (d_audit d)"
  by (simp_all add: dispatch_decision_def split: policy_decision.splits)

lemma handle_operation_request_frame [simp]:
  "d_workspaces (handle_operation_request w env vp d) = d_workspaces d"
  "d_sessions (handle_operation_request w env vp d) = d_sessions d"
  "d_grants (handle_operation_request w env vp d) = d_grants d"
  "d_transport (handle_operation_request w env vp d) = d_transport d"
  by (cases rule: handle_operation_request_cases [of w env vp d]; simp)+

lemma inbound_cases:
  obtains "handle_inbound_envelope w env vp d = d"
  | "handle_inbound_envelope w env vp d = handle_session_request w env vp d"
  | "handle_inbound_envelope w env vp d = handle_operation_request w env vp d"
  by (cases "check_protocol_version env"; cases "env_message_type env") (auto simp: handle_inbound_envelope_def)

end
