(* ===== verification/Gateway_Execution.thy ===== *)
theory Gateway_Execution
  imports Gateway_Daemon
begin

text \<open>
  What the remote side can make the daemon do, one message or local decision at a time: when a tool call
  is made, what must be durable before it, what an audit failure leaves, what an approval does, and that
  a session request creates nothing but a request.
\<close>

section \<open>A sample daemon\<close>

definition sample_envelope :: "message_type \<Rightarrow> envelope" where
  "sample_envelope mt = with_device_id (DeviceId 1) (envelope_new ''m'' mt JNull)"

definition sample_payload :: session_request_payload where
  "sample_payload = \<lparr>sp_remote_principal = ''agent'', sp_workspace_id = WorkspaceId 1,
     sp_capability_profile = Design, sp_task_scope = ''task'', sp_ttl_minutes = 30\<rparr>"

definition sample_world :: "bool \<Rightarrow> world" where
  "sample_world overwrite =
     \<lparr>w_stamp = (\<lambda>_. []), w_put = (\<lambda>_. []), w_now = 10, w_utc = 10, w_session_ulid = 70, w_grant_ulid = 71,
      w_workspace_ulid = 72, w_message_id = ''m'', w_identity = Inr (Some (DeviceId 1)),
      w_resolver = registry_resolver sample_registry, w_fs = posix sample_tree, w_ttl = default_ttl_config,
      w_decode_session_request = (\<lambda>_. Inr sample_payload),
      w_decode_operation_request = (\<lambda>_. Inr (sample_operation overwrite)),
      w_bridge = (\<lambda>_. Inr JNull), w_duration_ms = 5,
      f_workspace_load = None, f_workspace_write = None, f_session_load = None, f_session_save = None,
      f_grant_load = None, f_find_live = None, f_grant_save = None, f_audit_record = None,
      f_audit_approval = None, f_audit_execution = (\<lambda>_. None)\<rparr>"

definition sample_daemon :: daemon where
  "sample_daemon =
     \<lparr>d_workspaces = [sample_workspace], d_sessions = [session_to_row (sample_session SActive)],
      d_grants = [grant_to_row (sample_active Standing)], d_audit = [], d_pending = [],
      d_transport = True, d_transport_state = TConnected, d_calls = [], d_sent = []\<rparr>"

lemma sample_daemon_simps [simp]:
  "d_calls sample_daemon = []" "d_audit sample_daemon = []" "d_pending sample_daemon = []"
  "d_transport sample_daemon" "d_grants sample_daemon = [grant_to_row (sample_active Standing)]"
  "d_sessions sample_daemon = [session_to_row (sample_session SActive)]"
  "d_workspaces sample_daemon = [sample_workspace]"
  by (simp_all add: sample_daemon_def)

lemma sample_resolves:
  "resolve_grant (sample_world b) sample_daemon (sample_operation b') =
     (Some (sample_active Standing), Some (sample_session SActive))"
proof -
  have p: "parse_grant (grant_to_row (sample_active Standing)) = Inr (sample_active Standing)"
    by (simp add: sample_defs)
  have "gr_subject_session_id (rg_grant (grant_to_row (sample_active Standing))) = SessionId 7"
    by (simp add: grant_to_row_def sample_defs)
  then have "load_grant_for_subject stamp put None (SessionId 7) [grant_to_row (sample_active Standing)]
      = Inr (Some (sample_active Standing))" for stamp put
    by (simp add: load_grant_for_subject_def with_io_def order_by_def p)
  then show ?thesis
    by (simp add: resolve_grant_def sample_world_def sample_daemon_def sample_operation_def ok_flatten_def
        session_load_def session_key_def session_to_row_def session_of_row_def sample_session_def)
qed

lemma sample_evaluates:
  "evaluate_operation_request (sample_world b) sample_daemon (sample_operation b) =
     (if b then RequireApproval HighRiskOperation (sample_assessment b) PCB_WRITE
      else Allow PCB_WRITE (sample_assessment b), Some (sample_active Standing), Some (sample_session SActive))"
proof -
  have "ok_flatten (workspace_load (f_workspace_load (sample_world b)) (op_workspace_id (sample_operation b))
      (d_workspaces sample_daemon)) = Some sample_workspace"
    by (simp add: sample_world_def sample_daemon_def sample_operation_def workspace_load_def ok_flatten_def
        sample_workspace_def)
  moreover have "w_resolver (sample_world b) = registry_resolver sample_registry"
    "w_fs (sample_world b) = posix sample_tree" "w_now (sample_world b) = 10"
    by (simp_all add: sample_world_def)
  ultimately show ?thesis
    using sample_decision [of b] by (simp add: evaluate_operation_request_def sample_resolves)
qed

lemma sample_gate:
  "operation_gate (sample_world b) (sample_envelope mt) None sample_daemon =
     Some (sample_operation b,
       if b then RequireApproval HighRiskOperation (sample_assessment b) PCB_WRITE
       else Allow PCB_WRITE (sample_assessment b), Some (sample_active Standing), Some (sample_session SActive))"
proof -
  have "bound_local_device_id (sample_world b) (env_device_id (sample_envelope mt)) = Some (DeviceId 1)"
    by (simp add: bound_local_device_id_def sample_world_def sample_envelope_def with_device_id_def)
  moreover have "w_decode_operation_request (sample_world b) j = Inr (sample_operation b)" for j
    by (simp add: sample_world_def)
  moreover have "gr_device_id (sample_active Standing) = DeviceId 1"
    "gr_principal (sample_active Standing) = principal_unverified ''agent''"
    by (simp_all add: sample_defs)
  ultimately show ?thesis by (simp add: operation_gate_def sample_evaluates)
qed

lemma sample_version: "check_protocol_version (sample_envelope mt) = Inr ()"
  by (simp add: check_protocol_version_def sample_envelope_def with_device_id_def envelope_new_def)

lemma sample_handled:
  "handle_inbound_envelope (sample_world b) (sample_envelope MOperationRequest) None sample_daemon =
     dispatch_decision (sample_world b) (sample_operation b)
       (if b then RequireApproval HighRiskOperation (sample_assessment b) PCB_WRITE
        else Allow PCB_WRITE (sample_assessment b))
       (sample_daemon\<lparr>d_audit := [audit_to_row (build_audit_event (sample_world b) (sample_operation b)
          (Some (sample_active Standing)) (Some (sample_session SActive))
          (if b then RequireApproval HighRiskOperation (sample_assessment b) PCB_WRITE
           else Allow PCB_WRITE (sample_assessment b)))]\<rparr>)"
proof -
  have t: "env_message_type (sample_envelope MOperationRequest) = MOperationRequest"
    by (simp add: sample_envelope_def with_device_id_def envelope_new_def)
  have f: "f_audit_record (sample_world b) = None" "d_audit sample_daemon = []"
    by (simp_all add: sample_world_def sample_daemon_def)
  have r: "record_decision (sample_world b) rq g s dec sample_daemon =
      (True, sample_daemon\<lparr>d_audit := [audit_to_row (build_audit_event (sample_world b) rq g s dec)]\<rparr>)" for rq g s dec
    using built_event_consistent [of "sample_world b" rq g s dec]
    by (simp add: record_decision_def audit_record_def f)
  show ?thesis
    unfolding handle_inbound_envelope_def sample_version t handle_operation_request_def sample_gate
    by (simp only: sum.case message_type.case option.case prod.case r Let_def if_True)
qed

section \<open>Properties\<close>

text \<open>
  C3: A remote message executes at most one tool call, and only with authority. If handling an inbound
  envelope makes a call, it makes exactly one, for the decoded request; the envelope named this device;
  the request resolved to a grant of this device whose principal accepts the transport's actor; every
  policy check held at that moment and the risk was below High; the operation id had never been recorded
  before; and its audit row, with result Allow, is in the log.
\<close>

theorem remote_execution_is_authorized_and_recorded:
  assumes "d_calls (handle_inbound_envelope w env vp d) \<noteq> d_calls d"
  shows "\<exists>rq dev g ws cap a.
      d_calls (handle_inbound_envelope w env vp d) = d_calls d @ [rq]
    \<and> w_decode_operation_request w (env_payload env) = Inr rq
    \<and> env_device_id env = Some dev \<and> w_identity w = Inr (Some dev)
    \<and> fst (resolve_grant w d rq) = Some g \<and> gr_device_id g = dev
    \<and> accepts_transport_principal (gr_principal g) vp
    \<and> table_lookup ws_workspace_id (op_workspace_id rq) (d_workspaces d) = Some ws
    \<and> permitted (w_resolver w) (w_fs w) rq g ws (w_now w) cap a \<and> ra_effective_risk a < High
    \<and> op_operation_id rq \<notin> audit_ids (d_audit d)
    \<and> row_says (op_operation_id rq) PRAllow None (d_audit (handle_inbound_envelope w env vp d))"
proof -
  have h: "handle_inbound_envelope w env vp d = handle_operation_request w env vp d"
    using assms by (cases rule: inbound_cases [of w env vp d]) auto
  from assms h show ?thesis
  proof (cases rule: handle_operation_request_cases [of w env vp d])
    case (recorded rq decision g s)
    let ?d1 = "d\<lparr>d_audit := d_audit d @ [audit_to_row (build_audit_event w rq g s decision)]\<rparr>"
    from assms h recorded(4) obtain cap a where dec: "decision = Allow cap a"
      by (cases decision) (auto simp: dispatch_decision_def)
    have dp: "decision_permits decision = Some (cap, a)" by (simp add: dec)
    obtain dev h' ws where gate:
      "env_device_id env = Some dev" "w_identity w = Inr (Some dev)"
      "w_decode_operation_request w (env_payload env) = Inr rq"
      "g = Some h'" "fst (resolve_grant w d rq) = Some h'" "gr_device_id h' = dev"
      "accepts_transport_principal (gr_principal h') vp"
      "table_lookup ws_workspace_id (op_workspace_id rq) (d_workspaces d) = Some ws"
      "permitted (w_resolver w) (w_fs w) rq h' ws (w_now w) cap a"
      "decision = (if ra_effective_risk a \<ge> High then RequireApproval HighRiskOperation a cap else Allow cap a)"
      by (rule gate_permits [OF recorded(1) dp])
    have "ra_effective_risk a < High" using gate(10) dec by (auto split: if_splits)
    moreover have "d_calls (handle_operation_request w env vp d) = d_calls d @ [rq]"
      unfolding recorded(4) by (simp add: dispatch_decision_def dec)
    moreover have "row_says (op_operation_id rq) PRAllow None (d_audit (handle_operation_request w env vp d))"
      using row_says_recorded [of rq w g s decision "d_audit d"] unfolding recorded(4) by (simp add: dec)
    ultimately show ?thesis unfolding h using gate(1-9) recorded(3)
      by - (intro exI [of _ rq] exI [of _ dev] exI [of _ h'] exI [of _ ws] exI [of _ cap] exI [of _ a] conjI;
          assumption)
  qed simp_all
qed

theorem remote_execution_is_authorized_and_recorded_witness:
  "d_calls (handle_inbound_envelope (sample_world False) (sample_envelope MOperationRequest) None sample_daemon)
     = [sample_operation False]
   \<and> row_says (OperationId 9) PRAllow None
       (d_audit (handle_inbound_envelope (sample_world False) (sample_envelope MOperationRequest) None sample_daemon))"
proof -
  let ?d = "handle_inbound_envelope (sample_world False) (sample_envelope MOperationRequest) None sample_daemon"
  have "d_calls ?d = [sample_operation False]"
    by (simp add: sample_handled dispatch_decision_def)
  moreover from this have "d_calls ?d \<noteq> d_calls sample_daemon" by simp
  ultimately show ?thesis
    using remote_execution_is_authorized_and_recorded [of "sample_world False"
        "sample_envelope MOperationRequest" None sample_daemon]
    by (auto simp: sample_operation_def)
qed

text \<open>
  C10: The audit gate fails closed, and it is also the replay guard. If the record cannot be written, or
  the operation id is already in the log, an operation request executes nothing, queues nothing and
  changes no table: at most the fixed refusal is sent. Otherwise the request is either dropped before the
  gate, or recorded.
\<close>

theorem audit_failure_or_replay_executes_nothing:
  assumes "w_decode_operation_request w (env_payload env) = Inr rq"
    and "f_audit_record w = Some msg \<or> op_operation_id rq \<in> audit_ids (d_audit d)"
  shows "handle_operation_request w env vp d = d
    \<or> handle_operation_request w env vp d =
        transport_send (audit_refusal_envelope w rq ''AUDIT_STORAGE'' False) d"
proof (cases rule: handle_operation_request_cases [of w env vp d])
  case (recorded rq' decision g s)
  then have "rq' = rq"
    using assms(1)
    by (auto simp: operation_gate_def Let_def split: option.splits sum.splits prod.splits if_splits)
  with recorded(2,3) assms(2) show ?thesis by simp
qed (use assms in auto)

theorem audit_failure_or_replay_executes_nothing_witness:
  "let d = handle_inbound_envelope (sample_world False) (sample_envelope MOperationRequest) None sample_daemon in
   d_calls d = [sample_operation False]
   \<and> d_calls (handle_operation_request (sample_world False) (sample_envelope MOperationRequest) None d)
       = [sample_operation False]"
proof -
  let ?d = "handle_inbound_envelope (sample_world False) (sample_envelope MOperationRequest) None sample_daemon"
  have c: "d_calls ?d = [sample_operation False]"
    by (simp add: sample_handled dispatch_decision_def)
  have "op_operation_id (sample_operation False) \<in> audit_ids (d_audit ?d)"
    by (simp add: sample_handled)
  moreover have "w_decode_operation_request (sample_world False) (env_payload (sample_envelope MOperationRequest))
      = Inr (sample_operation False)" by (simp add: sample_world_def)
  ultimately have "handle_operation_request (sample_world False) (sample_envelope MOperationRequest) None ?d = ?d
    \<or> handle_operation_request (sample_world False) (sample_envelope MOperationRequest) None ?d =
        transport_send (audit_refusal_envelope (sample_world False) (sample_operation False) ''AUDIT_STORAGE'' False) ?d"
    using audit_failure_or_replay_executes_nothing by blast
  then show ?thesis using c by (auto simp: Let_def)
qed

section \<open>The approval queue\<close>

lemma still_authorized_permits:
  assumes "still_authorized w p d"
  obtains g ws where "fst (resolve_grant w d (po_request p)) = Some g"
    and "table_lookup ws_workspace_id (op_workspace_id (po_request p)) (d_workspaces d) = Some ws"
    and "permitted (w_resolver w) (w_fs w) (po_request p) g ws (w_now w) (po_capability p) (po_risk p)"
    and "ra_effective_risk (po_risk p) \<ge> High"
proof -
  obtain decision g s where e: "evaluate_operation_request w d (po_request p) = (decision, g, s)"
    by (cases "evaluate_operation_request w d (po_request p)")
  with assms obtain reason where dec: "decision = RequireApproval reason (po_risk p) (po_capability p)"
    by (auto simp: still_authorized_def split: policy_decision.splits)
  have "decision_permits decision = Some (po_capability p, po_risk p)" by (simp add: dec)
  from e this show thesis
  proof (rule evaluation_permits)
    fix h ws
    assume a: "fst (resolve_grant w d (po_request p)) = Some h"
      "table_lookup ws_workspace_id (op_workspace_id (po_request p)) (d_workspaces d) = Some ws"
      "permitted (w_resolver w) (w_fs w) (po_request p) h ws (w_now w) (po_capability p) (po_risk p)"
      "decision = (if ra_effective_risk (po_risk p) \<ge> High
         then RequireApproval HighRiskOperation (po_risk p) (po_capability p)
         else Allow (po_capability p) (po_risk p))"
    have "ra_effective_risk (po_risk p) \<ge> High" using a(4) dec by (auto split: if_splits)
    with a(1-3) show thesis by (rule that)
  qed
qed

lemma evaluation_ignores_queue [simp]:
  "evaluate_operation_request w (d\<lparr>d_pending := q\<rparr>) rq = evaluate_operation_request w d rq"
  "still_authorized w p (d\<lparr>d_pending := q\<rparr>) = still_authorized w p d"
  by (simp_all add: evaluate_operation_request_def resolve_grant_def still_authorized_def)

lemma commit_approval_cases:
  obtains (failed) e where "update_approval_decision (f_audit_approval w) op KAllowOnce (d_audit d) = (Inl e, d_audit d)"
      "commit_approval w op p still d =
         (Inl (AuditPersistence (audit_error_code e)), False, requeue_pending_operation op p d)"
  | (stale) err d1 where "\<not> still" "commit_approval w op p still d = (Inl err, False, d1)"
      "d_calls d1 = d_calls d" "d_pending d1 = d_pending d" "audit_ids (d_audit d1) = audit_ids (d_audit d)"
      "d_grants d1 = d_grants d" "d_sessions d1 = d_sessions d" "d_workspaces d1 = d_workspaces d"
      "\<And>op' k a. op' \<noteq> op \<Longrightarrow> row_says op' k a (d_audit d1) = row_says op' k a (d_audit d)"
  | (granted) audit where "still"
      "update_approval_decision (f_audit_approval w) op KAllowOnce (d_audit d) = (Inr (), audit)"
      "commit_approval w op p still d = (Inr (), d_transport d, d\<lparr>d_audit := audit\<rparr>)"
proof -
  obtain res audit where u: "update_approval_decision (f_audit_approval w) op KAllowOnce (d_audit d) = (res, audit)"
    by fastforce
  show thesis
  proof (cases res)
    case (Inl e)
    with u have "audit = d_audit d"
      by (auto simp: update_approval_decision_def audit_update_def split: option.splits if_splits)
    with u Inl show thesis by (intro failed [of e]) (simp_all add: commit_approval_def)
  next
    case (Inr x)
    have other: "row_says op' k a audit = row_says op' k a (d_audit d)" if "op' \<noteq> op" for op' k a
      using row_says_approval_other [OF that, of k a "f_audit_approval w" KAllowOnce "d_audit d"] u by simp
    have ids: "audit_ids audit = audit_ids (d_audit d)"
      using update_ids(2) [of "f_audit_approval w" op KAllowOnce "d_audit d"] u by simp
    show thesis
    proof (cases still)
      case True
      with u Inr show thesis by (intro granted [of audit]) (simp_all add: commit_approval_def)
    next
      case False
      with u Inr other ids show thesis
        by (intro stale [of "Internal ''pending operation is no longer authorized''"
              "snd (snd (commit_approval w op p still d))"]) (simp_all add: commit_approval_def)
    qed
  qed
qed

lemma requeued [simp]: "([op \<mapsto> p] ++ map_of (AList.delete op q)) op = Some p"
  by (simp add: map_add_def delete_conv)

lemma take_pending_Some:
  "take_pending op d = Some (p, d1) \<longleftrightarrow>
     map_of (d_pending d) op = Some p \<and> d1 = d\<lparr>d_pending := AList.delete op (d_pending d)\<rparr>"
  by (auto simp: take_pending_def)

lemma approve_pending_cases:
  obtains (absent) "map_of (d_pending d) op = None"
      "approve_pending_operation w op d = (Inl (Internal ''no such pending operation''), d)"
  | (failed) p e where "map_of (d_pending d) op = Some p" "f_audit_approval w \<noteq> None \<or> op \<notin> audit_ids (d_audit d)"
      "approve_pending_operation w op d = (Inl (AuditPersistence (audit_error_code e)),
         d\<lparr>d_pending := AList.delete op (d_pending d) @ [(op, p)]\<rparr>)"
  | (stale) p err d1 where "map_of (d_pending d) op = Some p" "\<not> still_authorized w p d"
      "approve_pending_operation w op d = (Inl err, d1)" "d_calls d1 = d_calls d"
      "d_pending d1 = AList.delete op (d_pending d)"
  | (granted) p audit where "map_of (d_pending d) op = Some p" "still_authorized w p d"
      "update_approval_decision (f_audit_approval w) op KAllowOnce (d_audit d) = (Inr (), audit)"
      "approve_pending_operation w op d =
         (Inr (), let d1 = d\<lparr>d_pending := AList.delete op (d_pending d), d_audit := audit\<rparr> in
            if d_transport d then execute_and_respond w (po_request p) d1 else d1)"
proof (cases "map_of (d_pending d) op")
  case None
  then show thesis by (intro absent) (simp_all add: approve_pending_operation_def take_pending_def)
next
  case (Some p)
  let ?d1 = "d\<lparr>d_pending := AList.delete op (d_pending d)\<rparr>"
  let ?c = "commit_approval w op p (still_authorized w p d) ?d1"
  have a: "approve_pending_operation w op d =
      (fst ?c, if fst (snd ?c) then execute_and_respond w (po_request p) (snd (snd ?c)) else snd (snd ?c))"
    using Some by (simp add: approve_pending_operation_def take_pending_def Let_def split: prod.splits)
  show thesis
  proof (cases rule: commit_approval_cases [of w op ?d1 p "still_authorized w p d"])
    case (failed e)
    have "f_audit_approval w \<noteq> None \<or> op \<notin> audit_ids (d_audit d)"
      using failed(1) by (auto simp: update_approval_decision_def audit_update_def audit_ids_def
          split: option.splits if_splits)
    moreover have "requeue_pending_operation op p ?d1 = d\<lparr>d_pending := AList.delete op (d_pending d) @ [(op, p)]\<rparr>"
      by (simp add: requeue_pending_operation_def delete_conv)
    ultimately show thesis using Some a failed(2) by (intro that(2)) simp_all
  next
    case (stale err d1)
    with Some a show thesis by (intro that(3)) simp_all
  next
    case (granted audit)
    show thesis
    proof (rule that(4) [OF Some granted(1)])
      show "update_approval_decision (f_audit_approval w) op KAllowOnce (d_audit d) = (Inr (), audit)"
        using granted(2) by simp
    qed (simp only: a granted(3) fst_conv snd_conv Let_def daemon.select_convs daemon.update_convs cong: if_cong, simp)
  qed
qed

text \<open>
  C4: Approval runs exactly the approved operation, once, and only on a durable decision. If approving
  makes a call, it is the queued request; the decision AllowOnce had been written to its audit row before;
  the policy, evaluated again at that moment, still required approval with the same capability and the
  same risk evidence; and the operation has left the queue. If the decision cannot be written, nothing
  runs and the operation is still queued.
\<close>

theorem approval_executes_only_durable_and_still_authorized:
  assumes "map_of (d_pending d) op = Some p" and "approve_pending_operation w op d = (res, d')"
  shows "(d_calls d' \<noteq> d_calls d \<longrightarrow>
      res = Inr () \<and> d_calls d' = d_calls d @ [po_request p] \<and> map_of (d_pending d') op = None
      \<and> (\<exists>r \<in> set (d_audit d'). audit_key r = op \<and> ae_approval_decision (ar_event r) = Some KAllowOnce)
      \<and> ra_effective_risk (po_risk p) \<ge> High
      \<and> (\<exists>g ws. fst (resolve_grant w d (po_request p)) = Some g
           \<and> permitted (w_resolver w) (w_fs w) (po_request p) g ws (w_now w) (po_capability p) (po_risk p)))
    \<and> (f_audit_approval w \<noteq> None \<longrightarrow>
         (\<exists>code. res = Inl (AuditPersistence code)) \<and> d_calls d' = d_calls d
         \<and> map_of (d_pending d') op = Some p \<and> d_audit d' = d_audit d)"
proof (cases rule: approve_pending_cases [of d op w])
  case absent
  with assms show ?thesis by simp
next
  case (failed p' e)
  with assms show ?thesis by auto
next
  case (stale p' err d1)
  with assms have same: "d_calls d' = d_calls d" by simp
  have "f_audit_approval w = None"
  proof (rule ccontr)
    assume "f_audit_approval w \<noteq> None"
    then obtain m where "f_audit_approval w = Some m" by blast
    then have "fst (approve_pending_operation w op d) = Inl (AuditPersistence ''AUDIT_STORAGE'')"
      and "map_of (d_pending (snd (approve_pending_operation w op d))) op = Some p"
      using assms(1) by (simp_all add: approve_pending_operation_def take_pending_def commit_approval_def
          update_approval_decision_def audit_update_def requeue_pending_operation_def delete_conv map_of_append)
    with stale assms show False by (simp add: delete_conv)
  qed
  with same show ?thesis by simp
next
  case (granted p' audit)
  let ?d1 = "d\<lparr>d_pending := AList.delete op (d_pending d), d_audit := audit\<rparr>"
  have p: "p' = p" using granted(1) assms(1) by simp
  have none: "f_audit_approval w = None"
    using granted(3) by (auto simp: update_approval_decision_def audit_update_def split: option.splits)
  have row: "\<exists>k. row_says op k (Some KAllowOnce) audit"
  proof -
    have "op \<in> audit_key ` set (d_audit d)"
      using granted(3) by (auto simp: update_approval_decision_def audit_update_def split: option.splits if_splits)
    then obtain k a where "row_says op k a (d_audit d)" by (auto simp: row_says_def)
    from row_says_approval [OF granted(3) this] show ?thesis by blast
  qed
  have d': "res = Inr ()" "d' = (if d_transport d then execute_and_respond w (po_request p) ?d1 else ?d1)"
    using granted(4) assms(2) p by (simp_all add: Let_def)
  have "\<exists>k. row_says op k (Some KAllowOnce) (d_audit d')" using row by (simp add: d'(2))
  then have r: "\<exists>r \<in> set (d_audit d'). audit_key r = op \<and> ae_approval_decision (ar_event r) = Some KAllowOnce"
    by (auto simp: row_says_def)
  from granted(2) [unfolded p] obtain g ws where g: "fst (resolve_grant w d (po_request p)) = Some g"
    "permitted (w_resolver w) (w_fs w) (po_request p) g ws (w_now w) (po_capability p) (po_risk p)"
    "ra_effective_risk (po_risk p) \<ge> High" by (rule still_authorized_permits)
  have "d_calls d' \<noteq> d_calls d \<longrightarrow> d_calls d' = d_calls d @ [po_request p]"
    and "map_of (d_pending d') op = None" by (simp_all add: d'(2) delete_conv)
  with d'(1) r g none show ?thesis by blast
qed

text \<open>A daemon in which the sample high-risk operation was recorded and queued.\<close>

definition sample_pending_operation :: pending_operation where
  "sample_pending_operation =
     \<lparr>po_request = sample_operation True, po_capability = PCB_WRITE, po_risk = sample_assessment True\<rparr>"

definition sample_queued :: daemon where
  "sample_queued =
     handle_inbound_envelope (sample_world True) (sample_envelope MOperationRequest) None sample_daemon"

lemma sample_queued_eq:
  "sample_queued = sample_daemon\<lparr>d_audit := [audit_to_row (build_audit_event (sample_world True) (sample_operation True)
      (Some (sample_active Standing)) (Some (sample_session SActive))
      (RequireApproval HighRiskOperation (sample_assessment True) PCB_WRITE))],
     d_pending := [(OperationId 9, sample_pending_operation)]\<rparr>"
  by (simp add: sample_queued_def sample_handled dispatch_decision_def sample_pending_operation_def sample_operation_def)

lemma sample_still_authorized: "still_authorized (sample_world True) sample_pending_operation sample_queued"
proof -
  have "evaluate_operation_request (sample_world True) sample_queued (sample_operation True) =
      evaluate_operation_request (sample_world True) sample_daemon (sample_operation True)"
    by (simp add: evaluate_operation_request_def resolve_grant_def sample_queued_eq)
  then show ?thesis
    by (simp add: still_authorized_def sample_pending_operation_def sample_evaluates)
qed

theorem approval_executes_only_durable_and_still_authorized_witness:
  "\<exists>d'. approve_pending_operation (sample_world True) (OperationId 9) sample_queued = (Inr (), d')
     \<and> d_calls d' = [sample_operation True] \<and> map_of (d_pending d') (OperationId 9) = None"
proof -
  have pend: "map_of (d_pending sample_queued) (OperationId 9) = Some sample_pending_operation"
    by (simp add: sample_queued_eq)
  obtain res d' where ap: "approve_pending_operation (sample_world True) (OperationId 9) sample_queued = (res, d')"
    by fastforce
  have io: "f_audit_approval (sample_world True) = None" by (simp add: sample_world_def)
  have ids: "audit_ids (d_audit sample_queued) = {OperationId 9}"
    by (simp add: sample_queued_eq sample_operation_def)
  have calls: "d_calls d' = [sample_operation True]"
  proof (cases rule: approve_pending_cases [of sample_queued "OperationId 9" "sample_world True"])
    case absent
    with pend show ?thesis by simp
  next
    case (failed p e)
    with io ids show ?thesis by simp
  next
    case (stale p err d1)
    with pend sample_still_authorized show ?thesis by simp
  next
    case (granted p audit)
    with pend ap show ?thesis
      by (auto simp: sample_pending_operation_def sample_queued_eq)
  qed
  have "d_calls d' \<noteq> d_calls sample_queued" by (simp add: calls sample_queued_eq)
  with approval_executes_only_durable_and_still_authorized [OF pend ap] ap calls show ?thesis by blast
qed

section \<open>Session requests\<close>

lemma requested_session_Inr:
  assumes "requested_session w dev ws p = Inr s"
  shows "ses_session_id s = SessionId (w_session_ulid w) \<and> ses_status s = SPendingApproval
    \<and> ses_device_id s = dev \<and> ses_workspace_ids s = {|ws_workspace_id ws|}"
  using assms
  by (auto simp: requested_session_def Let_def rbind_Inr_conv session_transition_Inr new_unpaired_session_def)

lemma requested_grant_simps [simp]:
  "gr_grant_id (requested_grant w dev ws p vp s) = GrantId (w_grant_ulid w)"
  "gr_subject_session_id (requested_grant w dev ws p vp s) = ses_session_id s"
  "gr_status (requested_grant w dev ws p vp s) = PendingApproval"
  "gr_device_id (requested_grant w dev ws p vp s) = dev"
  "gr_workspace_ids (requested_grant w dev ws p vp s) = {|ws_workspace_id ws|}"
  "gr_capability_profile (requested_grant w dev ws p vp s) = sp_capability_profile p"
  "gr_task_scope (requested_grant w dev ws p vp s) = sp_task_scope p"
  "gr_principal (requested_grant w dev ws p vp s) =
     (case vp of Some v \<Rightarrow> principal_verified (sp_remote_principal p) v
      | None \<Rightarrow> principal_unverified (sp_remote_principal p))"
  "gr_migrated_from_session_id (requested_grant w dev ws p vp s) = None"
  by (simp_all add: requested_grant_def grant_requested_def)

lemma handle_session_request_cases:
  obtains (dropped) "handle_session_request w env vp d = d"
  | (persisted) p dev ws s where "w_decode_session_request w (env_payload env) = Inr p"
      "env_device_id env = Some dev" "w_identity w = Inr (Some dev)"
      "table_lookup ws_workspace_id (sp_workspace_id p) (d_workspaces d) = Some ws"
      "requested_session w dev ws p = Inr s"
      "principal_ok (gr_principal (requested_grant w dev ws p vp s))"
      "find_live_request (w_stamp w) (w_put w) (f_find_live w) (requested_grant w dev ws p vp s) (d_grants d) = Inr None"
      "handle_session_request w env vp d = persist_request w s (requested_grant w dev ws p vp s) d"
proof (cases "handle_session_request w env vp d = d")
  case True
  then show thesis by (rule dropped)
next
  case False
  then have vp: "\<not> (case vp of None \<Rightarrow> False | Some actor \<Rightarrow> \<not> has_required_binding_fields actor)"
    by (auto simp: handle_session_request_def)
  from False obtain p where p: "w_decode_session_request w (env_payload env) = Inr p"
    by (auto simp: handle_session_request_def split: sum.splits option.splits)
  from False p vp obtain dev where dev: "bound_local_device_id w (env_device_id env) = Some dev"
    by (auto simp: handle_session_request_def split: option.splits)
  from False p vp dev obtain ws where
    ws: "workspace_load (f_workspace_load w) (sp_workspace_id p) (d_workspaces d) = Inr (Some ws)"
    by (auto simp: handle_session_request_def split: option.splits sum.splits)
  from False p vp dev ws obtain s where s: "requested_session w dev ws p = Inr s"
    by (auto simp: handle_session_request_def split: option.splits sum.splits)
  let ?g = "requested_grant w dev ws p vp s"
  have h: "handle_session_request w env vp d =
      (case find_live_request (w_stamp w) (w_put w) (f_find_live w) ?g (d_grants d) of
         Inl _ \<Rightarrow> d | Inr (Some _) \<Rightarrow> d | Inr None \<Rightarrow> persist_request w s ?g d)"
    using p vp dev ws s by (simp add: handle_session_request_def Let_def)
  with False have live: "find_live_request (w_stamp w) (w_put w) (f_find_live w) ?g (d_grants d) = Inr None"
    by (auto split: sum.splits option.splits)
  have "env_device_id env = Some dev" "w_identity w = Inr (Some dev)"
    using dev by (auto simp: bound_local_device_id_def split: option.splits if_splits)
  moreover have "table_lookup ws_workspace_id (sp_workspace_id p) (d_workspaces d) = Some ws"
    using ws by (auto simp: workspace_load_def split: option.splits)
  moreover have "principal_ok (gr_principal ?g)" using vp by (cases vp) simp_all
  ultimately show thesis using p s live h persisted by simp
qed

text \<open>The two writes: nothing, the session row only, or both.\<close>

lemma persist_request_cases:
  obtains (none) "persist_request w s g d = d"
  | (row) "persist_request w s g d =
        d\<lparr>d_sessions := upsert session_key merge_session (session_to_row s) (d_sessions d)\<rparr>"
  | (both) "persist_request w s g d =
        d\<lparr>d_sessions := upsert session_key merge_session (session_to_row s) (d_sessions d),
          d_grants := upsert grant_key merge_grant (grant_to_row g) (d_grants d)\<rparr>"
proof (cases "f_session_save w")
  case None
  obtain res rows where g: "save_grant (f_grant_save w) g (d_grants d) = (res, rows)" by fastforce
  show thesis
  proof (cases res)
    case (Inl e)
    with g have "rows = d_grants d" by (auto dest: save_grant_Inl)
    with g None show thesis by (intro row) (simp add: persist_request_def session_save_def)
  next
    case (Inr u)
    with g have "rows = upsert grant_key merge_grant (grant_to_row g) (d_grants d)" by (auto dest: save_grant_Inr)
    with g None show thesis by (intro both) (simp add: persist_request_def session_save_def)
  qed
next
  case (Some m)
  then show thesis by (intro none) (simp add: persist_request_def session_save_def)
qed

text \<open>
  \<open>Ulid::new()\<close> returns identifiers that no stored session or grant uses.
\<close>

definition fresh_ids :: "world \<Rightarrow> daemon \<Rightarrow> bool" where
  "fresh_ids w d \<longleftrightarrow> w_session_ulid w \<noteq> w_grant_ulid w \<and>
     (\<forall>u \<in> {w_session_ulid w, w_grant_ulid w}.
        u \<notin> sess_ulid ` session_key ` set (d_sessions d) \<and> u \<notin> grant_ulid ` grant_key ` set (d_grants d)
        \<and> u \<notin> (\<lambda>r. sess_ulid (gr_subject_session_id (rg_grant r))) ` set (d_grants d))"

lemma fresh_session:
  "fresh_ids w d \<Longrightarrow> r \<in> set (d_sessions d) \<Longrightarrow> session_key r \<noteq> SessionId (w_session_ulid w)"
  unfolding fresh_ids_def by (metis image_eqI insertI1 session_id.sel)

lemma fresh_grant:
  "fresh_ids w d \<Longrightarrow> r \<in> set (d_grants d) \<Longrightarrow> grant_key r \<noteq> GrantId (w_grant_ulid w)"
  unfolding fresh_ids_def by (metis image_eqI insertCI grant_id.sel)

lemma fresh_subject:
  "fresh_ids w d \<Longrightarrow> r \<in> set (d_grants d) \<Longrightarrow>
     gr_subject_session_id (rg_grant r) \<noteq> SessionId (w_session_ulid w)"
  unfolding fresh_ids_def by (metis (mono_tags, lifting) image_eqI insertI1 session_id.sel)

text \<open>With fresh identifiers the writes append.\<close>

lemma persisted_rows:
  assumes "fresh_ids w d" and "ses_session_id s = SessionId (w_session_ulid w)"
    and "gr_grant_id g = GrantId (w_grant_ulid w)"
  obtains "persist_request w s g d = d"
  | "persist_request w s g d = d\<lparr>d_sessions := d_sessions d @ [session_to_row s]\<rparr>"
  | "persist_request w s g d =
       d\<lparr>d_sessions := d_sessions d @ [session_to_row s], d_grants := d_grants d @ [grant_to_row g]\<rparr>"
proof -
  have "session_key (session_to_row s) \<notin> session_key ` set (d_sessions d)"
    using fresh_session [OF assms(1)] assms(2) by (fastforce simp: session_key_def session_to_row_def)
  moreover have "grant_key (grant_to_row g) \<notin> grant_key ` set (d_grants d)"
    using fresh_grant [OF assms(1)] assms(3) by (fastforce simp: grant_key_def grant_to_row_def)
  ultimately show thesis
    using that by (cases rule: persist_request_cases [of w s g d]) (simp_all add: upsert_fresh)
qed

lemma resolve_grant_congr:
  assumes "d_sessions d' = d_sessions d" and "d_grants d' = d_grants d"
  shows "resolve_grant w d' rq = resolve_grant w d rq"
  using assms by (simp add: resolve_grant_def)

text \<open>A pending session row never yields a usable grant.\<close>

lemma legacy_pending_not_usable:
  assumes "grant_from_legacy_session put s = Inr (Some g)" and "ses_status s = SPendingApproval"
  shows "\<not> grant_is_usable_at g t"
  using assms
  by (auto simp: grant_from_legacy_session_def usable_conv legacy_grant_def split: option.splits if_splits)

lemma resolve_after_request:
  assumes "fresh_ids w d" and "ses_session_id s = SessionId (w_session_ulid w)"
    and "ses_status s = SPendingApproval" and "gr_status g = PendingApproval"
    and "gr_grant_id g = GrantId (w_grant_ulid w)" and "gr_subject_session_id g = ses_session_id s"
    and "fst (resolve_grant w' (persist_request w s g d) rq) = Some h" and "grant_is_usable_at h t"
  shows "fst (resolve_grant w' d rq) = Some h"
proof (cases "op_session_id rq = SessionId (w_session_ulid w)")
  case False
  have sk: "session_key (session_to_row s) \<noteq> op_session_id rq"
    using False assms(2) by (simp add: session_key_def session_to_row_def)
  have gk: "gr_subject_session_id (rg_grant (grant_to_row g)) \<noteq> op_session_id rq"
    using False assms(2,6) by (simp add: grant_to_row_def)
  from sk gk have "resolve_grant w' (persist_request w s g d) rq = resolve_grant w' d rq"
    by (cases rule: persisted_rows [OF assms(1,2,5)])
      (simp_all add: resolve_grant_def session_load_def load_grant_for_subject_def table_lookup_append
        split: option.splits)
  with assms(7) show ?thesis by simp
next
  case True
  have none: "filter (\<lambda>r. gr_subject_session_id (rg_grant r) = op_session_id rq) (d_grants d) = []"
    using fresh_subject [OF assms(1)] True by (auto simp: filter_empty_conv)
  have look: "table_lookup session_key (op_session_id rq) (d_sessions d) = None"
    using fresh_session [OF assms(1)] True by (auto simp: table_lookup_None)
  let ?d = "persist_request w s g d"
  have "\<not> grant_is_usable_at h t"
  proof (cases "ok_flatten (load_grant_for_subject (w_stamp w') (w_put w') (f_grant_load w') (op_session_id rq) (d_grants ?d))")
    case (Some k)
    then have l: "load_grant_for_subject (w_stamp w') (w_put w') (f_grant_load w') (op_session_id rq) (d_grants ?d)
        = Inr (Some k)" by (auto simp: ok_flatten_def split: sum.splits)
    from load_for_subject_head [OF l] obtain r where r: "r \<in> set (d_grants ?d)" "parse_grant r = Inr k"
      "gr_subject_session_id k = op_session_id rq" by blast
    have "r \<notin> set (d_grants d)"
      using r(2,3) fresh_subject [OF assms(1), of r] True by (auto simp: parse_grant_Inr)
    with r(1) have "r = grant_to_row g" by (cases rule: persisted_rows [OF assms(1,2,5)]) auto
    with r(2) assms(4) have "gr_status k = PendingApproval" by simp
    moreover have "h = k" using assms(7) Some by (simp add: resolve_grant_def Let_def)
    ultimately show ?thesis by (simp add: usable_conv)
  next
    case None
    with assms(7) obtain row where row: "ok_flatten (session_load (f_session_load w') (op_session_id rq) (d_sessions ?d)) = Some row"
      and leg: "grant_from_legacy_session (w_put w') row = Inr (Some h)"
      by (auto simp: resolve_grant_def Let_def ok_flatten_def split: option.splits sum.splits)
    have "row = s"
      using row look by (cases rule: persisted_rows [OF assms(1,2,5)])
        (auto simp: ok_flatten_def session_load_def table_lookup_append session_key_def session_to_row_def
          session_of_row_def split: option.splits if_splits)
    with leg assms(3) show ?thesis using legacy_pending_not_usable by blast
  qed
  with assms(8) show ?thesis by simp
qed

text \<open>
  Remote input creates no authority, one envelope at a time. Whatever envelope arrives, with whatever actor and under
  whatever storage faults, a grant that is usable for some request afterwards was already what that
  request resolved to before; and every grant row that is new awaits local approval and is for this
  device.
\<close>

lemma inbound_creates_no_usable_authority:
  assumes "fresh_ids w d"
  shows "(\<forall>w' rq g t. fst (resolve_grant w' (handle_inbound_envelope w env vp d) rq) = Some g
        \<and> grant_is_usable_at g t \<longrightarrow> fst (resolve_grant w' d rq) = Some g)
    \<and> (\<forall>r \<in> set (d_grants (handle_inbound_envelope w env vp d)). r \<notin> set (d_grants d) \<longrightarrow>
        gr_status (rg_grant r) = PendingApproval \<and> w_identity w = Inr (Some (gr_device_id (rg_grant r)))
        \<and> gr_approved_at (rg_grant r) = None)"
proof (cases rule: inbound_cases [of w env vp d])
  case 2
  show ?thesis
  proof (cases rule: handle_session_request_cases [of w env vp d])
    case dropped
    with 2 show ?thesis by simp
  next
    case (persisted p dev ws s)
    let ?g = "requested_grant w dev ws p vp s"
    note s = requested_session_Inr [OF persisted(5)]
    have h: "handle_inbound_envelope w env vp d = persist_request w s ?g d" using 2 persisted(8) by simp
    have "fst (resolve_grant w' d rq) = Some k"
      if "fst (resolve_grant w' (persist_request w s ?g d) rq) = Some k" "grant_is_usable_at k t" for w' rq k t
      using s that by (intro resolve_after_request [OF assms]) auto
    moreover have "gr_status (rg_grant r) = PendingApproval \<and> w_identity w = Inr (Some (gr_device_id (rg_grant r)))
        \<and> gr_approved_at (rg_grant r) = None"
      if r: "r \<in> set (d_grants (persist_request w s ?g d))" "r \<notin> set (d_grants d)" for r
    proof -
      have "r = grant_to_row ?g"
      proof (cases rule: persisted_rows [of w d s ?g, OF assms])
        case 3
        with r show ?thesis by simp
      qed (use s r in simp_all)
      then show ?thesis
        using persisted(3) by (simp add: grant_to_row_def) (simp add: requested_grant_def grant_requested_def)
    qed
    ultimately show ?thesis unfolding h by blast
  qed
qed (simp_all add: resolve_grant_congr [of "handle_operation_request w env vp d" d])

lemma sample_fresh: "fresh_ids (sample_world b) sample_daemon"
  by (simp add: fresh_ids_def sample_world_def session_key_def session_to_row_def grant_key_def grant_to_row_def
      sample_defs)

text \<open>
  A repeated session request changes nothing. While a live grant for the same device, principal,
  task, workspaces and profile is stored and readable, a session request leaves the whole daemon as it
  is: no second pending grant, no moved deadline, no new session row, whatever time-to-live it asks for
  and whatever storage faults it meets.
\<close>

theorem repeated_session_request_changes_nothing:
  assumes "w_decode_session_request w (env_payload env) = Inr p" and "env_device_id env = Some dev"
    and "r \<in> set (d_grants d)" and "parse_grant r = Inr g" and "status_is_live (gr_status g)"
    and "gr_device_id g = dev"
    and "gr_principal g = (case vp of Some v \<Rightarrow> principal_verified (sp_remote_principal p) v
                           | None \<Rightarrow> principal_unverified (sp_remote_principal p))"
    and "gr_task_scope g = sp_task_scope p" and "gr_workspace_ids g = {|sp_workspace_id p|}"
    and "gr_capability_profile g = sp_capability_profile p"
  shows "handle_session_request w env vp d = d"
proof (cases rule: handle_session_request_cases [of w env vp d])
  case (persisted p' dev' ws s)
  let ?rq = "requested_grant w dev' ws p' vp s"
  have eq: "p' = p" "dev' = dev" using persisted(1,2) assms(1,2) by simp_all
  have "ws_workspace_id ws = sp_workspace_id p"
    using persisted(4) eq(1) by (auto dest: table_lookup_Some_key)
  then have same: "same_request g ?rq"
    using assms(7-10) eq by (simp add: same_request_def)
  have rg: "gr_device_id (rg_grant r) = gr_device_id ?rq" "status_is_live (gr_status (rg_grant r))"
    using assms(4-6) eq by (auto simp: parse_grant_Inr)
  from persisted(7) have "first_same_request ?rq (order_by (grant_sort_key (w_stamp w) (w_put w))
      (filter (\<lambda>r. gr_device_id (rg_grant r) = gr_device_id ?rq \<and> status_is_live (gr_status (rg_grant r)))
        (d_grants d))) = Inr None"
    by (simp add: find_live_request_def with_io_Inr)
  from first_same_request_None [OF this] assms(3) rg obtain h where "parse_grant r = Inr h" "\<not> same_request h ?rq"
    by auto
  with assms(4) same show ?thesis by simp
qed

theorem repeated_session_request_changes_nothing_witness:
  "handle_session_request (sample_world False) (sample_envelope SessionRequest) None sample_daemon = sample_daemon"
proof (rule repeated_session_request_changes_nothing [where r = "grant_to_row (sample_active Standing)"
      and g = "sample_active Standing" and p = sample_payload and dev = "DeviceId 1"])
  show "w_decode_session_request (sample_world False) (env_payload (sample_envelope SessionRequest)) = Inr sample_payload"
    by (simp add: sample_world_def)
  show "env_device_id (sample_envelope SessionRequest) = Some (DeviceId 1)"
    by (simp add: sample_envelope_def with_device_id_def)
qed (simp_all add: sample_defs sample_payload_def status_is_live_def)

end
