(* ===== verification/Gateway_Revocation.thy ===== *)
theory Gateway_Revocation
  imports Gateway_Execution
begin

text \<open>
  The life of the daemon as a sequence of handled messages and local requests. \<open>daemon_ok\<close> is the
  well-formedness of its tables and queue, which every handler keeps; \<open>revoked_in\<close> is what an
  acknowledged revocation establishes and no later handler undoes.

  Here each handler runs to its end before the next one starts. \<^verbatim>\<open>Gateway_Interleaving\<close> treats their
  phases separately.
\<close>

section \<open>Steps\<close>

inductive daemon_step :: "daemon \<Rightarrow> daemon \<Rightarrow> bool" where
  inbound: "fresh_ids w d \<Longrightarrow> daemon_step d (handle_inbound_envelope w env vp d)"
| approve: "daemon_step d (snd (approve_pending_operation w op d))"
| deny: "daemon_step d (snd (deny_pending_operation w op d))"
| decide: "daemon_step d (snd (decide_session w sid e d))"
| authorize: "daemon_step d (snd (authorize_workspace w root name d))"
| remove: "daemon_step d (snd (remove_workspace w wid d))"
| connectivity: "daemon_step d (record_transport_event ev d)"
| transport_set: "daemon_step d (d\<lparr>d_transport := b\<rparr>)"

definition subject_of :: "grant_row \<Rightarrow> session_id" where
  "subject_of r = gr_subject_session_id (rg_grant r)"

definition grants_ok :: "session_table \<Rightarrow> grant_row list \<Rightarrow> bool" where
  "grants_ok sessions grants \<longleftrightarrow>
     unique_keys grant_key grants \<and> unique_keys subject_of grants
     \<and> (\<forall>r \<in> set grants. \<forall>s \<in> set sessions.
          grant_key r = grant_id_of_session (session_key s) \<longrightarrow> subject_of r = session_key s)"

definition queue_ok :: "(operation_id \<times> pending_operation) list \<Rightarrow> bool" where
  "queue_ok q \<longleftrightarrow> distinct (map fst q) \<and> (\<forall>op p. map_of q op = Some p \<longrightarrow> op_operation_id (po_request p) = op)"

definition daemon_ok :: "daemon \<Rightarrow> bool" where
  "daemon_ok d \<longleftrightarrow> grants_ok (d_sessions d) (d_grants d) \<and> queue_ok (d_pending d)"

section \<open>The grant of a subject\<close>

text \<open>
  With one grant per subject, the ordered query is a lookup: the printers of instants and ids, on which
  \<open>ORDER BY\<close> depends, drop out.
\<close>

lemma filter_unique_key:
  assumes "unique_keys key rows"
  shows "filter (\<lambda>r. key r = k) rows = (case table_lookup key k rows of None \<Rightarrow> [] | Some r \<Rightarrow> [r])"
  using assms
proof (induction rows)
  case (Cons x xs)
  then have "unique_keys key xs" "key x \<notin> key ` set xs" by (simp_all add: unique_keys_def)
  moreover have "table_lookup key k xs = None" if "key x = k"
    using that \<open>key x \<notin> key ` set xs\<close> unfolding table_lookup_None by (metis imageI)
  ultimately show ?case using Cons.IH by (cases "key x = k") auto
qed simp

lemma load_for_subject_lookup:
  assumes "unique_keys subject_of rows"
  shows "load_grant_for_subject stamp put io sid rows =
     with_io io (map_transpose parse_grant (table_lookup subject_of sid rows))"
proof -
  have "filter (\<lambda>r. gr_subject_session_id (rg_grant r) = sid) rows =
      (case table_lookup subject_of sid rows of None \<Rightarrow> [] | Some r \<Rightarrow> [r])"
    using filter_unique_key [OF assms, of sid] by (simp add: subject_of_def)
  then show ?thesis
    by (simp add: load_grant_for_subject_def order_by_def split: option.splits)
qed

lemma replace_lookup:
  "table_lookup key k (upsert key (\<lambda>_ n. n) r rows) = (if k = key r then Some r else table_lookup key k rows)"
  by (induction rows) auto

lemma replace_keys:
  "map key (upsert key (\<lambda>_ n. n) r rows) =
     (if key r \<in> key ` set rows then map key rows else map key rows @ [key r])"
  by (induction rows) auto

lemma replace_set: "x \<in> set (upsert key (\<lambda>_ n. n) r rows) \<Longrightarrow> x = r \<or> x \<in> set rows"
  by (induction rows) (auto split: if_splits)

section \<open>A local decision, phase by phase\<close>

lemma transition_same_record:
  assumes "grant_transition g e now = Inr g'"
  shows "same_record g g' \<and> gr_principal g' = gr_principal g"
proof -
  have "gr_migrated_from_session_id g' = gr_migrated_from_session_id g"
    using assms by (auto simp: grant_transition_Inr grant_record_event_def split: authorization_event.splits)
  with grant_transition_scope [OF assms] show ?thesis by (simp add: same_record_def grant_scope_def)
qed

lemma authority_cases:
  assumes "unique_keys subject_of (d_grants d)" and "authority_for_subject w sid d = Inr (Some g)"
  obtains (stored) r where "table_lookup subject_of sid (d_grants d) = Some r" "parse_grant r = Inr g"
  | (legacy) row where "table_lookup subject_of sid (d_grants d) = None"
      "table_lookup session_key sid (d_sessions d) = Some row"
      "grant_from_legacy_session (w_put w) (session_of_row row) = Inr (Some g)"
proof (cases "table_lookup subject_of sid (d_grants d)")
  case (Some r)
  with assms have "parse_grant r = Inr g"
    by (auto simp: authority_for_subject_def load_for_subject_lookup rbind_Inr_conv with_io_Inr
        split: option.splits)
  with Some stored show thesis by blast
next
  case None
  with assms obtain s where s: "session_load (f_session_load w) sid (d_sessions d) = Inr s"
    and g: "(case s of None \<Rightarrow> None | Some row \<Rightarrow> ok_flatten (grant_from_legacy_session (w_put w) row)) = Some g"
    by (auto simp: authority_for_subject_def load_for_subject_lookup rbind_Inr_conv with_io_Inr)
  from g obtain row where row: "s = Some row" and l: "grant_from_legacy_session (w_put w) row = Inr (Some g)"
    by (auto simp: ok_flatten_def split: option.splits sum.splits)
  from s row obtain x where "table_lookup session_key sid (d_sessions d) = Some x" "row = session_of_row x"
    by (auto simp: session_load_def split: option.splits)
  with None l legacy show thesis by blast
qed

lemma decide_read_Inr:
  assumes "decide_read w sid e d = Inr g'"
  obtains g ae where "authority_for_subject w sid d = Inr (Some g)" "authorization_event_for e = Some ae"
    "grant_transition g ae (w_now w) = Inr g'"
  using assms by (auto simp: decide_read_def rbind_Inr_conv)

lemma session_row_id: "ses_session_id (session_of_row r) = session_key r"
  by (simp add: session_of_row_def session_key_def)

lemma decide_read_subject:
  assumes "grants_ok (d_sessions d) (d_grants d)" and "decide_read w sid e d = Inr g'"
  shows "gr_subject_session_id g' = sid"
proof -
  from assms(2) obtain g ae where g: "authority_for_subject w sid d = Inr (Some g)"
    "grant_transition g ae (w_now w) = Inr g'" by (rule decide_read_Inr)
  have "unique_keys subject_of (d_grants d)" using assms(1) by (simp add: grants_ok_def)
  from this g(1) have "gr_subject_session_id g = sid"
    by (cases rule: authority_cases)
      (auto simp: parse_grant_Inr subject_of_def grant_from_legacy_session_Some session_row_id
        dest: table_lookup_Some_key)
  with transition_same_record [OF g(2)] show ?thesis by (simp add: same_record_def)
qed

text \<open>Saving the decided grant replaces the subject's row, or adds one where there was none.\<close>

lemma decide_save_rows:
  assumes ok: "grants_ok (d_sessions d) (d_grants d)" and read: "decide_read w sid e d = Inr g'"
    and saved: "save_grant io g' (d_grants d) = (Inr u, rows)"
  shows "rows = upsert subject_of (\<lambda>_ n. n) (grant_to_row g') (d_grants d)"
proof -
  let ?rows = "d_grants d" and ?n = "grant_to_row g'"
  have uk: "unique_keys grant_key ?rows" and us: "unique_keys subject_of ?rows"
    using ok by (simp_all add: grants_ok_def)
  from read obtain g ae where g: "authority_for_subject w sid d = Inr (Some g)"
    "grant_transition g ae (w_now w) = Inr g'" by (rule decide_read_Inr)
  note same = transition_same_record [OF g(2)]
  have sn: "subject_of ?n = sid"
    using decide_read_subject [OF ok read] by (simp add: subject_of_def grant_to_row_def)
  have rows: "rows = upsert grant_key merge_grant ?n ?rows" using save_grant_Inr [OF saved] by simp
  from us g(1) show ?thesis
  proof (cases rule: authority_cases)
    case (stored r)
    have r: "r \<in> set ?rows" "subject_of r = sid" using stored(1) by (auto dest: table_lookup_Some_key)
    have sr: "same_record (rg_grant r) g'"
      using stored(2) same by (auto simp: parse_grant_Inr same_record_def)
    have kn: "grant_key ?n = grant_key r" using sr by (simp add: grant_key_def grant_to_row_def same_record_def)
    have one: "grant_key x = grant_key r \<longleftrightarrow> subject_of x = sid" if "x \<in> set ?rows" for x
      using unique_keys_lookup [OF uk that] unique_keys_lookup [OF uk r(1)]
        unique_keys_lookup [OF us that] stored(1) r(2) by (metis option.inject)
    have only: "x = r" if "x \<in> set ?rows" "subject_of x = sid" for x
      using unique_keys_lookup [OF us that(1)] that(2) stored(1) by simp
    have "rows = map (\<lambda>x. if grant_key x = grant_key ?n then merge_grant x ?n else x) ?rows"
      unfolding rows using upsert_existing [OF uk] r(1) kn by simp
    also have "\<dots> = map (\<lambda>x. if subject_of x = subject_of ?n then ?n else x) ?rows"
      using one only merge_same_record [OF sr] by (intro map_cong) (auto simp: kn sn)
    also have "\<dots> = upsert subject_of (\<lambda>_ n. n) ?n ?rows"
      using upsert_existing [OF us, of ?n "\<lambda>_ n. n"] r sn by force
    finally show ?thesis .
  next
    case (legacy row)
    have row: "row \<in> set (d_sessions d)" "session_key row = sid" using legacy(2) by (auto dest: table_lookup_Some_key)
    have no: "subject_of x \<noteq> sid" if "x \<in> set ?rows" for x
      using legacy(1) that by (auto simp: table_lookup_None)
    have kn: "grant_key ?n = grant_id_of_session sid"
      using legacy(3) same row(2)
      by (auto simp: grant_from_legacy_session_Some same_record_def grant_key_def grant_to_row_def session_row_id)
    have "grant_key x \<noteq> grant_key ?n" if "x \<in> set ?rows" for x
      using ok that row no [OF that] unfolding grants_ok_def kn by metis
    then have "grant_key ?n \<notin> grant_key ` set ?rows" by (metis imageE)
    moreover have "subject_of ?n \<notin> subject_of ` set ?rows" using no sn by (metis imageE)
    ultimately show ?thesis unfolding rows by (simp add: upsert_fresh)
  qed
qed

lemma grants_ok_replace:
  assumes ok: "grants_ok (d_sessions d) (d_grants d)" and read: "decide_read w sid e d = Inr g'"
    and saved: "save_grant io g' (d_grants d) = (Inr u, rows)"
  shows "grants_ok (d_sessions d) rows"
proof -
  let ?n = "grant_to_row g'"
  have uk: "unique_keys grant_key (d_grants d)" and us: "unique_keys subject_of (d_grants d)"
    using ok by (simp_all add: grants_ok_def)
  note rows = decide_save_rows [OF ok read saved]
  have "unique_keys grant_key rows" using save_grant_unique [OF uk, of io g'] saved by simp
  moreover have "unique_keys subject_of rows"
    using us unfolding rows unique_keys_def replace_keys by auto
  moreover have "subject_of r = session_key s"
    if "r \<in> set rows" "s \<in> set (d_sessions d)" "grant_key r = grant_id_of_session (session_key s)" for r s
  proof -
    have "r = ?n \<or> r \<in> set (d_grants d)" using replace_set [of r] that(1) unfolding rows by blast
    then show ?thesis
    proof
      assume "r \<in> set (d_grants d)"
      with ok that show ?thesis by (simp add: grants_ok_def)
    next
      assume r: "r = ?n"
      from read obtain g ae where g: "authority_for_subject w sid d = Inr (Some g)"
        "grant_transition g ae (w_now w) = Inr g'" by (rule decide_read_Inr)
      note same = transition_same_record [OF g(2)]
      from us g(1) show ?thesis
      proof (cases rule: authority_cases)
        case (stored x)
        then have "x \<in> set (d_grants d)" "grant_key x = grant_key r" "subject_of x = subject_of r"
          using same by (auto simp: r parse_grant_Inr same_record_def grant_key_def grant_to_row_def subject_of_def
              dest: table_lookup_Some_key)
        with ok that show ?thesis unfolding grants_ok_def by metis
      next
        case (legacy row)
        then have "session_key row = sid" by (auto dest: table_lookup_Some_key)
        then have "grant_key r = grant_id_of_session sid"
          using legacy(3) same by (auto simp: r grant_from_legacy_session_Some same_record_def grant_key_def
              grant_to_row_def session_row_id)
        with that(3) have "session_key s = sid" by simp
        then show ?thesis using decide_read_subject [OF ok read] by (simp add: r subject_of_def grant_to_row_def)
      qed
    qed
  qed
  ultimately show ?thesis unfolding grants_ok_def by blast
qed

section \<open>Every handler keeps the daemon well-formed\<close>

lemma queue_ok_delete: "queue_ok q \<Longrightarrow> queue_ok (AList.delete op q)"
  by (auto simp: queue_ok_def distinct_delete delete_conv split: if_splits)

lemma queue_ok_update:
  "queue_ok q \<Longrightarrow> op_operation_id (po_request p) = op \<Longrightarrow> queue_ok (AList.update op p q)"
  by (auto simp: queue_ok_def distinct_update update_conv split: if_splits)

lemma queue_ok_filter: "queue_ok q \<Longrightarrow> queue_ok (filter P q)"
  by (auto simp: queue_ok_def distinct_map_filter map_of_eq_Some_iff)

lemma queue_ok_requeue:
  assumes "queue_ok q" and "op_operation_id (po_request p) = op"
  shows "queue_ok (AList.delete op q @ [(op, p)])"
proof -
  have "distinct (map fst (AList.delete op q))"
    using assms(1) by (simp add: queue_ok_def delete_keys distinct_removeAll)
  moreover have "op \<notin> fst ` set (AList.delete op q)"
    using delete_keys [of op q] by (metis Diff_iff insertI1 list.set_map set_removeAll)
  ultimately show ?thesis using assms
    by (auto simp: queue_ok_def delete_conv map_add_def split: option.splits if_splits)
qed

lemma grants_ok_sessions:
  assumes "grants_ok sessions grants" and "session_key ` set sessions' \<subseteq> session_key ` set sessions"
  shows "grants_ok sessions' grants"
proof -
  have "subject_of r = session_key s'"
    if "r \<in> set grants" "s' \<in> set sessions'" "grant_key r = grant_id_of_session (session_key s')" for r s'
  proof -
    from assms(2) that(2) obtain s where "s \<in> set sessions" "session_key s = session_key s'" by (metis imageE imageI subsetD)
    with assms(1) that show ?thesis unfolding grants_ok_def by metis
  qed
  with assms(1) show ?thesis by (simp add: grants_ok_def)
qed

lemma request_keeps_grants_ok:
  assumes ok: "grants_ok (d_sessions d) (d_grants d)" and fresh: "fresh_ids w d"
    and s: "ses_session_id s = SessionId (w_session_ulid w)" and g: "gr_grant_id g = GrantId (w_grant_ulid w)"
    and sub: "gr_subject_session_id g = ses_session_id s"
  shows "grants_ok (d_sessions (persist_request w s g d)) (d_grants (persist_request w s g d))"
proof -
  let ?S = "d_sessions d @ [session_to_row s]" and ?G = "d_grants d @ [grant_to_row g]"
  have sk: "session_key (session_to_row s) = SessionId (w_session_ulid w)"
    using s by (simp add: session_key_def session_to_row_def)
  have gk: "grant_key (grant_to_row g) = GrantId (w_grant_ulid w)" "subject_of (grant_to_row g) = SessionId (w_session_ulid w)"
    using s g sub by (simp_all add: grant_key_def grant_to_row_def subject_of_def)
  have old: "grant_key r \<noteq> GrantId (w_session_ulid w)" "grant_key r \<noteq> GrantId (w_grant_ulid w)"
      "subject_of r \<noteq> SessionId (w_session_ulid w)" if "r \<in> set (d_grants d)" for r
    using fresh that fresh_grant fresh_subject unfolding fresh_ids_def subject_of_def
    by (metis grant_id.sel image_eqI insertI1)+
  have srow: "sess_ulid (session_key x) \<noteq> w_grant_ulid w" if "x \<in> set (d_sessions d)" for x
    using fresh that unfolding fresh_ids_def by (metis image_eqI insertCI)
  have ne: "w_session_ulid w \<noteq> w_grant_ulid w" using fresh by (simp add: fresh_ids_def)
  have S: "grants_ok ?S (d_grants d)"
    using ok old by (auto simp: grants_ok_def sk grant_id_of_session_def)
  have G: "grants_ok ?S ?G"
  proof -
    have "unique_keys grant_key ?G" "unique_keys subject_of ?G"
      using ok old by (fastforce simp: grants_ok_def unique_keys_def gk)+
    moreover have "subject_of r = session_key x"
      if "r \<in> set ?G" "x \<in> set ?S" "grant_key r = grant_id_of_session (session_key x)" for r x
    proof (cases "r \<in> set (d_grants d)")
      case True
      with S that show ?thesis unfolding grants_ok_def by blast
    next
      case False
      with that(1) have r: "r = grant_to_row g" by simp
      have "sess_ulid (session_key x) = w_grant_ulid w" using that(3) r gk(1) by (simp add: grant_id_of_session_def)
      with that(2) srow sk ne show ?thesis by auto
    qed
    ultimately show ?thesis unfolding grants_ok_def by blast
  qed
  from ok S G show ?thesis by (cases rule: persisted_rows [OF fresh s g]) simp_all
qed

lemma decide_save_keeps:
  assumes "daemon_ok d" and "decide_read w sid e d = Inr g" and "decide_save w' g d = (res, d1)"
  shows "daemon_ok d1 \<and> d_sessions d1 = d_sessions d \<and> d_pending d1 = d_pending d \<and> d_calls d1 = d_calls d"
proof (cases res)
  case (Inl err)
  with assms(3) have "d1 = d" by (auto simp: decide_save_def map_err_Inl_conv split: prod.splits dest!: save_grant_Inl)
  with assms(1) show ?thesis by simp
next
  case (Inr u)
  with assms(3) obtain rows where s: "save_grant (f_grant_save w') g (d_grants d) = (Inr u, rows)"
    and d1: "d1 = d\<lparr>d_grants := rows\<rparr>" by (auto simp: decide_save_def split: prod.splits)
  have "grants_ok (d_sessions d) rows"
    using assms(1) by (intro grants_ok_replace [OF _ assms(2) s]) (simp add: daemon_ok_def)
  with assms(1) show ?thesis by (simp add: d1 daemon_ok_def)
qed

lemma mirror_keys:
  assumes "table_lookup session_key sid sessions = Some row"
    and "session_transition (session_of_row row) e now = Inr s'"
  shows "session_key ` set (snd (session_save io s' sessions)) = session_key ` set sessions"
proof -
  have "session_scope s' = session_scope (session_of_row row)" using assms(2) by (rule session_life.scope_step)
  then have k: "session_key (session_to_row s') = session_key row"
    by (simp add: session_scope_def session_key_def session_to_row_def session_of_row_def)
  moreover have "row \<in> set sessions" using assms(1) by (auto dest: table_lookup_Some_key)
  ultimately have "map session_key (upsert session_key merge_session (session_to_row s') sessions) = map session_key sessions"
    by (simp add: session_rows.keys_upsert)
  then have "session_key ` set (upsert session_key merge_session (session_to_row s') sessions) = session_key ` set sessions"
    by (metis list.set_map)
  then show ?thesis by (simp add: session_save_def split: option.splits)
qed

lemma decide_finish_cases:
  obtains (stop) err d1 where "decide_finish w sid e g d = (Inl err, d1)" "d1 = d"
  | (finished) sessions where "session_key ` set sessions = session_key ` set (d_sessions d)"
      "table_lookup session_key sid (d_sessions d) = None \<Longrightarrow> sessions = d_sessions d"
      "\<And>row. table_lookup session_key sid (d_sessions d) = Some row \<Longrightarrow>
         (\<exists>err. session_transition (session_of_row row) e (w_now w) = Inl err \<and> sessions = d_sessions d)
         \<or> (\<exists>s'. session_transition (session_of_row row) e (w_now w) = Inr s'
              \<and> sessions = upsert session_key merge_session (session_to_row s') (d_sessions d))"
      "decide_finish w sid e g d = (Inr (), if gr_status g = Revoked
         then snd (invalidate_pending_for_session w sid (d\<lparr>d_sessions := sessions\<rparr>)) else d\<lparr>d_sessions := sessions\<rparr>)"
proof (cases "f_session_load w")
  case (Some m)
  then show thesis by (intro stop) (simp_all add: decide_finish_def session_load_def)
next
  case None
  show thesis
  proof (cases "table_lookup session_key sid (d_sessions d)")
    case None
    with \<open>f_session_load w = None\<close> show thesis
      by (intro finished [of "d_sessions d"]) (simp_all add: decide_finish_def session_load_def)
  next
    case (Some row)
    show thesis
    proof (cases "session_transition (session_of_row row) e (w_now w)")
      case (Inl err)
      with Some None show thesis
        by (intro finished [of "d_sessions d"]) (simp_all add: decide_finish_def session_load_def)
    next
      case (Inr s')
      show thesis
      proof (cases "f_session_save w")
        case (Some m)
        with Inr \<open>table_lookup _ _ _ = Some row\<close> None show thesis
          by (intro stop) (simp_all add: decide_finish_def session_load_def session_save_def)
      next
        case save: None
        with Inr Some None mirror_keys [OF Some Inr, of None] show thesis
          by (intro finished [of "upsert session_key merge_session (session_to_row s') (d_sessions d)"])
            (simp_all add: decide_finish_def session_load_def session_save_def)
      qed
    qed
  qed
qed

lemma invalidate_simps [simp]:
  "d_sessions (snd (invalidate_pending_for_session w sid d)) = d_sessions d"
  "d_grants (snd (invalidate_pending_for_session w sid d)) = d_grants d"
  "d_calls (snd (invalidate_pending_for_session w sid d)) = d_calls d"
  "d_transport (snd (invalidate_pending_for_session w sid d)) = d_transport d"
  "d_pending (snd (invalidate_pending_for_session w sid d)) =
     filter (\<lambda>(_, p). op_session_id (po_request p) \<noteq> sid) (d_pending d)"
  "audit_ids (d_audit (snd (invalidate_pending_for_session w sid d))) = audit_ids (d_audit d)"
  "row_says op k a (d_audit (snd (invalidate_pending_for_session w sid d))) = row_says op k a (d_audit d)"
  by (simp_all add: invalidate_pending_for_session_def Let_def)

lemma decide_finish_keeps:
  assumes "daemon_ok d" and "decide_finish w sid e g d = (res, d1)"
  shows "daemon_ok d1 \<and> d_grants d1 = d_grants d \<and> d_calls d1 = d_calls d"
proof (cases rule: decide_finish_cases [of w sid e g d])
  case (stop err d2)
  with assms show ?thesis by simp
next
  case (finished sessions)
  have "grants_ok sessions (d_grants d)"
    by (rule grants_ok_sessions [of "d_sessions d"]) (use assms(1) finished(1) in \<open>simp_all add: daemon_ok_def\<close>)
  then show ?thesis
    using assms finished(4) by (auto simp: daemon_ok_def queue_ok_filter)
qed

lemma decide_session_keeps:
  assumes "daemon_ok d" and "decide_session w sid e d = (res, d')"
  shows "daemon_ok d' \<and> d_calls d' = d_calls d"
proof (cases "decide_read w sid e d")
  case (Inl err)
  with assms show ?thesis by (simp add: decide_session_def)
next
  case (Inr g)
  obtain r1 d1 where s: "decide_save w g d = (r1, d1)" by fastforce
  note keep = decide_save_keeps [OF assms(1) Inr s]
  show ?thesis
  proof (cases r1)
    case (Inl err)
    with assms(2) s keep \<open>decide_read w sid e d = Inr g\<close> show ?thesis by (simp add: decide_session_def)
  next
    case f: (Inr u)
    with assms(2) s Inr have "decide_finish w sid e g d1 = (res, d')" by (simp add: decide_session_def)
    with keep decide_finish_keeps show ?thesis by metis
  qed
qed

lemma approve_keeps:
  assumes "queue_ok (d_pending d)"
  shows "queue_ok (d_pending (snd (approve_pending_operation w op d)))"
proof (cases rule: approve_pending_cases [of d op w])
  case (failed p e)
  then have "op_operation_id (po_request p) = op" using assms by (simp add: queue_ok_def)
  with failed assms show ?thesis by (simp add: queue_ok_requeue)
next
  case (granted p audit)
  with assms show ?thesis by (simp add: queue_ok_delete Let_def)
qed (use assms in \<open>simp_all add: queue_ok_delete\<close>)

lemma approve_frame [simp]:
  "d_sessions (snd (approve_pending_operation w op d)) = d_sessions d"
  "d_grants (snd (approve_pending_operation w op d)) = d_grants d"
  by (cases "take_pending op d";
      simp add: approve_pending_operation_def take_pending_def commit_approval_def requeue_pending_operation_def Let_def
        split: prod.splits sum.splits option.splits; fastforce)+

lemma deny_frame [simp]:
  "d_sessions (snd (deny_pending_operation w op d)) = d_sessions d"
  "d_grants (snd (deny_pending_operation w op d)) = d_grants d"
  "d_calls (snd (deny_pending_operation w op d)) = d_calls d"
  "d_pending (snd (deny_pending_operation w op d)) = AList.delete op (d_pending d)"
  by (auto simp: deny_pending_operation_def take_pending_def finish_denial_def Let_def delete_id map_of_eq_None_iff
      split: prod.splits option.splits)

lemma workspace_frame [simp]:
  "d_sessions (snd (authorize_workspace w root name d)) = d_sessions d"
  "d_grants (snd (authorize_workspace w root name d)) = d_grants d"
  "d_calls (snd (authorize_workspace w root name d)) = d_calls d"
  "d_pending (snd (authorize_workspace w root name d)) = d_pending d"
  "d_audit (snd (authorize_workspace w root name d)) = d_audit d"
  "d_sessions (snd (remove_workspace w wid d)) = d_sessions d"
  "d_grants (snd (remove_workspace w wid d)) = d_grants d"
  "d_calls (snd (remove_workspace w wid d)) = d_calls d"
  "d_pending (snd (remove_workspace w wid d)) = d_pending d"
  "d_audit (snd (remove_workspace w wid d)) = d_audit d"
  by (simp_all add: authorize_workspace_def remove_workspace_def split: sum.splits prod.splits)

lemma inbound_keeps:
  assumes "daemon_ok d" and "fresh_ids w d"
  shows "daemon_ok (handle_inbound_envelope w env vp d)"
proof (cases rule: inbound_cases [of w env vp d])
  case 1
  with assms show ?thesis by simp
next
  case 2
  show ?thesis
  proof (cases rule: handle_session_request_cases [of w env vp d])
    case dropped
    with 2 assms show ?thesis by simp
  next
    case (persisted p dev ws s)
    note s = requested_session_Inr [OF persisted(5)]
    have "grants_ok (d_sessions (handle_session_request w env vp d)) (d_grants (handle_session_request w env vp d))"
      unfolding persisted(8) using assms s by (intro request_keeps_grants_ok) (simp_all add: daemon_ok_def)
    with 2 assms show ?thesis by (simp add: daemon_ok_def)
  qed
next
  case 3
  have "queue_ok (d_pending (handle_operation_request w env vp d))"
  proof (cases rule: handle_operation_request_cases [of w env vp d])
    case (recorded rq decision g s)
    with assms show ?thesis
      by (cases decision) (simp_all add: dispatch_decision_def daemon_ok_def queue_ok_update)
  qed (use assms in \<open>simp_all add: daemon_ok_def\<close>)
  with 3 assms show ?thesis by (simp add: daemon_ok_def)
qed

lemma daemon_step_ok: "daemon_step d d' \<Longrightarrow> daemon_ok d \<Longrightarrow> daemon_ok d'"
proof (induction rule: daemon_step.induct)
  case (inbound w d env vp)
  then show ?case by (simp add: inbound_keeps)
next
  case (decide d w sid e)
  then show ?case using decide_session_keeps by (metis prod.collapse)
qed (simp_all add: daemon_ok_def approve_keeps queue_ok_delete record_transport_event_def)

section \<open>Revocation\<close>

definition revoked_in :: "session_id \<Rightarrow> daemon \<Rightarrow> bool" where
  "revoked_in sid d \<longleftrightarrow>
     (\<exists>r. table_lookup subject_of sid (d_grants d) = Some r \<and> gr_status (rg_grant r) = Revoked)
     \<and> (\<forall>row. table_lookup session_key sid (d_sessions d) = Some row \<longrightarrow> session_is_terminal (session_of_row row))
     \<and> (\<forall>(op, p) \<in> set (d_pending d). op_session_id (po_request p) \<noteq> sid)"

lemma revoked_not_usable:
  assumes "daemon_ok d" and "revoked_in sid d" and "op_session_id rq = sid"
    and "fst (resolve_grant w d rq) = Some g"
  shows "\<not> grant_is_usable_at g t"
proof -
  from assms(2) obtain r where r: "table_lookup subject_of sid (d_grants d) = Some r" "gr_status (rg_grant r) = Revoked"
    unfolding revoked_in_def by blast
  have "unique_keys subject_of (d_grants d)" using assms(1) by (simp add: daemon_ok_def grants_ok_def)
  note load = load_for_subject_lookup [OF this, of "w_stamp w" "w_put w" "f_grant_load w" sid, unfolded r(1)]
  show ?thesis
  proof (cases "with_io (f_grant_load w) (map_transpose parse_grant (Some r))")
    case (Inr found)
    then obtain k where "found = Some k" "gr_status k = Revoked"
      using r(2) by (auto simp: with_io_Inr rbind_Inr_conv parse_grant_Inr)
    with assms(3,4) load Inr show ?thesis by (auto simp: resolve_grant_def ok_flatten_def usable_conv Let_def)
  next
    case (Inl e)
    with assms(3,4) load obtain row where
      row: "ok_flatten (session_load (f_session_load w) sid (d_sessions d)) = Some row"
      and leg: "grant_from_legacy_session (w_put w) row = Inr (Some g)"
      by (auto simp: resolve_grant_def Let_def ok_flatten_def split: option.splits sum.splits)
    from row obtain x where "table_lookup session_key sid (d_sessions d) = Some x" "row = session_of_row x"
      by (auto simp: ok_flatten_def session_load_def split: option.splits sum.splits)
    then have "session_is_terminal row" using assms(2) unfolding revoked_in_def by blast
    then have "ses_status row \<noteq> SActive" by (auto simp: session_is_terminal_def)
    with leg show ?thesis by (auto simp: grant_from_legacy_session_Some usable_conv)
  qed
qed

text \<open>So nothing is permitted for the session, by the remote path or by approval.\<close>

lemma revoked_denies:
  assumes "daemon_ok d" and "revoked_in sid d" and "fst (resolve_grant w d rq) = Some g"
    and "permitted rs fs rq g ws t cap a"
  shows "op_session_id rq \<noteq> sid"
  using revoked_not_usable [OF assms(1,2) _ assms(3), of t] assms(4) by (auto simp: permitted_def)

lemma revoked_inbound:
  assumes "daemon_ok d" and "revoked_in sid d" and "fresh_ids w d"
  shows "revoked_in sid (handle_inbound_envelope w env vp d)
    \<and> filter (\<lambda>rq. op_session_id rq = sid) (d_calls (handle_inbound_envelope w env vp d))
      = filter (\<lambda>rq. op_session_id rq = sid) (d_calls d)"
proof (cases rule: inbound_cases [of w env vp d])
  case 1
  with assms show ?thesis by simp
next
  case 2
  show ?thesis
  proof (cases rule: handle_session_request_cases [of w env vp d])
    case dropped
    with 2 assms show ?thesis by simp
  next
    case (persisted p dev ws s)
    let ?g = "requested_grant w dev ws p vp s"
    note s = requested_session_Inr [OF persisted(5)]
    from assms(2) obtain r where r: "table_lookup subject_of sid (d_grants d) = Some r" unfolding revoked_in_def by blast
    have sid: "sid \<noteq> SessionId (w_session_ulid w)"
      using fresh_subject [OF assms(3)] table_lookup_Some_key [OF r] by (auto simp: subject_of_def)
    have k: "session_key (session_to_row s) \<noteq> sid"
      using s sid by (simp add: session_key_def session_to_row_def)
    have "revoked_in sid (persist_request w s ?g d)"
      using assms(2) r k
      by (cases rule: persisted_rows [OF assms(3), of s ?g])
        (use s in \<open>auto simp: revoked_in_def table_lookup_append split: option.splits if_splits\<close>)
    then have "revoked_in sid (handle_session_request w env vp d)" by (simp only: persisted(8))
    then show ?thesis unfolding 2 by simp
  qed
next
  case 3
  show ?thesis
  proof (cases rule: handle_operation_request_cases [of w env vp d])
    case (recorded rq decision g s)
    show ?thesis
    proof (cases "decision_permits decision")
      case None
      then obtain reason where "decision = policy_decision.Deny reason" by (cases decision) auto
      with recorded 3 assms(2) show ?thesis by (simp add: dispatch_decision_def revoked_in_def)
    next
      case (Some ca)
      obtain cap a where ca: "ca = (cap, a)" by (cases ca)
      have "op_session_id rq \<noteq> sid"
        using recorded(1) Some [unfolded ca]
        by (rule gate_permits) (use revoked_denies [OF assms(1,2)] in blast)
      moreover have "p \<in> set (AList.update op v q) \<Longrightarrow> p = (op, v) \<or> p \<in> set q" for p op and v :: pending_operation and q
        by (induction q) (auto split: if_splits)
      ultimately show ?thesis
        using recorded(4) 3 assms(2) by (cases decision) (fastforce simp: dispatch_decision_def revoked_in_def)+
    qed
  qed (use 3 assms(2) in \<open>simp_all add: revoked_in_def\<close>)
qed

lemma revoked_approve:
  assumes "daemon_ok d" and "revoked_in sid d"
  shows "revoked_in sid (snd (approve_pending_operation w op d))
    \<and> filter (\<lambda>rq. op_session_id rq = sid) (d_calls (snd (approve_pending_operation w op d)))
      = filter (\<lambda>rq. op_session_id rq = sid) (d_calls d)"
proof -
  have other: "op_session_id (po_request p) \<noteq> sid" if "map_of (d_pending d) op = Some p" for p
    using assms(2) map_of_SomeD [OF that] by (auto simp: revoked_in_def)
  have del: "x \<in> set (AList.delete op (d_pending d)) \<Longrightarrow> x \<in> set (d_pending d)" for x
    by (auto simp: AList.delete_eq)
  have all: "op_session_id (po_request (snd x)) \<noteq> sid" if "x \<in> set (d_pending d)" for x
    using assms(2) that by (auto simp: revoked_in_def)
  have "op_session_id (po_request (snd x)) \<noteq> sid" if "x \<in> set (d_pending (snd (approve_pending_operation w op d)))" for x
  proof (cases rule: approve_pending_cases [of d op w])
    case (failed p e)
    with that have "x = (op, p) \<or> x \<in> set (AList.delete op (d_pending d))" by auto
    with all del other [OF failed(1)] show ?thesis by (metis snd_conv)
  next
    case (granted p audit)
    with that have "x \<in> set (AList.delete op (d_pending d))" by (simp add: Let_def split: if_splits)
    with all del show ?thesis by blast
  qed (use that all del in simp_all)
  then have q: "\<forall>(op', p) \<in> set (d_pending (snd (approve_pending_operation w op d))). op_session_id (po_request p) \<noteq> sid"
    by fastforce
  have "filter (\<lambda>rq. op_session_id rq = sid) (d_calls (snd (approve_pending_operation w op d)))
      = filter (\<lambda>rq. op_session_id rq = sid) (d_calls d)"
    using other by (cases rule: approve_pending_cases [of d op w]) (auto simp: Let_def)
  with q assms(2) show ?thesis by (simp add: revoked_in_def)
qed

lemma revoked_no_decision:
  assumes "daemon_ok d" and "revoked_in sid d"
  shows "decide_read w sid e d \<noteq> Inr g"
proof
  assume "decide_read w sid e d = Inr g"
  then obtain h ae where h: "authority_for_subject w sid d = Inr (Some h)" "grant_transition h ae (w_now w) = Inr g"
    by (rule decide_read_Inr)
  have "unique_keys subject_of (d_grants d)" using assms(1) by (simp add: daemon_ok_def grants_ok_def)
  from this h(1) have "gr_status h = Revoked"
    using assms(2) by (cases rule: authority_cases) (auto simp: revoked_in_def parse_grant_Inr)
  with h(2) show False by (simp add: grant_transition_def grant_is_terminal_def status_is_terminal_def)
qed

lemma other_decision_grants:
  assumes "daemon_ok d" and "decide_read w sid' e d = Inr g" and "decide_save w' g d = (res, d1)" and "sid \<noteq> sid'"
  shows "table_lookup subject_of sid (d_grants d1) = table_lookup subject_of sid (d_grants d)"
proof (cases res)
  case (Inl err)
  with assms(3) show ?thesis by (auto simp: decide_save_def map_err_Inl_conv split: prod.splits dest!: save_grant_Inl)
next
  case (Inr u)
  with assms(3) obtain rows where s: "save_grant (f_grant_save w') g (d_grants d) = (Inr u, rows)"
    and d1: "d1 = d\<lparr>d_grants := rows\<rparr>" by (auto simp: decide_save_def split: prod.splits)
  have ok: "grants_ok (d_sessions d) (d_grants d)" using assms(1) by (simp add: daemon_ok_def)
  have "subject_of (grant_to_row g) = sid'"
    using decide_read_subject [OF ok assms(2)] by (simp add: subject_of_def grant_to_row_def)
  with assms(4) show ?thesis by (simp add: d1 decide_save_rows [OF ok assms(2) s] replace_lookup)
qed

lemma mirrored_row:
  assumes "table_lookup session_key sid' sessions = Some row"
    and "session_transition (session_of_row row) e now = Inr s'"
  shows "table_lookup session_key sid (upsert session_key merge_session (session_to_row s') sessions) =
     (if sid = sid' then Some (session_to_row s') else table_lookup session_key sid sessions)"
proof -
  have sc: "session_scope s' = session_scope (session_of_row row)" using assms(2) by (rule session_life.scope_step)
  have k: "session_key (session_to_row s') = sid'"
    using sc table_lookup_Some_key [OF assms(1)]
    by (simp add: session_scope_def session_key_def session_to_row_def session_of_row_def)
  have "merge_session row (session_to_row s') = session_to_row s'"
    using sc by (simp add: merge_session_def session_to_row_def session_scope_def session_of_row_def)
  with k assms(1) show ?thesis by (auto simp: session_rows.lookup_upsert)
qed

lemma revoked_decide:
  assumes "daemon_ok d" and "revoked_in sid d"
  shows "revoked_in sid (snd (decide_session w sid' e d))"
proof (cases "decide_read w sid' e d")
  case (Inl err)
  with assms show ?thesis by (simp add: decide_session_def)
next
  case (Inr g)
  with revoked_no_decision [OF assms] have ne: "sid \<noteq> sid'" by metis
  obtain r1 d1 where s: "decide_save w g d = (r1, d1)" by fastforce
  note keep = decide_save_keeps [OF assms(1) Inr s] and look = other_decision_grants [OF assms(1) Inr s ne]
  have r1: "revoked_in sid d1" using assms(2) keep look by (simp add: revoked_in_def)
  show ?thesis
  proof (cases r1)
    case (Inl err)
    with s Inr r1 show ?thesis by (simp add: decide_session_def)
  next
    case f: (Inr u)
    have "revoked_in sid (snd (decide_finish w sid' e g d1))"
    proof (cases rule: decide_finish_cases [of w sid' e g d1])
      case (stop err d2)
      with r1 show ?thesis by simp
    next
      case (finished sessions)
      have "table_lookup session_key sid sessions = table_lookup session_key sid (d_sessions d1)"
        using finished(2,3) ne mirrored_row [of sid' "d_sessions d1"]
        by (cases "table_lookup session_key sid' (d_sessions d1)") (metis (full_types))+
      with r1 show ?thesis unfolding finished(4) by (auto simp: revoked_in_def)
    qed
    with f s Inr show ?thesis by (simp add: decide_session_def)
  qed
qed

lemma revoked_step:
  assumes "daemon_step d d'" and "daemon_ok d" and "revoked_in sid d"
  shows "revoked_in sid d' \<and> filter (\<lambda>rq. op_session_id rq = sid) (d_calls d')
      = filter (\<lambda>rq. op_session_id rq = sid) (d_calls d)"
  using assms
proof (induction rule: daemon_step.induct)
  case (inbound w d env vp)
  then show ?case by (simp add: revoked_inbound)
next
  case (approve d w op)
  then show ?case by (simp add: revoked_approve)
next
  case (deny d w op)
  then show ?case by (auto simp: revoked_in_def AList.delete_eq)
next
  case (decide d w sid' e)
  then show ?case using revoked_decide decide_session_keeps by (metis prod.collapse)
qed (simp_all add: revoked_in_def record_transport_event_def)

text \<open>What an acknowledged revocation establishes.\<close>

lemma revoke_acknowledged:
  assumes "daemon_ok d" and "decide_session w sid ERevoke d = (Inr (), d1)"
  shows "revoked_in sid d1"
proof -
  from assms(2) obtain g d2 where read: "decide_read w sid ERevoke d = Inr g"
    and s: "decide_save w g d = (Inr (), d2)" and f: "decide_finish w sid ERevoke g d2 = (Inr (), d1)"
    by (auto simp: decide_session_def split: sum.splits prod.splits)
  from s obtain rows where sv: "save_grant (f_grant_save w) g (d_grants d) = (Inr (), rows)"
    and d2: "d2 = d\<lparr>d_grants := rows\<rparr>" by (auto simp: decide_save_def split: prod.splits)
  have ok: "grants_ok (d_sessions d) (d_grants d)" using assms(1) by (simp add: daemon_ok_def)
  have st: "gr_status g = Revoked" using read by (auto simp: decide_read_def rbind_Inr_conv grant_transition_Inr)
  have sub: "subject_of (grant_to_row g) = sid"
    using decide_read_subject [OF ok read] by (simp add: subject_of_def grant_to_row_def)
  have look: "table_lookup subject_of sid (d_grants d2) = Some (grant_to_row g)"
    by (simp add: d2 decide_save_rows [OF ok read sv] replace_lookup sub)
  from f show ?thesis
  proof (cases rule: decide_finish_cases [of w sid ERevoke g d2])
    case (finished sessions)
    have d1: "d1 = snd (invalidate_pending_for_session w sid (d2\<lparr>d_sessions := sessions\<rparr>))"
      using f finished(4) st by simp
    have "session_is_terminal (session_of_row row)" if "table_lookup session_key sid sessions = Some row" for row
    proof (cases "table_lookup session_key sid (d_sessions d2)")
      case None
      with finished(2) that show ?thesis by simp
    next
      case (Some old)
      from finished(3) [OF Some] show ?thesis
      proof (elim disjE exE conjE)
        fix err
        assume "session_transition (session_of_row old) ERevoke (w_now w) = Inl err" "sessions = d_sessions d2"
        with Some that show ?thesis by (auto simp: session_transition_def split: if_splits)
      next
        fix s'
        assume t: "session_transition (session_of_row old) ERevoke (w_now w) = Inr s'"
          and "sessions = upsert session_key merge_session (session_to_row s') (d_sessions d2)"
        with that mirrored_row [OF Some t, of sid] have "row = session_to_row s'" by simp
        moreover have "ses_status s' = SRevoked" using t by (auto simp: session_transition_def split: if_splits)
        ultimately show ?thesis by (simp add: session_is_terminal_def)
      qed
    qed
    then show ?thesis using look st by (auto simp: revoked_in_def d1 grant_to_row_def)
  qed simp
qed

section \<open>Properties\<close>

text \<open>
  C2: Revocation is final. Once a revocation of a session has been acknowledged, then through any later
  sequence of remote messages, local decisions and storage faults no tool call is made for that session,
  none of its operations waits for approval, and no request of it resolves to a usable grant.
\<close>

theorem acknowledged_revocation_is_final:
  assumes "daemon_ok d" and "decide_session w sid ERevoke d = (Inr (), d1)" and "daemon_step\<^sup>*\<^sup>* d1 d2"
  shows "filter (\<lambda>rq. op_session_id rq = sid) (d_calls d2) = filter (\<lambda>rq. op_session_id rq = sid) (d_calls d)
    \<and> (\<forall>(op, p) \<in> set (d_pending d2). op_session_id (po_request p) \<noteq> sid)
    \<and> (\<forall>w' rq g t. op_session_id rq = sid \<and> fst (resolve_grant w' d2 rq) = Some g \<longrightarrow> \<not> grant_is_usable_at g t)"
proof -
  have keep: "daemon_ok d1" "d_calls d1 = d_calls d" using decide_session_keeps [OF assms(1,2)] by simp_all
  from assms(3) have r: "daemon_ok d2 \<and> revoked_in sid d2 \<and> filter (\<lambda>rq. op_session_id rq = sid) (d_calls d2)
      = filter (\<lambda>rq. op_session_id rq = sid) (d_calls d1)"
  proof (induction rule: rtranclp_induct)
    case base
    then show ?case using keep revoke_acknowledged [OF assms(1,2)] by simp
  next
    case (step y z)
    then show ?case using daemon_step_ok revoked_step by metis
  qed
  then have "\<forall>(op, p) \<in> set (d_pending d2). op_session_id (po_request p) \<noteq> sid" by (simp add: revoked_in_def)
  moreover have "\<not> grant_is_usable_at g t" if "op_session_id rq = sid" "fst (resolve_grant w' d2 rq) = Some g" for w' rq g t
    using revoked_not_usable [of d2 sid rq w' g t] r that by blast
  ultimately show ?thesis using r keep(2) by auto
qed

lemma sample_daemon_ok: "daemon_ok sample_daemon"
  by (simp add: daemon_ok_def grants_ok_def queue_ok_def unique_keys_def session_key_def session_to_row_def
      grant_key_def grant_to_row_def subject_of_def sample_defs grant_id_of_session_def)

lemma revoke_succeeds:
  assumes "daemon_ok d" and "table_lookup subject_of sid (d_grants d) = Some r" and "parse_grant r = Inr g"
    and "\<not> grant_is_terminal g" and "f_grant_load w = None" and "f_grant_save w = None"
    and "f_session_load w = None" and "f_session_save w = None"
  shows "\<exists>d1. decide_session w sid ERevoke d = (Inr (), d1)"
proof -
  have us: "unique_keys subject_of (d_grants d)" using assms(1) by (simp add: daemon_ok_def grants_ok_def)
  let ?g = "g\<lparr>gr_status := Revoked, gr_revoked_at := Some (w_now w), gr_revocation_reason := None\<rparr>"
  have read: "decide_read w sid ERevoke d = Inr ?g"
    using assms(2-5) by (simp add: decide_read_def authority_for_subject_def load_for_subject_lookup [OF us]
        with_io_def grant_transition_def)
  have "gr_grant_id ?g = grant_key r" using assms(3) by (auto simp: parse_grant_Inr grant_key_def)
  then have "table_lookup grant_key (gr_grant_id ?g) (d_grants d) \<noteq> None"
    using assms(2) by (auto simp: table_lookup_None dest!: table_lookup_Some_key)
  then have save: "fst (decide_save w ?g d) = Inr ()"
    using assms(6) by (simp add: decide_save_def save_grant_def)
  have fin: "fst (decide_finish w sid ERevoke ?g d') = Inr ()" for d'
    using assms(7,8) by (simp add: decide_finish_def session_load_def session_save_def Let_def
        split: option.splits sum.splits prod.splits)
  obtain d2 where d2: "decide_save w ?g d = (Inr (), d2)"
    using save by (cases "decide_save w ?g d") simp
  have "decide_session w sid ERevoke d = decide_finish w sid ERevoke ?g d2"
    by (simp only: decide_session_def read d2 sum.case prod.case)
  then show ?thesis using fin [of d2] by (cases "decide_finish w sid ERevoke ?g d2") simp
qed

theorem acknowledged_revocation_is_final_witness:
  "\<exists>d1. decide_session (sample_world False) (SessionId 7) ERevoke sample_daemon = (Inr (), d1)
     \<and> filter (\<lambda>rq. op_session_id rq = SessionId 7)
         (d_calls (handle_inbound_envelope (sample_world False) (sample_envelope Heartbeat) None d1)) = []"
proof -
  obtain d1 where r: "decide_session (sample_world False) (SessionId 7) ERevoke sample_daemon = (Inr (), d1)"
    using revoke_succeeds [OF sample_daemon_ok, of "SessionId 7" "grant_to_row (sample_active Standing)"
        "sample_active Standing" "sample_world False"]
    by (auto simp: subject_of_def grant_to_row_def sample_defs grant_is_terminal_def status_is_terminal_def
        sample_world_def parse_grant_Inr uint_word_of_int)
  have h: "handle_inbound_envelope (sample_world False) (sample_envelope Heartbeat) None d1 = d1"
    by (simp add: handle_inbound_envelope_def sample_version)
       (simp add: sample_envelope_def with_device_id_def envelope_new_def)
  have "filter (\<lambda>rq. op_session_id rq = SessionId 7) (d_calls d1) = []"
    using acknowledged_revocation_is_final [OF sample_daemon_ok r rtranclp.rtrancl_refl] by simp
  with r h show ?thesis by auto
qed

text \<open>
  C12: A live grant can always be revoked. If the storage answers, revoking a session whose stored grant
  is pending, active or suspended is acknowledged, and the stored grant is then Revoked.
\<close>

theorem live_grant_can_always_be_revoked:
  assumes "daemon_ok d" and "table_lookup subject_of sid (d_grants d) = Some r" and "parse_grant r = Inr g"
    and "\<not> grant_is_terminal g" and "f_grant_load w = None" and "f_grant_save w = None"
    and "f_session_load w = None" and "f_session_save w = None"
  shows "\<exists>d1 r'. decide_session w sid ERevoke d = (Inr (), d1)
    \<and> table_lookup subject_of sid (d_grants d1) = Some r' \<and> gr_status (rg_grant r') = Revoked"
  using revoke_succeeds [OF assms] revoke_acknowledged [OF assms(1)] unfolding revoked_in_def by blast

theorem live_grant_can_always_be_revoked_witness:
  "\<exists>d1 r'. decide_session (sample_world False) (SessionId 7) ERevoke sample_daemon = (Inr (), d1)
     \<and> table_lookup subject_of (SessionId 7) (d_grants d1) = Some r' \<and> gr_status (rg_grant r') = Revoked"
  by (rule live_grant_can_always_be_revoked [OF sample_daemon_ok, where r = "grant_to_row (sample_active Standing)"
        and g = "sample_active Standing"])
    (simp_all add: subject_of_def sample_world_def grant_is_terminal_def status_is_terminal_def,
     simp_all add: grant_to_row_def sample_defs)

text \<open>
  C13: The tables stay well-formed. From any well-formed daemon, every sequence of handlers leads to one
  with unique grant ids, at most one grant per session and a queue keyed by the operation ids of its
  entries; so the \<open>ORDER BY ... LIMIT 1\<close> query for a session's grant is an exact lookup that does not
  depend on how instants and ids are printed.
\<close>

theorem daemon_tables_stay_well_formed:
  assumes "daemon_ok d0" and "daemon_step\<^sup>*\<^sup>* d0 d"
  shows "daemon_ok d \<and> load_grant_for_subject stamp put io sid (d_grants d) =
     with_io io (map_transpose parse_grant (table_lookup subject_of sid (d_grants d)))"
proof -
  from assms(2) have "daemon_ok d"
    by (induction rule: rtranclp_induct) (use assms(1) daemon_step_ok in auto)
  then show ?thesis by (simp add: load_for_subject_lookup daemon_ok_def grants_ok_def)
qed

theorem daemon_tables_stay_well_formed_witness:
  "daemon_ok (snd (decide_session (sample_world False) (SessionId 7) EPause sample_daemon))"
proof -
  have "daemon_step\<^sup>*\<^sup>* sample_daemon (snd (decide_session (sample_world False) (SessionId 7) EPause sample_daemon))"
    by (rule r_into_rtranclp) (rule daemon_step.decide)
  from daemon_tables_stay_well_formed [OF sample_daemon_ok this] show ?thesis by blast
qed

end
