(* ===== verification/Gateway_Interleaving.thy ===== *)
theory Gateway_Interleaving
  imports Gateway_Revocation "HOL-Library.Multiset"
begin

text \<open>
  The daemon runs its handlers concurrently: each local connection has its own task and blocking work
  runs on a thread pool, so between two accesses to the shared state of one handler any access of
  another may happen. A state of the system is the shared \<open>daemon\<close> with the multiset of handlers in
  flight; a step performs one phase of one of them, in a world of its own. A handler may also be aborted
  between two phases, and the process may be restarted, which empties the queue and loses every handler.

  The phases are those of \<^verbatim>\<open>Gateway_Daemon\<close>. Session requests and workspace requests are one phase.
\<close>

section \<open>Handlers in flight\<close>

datatype task =
    Gated operation_request policy_decision "access_grant option" "session option"
  | Recorded operation_request policy_decision
  | Calling operation_request
  | Replying operation_request "core_bridge_error + json"
  | Taken operation_id pending_operation
  | Approving operation_id pending_operation bool
  | Denying operation_id pending_operation
  | Saving session_id session_event access_grant
  | Finishing session_id session_event access_grant

inductive system_step :: "daemon \<times> task multiset \<Rightarrow> daemon \<times> task multiset \<Rightarrow> bool" where
  gate: "operation_gate w env vp d = Some (rq, decision, g, s) \<Longrightarrow>
     system_step (d, T) (d, add_mset (Gated rq decision g s) T)"
| recording: "record_decision w rq g s decision d = (True, d1) \<Longrightarrow>
     system_step (d, add_mset (Gated rq decision g s) T) (d1, add_mset (Recorded rq decision) T)"
| refuse: "record_decision w rq g s decision d = (False, d1) \<Longrightarrow>
     system_step (d, add_mset (Gated rq decision g s) T) (d1, T)"
| start: "system_step (d, add_mset (Recorded rq (Allow cap a)) T) (d, add_mset (Calling rq) T)"
| dispatch: "\<forall>cap a. decision \<noteq> Allow cap a \<Longrightarrow>
     system_step (d, add_mset (Recorded rq decision) T) (dispatch_decision w rq decision d, T)"
| call: "system_step (d, add_mset (Calling rq) T)
     (snd (core_call w rq d), add_mset (Replying rq (fst (core_call w rq d))) T)"
| reply: "system_step (d, add_mset (Replying rq r) T) (finish_execution w rq r d, T)"
| take_to_approve: "take_pending op d = Some (p, d1) \<Longrightarrow>
     system_step (d, T) (d1, add_mset (Taken op p) T)"
| revalidate: "system_step (d, add_mset (Taken op p) T) (d, add_mset (Approving op p (still_authorized w p d)) T)"
| commit: "commit_approval w op p still d = (res, run, d1) \<Longrightarrow>
     system_step (d, add_mset (Approving op p still) T) (d1, if run then add_mset (Calling (po_request p)) T else T)"
| take_to_deny: "take_pending op d = Some (p, d1) \<Longrightarrow>
     system_step (d, T) (d1, add_mset (Denying op p) T)"
| deny: "system_step (d, add_mset (Denying op p) T) (snd (finish_denial w op p d), T)"
| decide: "decide_read w sid e d = Inr g \<Longrightarrow> system_step (d, T) (d, add_mset (Saving sid e g) T)"
| save: "decide_save w g d = (Inr (), d1) \<Longrightarrow>
     system_step (d, add_mset (Saving sid e g) T) (d1, add_mset (Finishing sid e g) T)"
| save_failed: "decide_save w g d = (Inl err, d1) \<Longrightarrow> system_step (d, add_mset (Saving sid e g) T) (d1, T)"
| finished: "system_step (d, add_mset (Finishing sid e g) T) (snd (decide_finish w sid e g d), T)"
| session_request: "fresh_ids w d \<Longrightarrow> system_step (d, T) (handle_session_request w env vp d, T)"
| authorize: "system_step (d, T) (snd (authorize_workspace w root name d), T)"
| remove: "system_step (d, T) (snd (remove_workspace w wid d), T)"
| connectivity: "system_step (d, T) (record_transport_event ev d, T)"
| transport_set: "system_step (d, T) (d\<lparr>d_transport := b\<rparr>, T)"
| aborted: "system_step (d, add_mset t T) (d, T)"
| restart: "system_step (d, T) (d\<lparr>d_pending := [], d_transport := False\<rparr>, {#})"

lemmas system_step_induct = system_step.induct [split_format(complete)]

section \<open>Tokens\<close>

text \<open>
  A call, a queue entry, and every handler that may still lead to a call or that holds an entry taken
  from the queue is a token for its operation.
\<close>

fun holds :: "task \<Rightarrow> operation_id option" where
  "holds (Recorded rq _) = Some (op_operation_id rq)"
| "holds (Calling rq) = Some (op_operation_id rq)"
| "holds (Taken op _) = Some op"
| "holds (Approving op _ _) = Some op"
| "holds (Denying op _) = Some op"
| "holds _ = None"

definition queued :: "operation_id \<Rightarrow> (operation_id \<times> pending_operation) list \<Rightarrow> nat" where
  "queued op q = (if op \<in> fst ` set q then 1 else 0)"

definition tokens :: "operation_id \<Rightarrow> daemon \<Rightarrow> task multiset \<Rightarrow> nat" where
  "tokens op d T =
     length (filter (\<lambda>rq. op_operation_id rq = op) (d_calls d))
     + size (filter_mset (\<lambda>t. holds t = Some op) T) + queued op (d_pending d)"

fun decision_kind :: "policy_decision \<Rightarrow> policy_result_kind" where
  "decision_kind (Allow _ _) = PRAllow"
| "decision_kind (policy_decision.Deny _) = PRDeny"
| "decision_kind (RequireApproval _ _ _) = PRRequireApproval"

text \<open>The durable evidence under which an operation may run.\<close>

definition cleared :: "audit_table \<Rightarrow> operation_id \<Rightarrow> bool" where
  "cleared A op \<longleftrightarrow> row_says op PRAllow None A \<or> row_says op PRRequireApproval (Some KAllowOnce) A"

definition awaiting :: "audit_table \<Rightarrow> operation_id \<Rightarrow> pending_operation \<Rightarrow> bool" where
  "awaiting A op p \<longleftrightarrow> op_operation_id (po_request p) = op \<and> (\<exists>a. row_says op PRRequireApproval a A)"

fun task_ok :: "audit_table \<Rightarrow> task \<Rightarrow> bool" where
  "task_ok A (Recorded rq decision) = row_says (op_operation_id rq) (decision_kind decision) None A"
| "task_ok A (Calling rq) = cleared A (op_operation_id rq)"
| "task_ok A (Taken op p) = awaiting A op p"
| "task_ok A (Approving op p _) = awaiting A op p"
| "task_ok A (Denying op p) = awaiting A op p"
| "task_ok A _ = True"

definition evidence :: "daemon \<Rightarrow> task multiset \<Rightarrow> bool" where
  "evidence d T \<longleftrightarrow>
     (\<forall>t \<in># T. task_ok (d_audit d) t)
     \<and> (\<forall>(op, p) \<in> set (d_pending d). awaiting (d_audit d) op p)
     \<and> (\<forall>rq \<in> set (d_calls d). cleared (d_audit d) (op_operation_id rq))"

section \<open>Lemmas\<close>

lemma decision_kind_built [simp]:
  "ae_policy_result (build_audit_event w rq g s decision) = decision_kind decision"
  by (cases decision) simp_all

lemma row_says_id: "row_says op k a A \<Longrightarrow> op \<in> audit_ids A"
  by (auto simp: row_says_def audit_ids_def)

lemma queued_simps [simp]:
  "queued op [] = 0"
  "queued op (AList.delete op' q) = (if op = op' then 0 else queued op q)"
  "queued op (AList.update op' p q) = (if op = op' then 1 else queued op q)"
  "queued op (q @ [(op', p)]) = (if op = op' then 1 else queued op q)"
proof -
  show "queued op (AList.delete op' q) = (if op = op' then 0 else queued op q)"
    by (auto simp: queued_def AList.delete_eq image_iff)
  have "fst ` set (AList.update op' p q) = insert op' (fst ` set q)"
    by (induction q) auto
  then show "queued op (AList.update op' p q) = (if op = op' then 1 else queued op q)"
    by (simp add: queued_def)
qed (auto simp: queued_def)

lemma queued_filter: "queued op (filter P q) \<le> queued op q"
  by (auto simp: queued_def)

lemma queued_present: "map_of q op = Some p \<Longrightarrow> queued op q = 1"
  by (auto simp: queued_def dest!: map_of_SomeD intro: rev_image_eqI)

text \<open>Evidence for one operation survives whatever only concerns others.\<close>

lemma cleared_mono: "cleared A op \<Longrightarrow> (\<And>k a. row_says op k a A \<Longrightarrow> row_says op k a A') \<Longrightarrow> cleared A' op"
  unfolding cleared_def by blast

lemma awaiting_mono: "awaiting A op p \<Longrightarrow> (\<And>k a. row_says op k a A \<Longrightarrow> row_says op k a A') \<Longrightarrow> awaiting A' op p"
  unfolding awaiting_def by blast

lemma task_ok_mono:
  assumes "task_ok A t" and "\<And>op k a. holds t = Some op \<Longrightarrow> row_says op k a A \<Longrightarrow> row_says op k a A'"
  shows "task_ok A' t"
  using assms by (cases t) (auto intro: cleared_mono awaiting_mono)

lemma evidence_same_rows:
  assumes "evidence d T" and "\<And>op k a. row_says op k a (d_audit d) \<Longrightarrow> row_says op k a (d_audit d')"
    and "\<And>t. t \<in># T' \<Longrightarrow> t \<in># T \<or> task_ok (d_audit d') t"
    and "\<And>x. x \<in> set (d_pending d') \<Longrightarrow> x \<in> set (d_pending d) \<or> awaiting (d_audit d') (fst x) (snd x)"
    and "\<And>rq. rq \<in> set (d_calls d') \<Longrightarrow> rq \<in> set (d_calls d) \<or> cleared (d_audit d') (op_operation_id rq)"
  shows "evidence d' T'"
  unfolding evidence_def
proof (intro conjI ballI, goal_cases)
  case (1 t)
  then show ?case using assms(1) assms(3) [of t] task_ok_mono [of "d_audit d" t "d_audit d'"] assms(2)
    by (auto simp: evidence_def)
next
  case (2 x)
  then show ?case using assms(1) assms(4) [of x] awaiting_mono [of "d_audit d" "fst x" "snd x" "d_audit d'"] assms(2)
    by (auto simp: evidence_def)
next
  case (3 rq)
  then show ?case using assms(1) assms(5) [of rq] cleared_mono [of "d_audit d" "op_operation_id rq" "d_audit d'"] assms(2)
    by (auto simp: evidence_def)
qed

text \<open>Every token has a row, so a token's operation is in the log.\<close>

lemma tokens_recorded:
  assumes "evidence d T" and "0 < tokens op d T"
  shows "op \<in> audit_ids (d_audit d)"
proof -
  have task: "op \<in> audit_ids (d_audit d)" if "t \<in># T" "holds t = Some op" for t
  proof -
    have "task_ok (d_audit d) t" using assms(1) that(1) by (simp add: evidence_def)
    with that(2) show ?thesis by (cases t) (auto simp: cleared_def awaiting_def dest: row_says_id)
  qed
  from assms(2) consider "filter (\<lambda>rq. op_operation_id rq = op) (d_calls d) \<noteq> []"
    | "filter_mset (\<lambda>t. holds t = Some op) T \<noteq> {#}" | "op \<in> fst ` set (d_pending d)"
    by (fastforce simp: tokens_def queued_def split: if_splits)
  then show ?thesis
  proof cases
    case 1
    then obtain rq where "rq \<in> set (d_calls d)" "op_operation_id rq = op" by (auto simp: filter_empty_conv)
    with assms(1) show ?thesis by (auto simp: evidence_def cleared_def dest: row_says_id)
  next
    case 2
    then obtain t where "t \<in># filter_mset (\<lambda>t. holds t = Some op) T" by (meson multiset_nonemptyE)
    with task show ?thesis by auto
  next
    case 3
    then obtain p where "(op, p) \<in> set (d_pending d)" by auto
    with assms(1) have "awaiting (d_audit d) op p" by (auto simp: evidence_def)
    then show ?thesis by (auto simp: awaiting_def dest: row_says_id)
  qed
qed

section \<open>Steps\<close>

text \<open>The log only grows, and only for an operation that is not in it can a step add a token.\<close>

lemma audit_ids_step: "system_step (d, T) (d', T') \<Longrightarrow> audit_ids (d_audit d) \<subseteq> audit_ids (d_audit d')"
proof (induction d T d' T' rule: system_step_induct)
  case (recording w rq g s decision d d1 T)
  then show ?case using record_decision_ok by force
next
  case (refuse w rq g s decision d d1 T)
  then show ?case using record_decision_refused by force
next
  case (commit w op p still d res run d1 T)
  show ?case
    using commit
  proof (cases rule: commit_approval_cases [of w op d p still])
    case (failed e)
    with commit show ?thesis by (auto simp: requeue_pending_operation_def split: option.splits)
  next
    case (granted audit)
    have "audit_ids audit = audit_ids (d_audit d)"
      using update_ids(2) [of "f_audit_approval w" op KAllowOnce "d_audit d"] granted(2) by simp
    with granted commit show ?thesis by auto
  qed simp
next
  case (deny d op p T w)
  have "audit_ids (d_audit (snd (finish_denial w op p d))) = audit_ids (d_audit d)"
    using update_ids(2) [of "f_audit_approval w" op KDenied "d_audit d"]
    by (cases "update_approval_decision (f_audit_approval w) op KDenied (d_audit d)")
      (simp add: finish_denial_def Let_def)
  then show ?case by simp
next
  case (save w g d d1 sid e T)
  then show ?case by (auto simp: decide_save_def split: prod.splits)
next
  case (save_failed w g d err d1 sid e T)
  then show ?case by (auto simp: decide_save_def split: prod.splits)
next
  case (finished d sid e g T w)
  then show ?case by (cases rule: decide_finish_cases [of w sid e g d]) auto
qed (auto simp: take_pending_Some record_transport_event_def)

lemma decide_save_frame:
  assumes "decide_save w g d = (res, d1)"
  shows "d_calls d1 = d_calls d" "d_pending d1 = d_pending d" "d_audit d1 = d_audit d"
  using assms by (auto simp: decide_save_def split: prod.splits)

lemma decide_finish_frame:
  "d_calls (snd (decide_finish w sid e g d)) = d_calls d"
  "queued op (d_pending (snd (decide_finish w sid e g d))) \<le> queued op (d_pending d)"
  "set (d_pending (snd (decide_finish w sid e g d))) \<subseteq> set (d_pending d)"
  "row_says op k a (d_audit (snd (decide_finish w sid e g d))) = row_says op k a (d_audit d)"
  by (cases rule: decide_finish_cases [of w sid e g d]; auto simp: queued_filter)+

lemma finish_denial_frame:
  "d_calls (snd (finish_denial w op p d)) = d_calls d" "d_pending (snd (finish_denial w op p d)) = d_pending d"
  "op' \<noteq> op \<Longrightarrow> row_says op' k a (d_audit (snd (finish_denial w op p d))) = row_says op' k a (d_audit d)"
  using row_says_approval_other [of op' op k a "f_audit_approval w" KDenied "d_audit d"]
  by (auto simp: finish_denial_def Let_def split: prod.splits)

lemma tokens_step:
  assumes "system_step (d, T) (d', T')" and "evidence d T"
  shows "tokens op d' T' \<le> tokens op d T + (if op \<in> audit_ids (d_audit d) then 0 else 1)"
  using assms
proof (induction d T d' T' rule: system_step_induct)
  case (recording w rq g s decision d d1 T)
  from record_decision_ok [OF recording(1)] show ?case by (auto simp: tokens_def)
next
  case (refuse w rq g s decision d d1 T)
  from record_decision_refused [OF refuse(1)] show ?case by (simp add: tokens_def)
next
  case (dispatch decision d rq T w)
  then show ?case by (cases decision) (simp_all add: tokens_def dispatch_decision_def)
next
  case (take_to_approve op' d p d1 T)
  then show ?case by (auto simp: tokens_def take_pending_Some queued_present)
next
  case (take_to_deny op' d p d1 T)
  then show ?case by (auto simp: tokens_def take_pending_Some queued_present)
next
  case (commit w op' p still d res run d1 T)
  show ?case
  proof (cases rule: commit_approval_cases [of w op' d p still])
    case (failed e)
    have "queued op (d_pending (requeue_pending_operation op' p d)) \<le> queued op (d_pending d) + (if op = op' then 1 else 0)"
      by (simp add: requeue_pending_operation_def split: option.splits)
    moreover have "d_calls (requeue_pending_operation op' p d) = d_calls d"
      by (simp add: requeue_pending_operation_def split: option.splits)
    ultimately show ?thesis using failed(2) commit by (auto simp: tokens_def)
  next
    case (stale err d2)
    with commit show ?thesis by (simp add: tokens_def)
  next
    case (granted audit)
    moreover have "op_operation_id (po_request p) = op'"
      using commit(2) by (auto simp: evidence_def awaiting_def)
    ultimately show ?thesis using commit(1) by (auto simp: tokens_def)
  qed
next
  case (deny d op' p T w)
  then show ?case by (simp add: tokens_def finish_denial_frame)
next
  case (save w g d d1 sid e T)
  then show ?case by (simp add: tokens_def decide_save_frame)
next
  case (save_failed w g d err d1 sid e T)
  then show ?case by (simp add: tokens_def decide_save_frame)
next
  case (finished d sid e g T w)
  then show ?case using decide_finish_frame(2) [of op w sid e g d] 
    by (simp add: tokens_def decide_finish_frame(1) le_SucI)
qed (simp_all add: tokens_def record_transport_event_def)

lemma sole_token:
  assumes "tokens op d (add_mset t T) \<le> 1" and "holds t = Some op"
  shows "\<And>t'. t' \<in># T \<Longrightarrow> holds t' \<noteq> Some op" "op \<notin> fst ` set (d_pending d)"
    "\<And>rq. rq \<in> set (d_calls d) \<Longrightarrow> op_operation_id rq \<noteq> op"
proof -
  from assms have z: "filter (\<lambda>rq. op_operation_id rq = op) (d_calls d) = []"
    "filter_mset (\<lambda>t. holds t = Some op) T = {#}" "queued op (d_pending d) = 0"
    by (simp_all add: tokens_def)
  from z(1) show "op_operation_id rq \<noteq> op" if "rq \<in> set (d_calls d)" for rq
    using that by (auto simp: filter_empty_conv)
  show "holds t' \<noteq> Some op" if "t' \<in># T" for t'
  proof
    assume "holds t' = Some op"
    with that have "t' \<in># filter_mset (\<lambda>t. holds t = Some op) T" by simp
    with z(2) show False by auto
  qed
  from z(3) show "op \<notin> fst ` set (d_pending d)" by (auto simp: queued_def split: if_splits)
qed

text \<open>A phase that changes only the row of the operation whose single token it holds.\<close>

lemma evidence_own_row:
  assumes ev: "evidence d (add_mset t T)" and one: "tokens op d (add_mset t T) \<le> 1" and h: "holds t = Some op"
    and rows: "\<And>op' k a. op' \<noteq> op \<Longrightarrow> row_says op' k a (d_audit d) \<Longrightarrow> row_says op' k a (d_audit d')"
    and calls: "d_calls d' = d_calls d" and pend: "d_pending d' = d_pending d"
  shows "evidence d' T"
proof -
  note sole = sole_token [OF one h]
  have "task_ok (d_audit d') t'" if "t' \<in># T" for t'
  proof (rule task_ok_mono)
    show "task_ok (d_audit d) t'" using ev that by (simp add: evidence_def)
    show "row_says op' k a (d_audit d')" if "holds t' = Some op'" "row_says op' k a (d_audit d)" for op' k a
      using that rows sole(1) [OF \<open>t' \<in># T\<close>] by metis
  qed
  moreover have "awaiting (d_audit d') (fst x) (snd x)" if "x \<in> set (d_pending d)" for x
  proof (rule awaiting_mono)
    show "awaiting (d_audit d) (fst x) (snd x)" using ev that by (auto simp: evidence_def)
    show "row_says (fst x) k a (d_audit d')" if "row_says (fst x) k a (d_audit d)" for k a
      using that rows sole(2) \<open>x \<in> set (d_pending d)\<close> by (metis imageI)
  qed
  moreover have "cleared (d_audit d') (op_operation_id rq)" if "rq \<in> set (d_calls d)" for rq
  proof (rule cleared_mono)
    show "cleared (d_audit d) (op_operation_id rq)" using ev that by (simp add: evidence_def)
    show "row_says (op_operation_id rq) k a (d_audit d')" if "row_says (op_operation_id rq) k a (d_audit d)" for k a
      using that rows sole(3) [OF \<open>rq \<in> set (d_calls d)\<close>] by blast
  qed
  ultimately show ?thesis by (auto simp: evidence_def calls pend)
qed

lemma evidence_add: "evidence d T \<Longrightarrow> task_ok (d_audit d) t \<Longrightarrow> evidence d (add_mset t T)"
  by (auto simp: evidence_def)

lemma evidence_drop: "evidence d (add_mset t T) \<Longrightarrow> evidence d T"
  by (auto simp: evidence_def)

lemma evidence_commit:
  assumes ev: "evidence d (add_mset (Approving op p still) T)"
    and one: "tokens op d (add_mset (Approving op p still) T) \<le> 1"
    and c: "commit_approval w op p still d = (res, run, d1)"
  shows "evidence d1 (if run then add_mset (Calling (po_request p)) T else T)"
proof -
  have aw: "awaiting (d_audit d) op p" using ev by (auto simp: evidence_def)
  show ?thesis
  proof (cases rule: commit_approval_cases [of w op d p still])
    case (failed e)
    with c have d1: "d1 = requeue_pending_operation op p d" "\<not> run" by auto
    have "evidence (requeue_pending_operation op p d) T"
      by (rule evidence_same_rows [OF evidence_drop [OF ev]])
        (use aw in \<open>auto simp: requeue_pending_operation_def split: option.splits\<close>)
    with d1 show ?thesis by simp
  next
    case (stale err d2)
    with c have d1: "d1 = d2" "\<not> run" by auto
    have "evidence d2 T" by (rule evidence_own_row [OF ev one]) (use stale in simp_all)
    with d1 show ?thesis by simp
  next
    case (granted audit)
    with c have d1: "d1 = d\<lparr>d_audit := audit\<rparr>" by auto
    have other: "row_says op' k a audit = row_says op' k a (d_audit d)" if "op' \<noteq> op" for op' k a
      using row_says_approval_other [OF that, of k a "f_audit_approval w" KAllowOnce "d_audit d"] granted(2) by simp
    have "evidence d1 T" by (rule evidence_own_row [OF ev one]) (simp_all add: d1 other)
    moreover have "task_ok (d_audit d1) (Calling (po_request p))"
      using aw row_says_approval [OF granted(2)] by (auto simp: awaiting_def cleared_def d1)
    ultimately show ?thesis by (simp add: evidence_add)
  qed
qed

lemma evidence_step:
  assumes "system_step (d, T) (d', T')" and "evidence d T" and "\<And>op. tokens op d T \<le> 1"
  shows "evidence d' T'"
  using assms
proof (induction d T d' T' rule: system_step_induct)
  case (recording w rq g s decision d d1 T)
  note d1 = record_decision_ok [OF recording(1)]
  have "evidence d1 T"
    by (rule evidence_same_rows [OF evidence_drop [OF recording(2)]]) (use d1 row_says_append in auto)
  moreover have "task_ok (d_audit d1) (Recorded rq decision)"
    using d1 row_says_recorded [of rq w g s decision "d_audit d"] by (cases decision) simp_all
  ultimately show ?case by (rule evidence_add)
next
  case (refuse w rq g s decision d d1 T)
  note d1 = record_decision_refused [OF refuse(1)]
  show ?case by (rule evidence_same_rows [OF evidence_drop [OF refuse(2)]]) (use d1 in auto)
next
  case (start d rq cap a T)
  then show ?case by (intro evidence_add) (auto simp: evidence_def cleared_def)
next
  case (dispatch decision d rq T w)
  have upd: "x \<in> set (AList.update op v q) \<Longrightarrow> x = (op, v) \<or> x \<in> set q" for x op and v :: pending_operation and q
    by (induction q) (auto split: if_splits)
  have row: "row_says (op_operation_id rq) (decision_kind decision) None (d_audit d)"
    using dispatch(2) by (auto simp: evidence_def)
  show ?case
  proof (rule evidence_same_rows [OF evidence_drop [OF dispatch(2)]])
    fix x
    assume "x \<in> set (d_pending (dispatch_decision w rq decision d))"
    with dispatch(1) row show "x \<in> set (d_pending d)
        \<or> awaiting (d_audit (dispatch_decision w rq decision d)) (fst x) (snd x)"
      by (cases decision) (auto simp: dispatch_decision_def awaiting_def dest!: upd)
  next
    fix r
    assume "r \<in> set (d_calls (dispatch_decision w rq decision d))"
    with dispatch(1) show "r \<in> set (d_calls d) \<or> cleared (d_audit (dispatch_decision w rq decision d)) (op_operation_id r)"
      by (cases decision) (auto simp: dispatch_decision_def)
  qed auto
next
  case (call d rq T w)
  have "cleared (d_audit d) (op_operation_id rq)" using call(1) by (auto simp: evidence_def)
  moreover note evidence_drop [OF call(1)]
  ultimately show ?case by (auto simp: evidence_def)
next
  case (reply d rq r T w)
  show ?case by (rule evidence_same_rows [OF evidence_drop [OF reply(1)]]) auto
next
  case (take_to_approve op d p d1 T)
  then have "awaiting (d_audit d) op p" by (auto simp: take_pending_Some evidence_def dest!: map_of_SomeD)
  with take_to_approve show ?case
    by (intro evidence_add) (auto simp: take_pending_Some evidence_def AList.delete_eq)
next
  case (take_to_deny op d p d1 T)
  then have "awaiting (d_audit d) op p" by (auto simp: take_pending_Some evidence_def dest!: map_of_SomeD)
  with take_to_deny show ?case
    by (intro evidence_add) (auto simp: take_pending_Some evidence_def AList.delete_eq)
next
  case (commit w op p still d res run d1 T)
  show ?case using commit(2,3,1) by (rule evidence_commit)
next
  case (deny d op p T w)
  show ?case
    by (rule evidence_own_row [OF deny(1), of op]) (use deny(2) finish_denial_frame in auto)
next
  case (save w g d d1 sid e T)
  then show ?case by (auto simp: evidence_def decide_save_frame)
next
  case (save_failed w g d err d1 sid e T)
  then show ?case by (auto simp: evidence_def decide_save_frame)
next
  case (finished d sid e g T w)
  show ?case
    by (rule evidence_same_rows [OF evidence_drop [OF finished(1)]])
      (use decide_finish_frame(3) [of w sid e g d] in \<open>auto simp: decide_finish_frame(1,4)\<close>)
qed (auto simp: evidence_def record_transport_event_def)

text \<open>What every run keeps: evidence, at most one token, and no token for what the log already held.\<close>

definition started :: "daemon \<Rightarrow> bool" where
  "started d \<longleftrightarrow> d_calls d = [] \<and> d_pending d = []"

lemma system_run:
  assumes "system_step\<^sup>*\<^sup>* (d0, {#}) (d, T)" and "started d0"
  shows "evidence d T \<and> (\<forall>op. tokens op d T \<le> 1)
    \<and> audit_ids (d_audit d0) \<subseteq> audit_ids (d_audit d) \<and> (\<forall>op \<in> audit_ids (d_audit d0). tokens op d T = 0)"
  using assms(1)
proof (induction "(d, T)" arbitrary: d T rule: rtranclp_induct)
  case base
  then show ?case using assms(2) by (simp add: evidence_def started_def tokens_def)
next
  case (step y)
  obtain d1 T1 where y: "y = (d1, T1)" by (cases y)
  from step(3) [OF y] have ih: "evidence d1 T1" "\<And>op. tokens op d1 T1 \<le> 1"
    "audit_ids (d_audit d0) \<subseteq> audit_ids (d_audit d1)" "\<And>op. op \<in> audit_ids (d_audit d0) \<Longrightarrow> tokens op d1 T1 = 0"
    by blast+
  have s: "system_step (d1, T1) (d, T)" using step(2) y by simp
  note tk = tokens_step [OF s ih(1)]
  have "tokens op d T \<le> 1" for op
  proof (cases "op \<in> audit_ids (d_audit d1)")
    case True
    with tk [of op] ih(2) [of op] show ?thesis by simp
  next
    case False
    then have "tokens op d1 T1 = 0" using tokens_recorded [OF ih(1), of op] by blast
    with tk [of op] show ?thesis by (simp split: if_splits)
  qed
  moreover have "tokens op d T = 0" if "op \<in> audit_ids (d_audit d0)" for op
    using tk [of op] ih(4) [OF that] ih(3) that by (auto split: if_splits)
  ultimately show ?case
    using evidence_step [OF s ih(1,2)] audit_ids_step [OF s] ih(3) by blast
qed

lemma distinct_by_count:
  assumes "\<And>x. length (filter (\<lambda>y. f y = x) ys) \<le> 1"
  shows "distinct (map f ys)"
  using assms
proof (induction ys)
  case (Cons y ys)
  have "length (filter (\<lambda>z. f z = x) ys) \<le> 1" for x
    using Cons.prems [of x] by (auto split: if_splits)
  moreover have "filter (\<lambda>z. f z = f y) ys = []" using Cons.prems [of "f y"] by simp
  ultimately show ?case using Cons.IH by (auto simp: filter_empty_conv)
qed simp

section \<open>Properties\<close>

text \<open>
  C1: Every operation is executed at most once, and only on durable evidence, under any interleaving.
  From a started daemon, through any interleaving of remote messages, approvals, denials and decisions,
  with any storage faults, aborted handlers and restarts: no operation id is called twice, no operation
  that the log already held at the start is called at all, and every call that was made has its audit
  row, whose recorded result is Allow, or RequireApproval with the durable decision AllowOnce.
\<close>

theorem operations_execute_at_most_once:
  assumes "system_step\<^sup>*\<^sup>* (d0, {#}) (d, T)" and "started d0"
  shows "distinct (map op_operation_id (d_calls d))
    \<and> (\<forall>rq \<in> set (d_calls d). op_operation_id rq \<notin> audit_ids (d_audit d0))
    \<and> (\<forall>rq \<in> set (d_calls d).
         row_says (op_operation_id rq) PRAllow None (d_audit d)
         \<or> row_says (op_operation_id rq) PRRequireApproval (Some KAllowOnce) (d_audit d))"
proof -
  note r = system_run [OF assms]
  have le: "length (filter (\<lambda>rq. op_operation_id rq = op) (d_calls d)) \<le> tokens op d T" for op
    by (simp add: tokens_def)
  have "distinct (map op_operation_id (d_calls d))"
    by (rule distinct_by_count) (use le r in \<open>meson le_trans\<close>)
  moreover have "op_operation_id rq \<notin> audit_ids (d_audit d0)" if "rq \<in> set (d_calls d)" for rq
  proof
    assume "op_operation_id rq \<in> audit_ids (d_audit d0)"
    with r le [of "op_operation_id rq"] have "filter (\<lambda>q. op_operation_id q = op_operation_id rq) (d_calls d) = []" by simp
    with that show False by (auto simp: filter_empty_conv)
  qed
  ultimately show ?thesis using r by (auto simp: evidence_def cleared_def)
qed

lemma sample_run:
  "\<exists>d. system_step\<^sup>*\<^sup>* (sample_daemon, {#}) (d, {#Replying (sample_operation False) (Inr JNull)#})
     \<and> d_calls d = [sample_operation False]"
proof -
  let ?w = "sample_world False" and ?rq = "sample_operation False"
  let ?dec = "Allow PCB_WRITE (sample_assessment False)"
  let ?g = "Some (sample_active Standing)" and ?s = "Some (sample_session SActive)"
  let ?d1 = "sample_daemon\<lparr>d_audit := [audit_to_row (build_audit_event ?w ?rq ?g ?s ?dec)]\<rparr>"
  have "system_step (sample_daemon, {#}) (sample_daemon, {#Gated ?rq ?dec ?g ?s#})"
    using system_step.gate [of ?w "sample_envelope MOperationRequest" None sample_daemon ?rq ?dec ?g ?s "{#}"]
    by (simp add: sample_gate)
  moreover have "record_decision ?w ?rq ?g ?s ?dec sample_daemon = (True, ?d1)"
    using built_event_consistent [of ?w ?rq ?g ?s ?dec]
    by (simp add: record_decision_def audit_record_def sample_world_def)
  then have "system_step (sample_daemon, {#Gated ?rq ?dec ?g ?s#}) (?d1, {#Recorded ?rq ?dec#})"
    by (rule system_step.recording)
  moreover have "system_step (?d1, {#Recorded ?rq ?dec#}) (?d1, {#Calling ?rq#})"
    by (rule system_step.start)
  moreover have "system_step (?d1, {#Calling ?rq#}) (?d1\<lparr>d_calls := [?rq]\<rparr>, {#Replying ?rq (Inr JNull)#})"
    using system_step.call [of ?d1 ?rq "{#}" ?w] by (simp add: sample_world_def)
  ultimately have "system_step\<^sup>*\<^sup>* (sample_daemon, {#}) (?d1\<lparr>d_calls := [?rq]\<rparr>, {#Replying ?rq (Inr JNull)#})"
    by (meson converse_rtranclp_into_rtranclp rtranclp.rtrancl_refl)
  then show ?thesis by (intro exI [of _ "?d1\<lparr>d_calls := [?rq]\<rparr>"]) simp
qed

theorem operations_execute_at_most_once_witness:
  "\<exists>d T. system_step\<^sup>*\<^sup>* (sample_daemon, {#}) (d, T) \<and> d_calls d = [sample_operation False]
     \<and> distinct (map op_operation_id (d_calls d))
     \<and> (row_says (OperationId 9) PRAllow None (d_audit d)
        \<or> row_says (OperationId 9) PRRequireApproval (Some KAllowOnce) (d_audit d))"
proof -
  obtain d where r: "system_step\<^sup>*\<^sup>* (sample_daemon, {#}) (d, {#Replying (sample_operation False) (Inr JNull)#})"
    and c: "d_calls d = [sample_operation False]" using sample_run by blast
  have "started sample_daemon" by (simp add: started_def)
  from operations_execute_at_most_once [OF r this] r c show ?thesis
    by (intro exI [of _ d] exI [of _ "{#Replying (sample_operation False) (Inr JNull)#}"])
      (simp add: sample_operation_def)
qed

section \<open>What interleaving breaks\<close>

text \<open>A decision about the only stored grant, phase by phase, when the storage answers.\<close>

definition answering :: "world \<Rightarrow> bool" where
  "answering w \<longleftrightarrow> f_grant_load w = None \<and> f_grant_save w = None \<and> f_session_load w = None \<and> f_session_save w = None"

lemma single_load:
  assumes "principal_ok (gr_principal h)" and "gr_subject_session_id h = sid"
  shows "load_grant_for_subject stamp put None sid [grant_to_row h] = Inr (Some h)"
  using assms
  by (simp add: load_for_subject_lookup unique_keys_def with_io_def subject_of_def grant_to_row_def
      rbind_Inr_conv parse_grant_to_row [unfolded grant_to_row_def])

lemma single_read:
  assumes "answering w" and "d_grants d = [grant_to_row h]" and "principal_ok (gr_principal h)"
    and "gr_subject_session_id h = sid" and "authorization_event_for e = Some ae"
    and "grant_transition h ae (w_now w) = Inr h'"
  shows "decide_read w sid e d = Inr h'"
proof -
  have "load_grant_for_subject (w_stamp w) (w_put w) (f_grant_load w) sid (d_grants d) = Inr (Some h)"
    using assms(1,2) single_load [OF assms(3,4)] by (simp add: answering_def)
  with assms(5,6) show ?thesis by (simp add: decide_read_def authority_for_subject_def)
qed

lemma single_save:
  assumes "answering w" and "d_grants d = [grant_to_row k]" and "same_record k h"
  shows "decide_save w h d = (Inr (), d\<lparr>d_grants := [grant_to_row h]\<rparr>)"
proof -
  have "merge_grant (grant_to_row k) (grant_to_row h) = grant_to_row h"
    by (rule merge_same_record) (use assms(3) in \<open>simp add: grant_to_row_def\<close>)
  moreover have "grant_key (grant_to_row k) = gr_grant_id h" "grant_key (grant_to_row h) = gr_grant_id h"
    using assms(3) by (simp_all add: grant_key_def grant_to_row_def same_record_def)
  ultimately show ?thesis using assms(1,2) by (simp add: decide_save_def save_grant_def answering_def)
qed

lemma single_finish:
  assumes "answering w"
  obtains d1 where "decide_finish w sid e g d = (Inr (), d1)" and "d_grants d1 = d_grants d"
proof -
  have "fst (decide_finish w sid e g d) = Inr ()"
    using assms by (simp add: decide_finish_def session_load_def session_save_def answering_def Let_def
        split: option.splits sum.splits prod.splits)
  moreover have "d_grants (snd (decide_finish w sid e g d)) = d_grants d"
    by (cases rule: decide_finish_cases [of w sid e g d]) (auto split: if_splits)
  ultimately show thesis using that by (metis prod.collapse)
qed

lemma single_decide:
  assumes "answering w" and "d_grants d = [grant_to_row h]" and "principal_ok (gr_principal h)"
    and "gr_subject_session_id h = sid" and "authorization_event_for e = Some ae"
    and "grant_transition h ae (w_now w) = Inr h'"
  obtains d1 where "decide_session w sid e d = (Inr (), d1)" and "d_grants d1 = [grant_to_row h']"
proof -
  note read = single_read [OF assms] and same = transition_same_record [OF assms(6)]
  have save: "decide_save w h' d = (Inr (), d\<lparr>d_grants := [grant_to_row h']\<rparr>)"
    using same by (intro single_save [OF assms(1,2)]) simp
  from single_finish [OF assms(1), of sid e h' "d\<lparr>d_grants := [grant_to_row h']\<rparr>"] obtain d1 where
    "decide_finish w sid e h' (d\<lparr>d_grants := [grant_to_row h']\<rparr>) = (Inr (), d1)" "d_grants d1 = [grant_to_row h']"
    by auto
  then show thesis by (intro that [of d1]) (simp_all only: decide_session_def read save sum.case prod.case)
qed

text \<open>
  A decision reads the grant, computes its successor and writes it back without holding a lock, so a
  revocation that is acknowledged in between is overwritten: here a pause read the active grant, the
  session was revoked, and the pause then stored the grant as suspended, from where a resume makes it
  usable again.
\<close>

lemma concurrent_pause_overwrites_revocation:
  "\<exists>g d1 d2 d3. decide_read (sample_world False) (SessionId 7) EPause sample_daemon = Inr g
     \<and> decide_session (sample_world False) (SessionId 7) ERevoke sample_daemon = (Inr (), d1)
     \<and> decide_save (sample_world False) g d1 = (Inr (), d2)
     \<and> decide_session (sample_world False) (SessionId 7) EResume d2 = (Inr (), d3)
     \<and> (\<exists>h. fst (resolve_grant (sample_world False) d3 (sample_operation False)) = Some h
          \<and> grant_is_usable_at h 10)"
proof -
  let ?w = "sample_world False" and ?sid = "SessionId 7" and ?h = "sample_active Standing"
  let ?g = "?h\<lparr>gr_status := Suspended\<rparr>" and ?a = "?h\<lparr>gr_status := Active\<rparr>"
  let ?r = "?h\<lparr>gr_status := Revoked, gr_revoked_at := Some 10, gr_revocation_reason := None\<rparr>"
  have w: "answering ?w" "w_now ?w = 10" by (simp_all add: answering_def sample_world_def)
  have h: "principal_ok (gr_principal ?h)" "gr_subject_session_id ?h = ?sid" "gr_status ?h = Active"
    by (simp_all add: sample_defs)
  note moves = grant_transition_def grant_is_terminal_def status_is_terminal_def grant_next_status_def
    grant_record_event_def
  have read: "decide_read ?w ?sid EPause sample_daemon = Inr ?g"
    by (rule single_read [OF w(1), of sample_daemon ?h ?sid EPause Suspend ?g])
      (use h w(2) in \<open>simp_all add: moves\<close>)
  obtain d1 where rev: "decide_session ?w ?sid ERevoke sample_daemon = (Inr (), d1)" "d_grants d1 = [grant_to_row ?r]"
    by (rule single_decide [OF w(1), of sample_daemon ?h ?sid ERevoke "Revoke None" ?r])
      (use h w(2) in \<open>simp_all add: moves\<close>)
  have save: "decide_save ?w ?g d1 = (Inr (), d1\<lparr>d_grants := [grant_to_row ?g]\<rparr>)"
    by (rule single_save [OF w(1) rev(2)]) (simp add: same_record_def)
  obtain d3 where res: "decide_session ?w ?sid EResume (d1\<lparr>d_grants := [grant_to_row ?g]\<rparr>) = (Inr (), d3)"
    "d_grants d3 = [grant_to_row ?a]"
    by (rule single_decide [OF w(1), of "d1\<lparr>d_grants := [grant_to_row ?g]\<rparr>" ?g ?sid EResume Resume ?a])
      (use h w(2) in \<open>simp_all add: moves\<close>)
  have "load_grant_for_subject stamp put None ?sid [grant_to_row ?a] = Inr (Some ?a)" for stamp put
    by (rule single_load) (use h in simp_all)
  then have "fst (resolve_grant ?w d3 (sample_operation False)) = Some ?a"
    using w(1) by (simp add: resolve_grant_def res(2) ok_flatten_def Let_def sample_operation_def answering_def)
  moreover have "grant_is_usable_at ?a 10" by (simp add: usable_conv sample_defs)
  ultimately show ?thesis using read rev(1) save res(1) by blast
qed

section \<open>What an unreadable grant breaks\<close>

text \<open>
  \<open>resolve_grant\<close> treats a grant that cannot be read like one that does not exist and falls back to the
  session row, which knows only a name. Here the stored grant is bound to a verified actor and refuses a
  transport that presents none; while the grant table cannot be read, the same request resolves to a
  usable grant that accepts that transport.
\<close>

lemma unreadable_grant_drops_the_actor_binding:
  assumes "d = sample_daemon\<lparr>d_grants := [grant_to_row ((sample_active Standing)\<lparr>gr_principal := principal_verified ''agent'' sample_actor\<rparr>)]\<rparr>"
    and "w = sample_world False" and "rq = sample_operation False"
  shows "(\<exists>g. fst (resolve_grant w d rq) = Some g \<and> \<not> accepts_transport_principal (gr_principal g) None)
    \<and> (\<exists>g. fst (resolve_grant (w\<lparr>f_grant_load := Some ''locked''\<rparr>) d rq) = Some g \<and> grant_is_usable_at g 10
         \<and> accepts_transport_principal (gr_principal g) None)"
proof -
  let ?h = "(sample_active Standing)\<lparr>gr_principal := principal_verified ''agent'' sample_actor\<rparr>"
  let ?s = "sample_session SActive"
  have "principal_ok (gr_principal ?h)" "gr_subject_session_id ?h = SessionId 7"
    by (simp_all add: sample_defs has_required_binding_fields_def blank_def is_white_def)
  note load = single_load [OF this]
  have row: "session_load None (SessionId 7) (d_sessions d) = Inr (Some ?s)"
    by (simp add: assms(1) session_load_def session_key_def session_to_row_def session_of_row_def sample_session_def)
  have "fst (resolve_grant w d rq) = Some ?h"
    using load [of "w_stamp w" "w_put w"] by (simp add: assms resolve_grant_def ok_flatten_def Let_def sample_operation_def sample_world_def)
  moreover have "\<not> accepts_transport_principal (gr_principal ?h) None"
    by (simp add: accepts_transport_principal_def principal_verified_def)
  moreover have "fst (resolve_grant (w\<lparr>f_grant_load := Some ''locked''\<rparr>) d rq) = Some (legacy_grant (w_put w) ?s Active)"
    using row by (simp add: assms(2,3) grant_from_legacy_session_def sample_session_def resolve_grant_def load_grant_for_subject_def with_io_def ok_flatten_def Let_def
        sample_operation_def sample_world_def)
  moreover have "grant_is_usable_at (legacy_grant (w_put w) ?s Active) 10"
    "accepts_transport_principal (gr_principal (legacy_grant (w_put w) ?s Active)) None"
    by (simp_all add: legacy_grant_def usable_conv sample_session_def)
  ultimately show ?thesis by blast
qed

end
