(* ===== verification/Gateway_Bytes.thy ===== *)
theory Gateway_Bytes
  imports Gateway_Prelude
begin

text \<open>
  Byte encodings the identity and checkpoint code writes: UTF-8 text, big-endian integers, lowercase
  hexadecimal (\<open>format!("{b:02x}")\<close>), and the length-prefixed framing of
  \<^verbatim>\<open>src/crates/identity/src/actor_attestation.rs\<close> (\<open>fingerprint\<close>), each with its injectivity.
\<close>

section \<open>Big-endian integers\<close>

primrec be_bytes :: "nat \<Rightarrow> nat \<Rightarrow> 8 word list" where
  "be_bytes 0 n = []"
| "be_bytes (Suc k) n = be_bytes k (n div 256) @ [of_nat (n mod 256)]"

definition be_value :: "8 word list \<Rightarrow> nat" where
  "be_value = foldl (\<lambda>a b. a * 256 + unat b) 0"

lemma length_be_bytes [simp]: "length (be_bytes k n) = k"
  by (induction k arbitrary: n) auto

lemma be_value_be_bytes: "be_value (be_bytes k n) = n mod 256 ^ k"
proof (induction k arbitrary: n)
  case 0
  then show ?case by (simp add: be_value_def)
next
  case (Suc k)
  have "be_value (be_bytes (Suc k) n) = (n div 256 mod 256 ^ k) * 256 + n mod 256"
    using Suc.IH [of "n div 256"] by (simp add: be_value_def unat_of_nat take_bit_eq_mod)
  also have "\<dots> = n mod (256 * 256 ^ k)" by (simp only: mod_mult2_eq mult.commute add.commute)
  finally show ?case by simp
qed

lemma be_bytes_inject:
  assumes "be_bytes k m = be_bytes k n" and "m < 256 ^ k" and "n < 256 ^ k"
  shows "m = n"
proof -
  have "be_value (be_bytes k m) = be_value (be_bytes k n)" using assms(1) by simp
  then show ?thesis using assms(2,3) by (simp add: be_value_be_bytes)
qed

section \<open>UTF-8\<close>

definition utf8_char :: "char \<Rightarrow> 8 word list" where
  "utf8_char c = (let n = of_char c :: nat in
     if n < 128 then [of_nat n] else [of_nat (192 + n div 64), of_nat (128 + n mod 64)])"

definition utf8 :: "string \<Rightarrow> 8 word list" where
  "utf8 s = concat (map utf8_char s)"

lemma utf8_simps [simp]: "utf8 [] = []" "utf8 (c # s) = utf8_char c @ utf8 s"
  by (simp_all add: utf8_def)

lemma length_utf8 [simp]: "length (utf8 s) = utf8_len s"
  by (induction s) (simp_all add: utf8_len_def utf8_char_def Let_def)

lemma of_char_less: "(of_char c :: nat) < 256"
  by (metis nat_of_char_less_256)

lemma utf8_char_prefix_free:
  assumes "utf8_char c @ xs = utf8_char d @ ys"
  shows "c = d \<and> xs = ys"
proof -
  let ?c = "of_char c :: nat" and ?d = "of_char d :: nat"
  have eq: "\<And>m n :: nat. m < 256 \<Longrightarrow> n < 256 \<Longrightarrow> (of_nat m :: 8 word) = of_nat n \<longleftrightarrow> m = n"
    by (auto simp: of_nat_inverse word_of_nat_eq_iff take_bit_nat_eq_self)
  have b: "?c < 256" "?d < 256" by (rule of_char_less)+
  then have q: "192 + ?c div 64 < 256" "192 + ?d div 64 < 256" by linarith+
  have h: "?c < 128 \<longleftrightarrow> ?d < 128"
  proof -
    have "hd (utf8_char c @ xs) = hd (utf8_char d @ ys)" using assms by simp
    then show ?thesis using b by (auto simp: utf8_char_def Let_def eq q simp del: of_nat_add split: if_splits)
  qed
  have "?c = ?d \<and> xs = ys"
  proof (cases "?c < 128")
    case True
    with h b assms show ?thesis by (simp add: utf8_char_def Let_def eq del: of_nat_add)
  next
    case False
    with h b assms have "192 + ?c div 64 = 192 + ?d div 64" "128 + ?c mod 64 = 128 + ?d mod 64" "xs = ys"
      by (simp_all add: utf8_char_def Let_def eq q del: of_nat_add)
    then show ?thesis by (metis add_left_cancel div_mult_mod_eq)
  qed
  then show ?thesis by (metis of_char_eq_iff)
qed

lemma utf8_inject: "utf8 s = utf8 t \<Longrightarrow> s = t"
proof (induction s arbitrary: t)
  case Nil
  then show ?case by (cases t) (auto simp: utf8_char_def Let_def split: if_splits)
next
  case (Cons c s)
  then obtain d u where t: "t = d # u" by (cases t) (auto simp: utf8_char_def Let_def split: if_splits)
  with Cons.prems have "c = d \<and> utf8 s = utf8 u" by (auto dest: utf8_char_prefix_free)
  with Cons.IH t show ?case by simp
qed

section \<open>Length-prefixed framing\<close>

text \<open>
  What \<open>fingerprint\<close> hashes: each part is preceded by its length as a 64-bit big-endian integer, so
  the boundaries between parts cannot be moved.
\<close>

definition frame_parts :: "string list \<Rightarrow> 8 word list" where
  "frame_parts parts = concat (map (\<lambda>p. be_bytes 8 (utf8_len p) @ utf8 p) parts)"

definition framable :: "string list \<Rightarrow> bool" where
  "framable parts \<longleftrightarrow> list_all (\<lambda>p. utf8_len p < 2 ^ 64) parts"

lemma frame_parts_simps [simp]:
  "frame_parts [] = []"
  "frame_parts (p # ps) = be_bytes 8 (utf8_len p) @ utf8 p @ frame_parts ps"
  by (simp_all add: frame_parts_def)

lemma frame_parts_inject:
  "frame_parts ps = frame_parts qs \<Longrightarrow> framable ps \<Longrightarrow> framable qs \<Longrightarrow> ps = qs"
proof (induction ps arbitrary: qs)
  case Nil
  have "length (be_bytes 8 n) = 8" for n by simp
  with Nil show ?case by (cases qs) (auto dest: arg_cong [of _ _ length])
next
  case (Cons p ps)
  have "qs \<noteq> []" using Cons.prems(1) by (auto dest: arg_cong [of _ _ length])
  then obtain q qs' where qs: "qs = q # qs'" by (cases qs) auto
  with Cons.prems(1) have len: "be_bytes 8 (utf8_len p) = be_bytes 8 (utf8_len q)"
    and rest: "utf8 p @ frame_parts ps = utf8 q @ frame_parts qs'"
    by simp_all
  have "utf8_len p = utf8_len q"
    by (rule be_bytes_inject [OF len]) (use Cons.prems(2,3) qs in \<open>simp_all add: framable_def\<close>)
  with rest have "utf8 p = utf8 q" and "frame_parts ps = frame_parts qs'" by simp_all
  with Cons.IH [of qs'] Cons.prems(2,3) qs show ?case by (auto simp: framable_def dest: utf8_inject)
qed

section \<open>Hexadecimal text\<close>

definition hex_digit :: "nat \<Rightarrow> char" where
  "hex_digit n = ''0123456789abcdef'' ! n"

definition hex_byte :: "8 word \<Rightarrow> string" where
  "hex_byte b = [hex_digit (unat b div 16), hex_digit (unat b mod 16)]"

definition hex :: "8 word list \<Rightarrow> string" where
  "hex bs = concat (map hex_byte bs)"

lemma hex_simps [simp]: "hex [] = []" "hex (b # bs) = hex_byte b @ hex bs"
  by (simp_all add: hex_def)

lemma length_hex [simp]: "length (hex bs) = 2 * length bs"
  by (induction bs) (simp_all add: hex_byte_def)

lemma hex_digits_distinct: "distinct ''0123456789abcdef''"
  by simp

lemma hex_digit_inject: "hex_digit m = hex_digit n \<Longrightarrow> m < 16 \<Longrightarrow> n < 16 \<Longrightarrow> m = n"
  using nth_eq_iff_index_eq [OF hex_digits_distinct, of m n] by (simp add: hex_digit_def)

lemma hex_byte_inject: "hex_byte a = hex_byte b \<Longrightarrow> a = b"
proof -
  assume h: "hex_byte a = hex_byte b"
  have bd: "unat x div 16 < 16" "unat x mod 16 < 16" for x :: "8 word"
    using unsigned_less [of x, where ?'a = nat] by simp_all
  have "unat a div 16 = unat b div 16" "unat a mod 16 = unat b mod 16"
    using h bd by (auto simp: hex_byte_def intro: hex_digit_inject)
  then have "unat a = unat b" by (metis div_mult_mod_eq)
  then show ?thesis by (simp add: word_unat_eq_iff)
qed

lemma hex_inject: "hex as = hex bs \<Longrightarrow> as = bs"
proof (induction as arbitrary: bs)
  case Nil
  then show ?case by (cases bs) (auto simp: hex_byte_def)
next
  case (Cons a as)
  then obtain b bs' where bs: "bs = b # bs'" by (cases bs) (auto simp: hex_byte_def)
  with Cons.prems have "hex_byte a = hex_byte b" "hex as = hex bs'" by (auto simp: hex_byte_def)
  with Cons.IH bs show ?case by (auto dest: hex_byte_inject)
qed

lemma hex_digit_not_white: "n < 16 \<Longrightarrow> \<not> is_white (hex_digit n)"
proof -
  assume "n < 16"
  then have "hex_digit n \<in> set ''0123456789abcdef''" by (simp add: hex_digit_def del: list.set)
  moreover have "\<forall>c \<in> set ''0123456789abcdef''. \<not> is_white c" by (simp add: is_white_def)
  ultimately show ?thesis by blast
qed

lemma hex_not_blank: "bs \<noteq> [] \<Longrightarrow> \<not> blank (hex bs)"
proof (cases bs)
  case (Cons b bs')
  have "unat b mod 16 < 16" by simp
  then show ?thesis using Cons hex_digit_not_white by (auto simp: blank_def hex_byte_def)
qed simp

end
