(* ===== verification/Gateway_Replay.thy ===== *)
theory Gateway_Replay
  imports Gateway_Core
begin

text \<open>
  Durable anti-replay reservations, \<^verbatim>\<open>src/crates/storage/src/actor_replay.rs\<close>, and the schema gate,
  \<^verbatim>\<open>src/crates/storage/src/migrations.rs\<close>.

  The store holds the three tables the code uses: accepted proofs, issued challenges with their
  \<open>consumed\<close> flag, and the one row of the clock high-water mark (\<open>None\<close> when it is missing). A 32-byte
  digest is a \<open>256 word\<close>, Unix seconds are integers. Every operation is one immediate transaction: it
  returns its result together with the committed store, and any error, including a storage fault at
  any of its steps, rolls everything back. The constraints are those of the migrations
  \<^verbatim>\<open>0006\<close> to \<^verbatim>\<open>0008\<close>: uniqueness per issuer in four dimensions, the challenge hash as primary key.
\<close>

type_synonym digest = "256 word"
type_synonym unix = int

record actor_replay_evidence =
  ev_issuer :: string
  ev_nonce_hash :: digest
  ev_message_hash :: digest
  ev_challenge_hash :: digest
  ev_correlation_hash :: digest
  ev_expires_at :: unix

record issued_actor_challenge =
  ch_challenge_hash :: digest
  ch_device_hash :: digest
  ch_workspace_hash :: digest
  ch_epoch_hash :: digest
  ch_channel_hash :: digest
  ch_issued_at :: unix
  ch_expires_at :: unix

datatype actor_replay_error = Replay | Unavailable | Invalid

fun replay_error_code :: "actor_replay_error \<Rightarrow> string" where
  "replay_error_code Replay = ''ACTOR_REPLAY''"
| "replay_error_code Unavailable = ''ACTOR_REPLAY_UNAVAILABLE''"
| "replay_error_code Invalid = ''ACTOR_REPLAY_INVALID''"

record replay_store =
  rp_proofs :: "actor_replay_evidence list"
  rp_challenges :: "(issued_actor_challenge \<times> bool) list"
  rp_clock :: "unix option"

text \<open>Where a storage fault can strike.\<close>

datatype replay_fault = LockFault | BeginFault | ClockFault | CountFault | ClaimFault | InsertFault | CommitFault

datatype replay_table = IssuedChallenges | VerifiedProofs

section \<open>Operations\<close>

definition require_nondecreasing_local_clock ::
  "replay_fault option \<Rightarrow> unix \<Rightarrow> replay_store \<Rightarrow> actor_replay_error + replay_store" where
  "require_nondecreasing_local_clock fault now st =
     (if now \<le> 0 then Inl Invalid
      else if fault = Some ClockFault then Inl Unavailable
      else
        (case rp_clock st of
           Some seen \<Rightarrow> if seen \<le> now then Inr (st\<lparr>rp_clock := Some now\<rparr>) else Inl Invalid
         | None \<Rightarrow> Inl Invalid))"

definition begin_limited_write ::
  "replay_fault option \<Rightarrow> replay_table \<Rightarrow> unix \<Rightarrow> replay_store \<Rightarrow> actor_replay_error + replay_store" where
  "begin_limited_write fault table now st =
     (if fault = Some BeginFault then Inl Unavailable
      else
        rbind (require_nondecreasing_local_clock fault now st) (\<lambda>tx.
        let count = (case table of
            IssuedChallenges \<Rightarrow> length (rp_challenges tx)
          | VerifiedProofs \<Rightarrow> length (rp_proofs tx)) in
        if fault = Some CountFault then Inl Unavailable
        else if count \<ge> 250000 then Inl Unavailable
        else Inr tx))"

definition same_evidence :: "actor_replay_evidence \<Rightarrow> actor_replay_evidence \<Rightarrow> bool" where
  "same_evidence p q \<longleftrightarrow> ev_issuer p = ev_issuer q \<and>
     (ev_nonce_hash p = ev_nonce_hash q \<or> ev_message_hash p = ev_message_hash q
      \<or> ev_challenge_hash p = ev_challenge_hash q \<or> ev_correlation_hash p = ev_correlation_hash q)"

definition insert_proof ::
  "replay_fault option \<Rightarrow> actor_replay_evidence \<Rightarrow> replay_store \<Rightarrow> actor_replay_error + replay_store" where
  "insert_proof fault p tx =
     (if fault = Some InsertFault then Inl Unavailable
      else if list_ex (same_evidence p) (rp_proofs tx) then Inl Replay
      else Inr (tx\<lparr>rp_proofs := rp_proofs tx @ [p]\<rparr>))"

definition commit :: "replay_fault option \<Rightarrow> replay_store \<Rightarrow> actor_replay_error + replay_store" where
  "commit fault tx = (if fault = Some CommitFault then Inl Unavailable else Inr tx)"

text \<open>A transaction that ends in an error leaves the store as it was.\<close>

fun finish :: "replay_store \<Rightarrow> actor_replay_error + replay_store \<Rightarrow> (actor_replay_error + unit) \<times> replay_store" where
  "finish st (Inl e) = (Inl e, st)"
| "finish st (Inr tx) = (Inr (), tx)"

definition invalid_evidence :: "actor_replay_evidence \<Rightarrow> bool" where
  "invalid_evidence p \<longleftrightarrow> blank (ev_issuer p) \<or> utf8_len (ev_issuer p) > 256
     \<or> ev_nonce_hash p = 0 \<or> ev_message_hash p = 0 \<or> ev_challenge_hash p = 0
     \<or> ev_correlation_hash p = 0"

definition consume_actor_proof ::
  "replay_fault option \<Rightarrow> actor_replay_evidence \<Rightarrow> unix \<Rightarrow> replay_store
   \<Rightarrow> (actor_replay_error + unit) \<times> replay_store" where
  "consume_actor_proof fault p now st =
     (if invalid_evidence p \<or> now \<le> 0 \<or> ev_expires_at p < now then (Inl Invalid, st)
      else if fault = Some LockFault then (Inl Unavailable, st)
      else finish st
        (rbind (begin_limited_write fault VerifiedProofs now st) (\<lambda>tx.
         rbind (insert_proof fault p tx) (commit fault))))"

definition valid_issued_challenge :: "issued_actor_challenge \<Rightarrow> bool" where
  "valid_issued_challenge c \<longleftrightarrow>
     list_all (\<lambda>d. d \<noteq> 0) [ch_challenge_hash c, ch_device_hash c, ch_workspace_hash c, ch_epoch_hash c,
       ch_channel_hash c]
     \<and> ch_issued_at c > 0 \<and> ch_expires_at c > ch_issued_at c \<and> ch_expires_at c - ch_issued_at c \<le> 60"

definition register_actor_challenge ::
  "replay_fault option \<Rightarrow> issued_actor_challenge \<Rightarrow> replay_store
   \<Rightarrow> (actor_replay_error + unit) \<times> replay_store" where
  "register_actor_challenge fault c st =
     (if \<not> valid_issued_challenge c then (Inl Invalid, st)
      else if fault = Some LockFault then (Inl Unavailable, st)
      else finish st
        (rbind (begin_limited_write fault IssuedChallenges (ch_issued_at c) st) (\<lambda>tx.
         if fault = Some InsertFault then Inl Unavailable
         else if ch_challenge_hash c \<in> (\<lambda>x. ch_challenge_hash (fst x)) ` set (rp_challenges tx) then Inl Replay
         else commit fault (tx\<lparr>rp_challenges := rp_challenges tx @ [(c, False)]\<rparr>))))"

text \<open>
  \<open>UPDATE ... SET consumed = 1 WHERE <all columns> AND consumed = 0\<close>, and the number of changed rows.
\<close>

definition claim_challenge ::
  "issued_actor_challenge \<Rightarrow> (issued_actor_challenge \<times> bool) list
   \<Rightarrow> nat \<times> (issued_actor_challenge \<times> bool) list" where
  "claim_challenge b rows =
     (length (filter (\<lambda>(c, consumed). c = b \<and> \<not> consumed) rows),
      map (\<lambda>(c, consumed). (c, consumed \<or> c = b)) rows)"

definition consume_issued_actor_proof ::
  "replay_fault option \<Rightarrow> actor_replay_evidence \<Rightarrow> issued_actor_challenge \<Rightarrow> unix \<Rightarrow> replay_store
   \<Rightarrow> (actor_replay_error + unit) \<times> replay_store" where
  "consume_issued_actor_proof fault p b now st =
     (if \<not> valid_issued_challenge b \<or> now < ch_issued_at b \<or> now > ch_expires_at b
         \<or> ev_expires_at p < now \<or> invalid_evidence p
      then (Inl Invalid, st)
      else if fault = Some LockFault then (Inl Unavailable, st)
      else finish st
        (rbind (begin_limited_write fault VerifiedProofs now st) (\<lambda>tx.
         if fault = Some ClaimFault then Inl Unavailable
         else
           let (changed, rows) = claim_challenge b (rp_challenges tx) in
           if changed \<noteq> 1 then Inl Replay
           else rbind (insert_proof fault p (tx\<lparr>rp_challenges := rows\<rparr>)) (commit fault))))"

section \<open>Schema gate\<close>

definition SCHEMA_VERSION :: u32 where
  "SCHEMA_VERSION = 8"

definition seed_actor_clock_high_water_v8 :: "replay_store \<Rightarrow> replay_store" where
  "seed_actor_clock_high_water_v8 st =
     st\<lparr>rp_clock := Some (max
        (fold max (map (\<lambda>(c, _). ch_expires_at c) (rp_challenges st)) 0)
        (fold max (map ev_expires_at (rp_proofs st)) 0))\<rparr>"

datatype storage_error =
    DbUnreadable string
  | MigrationFailed string
  | SchemaFromNewerBuild u32 u32
  | AnotherInstanceRunning
  | StorageIo string

text \<open>
  \<open>user_version\<close> is a 64-bit integer; \<open>read\<close> is the pragma query and \<open>to_latest\<close> the migration library
  applied to the database, both arguments.
\<close>

definition schema_version :: "(string + int) \<Rightarrow> storage_error + u32" where
  "schema_version v =
     rbind (map_err DbUnreadable v) (\<lambda>n.
       if 0 \<le> n \<and> n < 2 ^ 32 then Inr (of_int n) else Inl (DbUnreadable ''version''))"

definition run_migrations ::
  "('db \<Rightarrow> string + int) \<Rightarrow> ('db \<Rightarrow> string + int) \<Rightarrow> ('db \<Rightarrow> string + 'db) \<Rightarrow> 'db
   \<Rightarrow> storage_error + 'db" where
  "run_migrations probe read to_latest db =
     rbind (map_err DbUnreadable (probe db)) (\<lambda>_.
     rbind (schema_version (read db)) (\<lambda>before.
     if before > SCHEMA_VERSION then Inl (SchemaFromNewerBuild before SCHEMA_VERSION)
     else
       rbind (map_err MigrationFailed (to_latest db)) (\<lambda>db'.
       rbind (schema_version (read db')) (\<lambda>after.
       if after \<noteq> SCHEMA_VERSION then Inl (MigrationFailed ''unexpected schema version'') else Inr db'))))"

section \<open>Lemmas\<close>

lemma clock_Inr:
  "require_nondecreasing_local_clock fault now st = Inr tx \<longleftrightarrow>
     0 < now \<and> fault \<noteq> Some ClockFault
     \<and> (\<exists>seen. rp_clock st = Some seen \<and> seen \<le> now) \<and> tx = st\<lparr>rp_clock := Some now\<rparr>"
  by (auto simp: require_nondecreasing_local_clock_def split: option.splits)

lemma begin_Inr:
  "begin_limited_write fault table now st = Inr tx \<Longrightarrow>
     0 < now \<and> (\<exists>seen. rp_clock st = Some seen \<and> seen \<le> now) \<and> tx = st\<lparr>rp_clock := Some now\<rparr>"
  by (auto simp: begin_limited_write_def rbind_Inr_conv clock_Inr Let_def split: if_splits)

lemma finish_Inr: "finish st r = (Inr u, st') \<longleftrightarrow> r = Inr st'"
  by (cases r) auto

lemma finish_Inl: "finish st r = (Inl e, st') \<longleftrightarrow> r = Inl e \<and> st' = st"
  by (cases r) auto

lemma insert_proof_Inr:
  "insert_proof fault p tx = Inr tx' \<longleftrightarrow> fault \<noteq> Some InsertFault
     \<and> \<not> list_ex (same_evidence p) (rp_proofs tx) \<and> tx' = tx\<lparr>rp_proofs := rp_proofs tx @ [p]\<rparr>"
  by (auto simp: insert_proof_def)

lemma commit_Inr: "commit fault tx = Inr tx' \<longleftrightarrow> fault \<noteq> Some CommitFault \<and> tx' = tx"
  by (auto simp: commit_def)

lemma consume_actor_proof_Inr:
  assumes "consume_actor_proof fault p now st = (Inr u, st')"
  shows "\<not> list_ex (same_evidence p) (rp_proofs st) \<and> ev_expires_at p \<ge> now
    \<and> (\<exists>seen. rp_clock st = Some seen \<and> seen \<le> now)
    \<and> st' = st\<lparr>rp_proofs := rp_proofs st @ [p], rp_clock := Some now\<rparr>"
  using assms
  by (auto simp: consume_actor_proof_def finish_Inr rbind_Inr_conv insert_proof_Inr commit_Inr
      split: if_splits dest!: begin_Inr)

lemma register_actor_challenge_Inr:
  assumes "register_actor_challenge fault c st = (Inr u, st')"
  shows "valid_issued_challenge c
    \<and> ch_challenge_hash c \<notin> (\<lambda>x. ch_challenge_hash (fst x)) ` set (rp_challenges st)
    \<and> (\<exists>seen. rp_clock st = Some seen \<and> seen \<le> ch_issued_at c)
    \<and> st' = st\<lparr>rp_challenges := rp_challenges st @ [(c, False)], rp_clock := Some (ch_issued_at c)\<rparr>"
  using assms
  by (auto simp: register_actor_challenge_def finish_Inr rbind_Inr_conv commit_Inr
      split: if_splits dest!: begin_Inr)

lemma claim_challenge_one:
  "fst (claim_challenge b rows) = 1 \<Longrightarrow> (b, False) \<in> set rows"
proof -
  assume "fst (claim_challenge b rows) = 1"
  then have "filter (\<lambda>(c, consumed). c = b \<and> \<not> consumed) rows \<noteq> []" by (auto simp: claim_challenge_def)
  then show ?thesis by (auto simp: filter_empty_conv)
qed

lemma consume_issued_actor_proof_Inr:
  assumes "consume_issued_actor_proof fault p b now st = (Inr u, st')"
  shows "valid_issued_challenge b \<and> ch_issued_at b \<le> now \<and> now \<le> ch_expires_at b \<and> now \<le> ev_expires_at p
    \<and> (b, False) \<in> set (rp_challenges st)
    \<and> \<not> list_ex (same_evidence p) (rp_proofs st)
    \<and> (\<exists>seen. rp_clock st = Some seen \<and> seen \<le> now)
    \<and> st' = st\<lparr>rp_proofs := rp_proofs st @ [p],
        rp_challenges := snd (claim_challenge b (rp_challenges st)), rp_clock := Some now\<rparr>"
proof -
  from assms have guard: "valid_issued_challenge b" "ch_issued_at b \<le> now" "now \<le> ch_expires_at b"
    "now \<le> ev_expires_at p"
    by (auto simp: consume_issued_actor_proof_def split: if_splits)
  from assms obtain tx where tx: "begin_limited_write fault VerifiedProofs now st = Inr tx"
    and rest: "fst (claim_challenge b (rp_challenges tx)) = 1"
      "rbind (insert_proof fault p (tx\<lparr>rp_challenges := snd (claim_challenge b (rp_challenges tx))\<rparr>))
         (commit fault) = Inr st'"
    by (auto simp: consume_issued_actor_proof_def finish_Inr rbind_Inr_conv Let_def
        split: if_splits prod.splits)
  from begin_Inr [OF tx] rest guard claim_challenge_one [OF rest(1)] show ?thesis
    by (auto simp: rbind_Inr_conv insert_proof_Inr commit_Inr)
qed

section \<open>Reachable stores\<close>

inductive replay_step :: "replay_store \<Rightarrow> replay_store \<Rightarrow> bool" where
  consume: "replay_step st (snd (consume_actor_proof fault p now st))"
| register: "replay_step st (snd (register_actor_challenge fault c st))"
| consume_issued: "replay_step st (snd (consume_issued_actor_proof fault p b now st))"

text \<open>What a committed step can do to the store.\<close>

inductive replay_change :: "replay_store \<Rightarrow> replay_store \<Rightarrow> bool" where
  rolled_back: "replay_change st st"
| proof_added: "\<lbrakk>\<not> list_ex (same_evidence p) (rp_proofs st); rp_clock st = Some seen; seen \<le> now\<rbrakk>
    \<Longrightarrow> replay_change st (st\<lparr>rp_proofs := rp_proofs st @ [p], rp_clock := Some now\<rparr>)"
| challenge_added: "\<lbrakk>ch_challenge_hash c \<notin> (\<lambda>x. ch_challenge_hash (fst x)) ` set (rp_challenges st);
      rp_clock st = Some seen; seen \<le> now\<rbrakk>
    \<Longrightarrow> replay_change st (st\<lparr>rp_challenges := rp_challenges st @ [(c, False)], rp_clock := Some now\<rparr>)"
| proof_claimed: "\<lbrakk>\<not> list_ex (same_evidence p) (rp_proofs st); (b, False) \<in> set (rp_challenges st);
      rp_clock st = Some seen; seen \<le> now\<rbrakk>
    \<Longrightarrow> replay_change st (st\<lparr>rp_proofs := rp_proofs st @ [p],
          rp_challenges := snd (claim_challenge b (rp_challenges st)), rp_clock := Some now\<rparr>)"

lemma replay_step_error:
  "fst (consume_actor_proof fault p now st) = Inl e \<Longrightarrow> snd (consume_actor_proof fault p now st) = st"
  "fst (register_actor_challenge fault c st) = Inl e \<Longrightarrow> snd (register_actor_challenge fault c st) = st"
  "fst (consume_issued_actor_proof fault p b now st) = Inl e \<Longrightarrow>
     snd (consume_issued_actor_proof fault p b now st) = st"
proof -
  have f: "fst (finish st r) = Inl e \<Longrightarrow> snd (finish st r) = st" for r by (cases r) auto
  show "fst (consume_actor_proof fault p now st) = Inl e \<Longrightarrow> snd (consume_actor_proof fault p now st) = st"
    by (auto simp: consume_actor_proof_def dest: f split: if_splits)
  show "fst (register_actor_challenge fault c st) = Inl e \<Longrightarrow> snd (register_actor_challenge fault c st) = st"
    by (auto simp: register_actor_challenge_def dest: f split: if_splits)
  show "fst (consume_issued_actor_proof fault p b now st) = Inl e \<Longrightarrow>
     snd (consume_issued_actor_proof fault p b now st) = st"
    by (auto simp: consume_issued_actor_proof_def dest: f split: if_splits)
qed

lemma replay_step_change: "replay_step st st' \<Longrightarrow> replay_change st st'"
proof (induction rule: replay_step.induct)
  case (consume st fault p now)
  show ?case
  proof (cases "consume_actor_proof fault p now st")
    case (Pair r st')
    then show ?thesis
      using consume_actor_proof_Inr [of fault p now st _ st'] replay_step_error(1) [of fault p now st]
      by (cases r) (auto intro: replay_change.intros)
  qed
next
  case (register st fault c)
  show ?case
  proof (cases "register_actor_challenge fault c st")
    case (Pair r st')
    then show ?thesis
      using register_actor_challenge_Inr [of fault c st _ st'] replay_step_error(2) [of fault c st]
      by (cases r) (auto intro: replay_change.intros)
  qed
next
  case (consume_issued st fault p b now)
  show ?case
  proof (cases "consume_issued_actor_proof fault p b now st")
    case (Pair r st')
    then show ?thesis
      using consume_issued_actor_proof_Inr [of fault p b now st _ st'] replay_step_error(3) [of fault p b now st]
      by (cases r) (auto intro: replay_change.intros)
  qed
qed

definition proof_recorded :: "actor_replay_evidence \<Rightarrow> replay_store \<Rightarrow> bool" where
  "proof_recorded p st \<longleftrightarrow> p \<in> set (rp_proofs st)"

definition challenge_spent :: "digest \<Rightarrow> replay_store \<Rightarrow> bool" where
  "challenge_spent h st \<longleftrightarrow> unique_keys (\<lambda>x. ch_challenge_hash (fst x)) (rp_challenges st)
     \<and> (\<exists>c. ch_challenge_hash c = h \<and> (c, True) \<in> set (rp_challenges st))"

definition clock_at_least :: "unix \<Rightarrow> replay_store \<Rightarrow> bool" where
  "clock_at_least t st \<longleftrightarrow> (\<exists>seen. rp_clock st = Some seen \<and> t \<le> seen)"

definition challenges_unique :: "replay_store \<Rightarrow> bool" where
  "challenges_unique st \<longleftrightarrow> unique_keys (\<lambda>x. ch_challenge_hash (fst x)) (rp_challenges st)"

lemma claim_keeps_hashes:
  "map (\<lambda>x. ch_challenge_hash (fst x)) (snd (claim_challenge b rows)) = map (\<lambda>x. ch_challenge_hash (fst x)) rows"
  by (simp add: claim_challenge_def case_prod_beta)

lemma challenges_unique_change: "replay_change st st' \<Longrightarrow> challenges_unique st \<Longrightarrow> challenges_unique st'"
  by (induction rule: replay_change.induct)
    (auto simp: challenges_unique_def unique_keys_def claim_keeps_hashes)

interpretation recorded: kept_forever replay_step "proof_recorded p" for p
proof
  fix st st' assume "replay_step st st'" "proof_recorded p st"
  then show "proof_recorded p st'"
    by (auto simp: proof_recorded_def dest!: replay_step_change elim!: replay_change.cases)
qed

interpretation spent: kept_forever replay_step "challenge_spent h" for h
proof
  fix st st' assume s: "replay_step st st'" and f: "challenge_spent h st"
  then have "challenges_unique st'"
    using challenges_unique_change [OF replay_step_change [OF s]]
    by (simp add: challenge_spent_def challenges_unique_def)
  moreover have "\<exists>c. ch_challenge_hash c = h \<and> (c, True) \<in> set (rp_challenges st')"
    using replay_step_change [OF s] f
    by (cases rule: replay_change.cases) (force simp: challenge_spent_def claim_challenge_def)+
  ultimately show "challenge_spent h st'" by (simp add: challenge_spent_def challenges_unique_def)
qed

interpretation clock: kept_forever replay_step "clock_at_least t" for t
proof
  fix st st' assume "replay_step st st'" "clock_at_least t st"
  then show "clock_at_least t st'"
    by (auto simp: clock_at_least_def dest!: replay_step_change elim!: replay_change.cases)
qed

section \<open>Properties\<close>

definition empty_replay_store :: "unix \<Rightarrow> replay_store" where
  "empty_replay_store t = \<lparr>rp_proofs = [], rp_challenges = [], rp_clock = Some t\<rparr>"

definition accepts :: "(actor_replay_error + unit) \<times> replay_store \<Rightarrow> replay_store \<Rightarrow> bool" where
  "accepts r st' \<longleftrightarrow> r = (Inr (), st')"

lemma recorded_blocks:
  assumes "proof_recorded p st" and "same_evidence q p"
  shows "fst (consume_actor_proof fault q now st) \<noteq> Inr ()
    \<and> fst (consume_issued_actor_proof fault q b now st) \<noteq> Inr ()"
proof -
  have "list_ex (same_evidence q) (rp_proofs st)"
    using assms by (auto simp: proof_recorded_def list_ex_iff)
  then show ?thesis
    using consume_actor_proof_Inr [of fault q now st] consume_issued_actor_proof_Inr [of fault q b now st]
    by (metis prod.collapse)
qed

text \<open>
  C23: No replay. Once a proof has been accepted, by either path, no later state reached by any
  operations with any storage faults accepts a proof of the same issuer that shares its nonce, message,
  challenge or correlation hash, at any time, by either path.
\<close>

theorem actor_proof_is_accepted_at_most_once:
  assumes "accepts (consume_actor_proof fault p now st) st1
      \<or> accepts (consume_issued_actor_proof fault p b now st) st1"
    and "replay_step\<^sup>*\<^sup>* st1 st2" and "same_evidence q p"
  shows "fst (consume_actor_proof fault' q now' st2) \<noteq> Inr ()
    \<and> fst (consume_issued_actor_proof fault' q b' now' st2) \<noteq> Inr ()"
proof -
  have "proof_recorded p st1"
    using assms(1) by (auto simp: accepts_def proof_recorded_def
        dest: consume_actor_proof_Inr consume_issued_actor_proof_Inr)
  with assms(2) have "proof_recorded p st2" by (rule recorded.kept_star)
  then show ?thesis using assms(3) by (rule recorded_blocks)
qed

text \<open>
  A Gateway challenge is spent at most once, atomically with its proof. In a store reached from an
  empty one, accepting a proof against a challenge requires that exactly this challenge was registered
  and unspent and that the local time is inside its window of at most sixty seconds; afterwards no
  reachable state accepts any proof against a challenge with the same hash.
\<close>

theorem challenge_is_spent_at_most_once:
  assumes "replay_step\<^sup>*\<^sup>* (empty_replay_store t0) st"
    and "accepts (consume_issued_actor_proof fault p b now st) st1"
    and "replay_step\<^sup>*\<^sup>* st1 st2" and "ch_challenge_hash b' = ch_challenge_hash b"
  shows "(b, False) \<in> set (rp_challenges st) \<and> ch_issued_at b \<le> now \<and> now \<le> ch_issued_at b + 60
    \<and> fst (consume_issued_actor_proof fault' q b' now' st2) \<noteq> Inr ()"
proof -
  note r = consume_issued_actor_proof_Inr [OF assms(2) [unfolded accepts_def]]
  have "challenges_unique (empty_replay_store t0)"
    by (simp add: challenges_unique_def empty_replay_store_def unique_keys_def)
  with assms(1) have u: "challenges_unique st"
    by (induction rule: rtranclp_induct) (auto dest: replay_step_change challenges_unique_change)
  have "(b, True) \<in> set (rp_challenges st1)" using r by (force simp: claim_challenge_def)
  moreover have "challenges_unique st1"
    using u r by (simp add: challenges_unique_def unique_keys_def claim_keeps_hashes)
  ultimately have "challenge_spent (ch_challenge_hash b) st1"
    unfolding challenge_spent_def challenges_unique_def by blast
  with assms(3) have spent2: "challenge_spent (ch_challenge_hash b) st2" by (rule spent.kept_star)
  have "(b', False) \<notin> set (rp_challenges st2)"
  proof
    assume "(b', False) \<in> set (rp_challenges st2)"
    moreover from spent2 obtain c where c: "ch_challenge_hash c = ch_challenge_hash b"
      "(c, True) \<in> set (rp_challenges st2)"
      and un: "unique_keys (\<lambda>x. ch_challenge_hash (fst x)) (rp_challenges st2)"
      unfolding challenge_spent_def by blast
    ultimately show False
      using unique_keys_lookup [OF un, of "(b', False)"] unique_keys_lookup [OF un, of "(c, True)"] assms(4)
      by simp
  qed
  then have "fst (consume_issued_actor_proof fault' q b' now' st2) \<noteq> Inr ()"
    using consume_issued_actor_proof_Inr [of fault' q b' now' st2] by (metis prod.collapse)
  with r show ?thesis by (auto simp: valid_issued_challenge_def)
qed

text \<open>
  The replay clock never runs backwards, and failure changes nothing. After an operation is accepted
  at a local time, every operation accepted in any later state carries a time at least as large; an
  operation that returns an error, whatever the fault, leaves the store exactly as it was.
\<close>

theorem replay_clock_is_monotone_and_errors_roll_back:
  assumes "accepts (consume_issued_actor_proof fault p b now st) st1"
    and "replay_step\<^sup>*\<^sup>* st1 st2"
  shows "(accepts (consume_issued_actor_proof fault' q b' now' st2) st3 \<longrightarrow> now \<le> now')
    \<and> (accepts (consume_actor_proof fault' q now' st2) st3 \<longrightarrow> now \<le> now')
    \<and> (accepts (register_actor_challenge fault' c st2) st3 \<longrightarrow> now \<le> ch_issued_at c)
    \<and> (fst (consume_issued_actor_proof fault' q b' now' st2) = Inl e \<longrightarrow>
         snd (consume_issued_actor_proof fault' q b' now' st2) = st2)"
proof -
  have "clock_at_least now st1"
    using consume_issued_actor_proof_Inr [OF assms(1) [unfolded accepts_def]] by (simp add: clock_at_least_def)
  with assms(2) have "clock_at_least now st2" by (rule clock.kept_star)
  then show ?thesis
    by (auto simp: accepts_def clock_at_least_def replay_step_error(3)
        dest!: consume_issued_actor_proof_Inr consume_actor_proof_Inr register_actor_challenge_Inr)
qed

definition sample_evidence :: actor_replay_evidence where
  "sample_evidence = \<lparr>ev_issuer = ''iss'', ev_nonce_hash = 1, ev_message_hash = 2, ev_challenge_hash = 3,
     ev_correlation_hash = 4, ev_expires_at = 200\<rparr>"

definition sample_challenge :: issued_actor_challenge where
  "sample_challenge = \<lparr>ch_challenge_hash = 3, ch_device_hash = 5, ch_workspace_hash = 6, ch_epoch_hash = 7,
     ch_channel_hash = 8, ch_issued_at = 100, ch_expires_at = 150\<rparr>"

definition sample_issued_store :: replay_store where
  "sample_issued_store = \<lparr>rp_proofs = [], rp_challenges = [(sample_challenge, False)], rp_clock = Some 100\<rparr>"

definition sample_spent_store :: replay_store where
  "sample_spent_store =
     \<lparr>rp_proofs = [sample_evidence], rp_challenges = [(sample_challenge, True)], rp_clock = Some 120\<rparr>"

lemma sample_register:
  "register_actor_challenge None sample_challenge (empty_replay_store 0) = (Inr (), sample_issued_store)"
  by (simp add: register_actor_challenge_def valid_issued_challenge_def sample_challenge_def
      begin_limited_write_def require_nondecreasing_local_clock_def empty_replay_store_def commit_def
      sample_issued_store_def Let_def)

lemma sample_consume:
  "accepts (consume_issued_actor_proof None sample_evidence sample_challenge 120 sample_issued_store)
     sample_spent_store"
  by (simp add: accepts_def consume_issued_actor_proof_def valid_issued_challenge_def invalid_evidence_def
      sample_challenge_def sample_evidence_def begin_limited_write_def
      require_nondecreasing_local_clock_def sample_issued_store_def sample_spent_store_def commit_def
      claim_challenge_def insert_proof_def blank_def is_white_def utf8_len_def Let_def)

lemma sample_issued_reachable: "replay_step\<^sup>*\<^sup>* (empty_replay_store 0) sample_issued_store"
  using replay_step.register [of "empty_replay_store 0" None sample_challenge] by (simp add: sample_register)

theorem actor_proof_is_accepted_at_most_once_witness:
  "fst (consume_actor_proof None (sample_evidence\<lparr>ev_nonce_hash := 9\<rparr>) 130 sample_spent_store) \<noteq> Inr ()"
  using actor_proof_is_accepted_at_most_once [where st = sample_issued_store and fault = None
      and p = sample_evidence and b = sample_challenge and now = 120 and ?st1.0 = sample_spent_store
      and ?st2.0 = sample_spent_store and q = "sample_evidence\<lparr>ev_nonce_hash := 9\<rparr>"
      and fault' = None and now' = 130]
    sample_consume
  by (simp add: same_evidence_def)

theorem challenge_is_spent_at_most_once_witness:
  "fst (consume_issued_actor_proof None
     (sample_evidence\<lparr>ev_nonce_hash := 11, ev_message_hash := 12, ev_challenge_hash := 13,
        ev_correlation_hash := 14\<rparr>) sample_challenge 130 sample_spent_store) \<noteq> Inr ()"
  using challenge_is_spent_at_most_once [OF sample_issued_reachable sample_consume rtranclp.rtrancl_refl refl]
  by blast

theorem replay_clock_is_monotone_and_errors_roll_back_witness:
  "snd (consume_issued_actor_proof None sample_evidence sample_challenge 130 sample_spent_store)
     = sample_spent_store"
proof -
  have "fst (consume_issued_actor_proof None sample_evidence sample_challenge 130 sample_spent_store) \<noteq> Inr ()"
    by (rule recorded_blocks [where p = sample_evidence, THEN conjunct2])
      (simp_all add: proof_recorded_def sample_spent_store_def same_evidence_def)
  then obtain e where "fst (consume_issued_actor_proof None sample_evidence sample_challenge 130 sample_spent_store) = Inl e"
    by (cases "fst (consume_issued_actor_proof None sample_evidence sample_challenge 130 sample_spent_store)") auto
  with replay_clock_is_monotone_and_errors_roll_back [OF sample_consume rtranclp.rtrancl_refl]
  show ?thesis by blast
qed

text \<open>
  The schema gate fails closed. Opening a database succeeds only if it was readable and not newer
  than this build, and only with the file at exactly the supported schema version afterwards; a newer
  file is refused before any migration runs.
\<close>

theorem migrations_end_at_the_supported_schema:
  "(run_migrations probe read to_latest db = Inr db' \<longrightarrow>
      schema_version (read db') = Inr SCHEMA_VERSION \<and> to_latest db = Inr db'
      \<and> (\<exists>v. schema_version (read db) = Inr v \<and> v \<le> SCHEMA_VERSION))
   \<and> (probe db = Inr x \<and> schema_version (read db) = Inr v \<and> v > SCHEMA_VERSION \<longrightarrow>
      run_migrations probe read to_latest db = Inl (SchemaFromNewerBuild v SCHEMA_VERSION))"
  by (auto simp: run_migrations_def rbind_Inr_conv not_less split: if_splits)

theorem migrations_end_at_the_supported_schema_witness:
  "schema_version (Inr 8) = Inr SCHEMA_VERSION \<and> run_migrations Inr Inr (\<lambda>_. Inr 8) 7 = Inr 8"
proof -
  have "run_migrations Inr Inr (\<lambda>_. Inr 8) 7 = Inr (8::int)"
    by (simp add: run_migrations_def schema_version_def SCHEMA_VERSION_def)
  with migrations_end_at_the_supported_schema [of Inr Inr "\<lambda>_. Inr 8" "7::int" 8] show ?thesis by simp
qed

end
