(* ===== verification/Gateway_Attestation.thy ===== *)
theory Gateway_Attestation
  imports Gateway_Bytes Gateway_Replay Gateway_Authorization Gateway_Protocol
begin

text \<open>
  Verification of remote actor proofs: \<^verbatim>\<open>src/crates/identity/src/actor_attestation.rs\<close> (challenges and
  signed claims) and \<^verbatim>\<open>src/crates/identity/src/actor_issuer_policy.rs\<close> (the owner-pinned issuer keys), on
  top of the replay store of \<^verbatim>\<open>Gateway_Replay\<close>.

  \<open>toolkit\<close> collects what the code takes from other packages: SHA-256, URL-safe Base64, Ed25519, the
  typed JSON parsers and the canonical JSON printer. No property assumes more of them than that they are
  functions; where a conclusion depends on SHA-256, it says "or two different inputs with the same
  digest are known", and names them. Unix times are \<open>int\<close> with the saturation of \<open>i64\<close> written out.
\<close>

type_synonym signature = "byte list"

datatype verifying_key = VerifyingKey (key_bytes: "byte list")

datatype attestation_error = AttInvalid | AttReplay | AttStorageUnavailable

record actor_claims =
  ac_contract_version :: string
  ac_issuer :: string
  ac_key_id :: string
  ac_alg :: string
  ac_subject :: string
  ac_client_id :: string
  ac_audience :: string
  ac_resource :: string
  ac_device_id :: string
  ac_workspace_id :: string
  ac_message_id :: string
  ac_correlation_id :: string
  ac_request_sha256 :: string
  ac_channel_binding_sha256 :: string
  ac_gateway_challenge :: string
  ac_connection_epoch :: string
  ac_issued_at :: unix
  ac_expires_at :: unix
  ac_nonce :: string

record signed_actor_claims =
  sc_payload :: actor_claims
  sc_signature :: string

record canonical_operation =
  co_method :: string
  co_tool :: string
  co_arguments :: json
  co_device_id :: string
  co_workspace_id :: string
  co_message_id :: string
  co_correlation_id :: string
  co_effect :: string

record expected_actor_request =
  xr_canonical_operation :: "byte list"
  xr_device_id :: string
  xr_workspace_id :: string
  xr_message_id :: string
  xr_correlation_id :: string
  xr_challenge :: string
  xr_challenge_issued_at :: unix
  xr_challenge_expires_at :: unix
  xr_connection_epoch :: string
  xr_transport_binding :: string
  xr_audience :: string
  xr_resource :: string
  xr_now_unix :: unix

record local_gateway_channel =
  lc_device_id :: string
  lc_workspace_id :: string
  lc_connection_epoch :: string
  lc_transport_binding :: string
  lc_now_unix :: unix

record gateway_issued_challenge =
  gc_challenge :: string
  gc_issued_at :: unix
  gc_expires_at :: unix

record pinned_actor_issuer =
  pi_issuer :: string
  pi_key_id :: string
  pi_public_key :: verifying_key

record toolkit =
  k_sha256 :: "byte list \<Rightarrow> digest"
  k_b64_encode :: "byte list \<Rightarrow> string"
  k_b64_decode :: "string \<Rightarrow> byte list option"
  k_signature :: "byte list \<Rightarrow> signature option"
  k_verify_strict :: "verifying_key \<Rightarrow> byte list \<Rightarrow> signature \<Rightarrow> bool"
  k_key_from_bytes :: "byte list \<Rightarrow> verifying_key option"
  k_parse_signed :: "byte list \<Rightarrow> signed_actor_claims option"
  k_jcs_signed :: "signed_actor_claims \<Rightarrow> byte list option"
  k_jcs_claims :: "actor_claims \<Rightarrow> byte list option"
  k_parse_operation :: "byte list \<Rightarrow> canonical_operation option"
  k_jcs_operation :: "canonical_operation \<Rightarrow> byte list option"

section \<open>Claims and digests\<close>

definition DOMAIN :: string where
  "DOMAIN = ''kicad-mcp/actor-attestation/v1'' @ [CHR 0x0A]"

definition MAX_ASSERTION_BYTES :: nat where "MAX_ASSERTION_BYTES = 8192"
definition MAX_REQUEST_BYTES :: nat where "MAX_REQUEST_BYTES = 1024 * 1024"
definition MAX_LIFETIME_SECONDS :: int where "MAX_LIFETIME_SECONDS = 60"
definition MAX_CLOCK_SKEW_SECONDS :: int where "MAX_CLOCK_SKEW_SECONDS = 15"

definition sat64 :: "int \<Rightarrow> int" where
  "sat64 x = max (- (2 ^ 63)) (min (2 ^ 63 - 1) x)"

definition safe_claim :: "string \<Rightarrow> bool" where
  "safe_claim s \<longleftrightarrow> trim s \<noteq> [] \<and> utf8_len s \<le> 256 \<and> \<not> list_ex is_control s"

definition fingerprint :: "toolkit \<Rightarrow> string list \<Rightarrow> digest" where
  "fingerprint K parts = k_sha256 K (frame_parts parts)"

definition digest_hex :: "digest \<Rightarrow> string" where
  "digest_hex d = hex (be_bytes 32 (unat d))"

definition error_from_replay :: "actor_replay_error \<Rightarrow> attestation_error" where
  "error_from_replay e = (case e of Replay \<Rightarrow> AttReplay | _ \<Rightarrow> AttStorageUnavailable)"

section \<open>Challenges\<close>

definition issue_binding ::
  "toolkit \<Rightarrow> string \<Rightarrow> string \<Rightarrow> string \<Rightarrow> string \<Rightarrow> string \<Rightarrow> unix \<Rightarrow> unix \<Rightarrow> issued_actor_challenge" where
  "issue_binding K challenge device workspace epoch binding issued expires =
     \<lparr>ch_challenge_hash = fingerprint K [''gateway-actor-challenge-v1'', challenge],
      ch_device_hash = fingerprint K [''device'', device],
      ch_workspace_hash = fingerprint K [''workspace'', workspace],
      ch_epoch_hash = fingerprint K [''epoch'', epoch],
      ch_channel_hash = fingerprint K [''channel'', binding],
      ch_issued_at = issued,
      ch_expires_at = expires\<rparr>"

text \<open>The 32 random bytes are an argument: \<open>None\<close> when the operating system has none.\<close>

definition issue_gateway_challenge ::
  "toolkit \<Rightarrow> replay_fault option \<Rightarrow> byte list option \<Rightarrow> local_gateway_channel \<Rightarrow> replay_store
   \<Rightarrow> (attestation_error + gateway_issued_challenge) \<times> replay_store" where
  "issue_gateway_challenge K fault rnd lc st =
     (if \<not> safe_claim (lc_device_id lc) \<or> \<not> safe_claim (lc_workspace_id lc)
         \<or> \<not> safe_claim (lc_connection_epoch lc) \<or> \<not> safe_claim (lc_transport_binding lc)
         \<or> lc_now_unix lc \<le> 0
      then (Inl AttInvalid, st)
      else if lc_now_unix lc + 60 > 2 ^ 63 - 1 then (Inl AttInvalid, st)
      else
        (case rnd of
           None \<Rightarrow> (Inl AttStorageUnavailable, st)
         | Some bytes \<Rightarrow>
             let challenge = k_b64_encode K bytes;
                 (res, st') = register_actor_challenge fault
                   (issue_binding K challenge (lc_device_id lc) (lc_workspace_id lc) (lc_connection_epoch lc)
                      (lc_transport_binding lc) (lc_now_unix lc) (lc_now_unix lc + 60)) st in
             (case res of
                Inl e \<Rightarrow> (Inl (error_from_replay e), st')
              | Inr _ \<Rightarrow> (Inr \<lparr>gc_challenge = challenge, gc_issued_at = lc_now_unix lc,
                                gc_expires_at = lc_now_unix lc + 60\<rparr>, st'))))"

section \<open>The stages of verification\<close>

definition ensure :: "bool \<Rightarrow> attestation_error + unit" where
  "ensure b = (if b then Inr () else Inl AttInvalid)"

definition check_signer_policy :: "actor_claims \<Rightarrow> pinned_actor_issuer \<Rightarrow> attestation_error + unit" where
  "check_signer_policy c policy = ensure
     (ac_contract_version c = ''actor-attestation/v1'' \<and> ac_alg c = ''Ed25519''
      \<and> ac_issuer c = pi_issuer policy \<and> ac_key_id c = pi_key_id policy
      \<and> safe_claim (pi_issuer policy) \<and> safe_claim (pi_key_id policy))"

definition check_local_binding :: "actor_claims \<Rightarrow> expected_actor_request \<Rightarrow> attestation_error + unit" where
  "check_local_binding c x = ensure
     (ac_audience c = xr_audience x \<and> ac_resource c = xr_resource x \<and> ac_device_id c = xr_device_id x
      \<and> ac_workspace_id c = xr_workspace_id x \<and> ac_message_id c = xr_message_id x
      \<and> ac_correlation_id c = xr_correlation_id x \<and> ac_gateway_challenge c = xr_challenge x
      \<and> ac_connection_epoch c = xr_connection_epoch x)"

definition check_claim_shapes :: "actor_claims \<Rightarrow> expected_actor_request \<Rightarrow> attestation_error + unit" where
  "check_claim_shapes c x = ensure
     (safe_claim (ac_subject c) \<and> safe_claim (ac_client_id c) \<and> safe_claim (ac_nonce c)
      \<and> safe_claim (ac_gateway_challenge c) \<and> safe_claim (ac_connection_epoch c)
      \<and> safe_claim (xr_transport_binding x) \<and> safe_claim (ac_message_id c)
      \<and> safe_claim (ac_correlation_id c) \<and> safe_claim (ac_device_id c) \<and> safe_claim (ac_workspace_id c))"

definition check_freshness :: "actor_claims \<Rightarrow> unix \<Rightarrow> attestation_error + unit" where
  "check_freshness c now = ensure
     (\<not> (ac_issued_at c > sat64 (now + MAX_CLOCK_SKEW_SECONDS) \<or> ac_expires_at c < now
         \<or> ac_expires_at c \<le> ac_issued_at c
         \<or> sat64 (ac_expires_at c - ac_issued_at c) > MAX_LIFETIME_SECONDS))"

definition is_object :: "json \<Rightarrow> bool" where
  "is_object j = (case j of JObject _ \<Rightarrow> True | _ \<Rightarrow> False)"

definition check_canonical_request ::
  "toolkit \<Rightarrow> actor_claims \<Rightarrow> expected_actor_request \<Rightarrow> attestation_error + unit" where
  "check_canonical_request K c x =
     rbind (ok_or AttInvalid (k_parse_operation K (xr_canonical_operation x))) (\<lambda>op.
     rbind (ok_or AttInvalid (k_jcs_operation K op)) (\<lambda>bytes.
     rbind (ensure (bytes = xr_canonical_operation x \<and> co_method op = ''tools/call''
        \<and> safe_claim (co_tool op) \<and> safe_claim (co_effect op) \<and> is_object (co_arguments op)
        \<and> co_device_id op = ac_device_id c \<and> co_workspace_id op = ac_workspace_id c
        \<and> co_message_id op = ac_message_id c \<and> co_correlation_id op = ac_correlation_id c)) (\<lambda>_.
     ensure (ac_request_sha256 c = digest_hex (k_sha256 K (xr_canonical_operation x))
        \<and> ac_channel_binding_sha256 c = digest_hex (k_sha256 K (utf8 (xr_transport_binding x)))))))"

definition check_challenge_window :: "actor_claims \<Rightarrow> expected_actor_request \<Rightarrow> attestation_error + unit" where
  "check_challenge_window c x = ensure
     (\<not> (ac_issued_at c < sat64 (xr_challenge_issued_at x - MAX_CLOCK_SKEW_SECONDS)
         \<or> ac_expires_at c > sat64 (xr_challenge_expires_at x + MAX_CLOCK_SKEW_SECONDS)))"

definition check_signature ::
  "toolkit \<Rightarrow> signed_actor_claims \<Rightarrow> pinned_actor_issuer \<Rightarrow> attestation_error + unit" where
  "check_signature K sc policy =
     rbind (ok_or AttInvalid (k_b64_decode K (sc_signature sc))) (\<lambda>sig_bytes.
     rbind (ok_or AttInvalid (k_signature K sig_bytes)) (\<lambda>sig.
     rbind (ok_or AttInvalid (k_jcs_claims K (sc_payload sc))) (\<lambda>payload.
     ensure (k_verify_strict K (pi_public_key policy) (utf8 DOMAIN @ payload) sig))))"

definition actor_replay_evidence_of :: "toolkit \<Rightarrow> actor_claims \<Rightarrow> actor_replay_evidence" where
  "actor_replay_evidence_of K c =
     \<lparr>ev_issuer = ac_issuer c,
      ev_nonce_hash = fingerprint K [ac_issuer c, ac_nonce c],
      ev_message_hash = fingerprint K [ac_issuer c, ac_message_id c],
      ev_challenge_hash = fingerprint K [ac_issuer c, ac_device_id c, ac_connection_epoch c, ac_gateway_challenge c],
      ev_correlation_hash =
        fingerprint K [ac_issuer c, ac_subject c, ac_device_id c, ac_connection_epoch c, ac_correlation_id c],
      ev_expires_at = ac_expires_at c\<rparr>"

definition expected_binding :: "toolkit \<Rightarrow> expected_actor_request \<Rightarrow> issued_actor_challenge" where
  "expected_binding K x =
     issue_binding K (xr_challenge x) (xr_device_id x) (xr_workspace_id x) (xr_connection_epoch x)
       (xr_transport_binding x) (xr_challenge_issued_at x) (xr_challenge_expires_at x)"

definition actor_principal :: "toolkit \<Rightarrow> actor_claims \<Rightarrow> expected_actor_request \<Rightarrow> verified_principal" where
  "actor_principal K c x =
     \<lparr>vp_issuer = ac_issuer c,
      vp_subject = ac_subject c,
      vp_account_or_tenant = None,
      vp_client_or_agent = Some (ac_client_id c),
      vp_authentication_strength = ''signed_request_bound_ed25519'',
      vp_verification_source = AuthenticatedTransport,
      vp_transport_binding = digest_hex (fingerprint K
        [ac_issuer c, ac_subject c, ac_client_id c, ac_device_id c, xr_transport_binding x])\<rparr>"

text \<open>Everything before the store is touched; no stage writes.\<close>

definition verify_actor_assertion ::
  "toolkit \<Rightarrow> byte list \<Rightarrow> pinned_actor_issuer \<Rightarrow> expected_actor_request \<Rightarrow> attestation_error + actor_claims" where
  "verify_actor_assertion K proof_bytes policy x =
     rbind (ensure (\<not> (length proof_bytes > MAX_ASSERTION_BYTES
         \<or> length (xr_canonical_operation x) > MAX_REQUEST_BYTES))) (\<lambda>_.
     rbind (ok_or AttInvalid (k_parse_signed K proof_bytes)) (\<lambda>sc.
     rbind (ok_or AttInvalid (k_jcs_signed K sc)) (\<lambda>bytes.
     rbind (ensure (bytes = proof_bytes)) (\<lambda>_.
     let c = sc_payload sc in
     rbind (check_signer_policy c policy) (\<lambda>_.
     rbind (check_local_binding c x) (\<lambda>_.
     rbind (check_claim_shapes c x) (\<lambda>_.
     rbind (check_freshness c (xr_now_unix x)) (\<lambda>_.
     rbind (check_challenge_window c x) (\<lambda>_.
     rbind (check_canonical_request K c x) (\<lambda>_.
     rbind (check_signature K sc policy) (\<lambda>_.
     Inr c)))))))))))"

definition verify_and_consume_actor_assertion ::
  "toolkit \<Rightarrow> replay_fault option \<Rightarrow> byte list \<Rightarrow> pinned_actor_issuer \<Rightarrow> expected_actor_request \<Rightarrow> replay_store
   \<Rightarrow> (attestation_error + verified_principal) \<times> replay_store" where
  "verify_and_consume_actor_assertion K fault proof_bytes policy x st =
     (case verify_actor_assertion K proof_bytes policy x of
        Inl e \<Rightarrow> (Inl e, st)
      | Inr c \<Rightarrow>
          (case consume_issued_actor_proof fault (actor_replay_evidence_of K c) (expected_binding K x)
             (xr_now_unix x) st of
             (Inl e, st') \<Rightarrow> (Inl (error_from_replay e), st')
           | (Inr _, st') \<Rightarrow> (Inr (actor_principal K c x), st')))"

section \<open>Owner-pinned issuer keys\<close>

datatype actor_issuer_key_state = KeyActive | KeyRevoked

record owner_pinned_actor_key =
  ok_issuer :: string
  ok_key_id :: string
  ok_public_key :: verifying_key
  ok_valid_from_unix :: unix
  ok_valid_until_unix :: unix
  ok_state :: actor_issuer_key_state

definition MAX_PINNED_KEYS :: nat where "MAX_PINNED_KEYS = 32"

definition allowed_id :: "string \<Rightarrow> bool" where
  "allowed_id v \<longleftrightarrow> v \<noteq> [] \<and> v = trim v \<and> utf8_len v \<le> 256 \<and> \<not> list_ex is_control v"

fun pin_keys ::
  "(string \<times> string) list \<Rightarrow> byte list list \<Rightarrow> owner_pinned_actor_key list \<Rightarrow> attestation_error + unit" where
  "pin_keys names public_keys [] = Inr ()"
| "pin_keys names public_keys (k # ks) =
     (if \<not> (allowed_id (ok_issuer k) \<and> allowed_id (ok_key_id k))
         \<or> \<not> (ok_valid_from_unix k > 0 \<and> ok_valid_until_unix k > ok_valid_from_unix k)
      then Inl AttInvalid
      else if (ok_issuer k, ok_key_id k) \<in> set names \<or> key_bytes (ok_public_key k) \<in> set public_keys
      then Inl AttInvalid
      else pin_keys ((ok_issuer k, ok_key_id k) # names) (key_bytes (ok_public_key k) # public_keys) ks)"

definition pinned_issuers_new ::
  "owner_pinned_actor_key list \<Rightarrow> attestation_error + owner_pinned_actor_key list" where
  "pinned_issuers_new ks =
     (if ks = [] \<or> length ks > MAX_PINNED_KEYS then Inl AttInvalid
      else rbind (pin_keys [] [] ks) (\<lambda>_. Inr ks))"

definition select_issuer_key ::
  "toolkit \<Rightarrow> owner_pinned_actor_key list \<Rightarrow> byte list \<Rightarrow> expected_actor_request
   \<Rightarrow> attestation_error + owner_pinned_actor_key" where
  "select_issuer_key K ks proof_bytes x =
     rbind (ensure (\<not> length proof_bytes > MAX_ASSERTION_BYTES)) (\<lambda>_.
     rbind (ok_or AttInvalid (k_parse_signed K proof_bytes)) (\<lambda>sc.
     let c = sc_payload sc in
     rbind (ok_or AttInvalid (List.find (\<lambda>k. ok_issuer k = ac_issuer c \<and> ok_key_id k = ac_key_id c) ks)) (\<lambda>k.
     rbind (ensure (\<not> (ok_state k \<noteq> KeyActive \<or> ac_issued_at c < ok_valid_from_unix k
        \<or> ac_expires_at c > ok_valid_until_unix k \<or> xr_now_unix x < ok_valid_from_unix k
        \<or> xr_now_unix x > ok_valid_until_unix k))) (\<lambda>_.
     Inr k))))"

definition issuers_verify_and_consume ::
  "toolkit \<Rightarrow> replay_fault option \<Rightarrow> owner_pinned_actor_key list \<Rightarrow> byte list \<Rightarrow> expected_actor_request
   \<Rightarrow> replay_store \<Rightarrow> (attestation_error + verified_principal) \<times> replay_store" where
  "issuers_verify_and_consume K fault ks proof_bytes x st =
     (case select_issuer_key K ks proof_bytes x of
        Inl e \<Rightarrow> (Inl e, st)
      | Inr k \<Rightarrow>
          verify_and_consume_actor_assertion K fault proof_bytes
            \<lparr>pi_issuer = ok_issuer k, pi_key_id = ok_key_id k, pi_public_key = ok_public_key k\<rparr> x st)"

section \<open>Lemmas\<close>

lemma ensure_conv [simp]: "ensure b = Inr u \<longleftrightarrow> b" "ensure b = Inl e \<longleftrightarrow> \<not> b \<and> e = AttInvalid"
  by (auto simp: ensure_def)

lemma safe_claim_not_blank: "safe_claim s \<Longrightarrow> \<not> blank s"
  by (simp add: safe_claim_def trim_Nil_iff_blank)

lemma safe_claim_len: "safe_claim s \<Longrightarrow> utf8_len s \<le> 256"
  by (simp add: safe_claim_def)

text \<open>What a verified assertion establishes, stage by stage.\<close>

definition signed_by :: "toolkit \<Rightarrow> verifying_key \<Rightarrow> signed_actor_claims \<Rightarrow> bool" where
  "signed_by K key sc \<longleftrightarrow> (\<exists>bytes sig payload. k_b64_decode K (sc_signature sc) = Some bytes
     \<and> k_signature K bytes = Some sig \<and> k_jcs_claims K (sc_payload sc) = Some payload
     \<and> k_verify_strict K key (utf8 DOMAIN @ payload) sig)"

definition bound_to :: "toolkit \<Rightarrow> actor_claims \<Rightarrow> expected_actor_request \<Rightarrow> bool" where
  "bound_to K c x \<longleftrightarrow>
     ac_audience c = xr_audience x \<and> ac_resource c = xr_resource x \<and> ac_device_id c = xr_device_id x
     \<and> ac_workspace_id c = xr_workspace_id x \<and> ac_message_id c = xr_message_id x
     \<and> ac_correlation_id c = xr_correlation_id x \<and> ac_gateway_challenge c = xr_challenge x
     \<and> ac_connection_epoch c = xr_connection_epoch x
     \<and> ac_request_sha256 c = digest_hex (k_sha256 K (xr_canonical_operation x))
     \<and> ac_channel_binding_sha256 c = digest_hex (k_sha256 K (utf8 (xr_transport_binding x)))
     \<and> (\<exists>op. k_parse_operation K (xr_canonical_operation x) = Some op
          \<and> k_jcs_operation K op = Some (xr_canonical_operation x)
          \<and> co_method op = ''tools/call'' \<and> co_device_id op = xr_device_id x
          \<and> co_workspace_id op = xr_workspace_id x \<and> co_message_id op = xr_message_id x)"

lemma verified_assertion:
  assumes "verify_actor_assertion K bytes policy x = Inr c"
  obtains sc where "k_parse_signed K bytes = Some sc" and "k_jcs_signed K sc = Some bytes" and "sc_payload sc = c"
    and "signed_by K (pi_public_key policy) sc" and "ac_issuer c = pi_issuer policy"
    and "ac_key_id c = pi_key_id policy" and "bound_to K c x" and "safe_claim (ac_issuer c)"
    and "safe_claim (ac_subject c)" and "check_claim_shapes c x = Inr ()"
    and "xr_now_unix x \<le> ac_expires_at c"
proof -
  from assms obtain sc where sc: "k_parse_signed K bytes = Some sc" "k_jcs_signed K sc = Some bytes" "sc_payload sc = c"
    and stages: "check_signer_policy c policy = Inr ()" "check_local_binding c x = Inr ()"
      "check_claim_shapes c x = Inr ()" "check_freshness c (xr_now_unix x) = Inr ()"
      "check_canonical_request K c x = Inr ()" "check_signature K sc policy = Inr ()"
    by (auto simp: verify_actor_assertion_def rbind_Inr_conv Let_def)
  have "signed_by K (pi_public_key policy) sc"
    using stages(6) by (auto simp: check_signature_def rbind_Inr_conv signed_by_def)
  moreover have "bound_to K c x"
    using stages(2,5) by (auto simp: check_local_binding_def check_canonical_request_def rbind_Inr_conv bound_to_def)
  ultimately show thesis
    using that [OF sc] stages
    by (auto simp: check_signer_policy_def check_claim_shapes_def check_freshness_def)
qed

lemma selected_issuer_key:
  assumes "select_issuer_key K ks bytes x = Inr k"
  shows "k \<in> set ks \<and> ok_state k = KeyActive
    \<and> ok_valid_from_unix k \<le> xr_now_unix x \<and> xr_now_unix x \<le> ok_valid_until_unix k"
  using assms by (auto simp: select_issuer_key_def rbind_Inr_conv Let_def find_Some_iff)

text \<open>The record of an accepted proof: the facts that hold of it from the moment it is accepted.\<close>

record accepted_proof =
  ap_claims :: actor_claims
  ap_expected :: expected_actor_request
  ap_key :: owner_pinned_actor_key
  ap_principal :: verified_principal

definition proof_holds :: "toolkit \<Rightarrow> owner_pinned_actor_key list \<Rightarrow> accepted_proof \<Rightarrow> bool" where
  "proof_holds K ks a \<longleftrightarrow>
     (\<exists>sc. sc_payload sc = ap_claims a \<and> signed_by K (ok_public_key (ap_key a)) sc)
     \<and> ap_key a \<in> set ks \<and> ok_state (ap_key a) = KeyActive
     \<and> ok_valid_from_unix (ap_key a) \<le> xr_now_unix (ap_expected a)
     \<and> xr_now_unix (ap_expected a) \<le> ok_valid_until_unix (ap_key a)
     \<and> ac_issuer (ap_claims a) = ok_issuer (ap_key a) \<and> ac_key_id (ap_claims a) = ok_key_id (ap_key a)
     \<and> bound_to K (ap_claims a) (ap_expected a)
     \<and> ap_principal a = actor_principal K (ap_claims a) (ap_expected a)
     \<and> safe_claim (ac_issuer (ap_claims a)) \<and> has_required_binding_fields (ap_principal a)
     \<and> check_claim_shapes (ap_claims a) (ap_expected a) = Inr ()
     \<and> xr_now_unix (ap_expected a) \<le> ac_expires_at (ap_claims a)"

lemma actor_principal_binds:
  assumes "safe_claim (ac_issuer c)" and "safe_claim (ac_subject c)"
  shows "has_required_binding_fields (actor_principal K c x)"
proof -
  have "be_bytes 32 n \<noteq> []" for n using length_be_bytes [of 32 n] by (metis list.size(3) zero_neq_numeral)
  then have "\<not> blank (digest_hex d)" for d unfolding digest_hex_def by (rule hex_not_blank)
  with assms show ?thesis
    by (simp add: has_required_binding_fields_def actor_principal_def safe_claim_not_blank)
      (simp add: blank_def is_white_def)
qed

lemma accepted_assertion:
  assumes "issuers_verify_and_consume K fault ks bytes x st = (Inr vp, st')"
  obtains a where "ap_expected a = x" and "ap_principal a = vp" and "proof_holds K ks a"
    and "consume_issued_actor_proof fault (actor_replay_evidence_of K (ap_claims a)) (expected_binding K x)
           (xr_now_unix x) st = (Inr (), st')"
proof -
  from assms obtain k where k: "select_issuer_key K ks bytes x = Inr k"
    and v: "verify_and_consume_actor_assertion K fault bytes
      \<lparr>pi_issuer = ok_issuer k, pi_key_id = ok_key_id k, pi_public_key = ok_public_key k\<rparr> x st = (Inr vp, st')"
    by (auto simp: issuers_verify_and_consume_def split: sum.splits)
  from v obtain c where c: "verify_actor_assertion K bytes
      \<lparr>pi_issuer = ok_issuer k, pi_key_id = ok_key_id k, pi_public_key = ok_public_key k\<rparr> x = Inr c"
    and used: "consume_issued_actor_proof fault (actor_replay_evidence_of K c) (expected_binding K x)
      (xr_now_unix x) st = (Inr (), st')" and vp: "vp = actor_principal K c x"
    by (auto simp: verify_and_consume_actor_assertion_def split: sum.splits prod.splits)
  from verified_assertion [OF c] selected_issuer_key [OF k] actor_principal_binds [of c K x]
  have "proof_holds K ks \<lparr>ap_claims = c, ap_expected = x, ap_key = k, ap_principal = vp\<rparr>"
    unfolding proof_holds_def vp by (metis (no_types, lifting) accepted_proof.select_convs pinned_actor_issuer.select_convs)
  with used vp show thesis
    by (intro that [of "\<lparr>ap_claims = c, ap_expected = x, ap_key = k, ap_principal = vp\<rparr>"]) simp_all
qed

section \<open>Runs of the Gateway\<close>

text \<open>
  A run issues challenges and verifies proofs in any order, at any times, with any faults, any key lists
  and any random bytes; the second component remembers what was issued to which channel, the third what
  was accepted (newest first).
\<close>

type_synonym issued = "(local_gateway_channel \<times> gateway_issued_challenge) list"

inductive attestation_run :: "toolkit \<Rightarrow> replay_store \<Rightarrow> issued \<Rightarrow> accepted_proof list \<Rightarrow> bool" for K where
  start: "attestation_run K (empty_replay_store t) [] []"
| issue: "\<lbrakk>attestation_run K st I A; issue_gateway_challenge K fault rnd lc st = (Inr gc, st')\<rbrakk>
    \<Longrightarrow> attestation_run K st' ((lc, gc) # I) A"
| issue_failed: "\<lbrakk>attestation_run K st I A; issue_gateway_challenge K fault rnd lc st = (Inl e, st')\<rbrakk>
    \<Longrightarrow> attestation_run K st' I A"
| accept: "\<lbrakk>attestation_run K st I A; proof_holds K ks a;
      consume_issued_actor_proof fault (actor_replay_evidence_of K (ap_claims a))
        (expected_binding K (ap_expected a)) (xr_now_unix (ap_expected a)) st = (Inr (), st')\<rbrakk>
    \<Longrightarrow> attestation_run K st' I (a # A)"
| reject: "\<lbrakk>attestation_run K st I A; issuers_verify_and_consume K fault ks bytes x st = (Inl e, st')\<rbrakk>
    \<Longrightarrow> attestation_run K st' I A"

lemma run_accepts:
  assumes "attestation_run K st I A" and "issuers_verify_and_consume K fault ks bytes x st = (Inr vp, st')"
  obtains a where "ap_expected a = x" and "ap_principal a = vp" and "proof_holds K ks a"
    and "attestation_run K st' I (a # A)"
proof -
  obtain a where a: "ap_expected a = x" "ap_principal a = vp" "proof_holds K ks a"
    and u: "consume_issued_actor_proof fault (actor_replay_evidence_of K (ap_claims a)) (expected_binding K x)
      (xr_now_unix x) st = (Inr (), st')"
    by (rule accepted_assertion [OF assms(2)])
  from attestation_run.accept [OF assms(1) a(3)] u a(1) have "attestation_run K st' I (a # A)" by simp
  with a show thesis by (rule that)
qed

lemma issue_succeeds:
  assumes "issue_gateway_challenge K fault rnd lc st = (Inr gc, st')"
  shows "register_actor_challenge fault (issue_binding K (gc_challenge gc) (lc_device_id lc) (lc_workspace_id lc)
      (lc_connection_epoch lc) (lc_transport_binding lc) (gc_issued_at gc) (gc_expires_at gc)) st = (Inr (), st')
    \<and> gc_issued_at gc = lc_now_unix lc \<and> gc_expires_at gc = lc_now_unix lc + 60
    \<and> safe_claim (lc_device_id lc) \<and> safe_claim (lc_workspace_id lc) \<and> safe_claim (lc_connection_epoch lc)
    \<and> safe_claim (lc_transport_binding lc)"
  using assms
  by (auto simp: issue_gateway_challenge_def Let_def split: if_splits option.splits prod.splits sum.splits)

lemma issue_fails: "issue_gateway_challenge K fault rnd lc st = (Inl e, st') \<Longrightarrow> st' = st"
proof -
  assume "issue_gateway_challenge K fault rnd lc st = (Inl e, st')"
  then consider "st' = st" | c e' where "register_actor_challenge fault c st = (Inl e', st')"
    by (auto simp: issue_gateway_challenge_def Let_def split: if_splits option.splits prod.splits sum.splits)
  then show "st' = st" by cases (use replay_step_error(2) in \<open>metis fst_conv snd_conv\<close>)+
qed

lemma verify_fails: "issuers_verify_and_consume K fault ks bytes x st = (Inl e, st') \<Longrightarrow> st' = st"
proof -
  assume "issuers_verify_and_consume K fault ks bytes x st = (Inl e, st')"
  then consider "st' = st" | p b now e' where "consume_issued_actor_proof fault p b now st = (Inl e', st')"
    by (auto simp: issuers_verify_and_consume_def verify_and_consume_actor_assertion_def
        split: sum.splits prod.splits)
  then show "st' = st" by cases (use replay_step_error(3) in \<open>metis fst_conv snd_conv\<close>)+
qed

text \<open>Two texts under the same tag, or a collision of the digest between exactly these two inputs.\<close>

definition same_text :: "toolkit \<Rightarrow> string \<Rightarrow> string \<Rightarrow> string \<Rightarrow> bool" where
  "same_text K tag a b \<longleftrightarrow> a = b \<or>
     (frame_parts [tag, a] \<noteq> frame_parts [tag, b]
      \<and> k_sha256 K (frame_parts [tag, a]) = k_sha256 K (frame_parts [tag, b]))"

definition issued_to ::
  "toolkit \<Rightarrow> expected_actor_request \<Rightarrow> local_gateway_channel \<times> gateway_issued_challenge \<Rightarrow> bool" where
  "issued_to K x i \<longleftrightarrow> (case i of (lc, gc) \<Rightarrow>
     same_text K ''gateway-actor-challenge-v1'' (xr_challenge x) (gc_challenge gc)
     \<and> same_text K ''device'' (xr_device_id x) (lc_device_id lc)
     \<and> same_text K ''workspace'' (xr_workspace_id x) (lc_workspace_id lc)
     \<and> same_text K ''epoch'' (xr_connection_epoch x) (lc_connection_epoch lc)
     \<and> same_text K ''channel'' (xr_transport_binding x) (lc_transport_binding lc)
     \<and> xr_challenge_issued_at x = lc_now_unix lc \<and> xr_challenge_expires_at x = lc_now_unix lc + 60
     \<and> lc_now_unix lc \<le> xr_now_unix x \<and> xr_now_unix x \<le> lc_now_unix lc + 60)"

lemma fingerprint_same_text:
  assumes "fingerprint K [tag, a] = fingerprint K [tag, b]"
  shows "same_text K tag a b"
proof (cases "a = b")
  case False
  have "frame_parts [tag, a] \<noteq> frame_parts [tag, b]"
  proof
    assume "frame_parts [tag, a] = frame_parts [tag, b]"
    then have "utf8 a = utf8 b" by simp
    with False show False by (auto dest: utf8_inject)
  qed
  with assms show ?thesis by (simp add: same_text_def fingerprint_def del: frame_parts_simps)
qed (simp add: same_text_def)

definition row_of :: "toolkit \<Rightarrow> local_gateway_channel \<times> gateway_issued_challenge \<Rightarrow> issued_actor_challenge" where
  "row_of K i = (case i of (lc, gc) \<Rightarrow> issue_binding K (gc_challenge gc) (lc_device_id lc) (lc_workspace_id lc)
     (lc_connection_epoch lc) (lc_transport_binding lc) (gc_issued_at gc) (gc_expires_at gc))"

lemma same_row_issued_to:
  assumes "expected_binding K x = row_of K (lc, gc)" and "gc_issued_at gc = lc_now_unix lc"
    and "gc_expires_at gc = lc_now_unix lc + 60"
    and "xr_challenge_issued_at x \<le> xr_now_unix x" and "xr_now_unix x \<le> xr_challenge_expires_at x"
  shows "issued_to K x (lc, gc)"
  using assms by (auto simp: expected_binding_def row_of_def issue_binding_def issued_to_def
      intro: fingerprint_same_text)

lemma spent_challenge_is_gone:
  assumes "challenge_spent (ch_challenge_hash b) st" shows "(b, False) \<notin> set (rp_challenges st)"
proof
  assume "(b, False) \<in> set (rp_challenges st)"
  moreover from assms obtain c where "ch_challenge_hash c = ch_challenge_hash b" "(c, True) \<in> set (rp_challenges st)"
    and u: "unique_keys (\<lambda>x. ch_challenge_hash (fst x)) (rp_challenges st)"
    unfolding challenge_spent_def by blast
  ultimately show False
    using unique_keys_lookup [OF u, of "(b, False)"] unique_keys_lookup [OF u, of "(c, True)"] by simp
qed

text \<open>
  The invariant of a run: every row of the challenge table was issued, hashes are unique, and every
  accepted proof is recorded and has spent its challenge.
\<close>

definition run_inv :: "toolkit \<Rightarrow> replay_store \<Rightarrow> issued \<Rightarrow> accepted_proof list \<Rightarrow> bool" where
  "run_inv K st I A \<longleftrightarrow> challenges_unique st
     \<and> (\<forall>(b, consumed) \<in> set (rp_challenges st). \<exists>i \<in> set I. b = row_of K i)
     \<and> (\<forall>(lc, gc) \<in> set I. gc_issued_at gc = lc_now_unix lc \<and> gc_expires_at gc = lc_now_unix lc + 60)
     \<and> (\<forall>a \<in> set A. proof_recorded (actor_replay_evidence_of K (ap_claims a)) st
          \<and> challenge_spent (ch_challenge_hash (expected_binding K (ap_expected a))) st)"

lemma run_inv_step:
  assumes "run_inv K st I A" and "replay_step st st'"
  shows "challenges_unique st' \<and> (\<forall>a \<in> set A. proof_recorded (actor_replay_evidence_of K (ap_claims a)) st'
          \<and> challenge_spent (ch_challenge_hash (expected_binding K (ap_expected a))) st')"
  using assms challenges_unique_change [OF replay_step_change [OF assms(2)]] recorded.kept [OF assms(2)]
    spent.kept [OF assms(2)]
  by (auto simp: run_inv_def)

lemma run_invariant: "attestation_run K st I A \<Longrightarrow> run_inv K st I A"
proof (induction rule: attestation_run.induct)
  case (start t)
  then show ?case by (simp add: run_inv_def challenges_unique_def unique_keys_def empty_replay_store_def)
next
  case (issue st I A fault rnd lc gc st')
  note r = issue_succeeds [OF issue.hyps(2)]
  have row: "register_actor_challenge fault (row_of K (lc, gc)) st = (Inr (), st')"
    unfolding row_of_def prod.case by (rule r [THEN conjunct1])
  have step: "replay_step st st'" using replay_step.register [of st fault "row_of K (lc, gc)"] row by simp
  show ?case
    using run_inv_step [OF issue.IH step] issue.IH register_actor_challenge_Inr [OF row] r
    by (auto simp: run_inv_def)
next
  case (issue_failed st I A fault rnd lc e st')
  then show ?case using issue_fails by blast
next
  case (accept st I A ks a fault st')
  let ?p = "actor_replay_evidence_of K (ap_claims a)" and ?b = "expected_binding K (ap_expected a)"
  note u = consume_issued_actor_proof_Inr [OF accept.hyps(3)]
  have step: "replay_step st st'"
    using replay_step.consume_issued [of st fault ?p ?b "xr_now_unix (ap_expected a)"] accept.hyps(3) by simp
  note kept = run_inv_step [OF accept.IH step]
  have rows: "set (rp_challenges st') = (\<lambda>(c, consumed). (c, consumed \<or> c = ?b)) ` set (rp_challenges st)"
    using u by (simp add: claim_challenge_def)
  have "proof_recorded ?p st'" using u by (simp add: proof_recorded_def)
  moreover have "(?b, True) \<in> set (rp_challenges st')" unfolding rows using u by force
  with kept have "challenge_spent (ch_challenge_hash ?b) st'"
    unfolding challenge_spent_def challenges_unique_def by blast
  moreover have "\<forall>(b, consumed) \<in> set (rp_challenges st'). \<exists>i \<in> set I. b = row_of K i"
    using accept.IH unfolding rows run_inv_def by auto
  ultimately show ?case using kept accept.IH by (auto simp: run_inv_def)
next
  case (reject st I A fault ks bytes x e st')
  then show ?case using verify_fails by blast
qed

lemma run_accept_fresh:
  assumes "run_inv K st I A"
    and "consume_issued_actor_proof fault (actor_replay_evidence_of K c) (expected_binding K x) now st = (Inr (), st')"
    and "a \<in> set A"
  shows "(ac_issuer c, ac_nonce c) \<noteq> (ac_issuer (ap_claims a), ac_nonce (ap_claims a))"
    and "(ac_issuer c, ac_message_id c) \<noteq> (ac_issuer (ap_claims a), ac_message_id (ap_claims a))"
    and "xr_challenge x \<noteq> xr_challenge (ap_expected a)"
proof -
  note u = consume_issued_actor_proof_Inr [OF assms(2)]
  have rec: "proof_recorded (actor_replay_evidence_of K (ap_claims a)) st"
    and spent: "challenge_spent (ch_challenge_hash (expected_binding K (ap_expected a))) st"
    using assms(1,3) by (simp_all add: run_inv_def)
  have no: "\<not> same_evidence (actor_replay_evidence_of K c) (actor_replay_evidence_of K (ap_claims a))"
    using u rec by (auto simp: list_ex_iff proof_recorded_def)
  show "(ac_issuer c, ac_nonce c) \<noteq> (ac_issuer (ap_claims a), ac_nonce (ap_claims a))"
    and "(ac_issuer c, ac_message_id c) \<noteq> (ac_issuer (ap_claims a), ac_message_id (ap_claims a))"
    using no by (auto simp: same_evidence_def actor_replay_evidence_of_def)
  show "xr_challenge x \<noteq> xr_challenge (ap_expected a)"
  proof
    assume "xr_challenge x = xr_challenge (ap_expected a)"
    then have "ch_challenge_hash (expected_binding K x) = ch_challenge_hash (expected_binding K (ap_expected a))"
      by (simp add: expected_binding_def issue_binding_def)
    with spent spent_challenge_is_gone [of "expected_binding K x" st] u show False by simp
  qed
qed

section \<open>Properties\<close>

text \<open>
  C6: A remote actor is accepted only on a fresh, signed answer to a challenge of this Gateway. In any
  run, when a proof is accepted: its claims carry a signature of a pinned, active, currently valid key
  of the named issuer and match the expected request, its canonical operation and its channel; the
  challenge was issued by this run to the same device, workspace, epoch and channel and its sixty seconds
  are not over (each text equal, or a SHA-256 collision between exactly these two inputs); no earlier
  accepted proof has the same issuer and nonce, the same issuer and message id, or the same challenge;
  and the resulting principal carries all binding fields.
\<close>

theorem accepted_actor_proof_answers_a_fresh_issued_challenge:
  assumes "attestation_run K st I A" and "issuers_verify_and_consume K fault ks bytes x st = (Inr vp, st')"
  shows "\<exists>a. ap_expected a = x \<and> ap_principal a = vp \<and> proof_holds K ks a
    \<and> attestation_run K st' I (a # A)
    \<and> (\<exists>i \<in> set I. issued_to K x i)
    \<and> (\<forall>b \<in> set A.
         (ac_issuer (ap_claims a), ac_nonce (ap_claims a)) \<noteq> (ac_issuer (ap_claims b), ac_nonce (ap_claims b))
         \<and> (ac_issuer (ap_claims a), ac_message_id (ap_claims a))
              \<noteq> (ac_issuer (ap_claims b), ac_message_id (ap_claims b))
         \<and> xr_challenge x \<noteq> xr_challenge (ap_expected b))"
proof -
  note inv = run_invariant [OF assms(1)]
  obtain a where a: "ap_expected a = x" "ap_principal a = vp" "proof_holds K ks a"
    and used: "consume_issued_actor_proof fault (actor_replay_evidence_of K (ap_claims a)) (expected_binding K x)
      (xr_now_unix x) st = (Inr (), st')"
    by (rule accepted_assertion [OF assms(2)])
  have "attestation_run K st' I (a # A)" using attestation_run.accept [OF assms(1) a(3)] used a(1) by simp
  moreover have "\<exists>i \<in> set I. issued_to K x i"
  proof -
    note u = consume_issued_actor_proof_Inr [OF used]
    from u inv obtain lc gc where i: "(lc, gc) \<in> set I" "expected_binding K x = row_of K (lc, gc)"
      unfolding run_inv_def by fastforce
    have t: "ch_issued_at (expected_binding K x) = xr_challenge_issued_at x"
      "ch_expires_at (expected_binding K x) = xr_challenge_expires_at x"
      by (simp_all add: expected_binding_def issue_binding_def)
    have "gc_issued_at gc = lc_now_unix lc" "gc_expires_at gc = lc_now_unix lc + 60"
      using inv i(1) by (auto simp: run_inv_def)
    with i u t have "issued_to K x (lc, gc)" by (intro same_row_issued_to) simp_all
    with i(1) show ?thesis by blast
  qed
  ultimately show ?thesis using a run_accept_fresh [OF inv used] by blast
qed

definition sample_claims :: actor_claims where
  "sample_claims =
     \<lparr>ac_contract_version = ''actor-attestation/v1'', ac_issuer = ''iss'', ac_key_id = ''k1'', ac_alg = ''Ed25519'',
      ac_subject = ''actor'', ac_client_id = ''client'', ac_audience = ''aud'', ac_resource = ''res'',
      ac_device_id = ''dev'', ac_workspace_id = ''wrk'', ac_message_id = ''m1'', ac_correlation_id = ''c1'',
      ac_request_sha256 = digest_hex 1, ac_channel_binding_sha256 = digest_hex 1,
      ac_gateway_challenge = ''chal'', ac_connection_epoch = ''e1'', ac_issued_at = 100, ac_expires_at = 150,
      ac_nonce = ''n1''\<rparr>"

definition sample_expected :: expected_actor_request where
  "sample_expected =
     \<lparr>xr_canonical_operation = [2], xr_device_id = ''dev'', xr_workspace_id = ''wrk'', xr_message_id = ''m1'',
      xr_correlation_id = ''c1'', xr_challenge = ''chal'', xr_challenge_issued_at = 100,
      xr_challenge_expires_at = 160, xr_connection_epoch = ''e1'', xr_transport_binding = ''tls'',
      xr_audience = ''aud'', xr_resource = ''res'', xr_now_unix = 120\<rparr>"

definition sample_toolkit :: toolkit where
  "sample_toolkit =
     \<lparr>k_sha256 = (\<lambda>_. 1),
      k_b64_encode = (\<lambda>bs. if length bs = 64 then ''sig'' else if length bs = 32 then ''pub'' else ''chal''),
      k_b64_decode = (\<lambda>s. Some (replicate (if s = ''sig'' then 64 else 32) 7)),
      k_signature = Some, k_verify_strict = (\<lambda>key msg sig. key \<in> {VerifyingKey [7], VerifyingKey [9]}),
      k_key_from_bytes = (\<lambda>bs. Some (VerifyingKey [hd bs])),
      k_parse_signed = (\<lambda>bytes. if bytes = [1] then Some \<lparr>sc_payload = sample_claims, sc_signature = ''sig''\<rparr> else None),
      k_jcs_signed = (\<lambda>_. Some [1]), k_jcs_claims = (\<lambda>_. Some [3]),
      k_parse_operation = (\<lambda>_. Some \<lparr>co_method = ''tools/call'', co_tool = ''a'', co_arguments = JObject [],
         co_device_id = ''dev'', co_workspace_id = ''wrk'', co_message_id = ''m1'', co_correlation_id = ''c1'',
         co_effect = ''write''\<rparr>),
      k_jcs_operation = (\<lambda>_. Some [2])\<rparr>"

definition sample_key :: owner_pinned_actor_key where
  "sample_key = \<lparr>ok_issuer = ''iss'', ok_key_id = ''k1'', ok_public_key = VerifyingKey [7],
     ok_valid_from_unix = 50, ok_valid_until_unix = 500, ok_state = KeyActive\<rparr>"

definition sample_channel :: local_gateway_channel where
  "sample_channel = \<lparr>lc_device_id = ''dev'', lc_workspace_id = ''wrk'', lc_connection_epoch = ''e1'',
     lc_transport_binding = ''tls'', lc_now_unix = 100\<rparr>"

lemmas claim_simps = safe_claim_def trim_def is_white_def utf8_len_def is_control_def

lemma sample_issue:
  "issue_gateway_challenge sample_toolkit None (Some []) sample_channel (empty_replay_store 0) =
     (Inr \<lparr>gc_challenge = ''chal'', gc_issued_at = 100, gc_expires_at = 160\<rparr>,
      \<lparr>rp_proofs = [], rp_challenges = [(expected_binding sample_toolkit sample_expected, False)],
       rp_clock = Some 100\<rparr>)"
  by (simp add: issue_gateway_challenge_def sample_channel_def claim_simps)
    (simp add: sample_toolkit_def register_actor_challenge_def valid_issued_challenge_def
      begin_limited_write_def require_nondecreasing_local_clock_def empty_replay_store_def commit_def
      expected_binding_def sample_expected_def issue_binding_def fingerprint_def Let_def)

lemma sample_verified:
  "verify_actor_assertion sample_toolkit [1]
     \<lparr>pi_issuer = ''iss'', pi_key_id = ''k1'', pi_public_key = VerifyingKey [7]\<rparr> sample_expected = Inr sample_claims"
proof -
  have "check_claim_shapes sample_claims sample_expected = Inr ()"
    by (simp add: check_claim_shapes_def sample_claims_def sample_expected_def claim_simps)
  moreover have "check_canonical_request sample_toolkit sample_claims sample_expected = Inr ()"
    by (simp add: check_canonical_request_def sample_toolkit_def)
      (simp add: sample_claims_def sample_expected_def claim_simps is_object_def ensure_def)
  ultimately show ?thesis
    by (simp add: verify_actor_assertion_def sample_toolkit_def Let_def)
      (simp add: check_signer_policy_def check_local_binding_def check_freshness_def check_challenge_window_def
        check_signature_def sample_claims_def sample_expected_def MAX_ASSERTION_BYTES_def MAX_REQUEST_BYTES_def
        MAX_CLOCK_SKEW_SECONDS_def MAX_LIFETIME_SECONDS_def sat64_def claim_simps ensure_def)
qed

definition sample_challenge_store :: replay_store where
  "sample_challenge_store = \<lparr>rp_proofs = [],
     rp_challenges = [(expected_binding sample_toolkit sample_expected, False)], rp_clock = Some 100\<rparr>"

lemma sample_run_issued:
  "attestation_run sample_toolkit sample_challenge_store
     [(sample_channel, \<lparr>gc_challenge = ''chal'', gc_issued_at = 100, gc_expires_at = 160\<rparr>)] []"
  by (rule attestation_run.issue [OF attestation_run.start])
    (rule sample_issue [folded sample_challenge_store_def])

lemma sample_accepts:
  "\<exists>vp st'. issuers_verify_and_consume sample_toolkit None [sample_key] [1] sample_expected sample_challenge_store = (Inr vp, st')"
proof -
  let ?b = "expected_binding sample_toolkit sample_expected"
  have "select_issuer_key sample_toolkit [sample_key] [1] sample_expected = Inr sample_key"
    by (simp add: select_issuer_key_def sample_toolkit_def MAX_ASSERTION_BYTES_def ensure_def)
      (simp add: sample_claims_def sample_expected_def sample_key_def)
  moreover have "\<exists>st'. consume_issued_actor_proof None (actor_replay_evidence_of sample_toolkit sample_claims) ?b
      (xr_now_unix sample_expected) sample_challenge_store = (Inr (), st')"
    by (simp add: consume_issued_actor_proof_def sample_challenge_store_def)
      (simp add: valid_issued_challenge_def invalid_evidence_def begin_limited_write_def commit_def
        require_nondecreasing_local_clock_def claim_challenge_def insert_proof_def Let_def
        expected_binding_def issue_binding_def actor_replay_evidence_of_def fingerprint_def
        sample_toolkit_def sample_expected_def sample_claims_def blank_def is_white_def utf8_len_def)
  ultimately show ?thesis
    by (auto simp: issuers_verify_and_consume_def verify_and_consume_actor_assertion_def sample_verified sample_key_def)
qed

theorem accepted_actor_proof_answers_a_fresh_issued_challenge_witness:
  "\<exists>vp st' a. issuers_verify_and_consume sample_toolkit None [sample_key] [1] sample_expected sample_challenge_store
       = (Inr vp, st')
     \<and> ap_principal a = vp \<and> proof_holds sample_toolkit [sample_key] a
     \<and> issued_to sample_toolkit sample_expected
         (sample_channel, \<lparr>gc_challenge = ''chal'', gc_issued_at = 100, gc_expires_at = 160\<rparr>)"
proof -
  obtain vp st' where v: "issuers_verify_and_consume sample_toolkit None [sample_key] [1] sample_expected
      sample_challenge_store = (Inr vp, st')" using sample_accepts by blast
  from accepted_actor_proof_answers_a_fresh_issued_challenge [OF sample_run_issued v] v show ?thesis
    by auto
qed

lemma digest_hex_inject: "digest_hex a = digest_hex b \<Longrightarrow> a = b"
proof -
  assume "digest_hex a = digest_hex b"
  then have "be_bytes 32 (unat a) = be_bytes 32 (unat b)" unfolding digest_hex_def by (rule hex_inject)
  moreover have "unat d < 256 ^ 32" for d :: digest using unsigned_less [of d, where ?'a = nat] by simp
  ultimately have "unat a = unat b" by (intro be_bytes_inject [of 32]) auto
  then show "a = b" by (simp add: word_unat_eq_iff)
qed

definition identity_parts :: "accepted_proof \<Rightarrow> string list" where
  "identity_parts a = [ac_issuer (ap_claims a), ac_subject (ap_claims a), ac_client_id (ap_claims a),
     ac_device_id (ap_claims a), xr_transport_binding (ap_expected a)]"

lemma identity_framable: "proof_holds K ks a \<Longrightarrow> framable (identity_parts a)"
  by (auto simp: proof_holds_def check_claim_shapes_def identity_parts_def framable_def
      dest!: safe_claim_len)

text \<open>
  C9: A verified principal pins the actor and its channel. When two proofs that were accepted, in any runs
  and whatever keys, yield the same principal, they name the same issuer, subject and client, and the
  same device over the same transport channel, or SHA-256 collides on exactly the two framed
  identities. So a grant that is bound to a verified principal serves that actor on that channel only.
\<close>

theorem verified_principal_pins_actor_and_channel:
  assumes "proof_holds K ks a" and "proof_holds K ks' b" and "ap_principal a = ap_principal b"
  shows "ac_issuer (ap_claims a) = ac_issuer (ap_claims b)
    \<and> ac_subject (ap_claims a) = ac_subject (ap_claims b)
    \<and> ac_client_id (ap_claims a) = ac_client_id (ap_claims b)
    \<and> ((xr_device_id (ap_expected a), xr_transport_binding (ap_expected a))
          = (xr_device_id (ap_expected b), xr_transport_binding (ap_expected b))
       \<or> (\<exists>p q. p = frame_parts (identity_parts a) \<and> q = frame_parts (identity_parts b)
            \<and> p \<noteq> q \<and> k_sha256 K p = k_sha256 K q))"
proof -
  have vp: "ap_principal h = actor_principal K (ap_claims h) (ap_expected h)"
    and dev: "ac_device_id (ap_claims h) = xr_device_id (ap_expected h)" if "proof_holds K l h" for l h
    using that by (simp_all add: proof_holds_def bound_to_def)
  have "k_sha256 K (frame_parts (identity_parts a)) = k_sha256 K (frame_parts (identity_parts b))"
    using assms(3) vp [OF assms(1)] vp [OF assms(2)]
    by (auto simp: actor_principal_def fingerprint_def identity_parts_def simp del: frame_parts_simps
        dest!: digest_hex_inject)
  moreover have "identity_parts a = identity_parts b" if "frame_parts (identity_parts a) = frame_parts (identity_parts b)"
    using that identity_framable [OF assms(1)] identity_framable [OF assms(2)] by (rule frame_parts_inject)
  moreover have "ac_issuer (ap_claims a) = ac_issuer (ap_claims b)" "ac_subject (ap_claims a) = ac_subject (ap_claims b)"
    "ac_client_id (ap_claims a) = ac_client_id (ap_claims b)"
    using assms(3) vp [OF assms(1)] vp [OF assms(2)] by (simp_all add: actor_principal_def)
  ultimately show ?thesis
    using dev [OF assms(1)] dev [OF assms(2)]
    by (cases "frame_parts (identity_parts a) = frame_parts (identity_parts b)") (auto simp: identity_parts_def)
qed

definition sample_accepted :: "string \<Rightarrow> accepted_proof" where
  "sample_accepted nonce =
     \<lparr>ap_claims = sample_claims\<lparr>ac_nonce := nonce\<rparr>, ap_expected = sample_expected, ap_key = sample_key,
      ap_principal = actor_principal sample_toolkit sample_claims sample_expected\<rparr>"

lemma sample_accepted_holds:
  assumes "safe_claim nonce" shows "proof_holds sample_toolkit [sample_key] (sample_accepted nonce)"
proof -
  have "signed_by sample_toolkit (VerifyingKey [7]) sc" for sc
    by (simp add: signed_by_def sample_toolkit_def)
  then have "\<exists>sc. sc_payload sc = c \<and> signed_by sample_toolkit (VerifyingKey [7]) sc" for c
    by (metis signed_actor_claims.select_convs(1))
  moreover have "bound_to sample_toolkit (sample_claims\<lparr>ac_nonce := nonce\<rparr>) sample_expected"
    by (simp add: bound_to_def sample_toolkit_def) (simp add: sample_claims_def sample_expected_def)
  moreover have "check_claim_shapes (sample_claims\<lparr>ac_nonce := nonce\<rparr>) sample_expected = Inr ()"
    using assms by (simp add: check_claim_shapes_def sample_claims_def sample_expected_def) (simp add: claim_simps)
  moreover have s: "safe_claim (ac_issuer sample_claims)" "safe_claim (ac_subject sample_claims)"
    by (simp_all add: sample_claims_def claim_simps)
  moreover have "has_required_binding_fields (actor_principal sample_toolkit sample_claims sample_expected)"
    by (rule actor_principal_binds [OF s])
  ultimately show ?thesis
    by (simp add: proof_holds_def sample_accepted_def actor_principal_def)
      (simp add: sample_claims_def sample_expected_def sample_key_def)
qed

theorem verified_principal_pins_actor_and_channel_witness:
  "proof_holds sample_toolkit [sample_key] (sample_accepted ''n1'')
   \<and> proof_holds sample_toolkit [sample_key] (sample_accepted ''n2'')
   \<and> ac_nonce (ap_claims (sample_accepted ''n1'')) \<noteq> ac_nonce (ap_claims (sample_accepted ''n2''))
   \<and> ac_subject (ap_claims (sample_accepted ''n1'')) = ac_subject (ap_claims (sample_accepted ''n2''))"
proof -
  have h: "proof_holds sample_toolkit [sample_key] (sample_accepted ''n1'')"
    "proof_holds sample_toolkit [sample_key] (sample_accepted ''n2'')"
    by (rule sample_accepted_holds; simp add: claim_simps)+
  have "ap_principal (sample_accepted ''n1'') = ap_principal (sample_accepted ''n2'')" by (simp add: sample_accepted_def)
  from verified_principal_pins_actor_and_channel [OF h this] h show ?thesis by (simp add: sample_accepted_def)
qed

end
