(* ===== verification/Gateway_Owner_Policy.thy ===== *)
theory Gateway_Owner_Policy
  imports Gateway_Attestation
begin

text \<open>
  The owner's say over actor issuers: \<^verbatim>\<open>src/crates/identity/src/owner_manifest.rs\<close> (the signed manifest of
  issuer keys) and \<^verbatim>\<open>src/crates/identity/src/owner_policy_authority.rs\<close> (activation of manifests against a
  trusted, monotonic store).

  The trait \<open>TrustedOwnerPolicyStore\<close> is the locale \<open>owner_policy_store\<close>; the repository has one complete
  implementation of it, the test store of \<^verbatim>\<open>src/crates/identity/tests/support/owner_store.rs\<close>, which
  interprets the locale. Reader-writer lock poisoning is the flag \<open>oa_poisoned\<close>.
\<close>

section \<open>Signed manifests\<close>

datatype manifest_key_state = ManifestActive | ManifestRevoked

record manifest_key =
  mk_issuer :: string
  mk_key_id :: string
  mk_public_key :: string
  mk_valid_from_unix :: unix
  mk_valid_until_unix :: unix
  mk_state :: manifest_key_state

record manifest_payload =
  mp_contract_version :: string
  mp_generation :: u64
  mp_issued_at :: unix
  mp_expires_at :: unix
  mp_keys :: "manifest_key list"

record signed_manifest =
  sm_payload :: manifest_payload
  sm_signature :: string

record verified_owner_issuer_manifest =
  vm_generation :: u64
  vm_issued_at :: unix
  vm_expires_at :: unix
  vm_issuers :: "owner_pinned_actor_key list"

text \<open>The manifest's own typed parser and canonical printers.\<close>

record manifest_codec =
  m_parse :: "byte list \<Rightarrow> signed_manifest option"
  m_jcs :: "signed_manifest \<Rightarrow> byte list option"
  m_jcs_payload :: "manifest_payload \<Rightarrow> byte list option"

definition MANIFEST_DOMAIN :: string where
  "MANIFEST_DOMAIN = ''kicad-mcp/owner-issuer-manifest/v1'' @ [CHR 0x0A]"

definition MAX_SIGNED_MANIFEST_BYTES :: nat where "MAX_SIGNED_MANIFEST_BYTES = 16 * 1024"
definition MAX_GENERATION :: u64 where "MAX_GENERATION = 9007199254740991"
definition MAX_MANIFEST_LIFETIME :: int where "MAX_MANIFEST_LIFETIME = 30 * 24 * 60 * 60"

definition manifest_verify_and_consume ::
  "toolkit \<Rightarrow> replay_fault option \<Rightarrow> verified_owner_issuer_manifest \<Rightarrow> byte list \<Rightarrow> expected_actor_request \<Rightarrow> u64
   \<Rightarrow> replay_store \<Rightarrow> (attestation_error + verified_principal) \<times> replay_store" where
  "manifest_verify_and_consume K fault vm proof_bytes x trusted_active_generation st =
     (if vm_generation vm \<noteq> trusted_active_generation \<or> xr_now_unix x < vm_issued_at vm
         \<or> xr_now_unix x \<ge> vm_expires_at vm
      then (Inl AttInvalid, st)
      else issuers_verify_and_consume K fault (vm_issuers vm) proof_bytes x st)"

definition canonical_b64 :: "toolkit \<Rightarrow> string \<Rightarrow> nat \<Rightarrow> attestation_error + byte list" where
  "canonical_b64 K s expected_len =
     rbind (ok_or AttInvalid (k_b64_decode K s)) (\<lambda>bytes.
     rbind (ensure (\<not> (length bytes \<noteq> expected_len \<or> k_b64_encode K bytes \<noteq> s))) (\<lambda>_. Inr bytes))"

definition parse_canonical_manifest :: "manifest_codec \<Rightarrow> byte list \<Rightarrow> attestation_error + signed_manifest" where
  "parse_canonical_manifest M bytes =
     rbind (ensure (\<not> (bytes = [] \<or> length bytes > MAX_SIGNED_MANIFEST_BYTES))) (\<lambda>_.
     rbind (ok_or AttInvalid (m_parse M bytes)) (\<lambda>signed.
     rbind (ok_or AttInvalid (m_jcs M signed)) (\<lambda>canonical.
     rbind (ensure (canonical = bytes)) (\<lambda>_. Inr signed))))"

definition validate_manifest_freshness :: "manifest_payload \<Rightarrow> u64 \<Rightarrow> unix \<Rightarrow> attestation_error + unit" where
  "validate_manifest_freshness p minimum_generation_exclusive now = ensure
     (\<not> (now \<le> 0 \<or> minimum_generation_exclusive \<ge> MAX_GENERATION
         \<or> mp_contract_version p \<noteq> ''owner-issuer-manifest/v1''
         \<or> mp_generation p = 0 \<or> mp_generation p > MAX_GENERATION
         \<or> mp_generation p \<le> minimum_generation_exclusive
         \<or> mp_issued_at p \<le> 0 \<or> mp_issued_at p > now \<or> mp_expires_at p \<le> now
         \<or> mp_expires_at p \<le> mp_issued_at p
         \<or> sat64 (mp_expires_at p - mp_issued_at p) > MAX_MANIFEST_LIFETIME
         \<or> mp_keys p = [] \<or> length (mp_keys p) > 32))"

definition verify_owner_signature ::
  "toolkit \<Rightarrow> manifest_codec \<Rightarrow> signed_manifest \<Rightarrow> verifying_key \<Rightarrow> attestation_error + unit" where
  "verify_owner_signature K M sm root =
     rbind (canonical_b64 K (sm_signature sm) 64) (\<lambda>sig_bytes.
     rbind (ok_or AttInvalid (k_signature K sig_bytes)) (\<lambda>sig.
     rbind (ok_or AttInvalid (m_jcs_payload M (sm_payload sm))) (\<lambda>payload.
     ensure (k_verify_strict K root (utf8 MANIFEST_DOMAIN @ payload) sig))))"

definition approve_manifest_key ::
  "toolkit \<Rightarrow> verifying_key \<Rightarrow> manifest_key \<Rightarrow> attestation_error + owner_pinned_actor_key" where
  "approve_manifest_key K root k =
     rbind (canonical_b64 K (mk_public_key k) 32) (\<lambda>pub_bytes.
     rbind (ok_or AttInvalid (k_key_from_bytes K pub_bytes)) (\<lambda>public_key.
     rbind (ensure (key_bytes public_key \<noteq> key_bytes root)) (\<lambda>_.
     Inr \<lparr>ok_issuer = mk_issuer k, ok_key_id = mk_key_id k, ok_public_key = public_key,
          ok_valid_from_unix = mk_valid_from_unix k, ok_valid_until_unix = mk_valid_until_unix k,
          ok_state = (case mk_state k of ManifestActive \<Rightarrow> KeyActive | ManifestRevoked \<Rightarrow> KeyRevoked)\<rparr>)))"

definition owner_approved_issuer_keys ::
  "toolkit \<Rightarrow> manifest_payload \<Rightarrow> verifying_key \<Rightarrow> attestation_error + owner_pinned_actor_key list" where
  "owner_approved_issuer_keys K p root =
     rbind (collect_results (approve_manifest_key K root) (mp_keys p)) pinned_issuers_new"

definition verify_owner_signed_issuer_manifest ::
  "toolkit \<Rightarrow> manifest_codec \<Rightarrow> byte list \<Rightarrow> verifying_key \<Rightarrow> u64 \<Rightarrow> unix
   \<Rightarrow> attestation_error + verified_owner_issuer_manifest" where
  "verify_owner_signed_issuer_manifest K M bytes root minimum_generation_exclusive now =
     rbind (parse_canonical_manifest M bytes) (\<lambda>signed.
     rbind (validate_manifest_freshness (sm_payload signed) minimum_generation_exclusive now) (\<lambda>_.
     rbind (verify_owner_signature K M signed root) (\<lambda>_.
     rbind (owner_approved_issuer_keys K (sm_payload signed) root) (\<lambda>issuers.
     Inr \<lparr>vm_generation = mp_generation (sm_payload signed), vm_issued_at = mp_issued_at (sm_payload signed),
          vm_expires_at = mp_expires_at (sm_payload signed), vm_issuers = issuers\<rparr>))))"

section \<open>The authority\<close>

record trusted_owner_policy_state =
  ts_root :: verifying_key
  ts_committed_generation :: u64
  ts_committed_manifest_sha256 :: digest

record active_policy =
  pol_manifest :: verified_owner_issuer_manifest
  pol_signed_manifest_sha256 :: digest

record owner_policy_authority =
  oa_root :: verifying_key
  oa_active :: "active_policy option"
  oa_poisoned :: bool

text \<open>The two reads of the store, before and after the signature was checked, are arguments.\<close>

definition from_trusted_store ::
  "toolkit \<Rightarrow> manifest_codec \<Rightarrow> attestation_error + trusted_owner_policy_state
   \<Rightarrow> attestation_error + trusted_owner_policy_state \<Rightarrow> byte list \<Rightarrow> unix \<Rightarrow> attestation_error + owner_policy_authority" where
  "from_trusted_store K M first_read second_read active_manifest now =
     rbind first_read (\<lambda>committed.
     rbind (ensure (\<not> ts_committed_generation committed = 0)) (\<lambda>_.
     rbind (verify_owner_signed_issuer_manifest K M active_manifest (ts_root committed)
              (ts_committed_generation committed - 1) now) (\<lambda>active.
     let sha = k_sha256 K active_manifest in
     rbind (ensure (\<not> (vm_generation active \<noteq> ts_committed_generation committed
        \<or> sha \<noteq> ts_committed_manifest_sha256 committed))) (\<lambda>_.
     rbind second_read (\<lambda>latest.
     if ts_root latest \<noteq> ts_root committed
        \<or> ts_committed_generation latest \<noteq> ts_committed_generation committed
        \<or> ts_committed_manifest_sha256 latest \<noteq> ts_committed_manifest_sha256 committed
     then Inl AttStorageUnavailable
     else Inr \<lparr>oa_root = ts_root committed,
               oa_active = Some \<lparr>pol_manifest = active, pol_signed_manifest_sha256 = sha\<rparr>,
               oa_poisoned = False\<rparr>)))))"

type_synonym 's compare_and_commit =
  "verifying_key \<Rightarrow> u64 \<Rightarrow> digest \<Rightarrow> u64 \<Rightarrow> digest \<Rightarrow> 's \<Rightarrow> (attestation_error + unit) \<times> 's"

definition verify_candidate_commit_and_activate ::
  "toolkit \<Rightarrow> manifest_codec \<Rightarrow> 's compare_and_commit \<Rightarrow> byte list \<Rightarrow> unix \<Rightarrow> owner_policy_authority \<times> 's
   \<Rightarrow> (attestation_error + u64) \<times> owner_policy_authority \<times> 's" where
  "verify_candidate_commit_and_activate K M cas signed_manifest now as =
     (case as of (a, s) \<Rightarrow>
        if oa_poisoned a then (Inl AttStorageUnavailable, a, s)
        else
          (case oa_active a of
             None \<Rightarrow> (Inl AttStorageUnavailable, a, s)
           | Some policy \<Rightarrow>
               let previous = vm_generation (pol_manifest policy);
                   expected_sha = pol_signed_manifest_sha256 policy in
               (case verify_owner_signed_issuer_manifest K M signed_manifest (oa_root a) previous now of
                  Inl e \<Rightarrow> (Inl e, a, s)
                | Inr candidate \<Rightarrow>
                    let generation = vm_generation candidate; next_sha = k_sha256 K signed_manifest in
                    (case cas (oa_root a) previous expected_sha generation next_sha s of
                       (Inl _, s') \<Rightarrow> (Inl AttStorageUnavailable, a\<lparr>oa_active := None\<rparr>, s')
                     | (Inr _, s') \<Rightarrow>
                         (Inr generation,
                          a\<lparr>oa_active := Some \<lparr>pol_manifest = candidate, pol_signed_manifest_sha256 = next_sha\<rparr>\<rparr>,
                          s')))))"

definition verify_actor_and_consume ::
  "toolkit \<Rightarrow> replay_fault option \<Rightarrow> byte list \<Rightarrow> expected_actor_request \<Rightarrow> owner_policy_authority \<Rightarrow> replay_store
   \<Rightarrow> (attestation_error + verified_principal) \<times> replay_store" where
  "verify_actor_and_consume K fault proof_bytes x a st =
     (if oa_poisoned a then (Inl AttStorageUnavailable, st)
      else
        (case oa_active a of
           None \<Rightarrow> (Inl AttStorageUnavailable, st)
         | Some policy \<Rightarrow>
             manifest_verify_and_consume K fault (pol_manifest policy) proof_bytes x
               (vm_generation (pol_manifest policy)) st))"

definition active_generation :: "owner_policy_authority \<Rightarrow> attestation_error + u64" where
  "active_generation a =
     (if oa_poisoned a then Inl AttStorageUnavailable
      else ok_or AttStorageUnavailable (map_option (\<lambda>p. vm_generation (pol_manifest p)) (oa_active a)))"

section \<open>The test store\<close>

datatype failure = NoFailure | BeforeCommit | AfterCommit

record test_owner_store =
  tos_root :: verifying_key
  tos_generation :: u64
  tos_manifest_sha256 :: digest
  tos_failure :: failure

definition test_owner_store_new :: "toolkit \<Rightarrow> verifying_key \<Rightarrow> u64 \<Rightarrow> byte list \<Rightarrow> test_owner_store" where
  "test_owner_store_new K root generation signed_manifest =
     \<lparr>tos_root = root, tos_generation = generation, tos_manifest_sha256 = k_sha256 K signed_manifest,
      tos_failure = NoFailure\<rparr>"

definition test_read_committed :: "test_owner_store \<Rightarrow> attestation_error + trusted_owner_policy_state" where
  "test_read_committed s = Inr \<lparr>ts_root = tos_root s, ts_committed_generation = tos_generation s,
     ts_committed_manifest_sha256 = tos_manifest_sha256 s\<rparr>"

definition test_compare_and_commit :: "test_owner_store compare_and_commit" where
  "test_compare_and_commit root expected_generation expected_sha next_generation next_sha s =
     (if tos_root s \<noteq> root \<or> tos_generation s \<noteq> expected_generation \<or> tos_manifest_sha256 s \<noteq> expected_sha
         \<or> next_generation \<le> expected_generation
      then (Inl AttStorageUnavailable, s)
      else if tos_failure s = BeforeCommit then (Inl AttStorageUnavailable, s)
      else
        let s' = s\<lparr>tos_generation := next_generation, tos_manifest_sha256 := next_sha\<rparr> in
        if tos_failure s = AfterCommit then (Inl AttStorageUnavailable, s') else (Inr (), s'))"

section \<open>What a verified manifest is\<close>

lemma pin_keys_Inr:
  "pin_keys names pubs ks = Inr u \<longleftrightarrow>
     list_all (\<lambda>k. allowed_id (ok_issuer k) \<and> allowed_id (ok_key_id k)
        \<and> 0 < ok_valid_from_unix k \<and> ok_valid_from_unix k < ok_valid_until_unix k) ks
     \<and> distinct (map (\<lambda>k. (ok_issuer k, ok_key_id k)) ks) \<and> distinct (map (\<lambda>k. key_bytes (ok_public_key k)) ks)
     \<and> (\<lambda>k. (ok_issuer k, ok_key_id k)) ` set ks \<inter> set names = {}
     \<and> (\<lambda>k. key_bytes (ok_public_key k)) ` set ks \<inter> set pubs = {}"
  by (induction ks arbitrary: names pubs) auto

lemma pinned_issuers_new_Inr:
  assumes "pinned_issuers_new ks = Inr ks'"
  shows "ks' = ks \<and> distinct (map (\<lambda>k. (ok_issuer k, ok_key_id k)) ks)
    \<and> distinct (map (\<lambda>k. key_bytes (ok_public_key k)) ks)"
  using assms by (auto simp: pinned_issuers_new_def rbind_Inr_conv pin_keys_Inr split: if_splits)

text \<open>
  A policy in force: its manifest is the one of the digest, its payload carries the root's signature, and
  its keys are the manifest's, none of them the root, each name and each key once.
\<close>

definition policy_in_force :: "toolkit \<Rightarrow> manifest_codec \<Rightarrow> verifying_key \<Rightarrow> active_policy \<Rightarrow> bool" where
  "policy_in_force K M root p \<longleftrightarrow>
     (\<exists>bytes sm. k_sha256 K bytes = pol_signed_manifest_sha256 p \<and> m_parse M bytes = Some sm \<and> m_jcs M sm = Some bytes
        \<and> verify_owner_signature K M sm root = Inr ()
        \<and> vm_generation (pol_manifest p) = mp_generation (sm_payload sm)
        \<and> vm_expires_at (pol_manifest p) = mp_expires_at (sm_payload sm)
        \<and> list_all2 (\<lambda>mk k. approve_manifest_key K root mk = Inr k) (mp_keys (sm_payload sm)) (vm_issuers (pol_manifest p)))
     \<and> vm_generation (pol_manifest p) \<noteq> 0
     \<and> distinct (map (\<lambda>k. (ok_issuer k, ok_key_id k)) (vm_issuers (pol_manifest p)))
     \<and> distinct (map (\<lambda>k. key_bytes (ok_public_key k)) (vm_issuers (pol_manifest p)))"

lemma in_force_keys_differ_from_root:
  assumes "policy_in_force K M root p" and "k \<in> set (vm_issuers (pol_manifest p))"
  shows "key_bytes (ok_public_key k) \<noteq> key_bytes root"
proof -
  from assms(1) obtain mks where "list_all2 (\<lambda>mk k. approve_manifest_key K root mk = Inr k) mks (vm_issuers (pol_manifest p))"
    by (auto simp: policy_in_force_def)
  with assms(2) obtain mk where "approve_manifest_key K root mk = Inr k"
    by (auto simp: list_all2_conv_all_nth in_set_conv_nth)
  then show ?thesis by (auto simp: approve_manifest_key_def rbind_Inr_conv)
qed

lemma in_force_names_unique:
  assumes "policy_in_force K M root p" and "k \<in> set (vm_issuers (pol_manifest p))"
  shows "\<forall>k' \<in> set (vm_issuers (pol_manifest p)). ok_issuer k' = ok_issuer k \<and> ok_key_id k' = ok_key_id k \<longrightarrow> k' = k"
proof -
  have "inj_on (\<lambda>k. (ok_issuer k, ok_key_id k)) (set (vm_issuers (pol_manifest p)))"
    using assms(1) by (simp add: policy_in_force_def distinct_map)
  with assms(2) show ?thesis by (auto dest: inj_onD)
qed

lemma verified_manifest:
  assumes "verify_owner_signed_issuer_manifest K M bytes root minimum now = Inr vm"
  shows "policy_in_force K M root \<lparr>pol_manifest = vm, pol_signed_manifest_sha256 = k_sha256 K bytes\<rparr>
    \<and> minimum < vm_generation vm"
proof -
  from assms obtain sm where sm: "parse_canonical_manifest M bytes = Inr sm"
    "validate_manifest_freshness (sm_payload sm) minimum now = Inr ()" "verify_owner_signature K M sm root = Inr ()"
    "owner_approved_issuer_keys K (sm_payload sm) root = Inr (vm_issuers vm)"
    and vm: "vm_generation vm = mp_generation (sm_payload sm)" "vm_expires_at vm = mp_expires_at (sm_payload sm)"
    by (auto simp: verify_owner_signed_issuer_manifest_def rbind_Inr_conv)
  have "m_parse M bytes = Some sm" "m_jcs M sm = Some bytes"
    using sm(1) by (auto simp: parse_canonical_manifest_def rbind_Inr_conv)
  moreover have "minimum < vm_generation vm" "vm_generation vm \<noteq> 0"
    using sm(2) vm(1) by (auto simp: validate_manifest_freshness_def)
  moreover from sm(4) obtain ks where "collect_results (approve_manifest_key K root) (mp_keys (sm_payload sm)) = Inr ks"
    "pinned_issuers_new ks = Inr (vm_issuers vm)"
    by (auto simp: owner_approved_issuer_keys_def rbind_Inr_conv)
  ultimately show ?thesis
    using sm(3) vm by (auto simp: policy_in_force_def collect_results_Inr dest!: pinned_issuers_new_Inr)
qed

section \<open>Activation\<close>

inductive policy_step ::
  "toolkit \<Rightarrow> manifest_codec \<Rightarrow> 's compare_and_commit \<Rightarrow> owner_policy_authority \<times> 's \<Rightarrow> owner_policy_authority \<times> 's \<Rightarrow> bool"
  for K M cas where
  activate: "verify_candidate_commit_and_activate K M cas bytes now as = (res, as') \<Longrightarrow> policy_step K M cas as as'"
| poison: "policy_step K M cas (a, s) (a\<lparr>oa_poisoned := True\<rparr>, s)"

text \<open>The outcomes of an activation.\<close>

lemma activation_cases:
  assumes "verify_candidate_commit_and_activate K M cas bytes now (a, s) = (res, a', s')"
  obtains (refused) e where "res = Inl e" and "a' = a" and "s' = s"
  | (disabled) p where "oa_active a = Some p" and "res = Inl AttStorageUnavailable" and "a' = a\<lparr>oa_active := None\<rparr>"
  | (activated) p vm where "\<not> oa_poisoned a" and "oa_active a = Some p"
      and "verify_owner_signed_issuer_manifest K M bytes (oa_root a) (vm_generation (pol_manifest p)) now = Inr vm"
      and "cas (oa_root a) (vm_generation (pol_manifest p)) (pol_signed_manifest_sha256 p) (vm_generation vm)
             (k_sha256 K bytes) s = (Inr (), s')"
      and "res = Inr (vm_generation vm)"
      and "a' = a\<lparr>oa_active := Some \<lparr>pol_manifest = vm, pol_signed_manifest_sha256 = k_sha256 K bytes\<rparr>\<rparr>"
proof (cases "oa_poisoned a \<or> oa_active a = None")
  case True
  with assms show thesis by (intro refused) (auto simp: verify_candidate_commit_and_activate_def split: if_splits)
next
  case False
  then obtain p where p: "\<not> oa_poisoned a" "oa_active a = Some p" by auto
  show thesis
  proof (cases "verify_owner_signed_issuer_manifest K M bytes (oa_root a) (vm_generation (pol_manifest p)) now")
    case (Inl e)
    with assms p show thesis by (auto simp: verify_candidate_commit_and_activate_def Let_def intro: refused)
  next
    case (Inr vm)
    let ?c = "cas (oa_root a) (vm_generation (pol_manifest p)) (pol_signed_manifest_sha256 p) (vm_generation vm)
      (k_sha256 K bytes) s"
    obtain r s1 where c: "?c = (r, s1)" by fastforce
    note v = assms [unfolded verify_candidate_commit_and_activate_def Let_def prod.case p Inr option.case sum.case c]
    show thesis
    proof (cases r)
      case (Inl e)
      with v p show thesis by (intro disabled) auto
    next
      case (Inr u)
      with v p c have "?c = (Inr (), s')" and "res = Inr (vm_generation vm)"
        and "a' = a\<lparr>oa_active := Some \<lparr>pol_manifest = vm, pol_signed_manifest_sha256 = k_sha256 K bytes\<rparr>\<rparr>" by auto
      with p \<open>verify_owner_signed_issuer_manifest _ _ _ _ _ _ = Inr vm\<close> show thesis by (intro activated) auto
    qed
  qed
qed

lemma started_authority:
  assumes "from_trusted_store K M r r bytes now = Inr a"
  obtains c vm where "r = Inr c" and "verify_owner_signed_issuer_manifest K M bytes (ts_root c)
      (ts_committed_generation c - 1) now = Inr vm"
    and "c = \<lparr>ts_root = ts_root c, ts_committed_generation = vm_generation vm,
      ts_committed_manifest_sha256 = k_sha256 K bytes\<rparr>"
    and "a = \<lparr>oa_root = ts_root c,
      oa_active = Some \<lparr>pol_manifest = vm, pol_signed_manifest_sha256 = k_sha256 K bytes\<rparr>, oa_poisoned = False\<rparr>"
proof -
  from assms obtain c where c: "r = Inr c" by (cases r) (simp_all add: from_trusted_store_def)
  from assms obtain vm where vm: "verify_owner_signed_issuer_manifest K M bytes (ts_root c)
      (ts_committed_generation c - 1) now = Inr vm"
    by (cases "verify_owner_signed_issuer_manifest K M bytes (ts_root c) (ts_committed_generation c - 1) now")
      (auto simp: from_trusted_store_def c rbind_Inr_conv)
  from assms have "vm_generation vm = ts_committed_generation c" "k_sha256 K bytes = ts_committed_manifest_sha256 c"
    "a = \<lparr>oa_root = ts_root c,
      oa_active = Some \<lparr>pol_manifest = vm, pol_signed_manifest_sha256 = k_sha256 K bytes\<rparr>, oa_poisoned = False\<rparr>"
    by (auto simp: from_trusted_store_def c vm rbind_Inr_conv Let_def)
  with c vm show thesis by (intro that) simp_all
qed

text \<open>
  The contract of \<open>TrustedOwnerPolicyStore\<close>: a successful commit replaced exactly the expected
  generation and digest of the same root, by a later generation.
\<close>

locale owner_policy_store =
  fixes read :: "'s \<Rightarrow> attestation_error + trusted_owner_policy_state" and cas :: "'s compare_and_commit"
  assumes committed: "cas root g h g' h' s = (Inr (), s') \<Longrightarrow>
    read s' = Inr \<lparr>ts_root = root, ts_committed_generation = g', ts_committed_manifest_sha256 = h'\<rparr>"
  and expected: "cas root g h g' h' s = (Inr (), s') \<Longrightarrow>
    read s = Inr \<lparr>ts_root = root, ts_committed_generation = g, ts_committed_manifest_sha256 = h\<rparr> \<and> g < g'"
begin

lemma step_in_force:
  assumes "policy_step K M cas (a, s) (a', s')"
    and "\<forall>p. oa_active a = Some p \<longrightarrow> policy_in_force K M (oa_root a) p \<and> read s = Inr \<lparr>ts_root = oa_root a,
      ts_committed_generation = vm_generation (pol_manifest p),
      ts_committed_manifest_sha256 = pol_signed_manifest_sha256 p\<rparr>"
  shows "\<forall>p. oa_active a' = Some p \<longrightarrow> policy_in_force K M (oa_root a') p \<and> read s' = Inr \<lparr>ts_root = oa_root a',
      ts_committed_generation = vm_generation (pol_manifest p),
      ts_committed_manifest_sha256 = pol_signed_manifest_sha256 p\<rparr>"
  using assms(1)
proof cases
  case (activate bytes now res)
  from activate show ?thesis
  proof (cases rule: activation_cases)
    case (activated p vm)
    then show ?thesis using verified_manifest committed by fastforce
  qed (use assms(2) in auto)
qed (use assms(2) in auto)

lemma run_in_force:
  assumes "from_trusted_store K M (read s0) (read s0) bytes now = Inr a0"
    and "(policy_step K M cas)\<^sup>*\<^sup>* (a0, s0) (a, s)" and "oa_active a = Some p"
  shows "policy_in_force K M (oa_root a) p \<and> read s = Inr \<lparr>ts_root = oa_root a,
      ts_committed_generation = vm_generation (pol_manifest p),
      ts_committed_manifest_sha256 = pol_signed_manifest_sha256 p\<rparr>"
proof -
  let ?ok = "\<lambda>(a, s). \<forall>p. oa_active a = Some p \<longrightarrow> policy_in_force K M (oa_root a) p
    \<and> read s = Inr \<lparr>ts_root = oa_root a, ts_committed_generation = vm_generation (pol_manifest p),
        ts_committed_manifest_sha256 = pol_signed_manifest_sha256 p\<rparr>"
  have "?ok (a0, s0)"
    by (rule started_authority [OF assms(1)]) (auto dest!: verified_manifest)
  with assms(2) have "?ok (a, s)"
  proof (induction rule: rtranclp_induct)
    case (step y z)
    obtain a s a' s' where yz: "y = (a, s)" "z = (a', s')" by fastforce
    from step_in_force [OF step.hyps(2) [unfolded yz]] step.IH [OF step.prems] show ?case by (simp add: yz)
  qed
  with assms(3) show ?thesis by simp
qed

end

interpretation test_store: owner_policy_store test_read_committed test_compare_and_commit
  by unfold_locales
    (auto simp: test_read_committed_def test_compare_and_commit_def Let_def split: if_splits)

section \<open>Properties\<close>

lemma step_monotone:
  assumes "policy_step K M cas (a, s) (a', s')"
  shows "oa_root a' = oa_root a \<and> (oa_poisoned a \<longrightarrow> oa_poisoned a')
    \<and> (oa_active a = None \<longrightarrow> oa_active a' = None)
    \<and> (\<forall>p p'. oa_active a = Some p \<and> oa_active a' = Some p' \<longrightarrow>
          p' = p \<or> vm_generation (pol_manifest p) < vm_generation (pol_manifest p'))"
  using assms
proof cases
  case (activate bytes now res)
  from activate show ?thesis
  proof (cases rule: activation_cases)
    case (activated p vm)
    then show ?thesis using verified_manifest [OF activated(3)] by auto
  qed auto
qed auto

lemma run_monotone:
  assumes "(policy_step K M cas)\<^sup>*\<^sup>* as as'"
  shows "oa_root (fst as') = oa_root (fst as) \<and> (oa_poisoned (fst as) \<longrightarrow> oa_poisoned (fst as'))
    \<and> (oa_active (fst as) = None \<longrightarrow> oa_active (fst as') = None)
    \<and> (\<forall>p p'. oa_active (fst as) = Some p \<and> oa_active (fst as') = Some p' \<longrightarrow>
          p' = p \<or> vm_generation (pol_manifest p) < vm_generation (pol_manifest p'))"
  using assms
proof (induction rule: rtranclp_induct)
  case (step y z)
  obtain a s a' s' where yz: "y = (a, s)" "z = (a', s')" by fastforce
  note m = step_monotone [OF step.hyps(2) [unfolded yz]]
  show ?case
  proof (cases "oa_active a")
    case None
    with m step.IH show ?thesis by (simp add: yz)
  next
    case (Some p)
    with m step.IH show ?thesis by (cases "oa_active a'") (auto simp: yz intro: less_trans)
  qed
qed auto

text \<open>
  C7: The owner's policy is signed, committed and never rolls back. Started from a store that keeps its
  contract, through any sequence of candidate manifests (valid or not), commit failures, ambiguous
  commits and lock poisoning: the root never changes; an active policy is always the one whose bytes the
  root signed and whose generation and digest the store holds; a later active policy is the same one or
  has a strictly larger generation; and an authority that was disabled or poisoned stays so.
\<close>

theorem owner_policy_is_committed_and_never_rolls_back:
  assumes "owner_policy_store read cas" and "from_trusted_store K M (read s0) (read s0) bytes now = Inr a0"
    and "(policy_step K M cas)\<^sup>*\<^sup>* (a0, s0) (a1, s1)" and "(policy_step K M cas)\<^sup>*\<^sup>* (a1, s1) (a2, s2)"
  shows "oa_root a2 = oa_root a0
    \<and> (\<forall>p. oa_active a2 = Some p \<longrightarrow> policy_in_force K M (oa_root a0) p
         \<and> read s2 = Inr \<lparr>ts_root = oa_root a0, ts_committed_generation = vm_generation (pol_manifest p),
             ts_committed_manifest_sha256 = pol_signed_manifest_sha256 p\<rparr>)
    \<and> (\<forall>p1 p2. oa_active a1 = Some p1 \<and> oa_active a2 = Some p2 \<longrightarrow>
         p2 = p1 \<or> vm_generation (pol_manifest p1) < vm_generation (pol_manifest p2))
    \<and> (oa_active a1 = None \<longrightarrow> oa_active a2 = None) \<and> (oa_poisoned a1 \<longrightarrow> oa_poisoned a2)"
proof -
  have run: "(policy_step K M cas)\<^sup>*\<^sup>* (a0, s0) (a2, s2)" using assms(3,4) by simp
  have root: "oa_root a2 = oa_root a0" using run_monotone [OF run] by simp
  show ?thesis
    using owner_policy_store.run_in_force [OF assms(1,2) run] run_monotone [OF assms(4)] root by simp
qed

text \<open>
  C8: Only the active policy vouches for actors. Whenever the authority accepts an actor proof, it is
  neither disabled nor poisoned, the local time is inside the active manifest's validity, and the proof
  holds for a key of that manifest: active and not revoked, currently valid, different from the owner's
  root, and the only key pinned under its issuer and key id. A disabled or poisoned authority answers
  every proof with the same error and touches nothing.
\<close>

theorem only_the_active_policy_vouches_for_actors:
  assumes "owner_policy_store read cas" and "from_trusted_store K M (read s0) (read s0) bytes now = Inr a0"
    and "(policy_step K M cas)\<^sup>*\<^sup>* (a0, s0) (a, s)"
    and "verify_actor_and_consume K fault proof_bytes x a st = (res, st')"
  shows "(res = Inr vp \<longrightarrow> \<not> oa_poisoned a \<and>
      (\<exists>p h. oa_active a = Some p \<and> vm_issued_at (pol_manifest p) \<le> xr_now_unix x
         \<and> xr_now_unix x < vm_expires_at (pol_manifest p)
         \<and> ap_expected h = x \<and> ap_principal h = vp \<and> proof_holds K (vm_issuers (pol_manifest p)) h
         \<and> key_bytes (ok_public_key (ap_key h)) \<noteq> key_bytes (oa_root a)
         \<and> (\<forall>k \<in> set (vm_issuers (pol_manifest p)).
              ok_issuer k = ac_issuer (ap_claims h) \<and> ok_key_id k = ac_key_id (ap_claims h) \<longrightarrow> k = ap_key h)))
    \<and> (oa_poisoned a \<or> oa_active a = None \<longrightarrow> res = Inl AttStorageUnavailable \<and> st' = st)"
proof (cases "oa_poisoned a \<or> oa_active a = None")
  case True
  with assms(4) show ?thesis by (auto simp: verify_actor_and_consume_def split: if_splits)
next
  case False
  then obtain p where p: "\<not> oa_poisoned a" "oa_active a = Some p" by auto
  note force = owner_policy_store.run_in_force [OF assms(1-3) p(2), THEN conjunct1]
  show ?thesis
  proof (cases "res = Inr vp")
    case True
    with assms(4) p have window: "vm_issued_at (pol_manifest p) \<le> xr_now_unix x" "xr_now_unix x < vm_expires_at (pol_manifest p)"
      and v: "issuers_verify_and_consume K fault (vm_issuers (pol_manifest p)) proof_bytes x st = (Inr vp, st')"
      by (auto simp: verify_actor_and_consume_def manifest_verify_and_consume_def split: if_splits)
    obtain h where h: "ap_expected h = x" "ap_principal h = vp" "proof_holds K (vm_issuers (pol_manifest p)) h"
      by (rule accepted_assertion [OF v])
    then have k: "ap_key h \<in> set (vm_issuers (pol_manifest p))" "ac_issuer (ap_claims h) = ok_issuer (ap_key h)"
      "ac_key_id (ap_claims h) = ok_key_id (ap_key h)"
      by (simp_all add: proof_holds_def)
    have "key_bytes (ok_public_key (ap_key h)) \<noteq> key_bytes (oa_root a)"
      using in_force_keys_differ_from_root [OF force k(1)] .
    moreover have "\<forall>k \<in> set (vm_issuers (pol_manifest p)).
        ok_issuer k = ac_issuer (ap_claims h) \<and> ok_key_id k = ac_key_id (ap_claims h) \<longrightarrow> k = ap_key h"
      using in_force_names_unique [OF force k(1)] k(2,3) by simp
    ultimately show ?thesis using p window h by (auto intro: exI [of _ h])
  qed (use p in simp)
qed

section \<open>Samples\<close>

definition sample_manifest :: "u64 \<Rightarrow> signed_manifest" where
  "sample_manifest generation =
     \<lparr>sm_payload = \<lparr>mp_contract_version = ''owner-issuer-manifest/v1'', mp_generation = generation,
        mp_issued_at = 90, mp_expires_at = 900,
        mp_keys = [\<lparr>mk_issuer = ''iss'', mk_key_id = ''k1'', mk_public_key = ''pub'', mk_valid_from_unix = 50,
          mk_valid_until_unix = 500, mk_state = ManifestActive\<rparr>]\<rparr>,
      sm_signature = ''sig''\<rparr>"

definition sample_codec :: manifest_codec where
  "sample_codec =
     \<lparr>m_parse = (\<lambda>bytes. Some (sample_manifest (if bytes = [5] then 3 else 4))),
      m_jcs = (\<lambda>sm. Some (if mp_generation (sm_payload sm) = 3 then [5] else [6])),
      m_jcs_payload = (\<lambda>_. Some [4])\<rparr>"

definition sample_store :: test_owner_store where
  "sample_store = test_owner_store_new sample_toolkit (VerifyingKey [9]) 3 [5]"

lemma sample_manifest_verifies:
  assumes "bytes = (if g = 3 then [5] else [6])" and "g \<in> {3, 4}" and "least < g"
  shows "verify_owner_signed_issuer_manifest sample_toolkit sample_codec bytes (VerifyingKey [9]) least 100 =
     Inr \<lparr>vm_generation = g, vm_issued_at = 90, vm_expires_at = 900, vm_issuers = [sample_key]\<rparr>"
proof -
  have "parse_canonical_manifest sample_codec bytes = Inr (sample_manifest g)"
    using assms(1,2)
    by (auto simp: parse_canonical_manifest_def sample_codec_def sample_manifest_def MAX_SIGNED_MANIFEST_BYTES_def ensure_def)
  moreover have "least < MAX_GENERATION" "g \<le> MAX_GENERATION" "g \<noteq> 0"
    using assms(2,3) by (auto simp: MAX_GENERATION_def word_less_nat_alt)
  then have "validate_manifest_freshness (sm_payload (sample_manifest g)) least 100 = Inr ()"
    using assms(3)
    by (auto simp: validate_manifest_freshness_def sample_manifest_def MAX_MANIFEST_LIFETIME_def sat64_def)
  moreover have "verify_owner_signature sample_toolkit sample_codec (sample_manifest g) (VerifyingKey [9]) = Inr ()"
    by (simp add: verify_owner_signature_def canonical_b64_def sample_toolkit_def sample_codec_def
        sample_manifest_def ensure_def)
  moreover have "owner_approved_issuer_keys sample_toolkit (sm_payload (sample_manifest g)) (VerifyingKey [9]) = Inr [sample_key]"
    by (simp add: owner_approved_issuer_keys_def approve_manifest_key_def canonical_b64_def sample_toolkit_def sample_manifest_def sample_key_def pinned_issuers_new_def MAX_PINNED_KEYS_def
        allowed_id_def claim_simps ensure_def)
  ultimately show ?thesis
    by (simp add: verify_owner_signed_issuer_manifest_def sample_manifest_def)
qed

definition sample_authority :: "u64 \<Rightarrow> owner_policy_authority" where
  "sample_authority g =
     \<lparr>oa_root = VerifyingKey [9],
      oa_active = Some \<lparr>pol_manifest = \<lparr>vm_generation = g, vm_issued_at = 90, vm_expires_at = 900,
        vm_issuers = [sample_key]\<rparr>, pol_signed_manifest_sha256 = 1\<rparr>,
      oa_poisoned = False\<rparr>"

lemma sample_toolkit_sha256 [simp]: "k_sha256 sample_toolkit bs = 1"
  by (simp add: sample_toolkit_def)

lemma sample_starts:
  "from_trusted_store sample_toolkit sample_codec (test_read_committed sample_store) (test_read_committed sample_store) [5] 100
     = Inr (sample_authority 3)"
  using sample_manifest_verifies [of "[5]" 3 2]
  by (simp add: from_trusted_store_def test_read_committed_def sample_store_def test_owner_store_new_def
      sample_authority_def ensure_def Let_def)

lemma sample_activates:
  "verify_candidate_commit_and_activate sample_toolkit sample_codec test_compare_and_commit [6] 100 (sample_authority 3, sample_store)
     = (Inr 4, sample_authority 4, sample_store\<lparr>tos_generation := 4\<rparr>)"
  using sample_manifest_verifies [of "[6]" 4 3]
  by (simp add: verify_candidate_commit_and_activate_def sample_authority_def test_compare_and_commit_def sample_store_def
      test_owner_store_new_def Let_def)

theorem owner_policy_is_committed_and_never_rolls_back_witness:
  "\<exists>s. verify_candidate_commit_and_activate sample_toolkit sample_codec test_compare_and_commit [6] 100
       (sample_authority 3, sample_store) = (Inr 4, sample_authority 4, s)
     \<and> test_read_committed s = Inr \<lparr>ts_root = VerifyingKey [9], ts_committed_generation = 4,
         ts_committed_manifest_sha256 = 1\<rparr>"
proof -
  have "(policy_step sample_toolkit sample_codec test_compare_and_commit)\<^sup>*\<^sup>* (sample_authority 3, sample_store)
      (sample_authority 4, sample_store\<lparr>tos_generation := 4\<rparr>)"
    using policy_step.activate [OF sample_activates] by blast
  from owner_policy_is_committed_and_never_rolls_back [OF test_store.owner_policy_store_axioms sample_starts
      rtranclp.rtrancl_refl this] sample_activates
  show ?thesis by (simp add: sample_authority_def)
qed

theorem only_the_active_policy_vouches_for_actors_witness:
  "\<exists>vp st' (h :: accepted_proof). verify_actor_and_consume sample_toolkit None [1] sample_expected (sample_authority 3) sample_challenge_store
       = (Inr vp, st') \<and> ap_principal h = vp \<and> ap_key h = sample_key"
proof -
  have "xr_now_unix sample_expected = 120" by (simp add: sample_expected_def)
  then have eq: "verify_actor_and_consume sample_toolkit None [1] sample_expected (sample_authority 3) st =
      issuers_verify_and_consume sample_toolkit None [sample_key] [1] sample_expected st" for st
    by (simp add: verify_actor_and_consume_def sample_authority_def manifest_verify_and_consume_def)
  obtain vp st' where v: "verify_actor_and_consume sample_toolkit None [1] sample_expected (sample_authority 3)
      sample_challenge_store = (Inr vp, st')"
    unfolding eq using sample_accepts by blast
  from only_the_active_policy_vouches_for_actors [OF test_store.owner_policy_store_axioms sample_starts
      rtranclp.rtrancl_refl v, of vp]
  obtain h where "ap_principal h = vp" "proof_holds sample_toolkit [sample_key] h"
    by (auto simp: sample_authority_def)
  moreover from this have "ap_key h = sample_key" by (simp add: proof_holds_def)
  ultimately show ?thesis using v by blast
qed

end
