(* ===== verification/Gateway_Transport.thy ===== *)
theory Gateway_Transport
  imports Gateway_Execution Complex_Main
begin

text \<open>
  The transport crate, \<^verbatim>\<open>src/crates/transport/src\<close>: the errors and the inbound message type, the scripted
  in-memory transport (\<^verbatim>\<open>mock.rs\<close>) and the reconnecting decorator with exponential backoff
  (\<^verbatim>\<open>reconnect.rs\<close>), and the receive loop of the daemon that drains a transport
  (\<open>run_remote_processor\<close> of \<^verbatim>\<open>src/apps/daemon/src/remote_processor.rs\<close>).

  A transport is a state with operations that return a result and the next state; the trait
  \<open>Transport\<close> is the locale \<open>connectable\<close>. The attempt counter keeps its 32 bits; the delays, which the
  code computes in binary floating point, are exact rationals here, truncated to whole milliseconds as
  the code does. The hash that seeds the jitter is an argument.
\<close>

section \<open>Messages and errors\<close>

datatype transport_error =
    ConnectFailed string
  | SendFailed string
  | ReceiveFailed string
  | NoMessage
  | NotConnected

fun transport_error_code :: "transport_error \<Rightarrow> string" where
  "transport_error_code (ConnectFailed _) = ''TRANSPORT_CONNECT_FAILED''"
| "transport_error_code (SendFailed _) = ''TRANSPORT_SEND_FAILED''"
| "transport_error_code (ReceiveFailed _) = ''TRANSPORT_RECEIVE_FAILED''"
| "transport_error_code NoMessage = ''TRANSPORT_NO_MESSAGE''"
| "transport_error_code NotConnected = ''TRANSPORT_NOT_CONNECTED''"

fun transport_error_retryable :: "transport_error \<Rightarrow> bool" where
  "transport_error_retryable (ConnectFailed _) = True"
| "transport_error_retryable (SendFailed _) = True"
| "transport_error_retryable (ReceiveFailed _) = True"
| "transport_error_retryable NoMessage = False"
| "transport_error_retryable NotConnected = False"

record transport_health =
  th_connected :: bool
  th_last_error :: "string option"

record inbound_envelope =
  ie_envelope :: envelope
  ie_verified_principal :: "verified_principal option"

definition inbound_from_envelope :: "envelope \<Rightarrow> inbound_envelope" where
  "inbound_from_envelope e = \<lparr>ie_envelope = e, ie_verified_principal = None\<rparr>"

section \<open>The scripted transport\<close>

record mock_transport =
  mt_state :: transport_state
  mt_connect_failures_remaining :: u32
  mt_receive_failures_remaining :: u32
  mt_connect_attempts :: u32
  mt_outbox :: "envelope list"
  mt_inbox :: "inbound_envelope list"

definition mock_transport_default :: mock_transport where
  "mock_transport_default = \<lparr>mt_state = TDisconnected, mt_connect_failures_remaining = 0,
     mt_receive_failures_remaining = 0, mt_connect_attempts = 0, mt_outbox = [], mt_inbox = []\<rparr>"

definition fail_next_connects :: "u32 \<Rightarrow> mock_transport \<Rightarrow> mock_transport" where
  "fail_next_connects n t = t\<lparr>mt_connect_failures_remaining := n\<rparr>"

definition fail_next_receives :: "u32 \<Rightarrow> mock_transport \<Rightarrow> mock_transport" where
  "fail_next_receives n t = t\<lparr>mt_receive_failures_remaining := n\<rparr>"

definition push_incoming :: "envelope \<Rightarrow> mock_transport \<Rightarrow> mock_transport" where
  "push_incoming e t = t\<lparr>mt_inbox := mt_inbox t @ [inbound_from_envelope e]\<rparr>"

definition push_authenticated_incoming :: "envelope \<Rightarrow> verified_principal \<Rightarrow> mock_transport \<Rightarrow> mock_transport" where
  "push_authenticated_incoming e vp t =
     t\<lparr>mt_inbox := mt_inbox t @ [\<lparr>ie_envelope = e, ie_verified_principal = Some vp\<rparr>]\<rparr>"

definition mock_connect :: "mock_transport \<Rightarrow> (transport_error + unit) \<times> mock_transport" where
  "mock_connect t =
     (let t = t\<lparr>mt_connect_attempts := mt_connect_attempts t + 1\<rparr> in
      if mt_connect_failures_remaining t > 0
      then (Inl (ConnectFailed ''scripted mock failure''),
            t\<lparr>mt_connect_failures_remaining := mt_connect_failures_remaining t - 1, mt_state := TFailed\<rparr>)
      else (Inr (), t\<lparr>mt_state := TConnected\<rparr>))"

definition mock_disconnect :: "mock_transport \<Rightarrow> (transport_error + unit) \<times> mock_transport" where
  "mock_disconnect t = (Inr (), t\<lparr>mt_state := TDisconnected\<rparr>)"

definition mock_send :: "envelope \<Rightarrow> mock_transport \<Rightarrow> (transport_error + unit) \<times> mock_transport" where
  "mock_send e t =
     (if mt_state t \<noteq> TConnected then (Inl NotConnected, t)
      else (Inr (), t\<lparr>mt_outbox := mt_outbox t @ [e]\<rparr>))"

definition mock_receive :: "mock_transport \<Rightarrow> (transport_error + inbound_envelope) \<times> mock_transport" where
  "mock_receive t =
     (if mt_receive_failures_remaining t > 0
      then (Inl (ReceiveFailed ''scripted mock receive failure''),
            t\<lparr>mt_receive_failures_remaining := mt_receive_failures_remaining t - 1, mt_state := TFailed\<rparr>)
      else
        (case mt_inbox t of
           [] \<Rightarrow> (Inl NoMessage, t)
         | m # rest \<Rightarrow> (Inr m, t\<lparr>mt_inbox := rest\<rparr>)))"

definition mock_health :: "mock_transport \<Rightarrow> transport_health" where
  "mock_health t = \<lparr>th_connected = (mt_state t = TConnected), th_last_error = None\<rparr>"

section \<open>Backoff\<close>

type_synonym millis = nat

record backoff_policy =
  bp_base :: millis
  bp_factor :: rat
  bp_max :: millis
  bp_max_attempts :: "u32 option"

definition backoff_default :: backoff_policy where
  "backoff_default = \<lparr>bp_base = 250, bp_factor = 2, bp_max = 30000, bp_max_attempts = None\<rparr>"

text \<open>\<open>x as u64\<close>: truncation that saturates at both ends.\<close>

definition as_u64 :: "rat \<Rightarrow> nat" where
  "as_u64 x = min (2 ^ 64 - 1) (nat \<lfloor>x\<rfloor>)"

definition delay_for_attempt :: "backoff_policy \<Rightarrow> u32 \<Rightarrow> millis" where
  "delay_for_attempt p attempt =
     (let exponent = unat (min attempt 32);
          raw_ms = of_nat (bp_base p) * bp_factor p ^ exponent;
          capped_ms = min raw_ms (of_nat (bp_max p)) in
      as_u64 capped_ms)"

definition jittered_delay :: "(u32 \<Rightarrow> u64) \<Rightarrow> millis \<Rightarrow> u32 \<Rightarrow> millis" where
  "jittered_delay hash delay seed =
     (let unit = of_nat (unat (hash seed) mod 1000) / 1000;
          fraction = (unit - 1 / 2) * (4 / 10);
          jittered_ms = max (of_nat delay * (1 + fraction)) 0 in
      as_u64 jittered_ms)"

section \<open>Reconnecting\<close>

text \<open>The delays slept are part of the state, so that a run shows what it waited.\<close>

record 's reconnecting_transport =
  rt_inner :: 's
  rt_policy :: backoff_policy
  rt_state :: transport_state
  rt_attempts_made :: u32
  rt_slept :: "millis list"

definition reconnecting_new :: "'s \<Rightarrow> backoff_policy \<Rightarrow> 's reconnecting_transport" where
  "reconnecting_new inner policy = \<lparr>rt_inner = inner, rt_policy = policy, rt_state = TDisconnected,
     rt_attempts_made = 0, rt_slept = []\<rparr>"

definition attempts_exhausted :: "backoff_policy \<Rightarrow> u32 \<Rightarrow> bool" where
  "attempts_exhausted p attempt =
     (case bp_max_attempts p of None \<Rightarrow> False | Some m \<Rightarrow> attempt + 1 \<ge> m)"

partial_function (option) retry_loop ::
  "(u32 \<Rightarrow> u64) \<Rightarrow> ('s \<Rightarrow> (transport_error + unit) \<times> 's) \<Rightarrow> u32 \<Rightarrow> 's reconnecting_transport
   \<Rightarrow> ((transport_error + unit) \<times> 's reconnecting_transport) option" where
  "retry_loop hash connect attempt t =
     (let t1 = t\<lparr>rt_state := TConnecting, rt_attempts_made := rt_attempts_made t + 1\<rparr>;
          (res, inner) = connect (rt_inner t1) in
      case res of
        Inr _ \<Rightarrow> Some (Inr (), t1\<lparr>rt_inner := inner, rt_state := TConnected\<rparr>)
      | Inl e \<Rightarrow>
          if attempts_exhausted (rt_policy t1) attempt
          then Some (Inl e, t1\<lparr>rt_inner := inner, rt_state := TFailed\<rparr>)
          else retry_loop hash connect (attempt + 1)
            (t1\<lparr>rt_inner := inner, rt_state := TReconnecting,
               rt_slept := rt_slept t1 @ [jittered_delay hash (delay_for_attempt (rt_policy t1) attempt) attempt]\<rparr>))"

definition connect_with_retry ::
  "(u32 \<Rightarrow> u64) \<Rightarrow> ('s \<Rightarrow> (transport_error + unit) \<times> 's) \<Rightarrow> 's reconnecting_transport
   \<Rightarrow> ((transport_error + unit) \<times> 's reconnecting_transport) option" where
  "connect_with_retry hash connect t = retry_loop hash connect 0 t"

text \<open>The other operations delegate to the wrapped transport.\<close>

definition reconnecting_disconnect ::
  "('s \<Rightarrow> (transport_error + unit) \<times> 's) \<Rightarrow> 's reconnecting_transport \<Rightarrow> (transport_error + unit) \<times> 's reconnecting_transport" where
  "reconnecting_disconnect disconnect t =
     (let (res, inner) = disconnect (rt_inner t) in (res, t\<lparr>rt_inner := inner, rt_state := TDisconnected\<rparr>))"

definition reconnecting_send ::
  "(envelope \<Rightarrow> 's \<Rightarrow> (transport_error + unit) \<times> 's) \<Rightarrow> envelope \<Rightarrow> 's reconnecting_transport
   \<Rightarrow> (transport_error + unit) \<times> 's reconnecting_transport" where
  "reconnecting_send send e t = (let (res, inner) = send e (rt_inner t) in (res, t\<lparr>rt_inner := inner\<rparr>))"

definition reconnecting_receive ::
  "('s \<Rightarrow> (transport_error + inbound_envelope) \<times> 's) \<Rightarrow> 's reconnecting_transport
   \<Rightarrow> (transport_error + inbound_envelope) \<times> 's reconnecting_transport" where
  "reconnecting_receive receive t = (let (res, inner) = receive (rt_inner t) in (res, t\<lparr>rt_inner := inner\<rparr>))"

section \<open>The receive loop of the daemon\<close>

text \<open>
  One entry per turn of \<open>select!\<close>: what \<open>receive\<close> returned, with the world its handler met, or the
  shutdown signal. The result is \<open>None\<close> while the loop is still running.
\<close>

datatype turn = Received "transport_error + inbound_envelope" | ShutDown

fun processor_loop :: "(world \<times> turn) list \<Rightarrow> daemon \<Rightarrow> (transport_error + unit) option \<times> daemon" where
  "processor_loop [] d = (None, d)"
| "processor_loop ((w, ShutDown) # turns) d = (Some (Inr ()), d)"
| "processor_loop ((w, Received (Inr m)) # turns) d =
     processor_loop turns (handle_inbound_envelope w (ie_envelope m) (ie_verified_principal m) d)"
| "processor_loop ((w, Received (Inl e)) # turns) d =
     (if e = NoMessage then processor_loop turns d else (Some (Inl e), d))"

definition run_remote_processor :: "(world \<times> turn) list \<Rightarrow> daemon \<Rightarrow> (transport_error + unit) option \<times> daemon" where
  "run_remote_processor turns d = processor_loop turns (d\<lparr>d_transport := True\<rparr>)"

section \<open>Lemmas\<close>

text \<open>The state of the wrapped transport after a number of calls of \<open>connect\<close>.\<close>

definition after :: "('s \<Rightarrow> (transport_error + unit) \<times> 's) \<Rightarrow> nat \<Rightarrow> 's \<Rightarrow> 's" where
  "after connect n s = ((\<lambda>s. snd (connect s)) ^^ n) s"

definition succeeds_at :: "('s \<Rightarrow> (transport_error + unit) \<times> 's) \<Rightarrow> 's \<Rightarrow> nat \<Rightarrow> bool" where
  "succeeds_at connect s n \<longleftrightarrow> (case fst (connect (after connect n s)) of Inl _ \<Rightarrow> False | Inr _ \<Rightarrow> True)"

lemma after_simps [simp]:
  "after connect 0 s = s" "after connect (Suc n) s = after connect n (snd (connect s))"
  by (simp_all add: after_def funpow_Suc_right del: funpow.simps)

lemma succeeds_at_simps [simp]:
  "succeeds_at connect s 0 \<longleftrightarrow> (case fst (connect s) of Inl _ \<Rightarrow> False | Inr _ \<Rightarrow> True)"
  "succeeds_at connect s (Suc n) \<longleftrightarrow> succeeds_at connect (snd (connect s)) n"
  by (simp_all add: succeeds_at_def)

definition waits :: "(u32 \<Rightarrow> u64) \<Rightarrow> backoff_policy \<Rightarrow> u32 \<Rightarrow> nat \<Rightarrow> millis list" where
  "waits hash p attempt n =
     map (\<lambda>k. jittered_delay hash (delay_for_attempt p (attempt + of_nat k)) (attempt + of_nat k)) [0..<n]"

lemma waits_Suc: "waits hash p attempt (Suc n) = jittered_delay hash (delay_for_attempt p attempt) attempt # waits hash p (attempt + 1) n"
  by (simp add: waits_def upt_conv_Cons map_Suc_upt [symmetric] comp_def add.assoc del: upt.simps)

lemma waits_0 [simp]: "waits hash p attempt 0 = []"
  by (simp add: waits_def)

text \<open>The three outcomes of one turn of the loop.\<close>

lemma retry_step:
  "fst (connect (rt_inner t)) = Inr u \<Longrightarrow> retry_loop hash connect attempt t =
     Some (Inr (), t\<lparr>rt_inner := snd (connect (rt_inner t)), rt_state := TConnected,
       rt_attempts_made := rt_attempts_made t + 1\<rparr>)"
  "fst (connect (rt_inner t)) = Inl e \<Longrightarrow> attempts_exhausted (rt_policy t) attempt \<Longrightarrow>
     retry_loop hash connect attempt t =
     Some (Inl e, t\<lparr>rt_inner := snd (connect (rt_inner t)), rt_state := TFailed,
       rt_attempts_made := rt_attempts_made t + 1\<rparr>)"
  "fst (connect (rt_inner t)) = Inl e \<Longrightarrow> \<not> attempts_exhausted (rt_policy t) attempt \<Longrightarrow>
     retry_loop hash connect attempt t =
     retry_loop hash connect (attempt + 1) (t\<lparr>rt_inner := snd (connect (rt_inner t)), rt_state := TReconnecting,
       rt_attempts_made := rt_attempts_made t + 1,
       rt_slept := rt_slept t @ [jittered_delay hash (delay_for_attempt (rt_policy t) attempt) attempt]\<rparr>)"
  by (subst retry_loop.simps; simp add: case_prod_beta)+

text \<open>The loop returns as soon as a connect succeeds, and always under a limit.\<close>

lemma retry_returns_on_success: "succeeds_at connect (rt_inner t) n \<Longrightarrow> \<exists>out. retry_loop hash connect attempt t = Some out"
proof (induction n arbitrary: attempt t)
  case 0
  then show ?case by (auto split: sum.splits dest: retry_step(1) [where hash = hash and attempt = attempt])
next
  case (Suc n)
  show ?case
  proof (cases "fst (connect (rt_inner t))")
    case (Inl e)
    then show ?thesis
      using Suc.IH Suc.prems by (cases "attempts_exhausted (rt_policy t) attempt") (simp_all add: retry_step(2,3))
  next
    case (Inr u)
    then show ?thesis by (simp add: retry_step(1))
  qed
qed

lemma no_wrap_below: "(a :: u32) = 0 \<or> a < m \<Longrightarrow> a + 1 < m \<Longrightarrow> unat (a + 1) = unat a + 1 \<and> unat a + 1 < unat m"
proof -
  assume a: "a = 0 \<or> a < m" and b: "a + 1 < m"
  have "unat a + 1 < 2 ^ 32"
    using a unsigned_less [of m, where ?'a = nat] by (auto simp: word_less_nat_alt)
  then have "unat (a + 1) = unat a + 1" by (simp add: unat_word_ariths(1))
  with b show ?thesis by (simp add: word_less_nat_alt)
qed

lemma retry_returns_under_limit:
  "bp_max_attempts (rt_policy t) = Some m \<Longrightarrow> attempt = 0 \<or> attempt < m
   \<Longrightarrow> \<exists>out. retry_loop hash connect attempt t = Some out"
proof (induction "unat m - unat attempt" arbitrary: attempt t rule: less_induct)
  case less
  show ?case
  proof (cases "fst (connect (rt_inner t))")
    case (Inl e)
    show ?thesis
    proof (cases "attempts_exhausted (rt_policy t) attempt")
      case True
      with Inl show ?thesis by (simp add: retry_step(2))
    next
      case False
      then have a: "attempt + 1 < m" using less.prems by (simp add: attempts_exhausted_def)
      have "unat m - unat (attempt + 1) < unat m - unat attempt"
        using no_wrap_below [OF less.prems(2) a] by linarith
      with less.hyps Inl False less.prems a show ?thesis by (simp add: retry_step(3))
    qed
  next
    case (Inr u)
    then show ?thesis by (simp add: retry_step(1))
  qed
qed

text \<open>What a returned run looked like.\<close>

definition run_shape ::
  "(u32 \<Rightarrow> u64) \<Rightarrow> ('s \<Rightarrow> (transport_error + unit) \<times> 's) \<Rightarrow> u32 \<Rightarrow> 's reconnecting_transport \<Rightarrow> nat
   \<Rightarrow> transport_error + unit \<Rightarrow> 's reconnecting_transport \<Rightarrow> bool" where
  "run_shape hash connect attempt t n res t' \<longleftrightarrow>
     (\<forall>k < n. \<not> succeeds_at connect (rt_inner t) k \<and> \<not> attempts_exhausted (rt_policy t) (attempt + of_nat k))
     \<and> res = fst (connect (after connect n (rt_inner t)))
     \<and> (res \<noteq> Inr () \<longrightarrow> attempts_exhausted (rt_policy t) (attempt + of_nat n))
     \<and> t' = t\<lparr>rt_inner := after connect (Suc n) (rt_inner t),
              rt_state := (if res = Inr () then TConnected else TFailed),
              rt_attempts_made := rt_attempts_made t + of_nat (Suc n),
              rt_slept := rt_slept t @ waits hash (rt_policy t) attempt n\<rparr>"

lemma run_shape_Suc:
  assumes "fst (connect (rt_inner t)) = Inl e" and "\<not> attempts_exhausted (rt_policy t) attempt"
    and "run_shape hash connect (attempt + 1) (t\<lparr>rt_inner := snd (connect (rt_inner t)), rt_state := TReconnecting,
       rt_attempts_made := rt_attempts_made t + 1,
       rt_slept := rt_slept t @ [jittered_delay hash (delay_for_attempt (rt_policy t) attempt) attempt]\<rparr>) n res t'"
  shows "run_shape hash connect attempt t (Suc n) res t'"
proof -
  have "\<not> succeeds_at connect (rt_inner t) k \<and> \<not> attempts_exhausted (rt_policy t) (attempt + of_nat k)" if "k < Suc n" for k
    using that assms by (cases k) (auto simp: run_shape_def add.assoc)
  with assms(3) show ?thesis by (auto simp: run_shape_def waits_Suc add.assoc)
qed

lemma retry_shape:
  assumes "retry_loop hash connect attempt t = Some (res, t')"
  shows "\<exists>n. run_shape hash connect attempt t n res t'"
proof -
  have "\<exists>n. run_shape hash connect attempt t n (fst out) (snd out)" if "retry_loop hash connect attempt t = Some out" for out
    using that
  proof (rule retry_loop.raw_induct [rotated])
    fix loop hash' connect' attempt' and t1 :: "'a reconnecting_transport" and out1
    assume IH: "\<And>hash connect attempt t out. loop hash connect attempt t = Some out \<Longrightarrow>
        \<exists>n. run_shape hash connect attempt (t :: 'a reconnecting_transport) n (fst out) (snd out)"
      and body: "(let t1 = t1\<lparr>rt_state := TConnecting, rt_attempts_made := rt_attempts_made t1 + 1\<rparr>;
          (res, inner) = connect' (rt_inner t1) in
        case res of
          Inl e \<Rightarrow>
            if attempts_exhausted (rt_policy t1) attempt'
            then Some (Inl e, t1\<lparr>rt_inner := inner, rt_state := TFailed\<rparr>)
            else loop hash' connect' (attempt' + 1)
              (t1\<lparr>rt_inner := inner, rt_state := TReconnecting,
                 rt_slept := rt_slept t1 @ [jittered_delay hash' (delay_for_attempt (rt_policy t1) attempt') attempt']\<rparr>)
        | Inr u \<Rightarrow> Some (Inr (), t1\<lparr>rt_inner := inner, rt_state := TConnected\<rparr>)) = Some out1"
    show "\<exists>n. run_shape hash' connect' attempt' t1 n (fst out1) (snd out1)"
    proof (cases "fst (connect' (rt_inner t1))")
      case (Inr u)
      with body have "run_shape hash' connect' attempt' t1 0 (fst out1) (snd out1)"
        by (auto simp: run_shape_def case_prod_beta)
      then show ?thesis by blast
    next
      case (Inl e)
      show ?thesis
      proof (cases "attempts_exhausted (rt_policy t1) attempt'")
        case True
        with body Inl have "run_shape hash' connect' attempt' t1 0 (fst out1) (snd out1)"
          by (auto simp: run_shape_def case_prod_beta)
        then show ?thesis by blast
      next
        case False
        with body Inl have "loop hash' connect' (attempt' + 1) (t1\<lparr>rt_inner := snd (connect' (rt_inner t1)),
            rt_state := TReconnecting, rt_attempts_made := rt_attempts_made t1 + 1,
            rt_slept := rt_slept t1 @ [jittered_delay hash' (delay_for_attempt (rt_policy t1) attempt') attempt']\<rparr>) = Some out1"
          by (cases t1) (simp add: case_prod_beta)
        from IH [OF this] run_shape_Suc [where connect = connect' and t = t1, OF Inl False] show ?thesis by blast
      qed
    qed
  qed
  from this [OF assms] show ?thesis by simp
qed

text \<open>
  The contract of the trait \<open>Transport\<close> that its users rely on: a successful \<open>connect\<close> leaves the
  transport connected, and a connected transport sends.
\<close>

locale connectable =
  fixes connect :: "'s \<Rightarrow> (transport_error + unit) \<times> 's" and state :: "'s \<Rightarrow> transport_state"
    and send :: "envelope \<Rightarrow> 's \<Rightarrow> (transport_error + unit) \<times> 's"
  assumes connect_connects: "connect s = (Inr (), s') \<Longrightarrow> state s' = TConnected"
    and connected_sends: "state s = TConnected \<Longrightarrow> fst (send e s) = Inr ()"
begin

lemma retried_connect_sends:
  assumes "connect_with_retry hash connect t = Some (Inr (), t')"
  shows "rt_state t' = TConnected \<and> state (rt_inner t') = TConnected \<and> fst (reconnecting_send send e t') = Inr ()"
proof -
  obtain n where n: "run_shape hash connect 0 t n (Inr ()) t'"
    using retry_shape [OF assms [unfolded connect_with_retry_def]] by blast
  then have "connect (after connect n (rt_inner t)) = (Inr (), rt_inner t')"
    by (simp add: run_shape_def after_def prod_eq_iff)
  then have c: "state (rt_inner t') = TConnected" by (rule connect_connects)
  moreover have "rt_state t' = TConnected" using n by (simp add: run_shape_def)
  ultimately show ?thesis using connected_sends by (simp add: reconnecting_send_def case_prod_beta)
qed

end

interpretation mock: connectable mock_connect mt_state mock_send
  by unfold_locales (auto simp: mock_connect_def mock_send_def Let_def split: if_splits)

section \<open>Delays\<close>

lemma as_u64_le: "0 \<le> x \<Longrightarrow> of_nat (as_u64 x) \<le> x"
proof -
  assume "0 \<le> x"
  then have "of_nat (nat \<lfloor>x\<rfloor>) = (of_int \<lfloor>x\<rfloor> :: rat)" by simp
  also have "\<dots> \<le> x" by simp
  finally have "of_nat (nat \<lfloor>x\<rfloor>) \<le> x" .
  moreover have "(of_nat (as_u64 x) :: rat) \<le> of_nat (nat \<lfloor>x\<rfloor>)"
    unfolding of_nat_le_iff as_u64_def by simp
  ultimately show "of_nat (as_u64 x) \<le> x" by (rule order_trans [rotated])
qed

lemma delay_at_most_max: "delay_for_attempt p attempt \<le> bp_max p"
proof -
  let ?x = "min (of_nat (bp_base p) * bp_factor p ^ unat (min attempt 32)) (of_nat (bp_max p))"
  have "nat \<lfloor>?x\<rfloor> \<le> bp_max p" by (simp add: nat_le_iff floor_le_iff min_def)
  then show ?thesis by (simp add: delay_for_attempt_def as_u64_def Let_def)
qed

lemma jitter_fraction:
  "0 \<le> (of_nat (n mod 1000) / 1000 :: rat)" "(of_nat (n mod 1000) / 1000 :: rat) \<le> 1"
  by simp_all

lemma jitter_at_most_fifth: "10 * jittered_delay hash delay seed \<le> 12 * delay"
proof -
  let ?u = "of_nat (unat (hash seed) mod 1000) / 1000 :: rat"
  let ?x = "of_nat delay * (1 + (?u - 1 / 2) * (4 / 10)) :: rat"
  have u: "0 \<le> ?u" "?u \<le> 1" by (rule jitter_fraction)+
  have "4 / 5 \<le> 1 + (v - 1 / 2) * (4 / 10)" if "0 \<le> v" for v :: rat using that by (simp add: field_simps)
  from this [OF u(1)] have f: "4 / 5 \<le> 1 + (?u - 1 / 2) * (4 / 10)" .
  have "1 + (v - 1 / 2) * (4 / 10) \<le> 6 / 5" if "v \<le> 1" for v :: rat using that by (simp add: field_simps)
  from this [OF u(2)] have f': "1 + (?u - 1 / 2) * (4 / 10) \<le> 6 / 5" .
  have "0 \<le> 1 + (?u - 1 / 2) * (4 / 10)" by (rule order_trans [OF _ f]) simp
  then have "0 \<le> ?x" by (rule mult_nonneg_nonneg [OF of_nat_0_le_iff])
  moreover from this have "max ?x 0 = ?x" by (rule max_absorb1)
  ultimately have "of_nat (jittered_delay hash delay seed) \<le> ?x"
    using as_u64_le [of ?x] by (simp only: jittered_delay_def Let_def)
  also have "\<dots> \<le> of_nat delay * (6 / 5)" using f' by (intro mult_left_mono) simp_all
  finally have "(of_nat (10 * jittered_delay hash delay seed) :: rat) \<le> of_nat (12 * delay)" by simp
  then show ?thesis by (simp only: of_nat_le_iff)
qed

section \<open>Properties\<close>

lemma not_exhausted_below:
  assumes "bp_max_attempts p = Some m" and "\<forall>k < n. \<not> attempts_exhausted p (of_nat k)"
  shows "unat (of_nat n :: u32) = n \<and> (n = 0 \<or> of_nat n < m)"
  using assms(2)
proof (induction n)
  case (Suc n)
  then have n: "unat (of_nat n :: u32) = n" "n = 0 \<or> of_nat n < m" and lt: "of_nat n + 1 < m"
    using assms(1) by (auto simp: attempts_exhausted_def)
  then have "unat (of_nat n + 1 :: u32) = n + 1" using no_wrap_below [of "of_nat n" m] by auto
  with lt show ?case by (simp add: add.commute)
qed simp

lemma within_limit:
  assumes "bp_max_attempts p = Some m" and "\<forall>k < n. \<not> attempts_exhausted p (of_nat k)"
  shows "Suc n \<le> max 1 (unat m)"
  using not_exhausted_below [OF assms] by (auto simp: word_less_nat_alt)

lemma exhausted_at:
  assumes "bp_max_attempts p = Some m" and "\<forall>k < n. \<not> attempts_exhausted p (of_nat k)" and "attempts_exhausted p (of_nat n)"
  shows "Suc n = max 1 (unat m)"
proof -
  have n: "unat (of_nat n :: u32) = n" using not_exhausted_below [OF assms(1,2)] by simp
  have "m \<le> of_nat n + 1" using assms(1,3) by (simp add: attempts_exhausted_def)
  then have "unat m \<le> n + 1"
    using n mod_less_eq_dividend [of "n + 1" "2 ^ 32"] by (simp add: word_le_nat_alt unat_word_ariths(1))
  with within_limit [OF assms(1,2)] show ?thesis by simp
qed

text \<open>
  C11: Reconnecting ends exactly when it can. Whatever transport is wrapped, \<open>connect_with_retry\<close> returns
  if and only if the policy has a limit or some later \<open>connect\<close> succeeds. When it returns, it stopped at
  the first success, in state Connected, or after exactly the allowed number of attempts (at least one),
  in state Failed with the last error; it counted every attempt, and slept once between any two.
\<close>

theorem reconnect_returns_exactly_when_it_can:
  "((\<exists>out. connect_with_retry hash connect t = Some out) \<longleftrightarrow>
      bp_max_attempts (rt_policy t) \<noteq> None \<or> (\<exists>n. succeeds_at connect (rt_inner t) n))
   \<and> (\<forall>res t'. connect_with_retry hash connect t = Some (res, t') \<longrightarrow>
        (\<exists>n. (\<forall>k < n. \<not> succeeds_at connect (rt_inner t) k)
           \<and> rt_attempts_made t' = rt_attempts_made t + of_nat (Suc n)
           \<and> length (rt_slept t') = length (rt_slept t) + n
           \<and> (\<forall>m. bp_max_attempts (rt_policy t) = Some m \<longrightarrow> Suc n \<le> max 1 (unat m))
           \<and> (case res of
                Inr _ \<Rightarrow> succeeds_at connect (rt_inner t) n \<and> rt_state t' = TConnected
              | Inl e \<Rightarrow> fst (connect (after connect n (rt_inner t))) = Inl e \<and> rt_state t' = TFailed
                  \<and> (\<exists>m. bp_max_attempts (rt_policy t) = Some m \<and> Suc n = max 1 (unat m)))))"
proof -
  have shape: "\<exists>n. run_shape hash connect 0 t n res t'" if "connect_with_retry hash connect t = Some (res, t')" for res t'
    using retry_shape that unfolding connect_with_retry_def by blast
  have outcome: "case res of
      Inr _ \<Rightarrow> succeeds_at connect (rt_inner t) n \<and> rt_state t' = TConnected
    | Inl e \<Rightarrow> fst (connect (after connect n (rt_inner t))) = Inl e \<and> rt_state t' = TFailed
        \<and> (\<exists>m. bp_max_attempts (rt_policy t) = Some m \<and> Suc n = max 1 (unat m))"
    if n: "run_shape hash connect 0 t n res t'" for res t' n
  proof (cases res)
    case (Inl e)
    with n have ex: "attempts_exhausted (rt_policy t) (of_nat n)" by (simp add: run_shape_def)
    then obtain m where m: "bp_max_attempts (rt_policy t) = Some m"
      by (auto simp: attempts_exhausted_def split: option.splits)
    have "Suc n = max 1 (unat m)" by (rule exhausted_at [OF m _ ex]) (use n in \<open>simp add: run_shape_def\<close>)
    moreover have "fst (connect (after connect n (rt_inner t))) = Inl e" "rt_state t' = TFailed"
      using Inl n by (simp_all add: run_shape_def)
    ultimately show ?thesis unfolding Inl sum.case using m by blast
  next
    case (Inr u)
    with n have "fst (connect (after connect n (rt_inner t))) = Inr ()" "rt_state t' = TConnected"
      by (simp_all add: run_shape_def)
    then show ?thesis unfolding Inr sum.case succeeds_at_def by simp
  qed
  have only: "bp_max_attempts (rt_policy t) \<noteq> None \<or> (\<exists>n. succeeds_at connect (rt_inner t) n)"
    if "connect_with_retry hash connect t = Some out" for out
    using shape [of "fst out" "snd out"] outcome [of _ "fst out" "snd out"] that by (fastforce split: sum.splits)
  have ends: "\<exists>out. connect_with_retry hash connect t = Some out"
    if "bp_max_attempts (rt_policy t) \<noteq> None \<or> (\<exists>n. succeeds_at connect (rt_inner t) n)"
    using that retry_returns_under_limit [of t _ 0] retry_returns_on_success [of connect t]
    by (auto simp: connect_with_retry_def)
  have counts: "length (rt_slept t') = length (rt_slept t) + n" "rt_attempts_made t' = rt_attempts_made t + of_nat (Suc n)"
    "\<forall>k < n. \<not> succeeds_at connect (rt_inner t) k"
    "\<forall>m. bp_max_attempts (rt_policy t) = Some m \<longrightarrow> Suc n \<le> max 1 (unat m)"
    if "run_shape hash connect 0 t n res t'" for res t' n
    using that within_limit [of "rt_policy t" _ n] by (simp_all add: run_shape_def waits_def)
  show ?thesis
  proof (intro conjI allI impI)
    show "(\<exists>out. connect_with_retry hash connect t = Some out) \<longleftrightarrow>
        bp_max_attempts (rt_policy t) \<noteq> None \<or> (\<exists>n. succeeds_at connect (rt_inner t) n)"
      using only ends by blast
  next
    fix res t' assume "connect_with_retry hash connect t = Some (res, t')"
    then obtain n where n: "run_shape hash connect 0 t n res t'" using shape by blast
    from outcome [OF n] counts [OF n] show "\<exists>n. (\<forall>k < n. \<not> succeeds_at connect (rt_inner t) k)
        \<and> rt_attempts_made t' = rt_attempts_made t + of_nat (Suc n) \<and> length (rt_slept t') = length (rt_slept t) + n
        \<and> (\<forall>m. bp_max_attempts (rt_policy t) = Some m \<longrightarrow> Suc n \<le> max 1 (unat m))
        \<and> (case res of
             Inr _ \<Rightarrow> succeeds_at connect (rt_inner t) n \<and> rt_state t' = TConnected
           | Inl e \<Rightarrow> fst (connect (after connect n (rt_inner t))) = Inl e \<and> rt_state t' = TFailed
               \<and> (\<exists>m. bp_max_attempts (rt_policy t) = Some m \<and> Suc n = max 1 (unat m)))"
      by (intro exI [of _ n] conjI)
  qed
qed

theorem reconnect_returns_exactly_when_it_can_witness:
  "\<exists>t'. connect_with_retry (\<lambda>_. 0) mock_connect
       (reconnecting_new (fail_next_connects 5 mock_transport_default) (backoff_default\<lparr>bp_max_attempts := Some 3\<rparr>))
     = Some (Inl (ConnectFailed ''scripted mock failure''), t') \<and> rt_attempts_made t' = 3 \<and> rt_state t' = TFailed"
proof -
  let ?m = "fail_next_connects 5 mock_transport_default"
  let ?t = "reconnecting_new ?m (backoff_default\<lparr>bp_max_attempts := Some 3\<rparr>)"
  have t: "rt_inner ?t = ?m" "bp_max_attempts (rt_policy ?t) = Some 3" "rt_attempts_made ?t = 0"
    by (simp_all add: reconnecting_new_def)
  have no: "\<not> succeeds_at mock_connect ?m k" "fst (mock_connect (after mock_connect k ?m)) = Inl (ConnectFailed ''scripted mock failure'')"
    if "k < 3" for k
    using that by (auto simp: less_Suc_eq numeral_3_eq_3 mock_connect_def fail_next_connects_def mock_transport_default_def Let_def)
  note r = reconnect_returns_exactly_when_it_can [of "\<lambda>_. 0" mock_connect ?t, unfolded t]
  obtain res t' where out: "connect_with_retry (\<lambda>_. 0) mock_connect ?t = Some (res, t')" using r by auto
  with r obtain n where n: "Suc n \<le> max 1 (unat (3 :: u32))" "rt_attempts_made t' = 0 + of_nat (Suc n)"
    and c: "case res of
        Inr _ \<Rightarrow> succeeds_at mock_connect ?m n \<and> rt_state t' = TConnected
      | Inl e \<Rightarrow> fst (mock_connect (after mock_connect n ?m)) = Inl e \<and> rt_state t' = TFailed
          \<and> (\<exists>m. Some 3 = Some m \<and> Suc n = max 1 (unat (m :: u32)))"
    by blast
  have "n < 3" using n(1) by simp
  with no c have "res = Inl (ConnectFailed ''scripted mock failure'')" "rt_state t' = TFailed" "Suc n = 3"
    by (auto split: sum.splits)
  with out n(2) show ?thesis by (intro exI [of _ t']) (simp add: numeral_3_eq_3)
qed

text \<open>
  Reconnecting never waits long. Every delay it slept is at most a fifth above the largest delay of
  its policy, whatever the hash, the factor and the number of attempts.
\<close>

theorem reconnect_waits_are_bounded:
  assumes "connect_with_retry hash connect t = Some (res, t')"
  shows "\<exists>ws. rt_slept t' = rt_slept t @ ws \<and> (\<forall>d \<in> set ws. 10 * d \<le> 12 * bp_max (rt_policy t))"
proof -
  obtain n where "run_shape hash connect 0 t n res t'"
    using retry_shape [OF assms [unfolded connect_with_retry_def]] by blast
  then have "rt_slept t' = rt_slept t @ waits hash (rt_policy t) 0 n" by (simp add: run_shape_def)
  moreover have "10 * jittered_delay hash (delay_for_attempt p a) a \<le> 12 * bp_max p" for p a
    using jitter_at_most_fifth [of hash "delay_for_attempt p a" a] delay_at_most_max [of p a] by linarith
  then have "\<forall>d \<in> set (waits hash (rt_policy t) 0 n). 10 * d \<le> 12 * bp_max (rt_policy t)"
    by (auto simp: waits_def)
  ultimately show ?thesis by blast
qed

theorem reconnect_waits_are_bounded_witness:
  "\<exists>t' ws. connect_with_retry (\<lambda>_. 999) mock_connect (reconnecting_new mock_transport_default backoff_default)
       = Some (Inr (), t') \<and> rt_slept t' = ws \<and> (\<forall>d \<in> set ws. d \<le> 36000)"
proof -
  let ?t = "reconnecting_new mock_transport_default backoff_default"
  have "fst (mock_connect (rt_inner ?t)) = Inr ()"
    by (simp add: mock_connect_def reconnecting_new_def mock_transport_default_def)
  from retry_step(1) [where connect = mock_connect and t = ?t, OF this] obtain t' where r: "connect_with_retry (\<lambda>_. 999) mock_connect ?t = Some (Inr (), t')"
    unfolding connect_with_retry_def by blast
  from reconnect_waits_are_bounded [OF r] r show ?thesis
    by (auto simp: reconnecting_new_def backoff_default_def)
qed

text \<open>
  The identifiers drawn in a run are fresh at each turn, as those of a random generator are.
\<close>

fun fresh_run :: "(world \<times> turn) list \<Rightarrow> daemon \<Rightarrow> bool" where
  "fresh_run [] d \<longleftrightarrow> True"
| "fresh_run ((w, ShutDown) # turns) d \<longleftrightarrow> True"
| "fresh_run ((w, Received (Inr m)) # turns) d \<longleftrightarrow>
     fresh_ids w d \<and> fresh_run turns (handle_inbound_envelope w (ie_envelope m) (ie_verified_principal m) d)"
| "fresh_run ((w, Received (Inl e)) # turns) d \<longleftrightarrow> fresh_run turns d"

lemma loop_creates_no_usable_authority:
  "fresh_run turns d \<Longrightarrow>
     (\<forall>w' rq g t. fst (resolve_grant w' (snd (processor_loop turns d)) rq) = Some g
        \<and> grant_is_usable_at g t \<longrightarrow> fst (resolve_grant w' d rq) = Some g)
     \<and> (\<forall>r \<in> set (d_grants (snd (processor_loop turns d))). r \<notin> set (d_grants d) \<longrightarrow>
        gr_status (rg_grant r) = PendingApproval \<and> gr_approved_at (rg_grant r) = None)"
proof (induction turns d rule: processor_loop.induct)
  case (3 w m turns d)
  let ?d1 = "handle_inbound_envelope w (ie_envelope m) (ie_verified_principal m) d"
  have f: "fresh_ids w d" "fresh_run turns ?d1" using "3.prems" by simp_all
  have loop: "processor_loop ((w, Received (Inr m)) # turns) d = processor_loop turns ?d1" by simp
  note one = inbound_creates_no_usable_authority [OF f(1), of "ie_envelope m" "ie_verified_principal m"]
  show ?case unfolding loop using "3.IH" [OF f(2)] one by blast
qed auto

text \<open>
  C5: Remote traffic creates no authority. Whatever the transport delivers, in any number and order, with
  whatever actors and storage faults and however the receive loop ends: a grant that is usable for some
  request afterwards was already what that request resolved to before the loop started, and every grant
  row that is new awaits local approval.
\<close>

theorem remote_traffic_creates_no_usable_authority:
  assumes "fresh_run turns (d\<lparr>d_transport := True\<rparr>)" and "run_remote_processor turns d = (outcome, d')"
  shows "(\<forall>w rq g t. fst (resolve_grant w d' rq) = Some g \<and> grant_is_usable_at g t
        \<longrightarrow> fst (resolve_grant w d rq) = Some g)
    \<and> (\<forall>r \<in> set (d_grants d'). r \<notin> set (d_grants d) \<longrightarrow>
        gr_status (rg_grant r) = PendingApproval \<and> gr_approved_at (rg_grant r) = None)"
proof -
  have "resolve_grant w (d\<lparr>d_transport := True\<rparr>) rq = resolve_grant w d rq" for w rq
    by (simp add: resolve_grant_def)
  then show ?thesis
    using loop_creates_no_usable_authority [OF assms(1)] assms(2) by (simp add: run_remote_processor_def)
qed

theorem remote_traffic_creates_no_usable_authority_witness:
  "let d' = snd (run_remote_processor
       [(sample_world False, Received (Inl NoMessage)),
        (sample_world False, Received (Inr \<lparr>ie_envelope = sample_envelope SessionRequest,
           ie_verified_principal = Some sample_actor\<rparr>))] sample_daemon) in
   (\<forall>r \<in> set (d_grants d'). r \<notin> set (d_grants sample_daemon) \<longrightarrow> gr_status (rg_grant r) = PendingApproval)
   \<and> (\<forall>rq g t. fst (resolve_grant (sample_world True) d' rq) = Some g \<and> grant_is_usable_at g t
        \<longrightarrow> fst (resolve_grant (sample_world True) sample_daemon rq) = Some g)"
proof -
  let ?turns = "[(sample_world False, Received (Inl NoMessage)),
        (sample_world False, Received (Inr \<lparr>ie_envelope = sample_envelope SessionRequest,
           ie_verified_principal = Some sample_actor\<rparr>))]"
  have "fresh_ids (sample_world False) (sample_daemon\<lparr>d_transport := True\<rparr>)"
    using sample_fresh [of False] by (simp add: fresh_ids_def)
  then have "fresh_run ?turns (sample_daemon\<lparr>d_transport := True\<rparr>)" by simp
  from remote_traffic_creates_no_usable_authority [OF this prod.collapse [symmetric]] show ?thesis
    unfolding Let_def by blast
qed

text \<open>
  The decorator keeps its own connection state and does not look at the wrapped transport again: after a
  failed receive it still reports Connected while the wrapped transport has failed and refuses to send.
\<close>

lemma decorator_reports_connected_after_receive_failure:
  assumes "rt_state t = TConnected" and "mt_receive_failures_remaining (rt_inner t) > 0"
  shows "\<exists>e t'. reconnecting_receive mock_receive t = (Inl e, t') \<and> rt_state t' = TConnected
    \<and> mt_state (rt_inner t') = TFailed \<and> fst (reconnecting_send mock_send m t') = Inl NotConnected"
  using assms by (simp add: reconnecting_receive_def mock_receive_def reconnecting_send_def mock_send_def)

end
