(* ===== verification/Gateway_Checkpoints.thy ===== *)
theory Gateway_Checkpoints
  imports Gateway_Workspace "HOL-Library.AList"
begin

text \<open>
  Workspace checkpoints: the recursive file operations of \<^verbatim>\<open>src/crates/checkpoints/src/fs_ops.rs\<close> and the
  store of \<^verbatim>\<open>src/crates/checkpoints/src/store.rs\<close>.

  The disk is a table from absolute paths to directories and regular files with their bytes; a
  relative path is taken from the working directory \<open>cwd\<close>. Symbolic links are left out here, so
  \<open>canonicalize\<close> of an existing absolute path is the path itself. A file operation fails when its
  operands have the wrong kind, and an operation of several steps that fails leaves the disk as far as it
  got. \<open>copy_inner\<close> descends one directory level per unit of fuel;
  \<open>copy_dir_recursive\<close> starts it with one more than the longest path of the disk, which is always
  enough (\<open>copy_dir_recursive_copies\<close>). The checkpoint table holds typed rows; its faults are
  arguments, as for the other stores.
\<close>

section \<open>The disk\<close>

datatype entry = Directory | Regular "8 word list"

type_synonym disk = "(path \<times> entry) list"

abbreviation look :: "disk \<Rightarrow> path \<Rightarrow> entry option" where
  "look \<equiv> map_of"

definition absolute :: "path \<Rightarrow> path \<Rightarrow> path" where
  "absolute cwd p = (if is_absolute p then p else path_join cwd p)"

definition disk_exists :: "path \<Rightarrow> path \<Rightarrow> disk \<Rightarrow> bool" where
  "disk_exists cwd p d \<longleftrightarrow> look d (absolute cwd p) \<noteq> None"

definition is_dir :: "path \<Rightarrow> disk \<Rightarrow> bool" where
  "is_dir p d \<longleftrightarrow> look d p = Some Directory"

definition entry_name :: "path \<Rightarrow> path \<Rightarrow> string option" where
  "entry_name p q = (if q \<noteq> [] \<and> butlast q = p then (case last q of Normal_c n \<Rightarrow> Some n | _ \<Rightarrow> None) else None)"

definition read_dir :: "path \<Rightarrow> disk \<Rightarrow> string + string list" where
  "read_dir p d =
     (if is_dir p d then Inr (List.map_filter (\<lambda>e. entry_name p (fst e)) d) else Inl ''not a directory'')"

fun create_dirs :: "path list \<Rightarrow> disk \<Rightarrow> (string + unit) \<times> disk" where
  "create_dirs [] d = (Inr (), d)"
| "create_dirs (p # ps) d =
     (case look d p of
        None \<Rightarrow> create_dirs ps (AList.update p Directory d)
      | Some Directory \<Rightarrow> create_dirs ps d
      | Some (Regular _) \<Rightarrow> (Inl ''not a directory'', d))"

definition create_dir_all :: "path \<Rightarrow> disk \<Rightarrow> (string + unit) \<times> disk" where
  "create_dir_all p d = create_dirs (filter (\<lambda>q. q \<noteq> []) (prefixes p)) d"

definition copy_file :: "path \<Rightarrow> path \<Rightarrow> disk \<Rightarrow> (string + unit) \<times> disk" where
  "copy_file src dest d =
     (case look d src of
        Some (Regular bytes) \<Rightarrow>
          if look d (butlast dest) = Some Directory \<and> look d dest \<noteq> Some Directory
          then (Inr (), AList.update dest (Regular bytes) d) else (Inl ''cannot write'', d)
      | _ \<Rightarrow> (Inl ''cannot read'', d))"

definition remove_dir_all :: "path \<Rightarrow> disk \<Rightarrow> (string + unit) \<times> disk" where
  "remove_dir_all p d =
     (if is_dir p d then (Inr (), filter (\<lambda>(q, _). \<not> prefix p q) d) else (Inl ''not a directory'', d))"

definition remove_file :: "path \<Rightarrow> disk \<Rightarrow> (string + unit) \<times> disk" where
  "remove_file p d =
     (case look d p of
        Some (Regular _) \<Rightarrow> (Inr (), filter (\<lambda>(q, _). q \<noteq> p) d)
      | _ \<Rightarrow> (Inl ''not a file'', d))"

section \<open>Recursive operations\<close>

definition canonical_or_original :: "path \<Rightarrow> path \<Rightarrow> disk \<Rightarrow> path" where
  "canonical_or_original cwd p d = (if disk_exists cwd p d then absolute cwd p else p)"

definition is_excluded :: "path \<Rightarrow> path \<Rightarrow> path \<Rightarrow> disk \<Rightarrow> bool" where
  "is_excluded cwd candidate canonical_exclude d \<longleftrightarrow> canonical_or_original cwd candidate d = canonical_exclude"

definition io_bind :: "(string + 'a) \<times> disk \<Rightarrow> ('a \<Rightarrow> disk \<Rightarrow> (string + 'b) \<times> disk) \<Rightarrow> (string + 'b) \<times> disk" where
  "io_bind r f = (case r of (Inl e, d) \<Rightarrow> (Inl e, d) | (Inr x, d) \<Rightarrow> f x d)"

fun copy_inner :: "nat \<Rightarrow> path \<Rightarrow> path \<Rightarrow> path \<Rightarrow> path \<Rightarrow> disk \<Rightarrow> (string + unit) \<times> disk"
  and copy_entries :: "nat \<Rightarrow> path \<Rightarrow> string list \<Rightarrow> path \<Rightarrow> path \<Rightarrow> path \<Rightarrow> disk \<Rightarrow> (string + unit) \<times> disk" where
  "copy_inner 0 cwd src dest ex d = (Inl ''too deep'', d)"
| "copy_inner (Suc n) cwd src dest ex d =
     io_bind (create_dir_all dest d) (\<lambda>_ d.
     io_bind (read_dir src d, d) (\<lambda>names d.
     copy_entries n cwd names src dest ex d))"
| "copy_entries n cwd [] src dest ex d = (Inr (), d)"
| "copy_entries n cwd (x # xs) src dest ex d =
     (let p = src @ [Normal_c x]; dest_path = dest @ [Normal_c x] in
      if is_excluded cwd p ex d then copy_entries n cwd xs src dest ex d
      else
        io_bind (if is_dir p d then copy_inner n cwd p dest_path ex d else copy_file p dest_path d) (\<lambda>_ d.
        copy_entries n cwd xs src dest ex d))"

definition disk_depth :: "disk \<Rightarrow> nat" where
  "disk_depth d = fold max (map (\<lambda>(p, _). length p) d) 0"

definition copy_dir_recursive :: "path \<Rightarrow> path \<Rightarrow> path \<Rightarrow> path \<Rightarrow> disk \<Rightarrow> (string + unit) \<times> disk" where
  "copy_dir_recursive cwd src dest exclude d =
     copy_inner (Suc (disk_depth d)) cwd src dest (canonical_or_original cwd exclude d) d"

fun clear_entries :: "path \<Rightarrow> string list \<Rightarrow> path \<Rightarrow> path \<Rightarrow> disk \<Rightarrow> (string + unit) \<times> disk" where
  "clear_entries cwd [] dir ex d = (Inr (), d)"
| "clear_entries cwd (x # xs) dir ex d =
     (let p = dir @ [Normal_c x] in
      if is_excluded cwd p ex d then clear_entries cwd xs dir ex d
      else io_bind (if is_dir p d then remove_dir_all p d else remove_file p d) (\<lambda>_. clear_entries cwd xs dir ex))"

definition clear_dir_excluding :: "path \<Rightarrow> path \<Rightarrow> path \<Rightarrow> disk \<Rightarrow> (string + unit) \<times> disk" where
  "clear_dir_excluding cwd dir exclude d =
     io_bind (read_dir dir d, d) (\<lambda>names d. clear_entries cwd names dir (canonical_or_original cwd exclude d) d)"

section \<open>The store\<close>

datatype checkpoint_error =
    CheckpointNotFound
  | WorkspaceMismatch
  | SnapshotMissing
  | SnapshotPathNotAbsolute
  | CheckpointIo string
  | CheckpointStorage string

fun checkpoint_error_code :: "checkpoint_error \<Rightarrow> string" where
  "checkpoint_error_code CheckpointNotFound = ''CHECKPOINT_NOT_FOUND''"
| "checkpoint_error_code WorkspaceMismatch = ''CHECKPOINT_WORKSPACE_MISMATCH''"
| "checkpoint_error_code SnapshotMissing = ''CHECKPOINT_SNAPSHOT_MISSING''"
| "checkpoint_error_code SnapshotPathNotAbsolute = ''CHECKPOINT_SNAPSHOT_PATH_NOT_ABSOLUTE''"
| "checkpoint_error_code (CheckpointIo _) = ''CHECKPOINT_IO''"
| "checkpoint_error_code (CheckpointStorage _) = ''CHECKPOINT_STORAGE''"

record checkpoint_metadata =
  cm_checkpoint_id :: checkpoint_id
  cm_workspace_id :: workspace_id
  cm_session_id :: "session_id option"
  cm_task_id :: "task_id option"
  cm_created_at :: instant
  cm_root_snapshot_path :: path

record checkpoint_store =
  cs_cwd :: path
  cs_checkpoints_root :: path
  cs_put :: "ulid \<Rightarrow> string"

record checkpoint_state =
  ck_disk :: disk
  ck_rows :: "checkpoint_metadata list"

definition snapshot_destination :: "checkpoint_store \<Rightarrow> workspace_id \<Rightarrow> checkpoint_id \<Rightarrow> path" where
  "snapshot_destination s wid cid =
     absolute (cs_cwd s) (path_join (path_join (cs_checkpoints_root s)
       [Normal_c (id_display (cs_put s) ''ws'' (ws_ulid wid))])
       [Normal_c (id_display (cs_put s) ''chk'' (chk_ulid cid))])"

definition checkpoint_key :: "checkpoint_metadata \<Rightarrow> checkpoint_id" where
  "checkpoint_key m = cm_checkpoint_id m"

definition insert_row :: "string option \<Rightarrow> checkpoint_metadata \<Rightarrow> checkpoint_metadata list
   \<Rightarrow> checkpoint_error + checkpoint_metadata list" where
  "insert_row io m rows =
     (case io of
        Some e \<Rightarrow> Inl (CheckpointStorage e)
      | None \<Rightarrow>
          if checkpoint_key m \<in> checkpoint_key ` set rows then Inl (CheckpointStorage ''UNIQUE constraint failed'')
          else Inr (rows @ [m]))"

text \<open>The fresh id and the time of creation are arguments.\<close>

definition checkpoint_create ::
  "checkpoint_store \<Rightarrow> string option \<Rightarrow> checkpoint_id \<Rightarrow> instant \<Rightarrow> workspace_authorization \<Rightarrow> session_id option
   \<Rightarrow> task_id option \<Rightarrow> checkpoint_state \<Rightarrow> (checkpoint_error + checkpoint_metadata) \<times> checkpoint_state" where
  "checkpoint_create s io cid now w sid tid st =
     (case create_dir_all (absolute (cs_cwd s) (cs_checkpoints_root s)) (ck_disk st) of
        (Inl e, d1) \<Rightarrow> (Inl (CheckpointIo e), st\<lparr>ck_disk := d1\<rparr>)
      | (Inr _, d1) \<Rightarrow>
          let dest = snapshot_destination s (ws_workspace_id w) cid in
          (case copy_dir_recursive (cs_cwd s) (ws_canonical_root w) dest (cs_checkpoints_root s) d1 of
             (Inl e, d2) \<Rightarrow> (Inl (CheckpointIo e), st\<lparr>ck_disk := d2\<rparr>)
           | (Inr _, d2) \<Rightarrow>
               let m = \<lparr>cm_checkpoint_id = cid, cm_workspace_id = ws_workspace_id w, cm_session_id = sid,
                        cm_task_id = tid, cm_created_at = now, cm_root_snapshot_path = dest\<rparr> in
               (case insert_row io m (ck_rows st) of
                  Inl e \<Rightarrow> (Inl e, st\<lparr>ck_disk := d2\<rparr>)
                | Inr rows \<Rightarrow> (Inr m, \<lparr>ck_disk = d2, ck_rows = rows\<rparr>))))"

text \<open>\<open>ORDER BY created_at DESC\<close> on the formatted timestamps.\<close>

definition query_checkpoints ::
  "(instant \<Rightarrow> string) \<Rightarrow> string option \<Rightarrow> workspace_id option \<Rightarrow> checkpoint_state
   \<Rightarrow> checkpoint_error + checkpoint_metadata list" where
  "query_checkpoints stamp io wid st =
     (case io of
        Some e \<Rightarrow> Inl (CheckpointStorage e)
      | None \<Rightarrow>
          Inr (rev (order_by (\<lambda>m. (stamp (cm_created_at m), []))
            (filter (\<lambda>m. case wid of None \<Rightarrow> True | Some i \<Rightarrow> cm_workspace_id m = i) (rev (ck_rows st))))))"

definition checkpoint_list where
  "checkpoint_list stamp io wid st = query_checkpoints stamp io (Some wid) st"

definition checkpoint_list_all where
  "checkpoint_list_all stamp io st = query_checkpoints stamp io None st"

definition snapshot_path :: "checkpoint_metadata \<Rightarrow> checkpoint_error + path" where
  "snapshot_path m =
     (if is_absolute (cm_root_snapshot_path m) then Inr (cm_root_snapshot_path m) else Inl SnapshotPathNotAbsolute)"

definition snapshot_unusable_reason :: "checkpoint_store \<Rightarrow> checkpoint_metadata \<Rightarrow> disk \<Rightarrow> checkpoint_error + unit" where
  "snapshot_unusable_reason s m d =
     rbind (snapshot_path m) (\<lambda>p. if disk_exists (cs_cwd s) p d then Inr () else Inl SnapshotMissing)"

definition unusable_snapshots ::
  "checkpoint_store \<Rightarrow> (instant \<Rightarrow> string) \<Rightarrow> string option \<Rightarrow> checkpoint_state
   \<Rightarrow> checkpoint_error + (checkpoint_id \<times> workspace_id \<times> checkpoint_error) list" where
  "unusable_snapshots s stamp io st =
     rbind (checkpoint_list_all stamp io st) (\<lambda>rows.
       Inr (List.map_filter (\<lambda>m. case snapshot_unusable_reason s m (ck_disk st) of
          Inl reason \<Rightarrow> Some (cm_checkpoint_id m, cm_workspace_id m, reason)
        | Inr _ \<Rightarrow> None) rows))"

definition checkpoint_get ::
  "string option \<Rightarrow> checkpoint_id \<Rightarrow> checkpoint_state \<Rightarrow> checkpoint_error + checkpoint_metadata option" where
  "checkpoint_get io cid st =
     (case io of Some e \<Rightarrow> Inl (CheckpointStorage e) | None \<Rightarrow> Inr (table_lookup checkpoint_key cid (ck_rows st)))"

definition checkpoint_restore ::
  "checkpoint_store \<Rightarrow> string option \<Rightarrow> checkpoint_id \<Rightarrow> workspace_authorization \<Rightarrow> checkpoint_state
   \<Rightarrow> (checkpoint_error + unit) \<times> checkpoint_state" where
  "checkpoint_restore s io cid w st =
     (case rbind (checkpoint_get io cid st) (\<lambda>found.
           rbind (ok_or CheckpointNotFound found) (\<lambda>m.
           if cm_workspace_id m \<noteq> ws_workspace_id w then Inl WorkspaceMismatch
           else rbind (snapshot_path m) (\<lambda>p.
             if \<not> disk_exists (cs_cwd s) p (ck_disk st) then Inl SnapshotMissing else Inr p))) of
        Inl e \<Rightarrow> (Inl e, st)
      | Inr p \<Rightarrow>
          (case clear_dir_excluding (cs_cwd s) (ws_canonical_root w) (cs_checkpoints_root s) (ck_disk st) of
             (Inl e, d1) \<Rightarrow> (Inl (CheckpointIo e), st\<lparr>ck_disk := d1\<rparr>)
           | (Inr _, d1) \<Rightarrow>
               (case copy_dir_recursive (cs_cwd s) p (ws_canonical_root w) (cs_checkpoints_root s) d1 of
                  (Inl e, d2) \<Rightarrow> (Inl (CheckpointIo e), st\<lparr>ck_disk := d2\<rparr>)
                | (Inr _, d2) \<Rightarrow> (Inr (), st\<lparr>ck_disk := d2\<rparr>))))"

definition checkpoint_delete ::
  "checkpoint_store \<Rightarrow> string option \<Rightarrow> string option \<Rightarrow> checkpoint_id \<Rightarrow> checkpoint_state
   \<Rightarrow> (checkpoint_error + unit) \<times> checkpoint_state" where
  "checkpoint_delete s io_get io_delete cid st =
     (case rbind (checkpoint_get io_get cid st) (\<lambda>found.
           rbind (ok_or CheckpointNotFound found) snapshot_path) of
        Inl e \<Rightarrow> (Inl e, st)
      | Inr p \<Rightarrow>
          (case (if disk_exists (cs_cwd s) p (ck_disk st) then remove_dir_all (absolute (cs_cwd s) p) (ck_disk st)
                 else (Inr (), ck_disk st)) of
             (Inl e, d1) \<Rightarrow> (Inl (CheckpointIo e), st\<lparr>ck_disk := d1\<rparr>)
           | (Inr _, d1) \<Rightarrow>
               (case io_delete of
                  Some e \<Rightarrow> (Inl (CheckpointStorage e), st\<lparr>ck_disk := d1\<rparr>)
                | None \<Rightarrow> (Inr (), \<lparr>ck_disk = d1, ck_rows = table_delete checkpoint_key cid (ck_rows st)\<rparr>))))"

section \<open>Lemmas on the disk\<close>

text \<open>A disk as the operating system keeps it: each path once, every entry in a directory.\<close>

definition disk_ok :: "disk \<Rightarrow> bool" where
  "disk_ok d \<longleftrightarrow> distinct (map fst d) \<and> (\<forall>p c. p \<noteq> [] \<and> look d (p @ [c]) \<noteq> None \<longrightarrow> look d p = Some Directory)"

lemma look_update [simp]: "look (AList.update k v d) q = (if q = k then Some v else look d q)"
  by (simp add: update_conv')

lemma look_filter: "look (filter (\<lambda>(q, _). P q) d) q = (if P q then look d q else None)"
  by (induction d) auto

lemma entry_name_Some: "entry_name p q = Some n \<longleftrightarrow> q = p @ [Normal_c n]"
  by (cases q rule: rev_cases) (auto simp: entry_name_def split: component.splits)

lemma map_filter_set: "y \<in> set (List.map_filter f xs) \<longleftrightarrow> (\<exists>x \<in> set xs. f x = Some y)"
  by (induction xs) (auto simp: List.map_filter_simps split: option.splits)

lemma read_dir_Inr:
  assumes "read_dir p d = Inr names"
  shows "look d p = Some Directory \<and> set names = {n. look d (p @ [Normal_c n]) \<noteq> None}"
proof -
  have "n \<in> set names \<longleftrightarrow> look d (p @ [Normal_c n]) \<noteq> None" for n
  proof -
    have "n \<in> set names \<longleftrightarrow> (\<exists>e. (p @ [Normal_c n], e) \<in> set d)"
      using assms by (force simp: read_dir_def map_filter_set entry_name_Some split: if_splits)
    then show ?thesis by (force simp: map_of_eq_None_iff)
  qed
  then show ?thesis using assms by (auto simp: read_dir_def is_dir_def split: if_splits)
qed

lemma read_dir_distinct:
  assumes "read_dir p d = Inr names" and "distinct (map fst d)"
  shows "distinct names"
proof -
  have "distinct (List.map_filter (\<lambda>x. entry_name p (fst x)) d)"
    using assms(2)
  proof (induction d)
    case (Cons x d)
    have "n \<notin> set (List.map_filter (\<lambda>x. entry_name p (fst x)) d)" if "entry_name p (fst x) = Some n" for n
      using that Cons.prems by (force simp: map_filter_set entry_name_Some image_iff)
    with Cons show ?case by (auto simp: List.map_filter_simps case_prod_beta split: option.splits)
  qed (simp add: List.map_filter_simps)
  then show ?thesis using assms(1) by (simp add: read_dir_def split: if_splits)
qed

lemma create_dirs_existing: "\<forall>p \<in> set ps. look d p = Some Directory \<Longrightarrow> create_dirs ps d = (Inr (), d)"
  by (induction ps) auto

text \<open>A path whose existing ancestors are directories can be created; nothing else changes.\<close>

lemma create_dirs_ok:
  assumes "\<forall>p \<in> set ps. look d p \<in> {None, Some Directory}"
  shows "\<exists>d'. create_dirs ps d = (Inr (), d') \<and> (\<forall>q. look d' q = (if q \<in> set ps then Some Directory else look d q))
    \<and> (distinct (map fst d) \<longrightarrow> distinct (map fst d'))"
  using assms
proof (induction ps arbitrary: d)
  case (Cons p ps)
  show ?case
  proof (cases "look d p")
    case None
    have "\<forall>q \<in> set ps. look (AList.update p Directory d) q \<in> {None, Some Directory}" using Cons.prems by simp
    from Cons.IH [OF this] obtain d' where d': "create_dirs ps (AList.update p Directory d) = (Inr (), d')"
      "\<forall>q. look d' q = (if q \<in> set ps then Some Directory else look (AList.update p Directory d) q)"
      "distinct (map fst (AList.update p Directory d)) \<longrightarrow> distinct (map fst d')"
      by blast
    then show ?thesis using None distinct_update [of d p Directory] by (intro exI [of _ d']) auto
  next
    case (Some e)
    with Cons.prems have "e = Directory" by auto
    with Some Cons.IH [of d] Cons.prems show ?thesis by auto
  qed
qed simp

lemma create_dir_all_ok:
  assumes "\<forall>p. p \<noteq> [] \<and> prefix p dest \<longrightarrow> look d p \<in> {None, Some Directory}"
  shows "\<exists>d'. create_dir_all dest d = (Inr (), d')
    \<and> (\<forall>q. look d' q = (if q \<noteq> [] \<and> prefix q dest then Some Directory else look d q))
    \<and> (distinct (map fst d) \<longrightarrow> distinct (map fst d'))"
proof -
  have "\<forall>p \<in> set (filter (\<lambda>q. q \<noteq> []) (prefixes dest)). look d p \<in> {None, Some Directory}"
    using assms by auto
  from create_dirs_ok [OF this] obtain d' where "create_dir_all dest d = (Inr (), d')"
    "\<forall>q. look d' q = (if q \<in> set (filter (\<lambda>q. q \<noteq> []) (prefixes dest)) then Some Directory else look d q)"
    "distinct (map fst d) \<longrightarrow> distinct (map fst d')"
    unfolding create_dir_all_def by blast
  then show ?thesis by (intro exI [of _ d']) auto
qed


subsection \<open>What a recursive copy does\<close>

definition normal_path :: "path \<Rightarrow> bool" where
  "normal_path r \<longleftrightarrow> (\<forall>c \<in> set r. \<exists>n. c = Normal_c n)"

text \<open>Below \<open>src\<close>, the part at or under the excluded path is spared.\<close>

definition spared :: "path \<Rightarrow> path \<Rightarrow> path \<Rightarrow> bool" where
  "spared src ex r \<longleftrightarrow> strict_prefix src ex \<and> prefix ex (src @ r)"

definition copied :: "path \<Rightarrow> path \<Rightarrow> disk \<Rightarrow> path \<Rightarrow> bool" where
  "copied src ex d r \<longleftrightarrow> normal_path r \<and> look d (src @ r) \<noteq> None \<and> \<not> spared src ex r"

text \<open>\<open>grafted src dest ex K d d'\<close>: the entries of \<open>src\<close> whose first component is in \<open>K\<close> have been copied
  to \<open>dest\<close>, and nothing else has changed.\<close>

definition grafted :: "path \<Rightarrow> path \<Rightarrow> path \<Rightarrow> component set \<Rightarrow> disk \<Rightarrow> disk \<Rightarrow> bool" where
  "grafted src dest ex K d d' \<longleftrightarrow>
     disk_ok d' \<and>
     (\<forall>r. r \<noteq> [] \<and> hd r \<in> K \<and> copied src ex d r \<longrightarrow> look d' (dest @ r) = look d (src @ r)) \<and>
     (\<forall>q. (\<nexists>r. q = dest @ r \<and> r \<noteq> [] \<and> hd r \<in> K \<and> copied src ex d r) \<longrightarrow> look d' q = look d q)"

text \<open>The targets of a copy are free, and outside the source.\<close>

definition separate :: "path \<Rightarrow> path \<Rightarrow> path \<Rightarrow> component set \<Rightarrow> disk \<Rightarrow> bool" where
  "separate src dest ex K d \<longleftrightarrow>
     (\<forall>r. r \<noteq> [] \<and> hd r \<in> K \<and> copied src ex d r \<longrightarrow>
        look d (dest @ r) = None \<and> (\<forall>r'. normal_path r' \<longrightarrow> spared src ex r' \<or> dest @ r \<noteq> src @ r'))"

definition reaches :: "path \<Rightarrow> disk \<Rightarrow> bool" where
  "reaches dest d \<longleftrightarrow> (\<forall>p. p \<noteq> [] \<and> prefix p dest \<longrightarrow> look d p = Some Directory)"

lemma normal_path_simps [simp]:
  "normal_path []"
  "normal_path (c # r) \<longleftrightarrow> (\<exists>n. c = Normal_c n) \<and> normal_path r"
  "normal_path (r @ r') \<longleftrightarrow> normal_path r \<and> normal_path r'"
  by (auto simp: normal_path_def)

lemma not_spared_Nil [simp]: "\<not> spared src ex []"
  by (auto simp: spared_def strict_prefix_def)

lemma spared_Cons: "spared src ex (c # r) \<longleftrightarrow> ex = src @ [c] \<or> spared (src @ [c]) ex r"
proof
  assume h: "spared src ex (c # r)"
  then obtain t where t: "ex = src @ t" "t \<noteq> []" by (auto simp: spared_def strict_prefix_def prefix_def)
  with h have "prefix t (c # r)" by (simp add: spared_def)
  with t obtain t' where "t = c # t'" "prefix t' r" by (auto simp: prefix_Cons)
  with t show "ex = src @ [c] \<or> spared (src @ [c]) ex r" by (cases t') (auto simp: spared_def strict_prefix_def)
next
  assume "ex = src @ [c] \<or> spared (src @ [c]) ex r"
  then show "spared src ex (c # r)"
    by (auto simp: spared_def strict_prefix_def prefix_def)
qed

lemma copied_Cons:
  "ex \<noteq> src @ [c] \<Longrightarrow> copied src ex d (c # r) \<longleftrightarrow> (\<exists>n. c = Normal_c n) \<and> copied (src @ [c]) ex d r"
  by (auto simp: copied_def spared_Cons)

lemma copied_cong:
  assumes "\<And>r. normal_path r \<Longrightarrow> \<not> spared src ex r \<Longrightarrow> look d' (src @ r) = look d (src @ r)"
  shows "copied src ex d' r \<longleftrightarrow> copied src ex d r"
  using assms by (auto simp: copied_def)

lemma is_excluded_absolute: "is_absolute p \<Longrightarrow> is_excluded cwd p ex d \<longleftrightarrow> p = ex"
  by (simp add: is_excluded_def canonical_or_original_def absolute_def)

lemma disk_ok_update:
  assumes "disk_ok d" and "look d p = None"
    and "butlast p \<noteq> [] \<Longrightarrow> look d (butlast p) = Some Directory"
  shows "disk_ok (AList.update p e d)"
proof -
  have "look (AList.update p e d) q = Some Directory"
    if "q \<noteq> []" "look (AList.update p e d) (q @ [c]) \<noteq> None" for q c
  proof (cases "p = q @ [c]")
    case True
    then show ?thesis using assms(3) that(1) by auto
  next
    case False
    then have "look d (q @ [c]) \<noteq> None" using that by (auto split: if_splits)
    then have "look d q = Some Directory" using assms(1) that(1) unfolding disk_ok_def by blast
    then show ?thesis using assms(2) by auto
  qed
  then show ?thesis using assms(1) unfolding disk_ok_def by (blast intro: distinct_update)
qed

lemma grafted_source:
  assumes "grafted src dest ex K d d'" and "separate src dest ex K d" and "normal_path r" and "\<not> spared src ex r"
  shows "look d' (src @ r) = look d (src @ r)"
  using assms unfolding grafted_def separate_def by metis

lemma grafted_compose:
  assumes g1: "grafted src dest ex {c} d d1" and g2: "grafted src dest ex K d1 d2"
    and s: "separate src dest ex {c} d" and c: "c \<notin> K"
  shows "grafted src dest ex (insert c K) d d2"
proof -
  have cop: "copied src ex d1 r \<longleftrightarrow> copied src ex d r" for r
    by (rule copied_cong) (rule grafted_source [OF g1 s])
  have src: "look d1 (src @ r) = look d (src @ r)" if "copied src ex d r" for r
    using grafted_source [OF g1 s] that by (simp add: copied_def)
  have "look d2 (dest @ r) = look d (src @ r)" if r: "r \<noteq> []" "hd r \<in> insert c K" "copied src ex d r" for r
  proof (cases "hd r = c")
    case True
    then have "look d2 (dest @ r) = look d1 (dest @ r)" using g2 c unfolding grafted_def by auto
    then show ?thesis using g1 True r unfolding grafted_def by auto
  next
    case False
    then have "look d2 (dest @ r) = look d1 (src @ r)" using g2 r cop unfolding grafted_def by auto
    then show ?thesis using src r by simp
  qed
  moreover have "look d2 q = look d q"
    if "\<nexists>r. q = dest @ r \<and> r \<noteq> [] \<and> hd r \<in> insert c K \<and> copied src ex d r" for q
  proof -
    have "look d2 q = look d1 q" using g2 that cop unfolding grafted_def by blast
    also have "look d1 q = look d q" using g1 that unfolding grafted_def by blast
    finally show ?thesis .
  qed
  ultimately show ?thesis using g2 unfolding grafted_def by blast
qed

lemma separate_after:
  assumes g: "grafted src dest ex {c} d d1" and s: "separate src dest ex (insert c K) d" and c: "c \<notin> K"
  shows "separate src dest ex K d1"
proof -
  have s1: "separate src dest ex {c} d" using s unfolding separate_def by blast
  have cop: "copied src ex d1 r \<longleftrightarrow> copied src ex d r" for r
    by (rule copied_cong) (rule grafted_source [OF g s1])
  have "look d1 (dest @ r) = look d (dest @ r)" if "hd r \<in> K" for r
    using g that c unfolding grafted_def by auto
  then show ?thesis using s cop unfolding separate_def by simp
qed


text \<open>What one call of the recursion needs and does.\<close>

definition plantable :: "path \<Rightarrow> path \<Rightarrow> path \<Rightarrow> disk \<Rightarrow> bool" where
  "plantable src dest ex d \<longleftrightarrow>
     disk_ok d \<and> is_absolute src \<and> dest \<noteq> [] \<and> look d src = Some Directory \<and> separate src dest ex UNIV d \<and>
     (\<forall>p. p \<noteq> [] \<and> prefix p dest \<longrightarrow> look d p = Some Directory \<or>
        (look d p = None \<and> (\<forall>r'. normal_path r' \<longrightarrow> spared src ex r' \<or> p \<noteq> src @ r')))"

definition planted :: "path \<Rightarrow> path \<Rightarrow> path \<Rightarrow> disk \<Rightarrow> disk \<Rightarrow> bool" where
  "planted src dest ex d d' \<longleftrightarrow>
     disk_ok d' \<and> reaches dest d' \<and>
     (\<forall>r. r \<noteq> [] \<and> copied src ex d r \<longrightarrow> look d' (dest @ r) = look d (src @ r)) \<and>
     (\<forall>q. (\<nexists>r. q = dest @ r \<and> r \<noteq> [] \<and> copied src ex d r) \<and> \<not> (q \<noteq> [] \<and> prefix q dest) \<longrightarrow> look d' q = look d q)"

lemma is_absolute_append: "is_absolute p \<Longrightarrow> is_absolute (p @ q)"
  by (cases p) (auto simp: is_absolute_def)

lemma is_absolute_not_Nil: "is_absolute p \<Longrightarrow> p \<noteq> []"
  by (auto simp: is_absolute_def)

lemma reachesD: "reaches dest d \<Longrightarrow> p \<noteq> [] \<Longrightarrow> prefix p dest \<Longrightarrow> look d p = Some Directory"
  by (simp add: reaches_def)

lemma separate_Cons:
  assumes "separate src dest ex {Normal_c x} d" and "ex \<noteq> src @ [Normal_c x]"
  shows "separate (src @ [Normal_c x]) (dest @ [Normal_c x]) ex UNIV d"
  unfolding separate_def
proof (intro allI impI)
  fix r assume r: "r \<noteq> [] \<and> hd r \<in> UNIV \<and> copied (src @ [Normal_c x]) ex d r"
  then have "copied src ex d (Normal_c x # r)" using assms(2) by (simp add: copied_Cons)
  then have "look d (dest @ Normal_c x # r) = None
    \<and> (\<forall>r'. normal_path r' \<longrightarrow> spared src ex r' \<or> dest @ Normal_c x # r \<noteq> src @ r')"
    using assms(1) unfolding separate_def by (metis list.distinct(1) list.sel(1) singletonI)
  moreover have "spared (src @ [Normal_c x]) ex r'" if "spared src ex (Normal_c x # r')" for r'
    using that assms(2) by (simp add: spared_Cons)
  ultimately show "look d ((dest @ [Normal_c x]) @ r) = None \<and>
    (\<forall>r'. normal_path r' \<longrightarrow> spared (src @ [Normal_c x]) ex r' \<or> (dest @ [Normal_c x]) @ r \<noteq> (src @ [Normal_c x]) @ r')"
    by (metis append.assoc append_Cons append_Nil normal_path_simps(2))
qed

lemma separate_child:
  assumes "separate src dest ex {Normal_c x} d" and "ex \<noteq> src @ [Normal_c x]"
    and "look d (src @ [Normal_c x]) \<noteq> None"
  shows "look d (dest @ [Normal_c x]) = None
    \<and> (\<forall>r'. normal_path r' \<longrightarrow> spared src ex r' \<or> dest @ [Normal_c x] \<noteq> src @ r')"
proof -
  have "copied src ex d [Normal_c x]" using assms by (simp add: copied_Cons) (simp add: copied_def)
  then show ?thesis using assms(1) unfolding separate_def by (metis list.distinct(1) list.sel(1) singletonI)
qed

lemma plantable_child:
  assumes "disk_ok d" and "is_absolute src" and "reaches dest d" and s: "separate src dest ex {Normal_c x} d"
    and ex: "ex \<noteq> src @ [Normal_c x]" and dir: "look d (src @ [Normal_c x]) = Some Directory"
  shows "plantable (src @ [Normal_c x]) (dest @ [Normal_c x]) ex d"
proof -
  have child: "look d (dest @ [Normal_c x]) = None
    \<and> (\<forall>r'. normal_path r' \<longrightarrow> spared src ex r' \<or> dest @ [Normal_c x] \<noteq> src @ r')"
    using separate_child [OF s ex] dir by simp
  have "spared (src @ [Normal_c x]) ex r' \<or> dest @ [Normal_c x] \<noteq> (src @ [Normal_c x]) @ r'" if "normal_path r'" for r'
    using child that ex spared_Cons [of src ex "Normal_c x" r'] normal_path_simps(2) [of "Normal_c x" r']
    by (metis append.assoc append_Cons append_Nil)
  then have "look d p = Some Directory \<or> (look d p = None \<and>
      (\<forall>r'. normal_path r' \<longrightarrow> spared (src @ [Normal_c x]) ex r' \<or> p \<noteq> (src @ [Normal_c x]) @ r'))"
    if "p \<noteq> [] \<and> prefix p (dest @ [Normal_c x])" for p
    using that child reachesD [OF assms(3)] by (auto simp: prefix_snoc)
  then show ?thesis
    unfolding plantable_def using assms separate_Cons [OF s ex] is_absolute_append by simp
qed

lemma planted_child:
  assumes p: "planted (src @ [Normal_c x]) (dest @ [Normal_c x]) ex d d'"
    and "reaches dest d" and ex: "ex \<noteq> src @ [Normal_c x]" and dir: "look d (src @ [Normal_c x]) = Some Directory"
  shows "grafted src dest ex {Normal_c x} d d'"
proof -
  have cop: "copied src ex d (Normal_c x # r) \<longleftrightarrow> copied (src @ [Normal_c x]) ex d r" for r
    using ex by (simp add: copied_Cons)
  have dest': "look d' (dest @ [Normal_c x]) = Some Directory"
    using p by (simp add: planted_def reaches_def)
  have "look d' (dest @ Normal_c x # r) = look d (src @ Normal_c x # r)" if "copied src ex d (Normal_c x # r)" for r
  proof (cases "r = []")
    case True
    then show ?thesis using dest' dir by simp
  next
    case False
    then have "look d' ((dest @ [Normal_c x]) @ r) = look d ((src @ [Normal_c x]) @ r)"
      using p that cop unfolding planted_def by blast
    then show ?thesis by simp
  qed
  then have 1: "look d' (dest @ r) = look d (src @ r)" if "r \<noteq> []" "hd r \<in> {Normal_c x}" "copied src ex d r" for r
    using that by (cases r) auto
  have 2: "look d' q = look d q"
    if no: "\<nexists>r. q = dest @ r \<and> r \<noteq> [] \<and> hd r \<in> {Normal_c x} \<and> copied src ex d r" for q
  proof (cases "q \<noteq> [] \<and> prefix q dest")
    case True
    then have "look d q = Some Directory" by (auto intro: reachesD [OF assms(2)])
    moreover have "look d' q = Some Directory"
      using p True by (auto simp: planted_def intro: reachesD)
    ultimately show ?thesis by simp
  next
    case False
    have "copied src ex d [Normal_c x]" using dir ex by (simp add: copied_Cons) (simp add: copied_def)
    with no have "q \<noteq> dest @ [Normal_c x]" by auto
    with False have "\<not> (q \<noteq> [] \<and> prefix q (dest @ [Normal_c x]))" by (auto simp: prefix_snoc)
    moreover have "\<nexists>r. q = (dest @ [Normal_c x]) @ r \<and> r \<noteq> [] \<and> copied (src @ [Normal_c x]) ex d r"
      using no cop by (metis append.assoc append_Cons append_Nil list.distinct(1) list.sel(1) singletonI)
    ultimately show ?thesis using p unfolding planted_def by blast
  qed
  show ?thesis unfolding grafted_def using p 1 2 by (auto simp: planted_def)
qed


lemma disk_ok_ancestor:
  assumes "disk_ok d" and "p \<noteq> []" and "q \<noteq> []" and "look d (p @ q) \<noteq> None"
  shows "look d p = Some Directory"
  using assms(3,4)
proof (induction q rule: rev_induct)
  case (snoc c q)
  have "look d (p @ q) = Some Directory"
    using assms(1,2) snoc.prems(2) unfolding disk_ok_def by (metis append.assoc append_is_Nil_conv)
  with snoc.IH show ?case by (cases "q = []") auto
qed simp

lemma grafted_excluded: "disk_ok d \<Longrightarrow> ex = src @ [c] \<Longrightarrow> grafted src dest ex {c} d d"
proof -
  assume d: "disk_ok d" and ex: "ex = src @ [c]"
  have "\<not> copied src ex d r" if "r \<noteq> []" "hd r = c" for r
    using that ex by (cases r) (auto simp: copied_def spared_Cons)
  then show ?thesis using d unfolding grafted_def by blast
qed

lemma copy_file_child:
  assumes d: "disk_ok d" and "is_absolute src" and reach: "reaches dest d" and "dest \<noteq> []"
    and s: "separate src dest ex {Normal_c x} d"
    and ex: "ex \<noteq> src @ [Normal_c x]" and reg: "look d (src @ [Normal_c x]) = Some (Regular b)"
  shows "\<exists>d'. copy_file (src @ [Normal_c x]) (dest @ [Normal_c x]) d = (Inr (), d') \<and> grafted src dest ex {Normal_c x} d d'"
proof -
  define d' where "d' = AList.update (dest @ [Normal_c x]) (Regular b) d"
  have parent: "look d dest = Some Directory" using reachesD [OF reach] assms(4) by simp
  have free: "look d (dest @ [Normal_c x]) = None" using separate_child [OF s ex] reg by simp
  have only: "copied src ex d r \<longleftrightarrow> r = [Normal_c x]" if "r \<noteq> []" "hd r = Normal_c x" for r
  proof -
    obtain t where r: "r = Normal_c x # t" using \<open>r \<noteq> []\<close> \<open>hd r = Normal_c x\<close> by (cases r) auto
    have "look d ((src @ [Normal_c x]) @ t) = None" if "t \<noteq> []"
      using disk_ok_ancestor [OF d _ that, of "src @ [Normal_c x]"] reg by fastforce
    then show ?thesis unfolding r copied_Cons [OF ex] by (cases t) (auto simp: copied_def reg)
  qed
  have "disk_ok d'" unfolding d'_def using disk_ok_update [OF d free] parent by simp
  moreover have "look d' (dest @ r) = look d (src @ r)"
    if "r \<noteq> []" "hd r \<in> {Normal_c x}" "copied src ex d r" for r
    using that only [of r] reg by (auto simp: d'_def)
  moreover have "look d' q = look d q"
    if "\<nexists>r. q = dest @ r \<and> r \<noteq> [] \<and> hd r \<in> {Normal_c x} \<and> copied src ex d r" for q
    using that only [of "[Normal_c x]"] by (auto simp: d'_def)
  ultimately have "grafted src dest ex {Normal_c x} d d'" unfolding grafted_def by blast
  then show ?thesis using reg parent free by (simp add: copy_file_def d'_def)
qed

lemma grafted_keeps: "grafted src dest ex K d d' \<Longrightarrow> look d q \<noteq> None \<Longrightarrow> look d' q \<noteq> None"
  unfolding grafted_def copied_def by metis

lemma grafted_reaches:
  assumes "grafted src dest ex K d d'" and "reaches dest d"
  shows "reaches dest d'"
proof -
  have "look d' p = Some Directory" if "p \<noteq> []" "prefix p dest" for p
  proof -
    have "look d' p = look d p" using assms(1) that(2) unfolding grafted_def by (auto simp: prefix_def)
    then show ?thesis using reachesD [OF assms(2)] that by simp
  qed
  then show ?thesis by (simp add: reaches_def)
qed

definition inner_copies :: "nat \<Rightarrow> path \<Rightarrow> path \<Rightarrow> bool" where
  "inner_copies n cwd ex \<longleftrightarrow>
     (\<forall>src dest d. plantable src dest ex d \<and> (\<forall>r. copied src ex d r \<longrightarrow> length r < n) \<longrightarrow>
        (\<exists>d'. copy_inner n cwd src dest ex d = (Inr (), d') \<and> planted src dest ex d d'))"

lemma copy_child:
  assumes ok: "inner_copies n cwd ex" and d: "disk_ok d" and a: "is_absolute src" and reach: "reaches dest d"
    and ne: "dest \<noteq> []" and s: "separate src dest ex {Normal_c x} d"
    and ex: "ex \<noteq> src @ [Normal_c x]" and there: "look d (src @ [Normal_c x]) \<noteq> None"
    and fuel: "\<forall>r. copied src ex d r \<longrightarrow> length r \<le> n"
  shows "\<exists>d'. (if is_dir (src @ [Normal_c x]) d then copy_inner n cwd (src @ [Normal_c x]) (dest @ [Normal_c x]) ex d
      else copy_file (src @ [Normal_c x]) (dest @ [Normal_c x]) d) = (Inr (), d') \<and> grafted src dest ex {Normal_c x} d d'"
proof (cases "look d (src @ [Normal_c x]) = Some Directory")
  case True
  have "length r < n" if "copied (src @ [Normal_c x]) ex d r" for r
  proof -
    have "copied src ex d (Normal_c x # r)" using that ex by (simp add: copied_Cons)
    with fuel show ?thesis by fastforce
  qed
  with ok plantable_child [OF d a reach s ex True] obtain d' where
    d': "copy_inner n cwd (src @ [Normal_c x]) (dest @ [Normal_c x]) ex d = (Inr (), d')"
    "planted (src @ [Normal_c x]) (dest @ [Normal_c x]) ex d d'"
    unfolding inner_copies_def by blast
  with planted_child [OF d'(2) reach ex True] True show ?thesis by (simp add: is_dir_def)
next
  case False
  with there obtain b where "look d (src @ [Normal_c x]) = Some (Regular b)" by (metis entry.exhaust not_None_eq)
  from copy_file_child [OF d a reach ne s ex this] False show ?thesis by (simp add: is_dir_def)
qed

lemma copy_entries_spec:
  assumes ok: "inner_copies n cwd ex" and a: "is_absolute src" and ne: "dest \<noteq> []"
    and "distinct names" and "\<forall>x \<in> set names. look d (src @ [Normal_c x]) \<noteq> None" and "disk_ok d"
    and "reaches dest d" and "separate src dest ex (Normal_c ` set names) d"
    and "\<forall>r. copied src ex d r \<longrightarrow> length r \<le> n"
  shows "\<exists>d'. copy_entries n cwd names src dest ex d = (Inr (), d') \<and> grafted src dest ex (Normal_c ` set names) d d'"
  using assms(4-)
proof (induction names arbitrary: d)
  case Nil
  then show ?case by (simp add: grafted_def)
next
  case (Cons x names)
  have s1: "separate src dest ex {Normal_c x} d" using Cons.prems(5) unfolding separate_def by auto
  have c: "Normal_c x \<notin> Normal_c ` set names" using Cons.prems(1) by auto
  obtain d1 where step: "copy_entries n cwd (x # names) src dest ex d = copy_entries n cwd names src dest ex d1"
    and g: "grafted src dest ex {Normal_c x} d d1"
  proof (cases "ex = src @ [Normal_c x]")
    case True
    then show thesis using grafted_excluded [OF Cons.prems(3)] a
      by (intro that [of d]) (simp_all add: is_excluded_absolute is_absolute_append)
  next
    case False
    have there: "look d (src @ [Normal_c x]) \<noteq> None" using Cons.prems(2) by simp
    from copy_child [OF ok Cons.prems(3) a Cons.prems(4) ne s1 False there Cons.prems(6)]
    obtain d' where d': "(if is_dir (src @ [Normal_c x]) d then copy_inner n cwd (src @ [Normal_c x]) (dest @ [Normal_c x]) ex d
      else copy_file (src @ [Normal_c x]) (dest @ [Normal_c x]) d) = (Inr (), d')" "grafted src dest ex {Normal_c x} d d'"
      by blast
    then show thesis using False a
      by (intro that [of d']) (simp_all add: is_excluded_absolute is_absolute_append io_bind_def Let_def)
  qed
  have cop: "copied src ex d1 r \<longleftrightarrow> copied src ex d r" for r
    by (rule copied_cong) (rule grafted_source [OF g s1])
  have s2: "separate src dest ex (Normal_c ` set names) d1"
    using separate_after [OF g _ c] Cons.prems(5) by simp
  have there: "\<forall>y \<in> set names. look d1 (src @ [Normal_c y]) \<noteq> None" using grafted_keeps [OF g] Cons.prems(2) by simp
  have "disk_ok d1" using g by (simp add: grafted_def)
  from Cons.IH [OF _ there this grafted_reaches [OF g Cons.prems(4)] s2] Cons.prems(1,6) cop obtain d2 where
    d2: "copy_entries n cwd names src dest ex d1 = (Inr (), d2)" "grafted src dest ex (Normal_c ` set names) d1 d2"
    by auto
  with step grafted_compose [OF g d2(2) s1 c] show ?case by simp
qed


lemma disk_ok_chain:
  assumes "disk_ok d" and "distinct (map fst d')"
    and look: "\<And>q. look d' q = (if q \<noteq> [] \<and> prefix q dest then Some Directory else look d q)"
  shows "disk_ok d'"
proof -
  have "look d' p = Some Directory" if "p \<noteq> []" "look d' (p @ [c]) \<noteq> None" for p c
  proof (cases "prefix (p @ [c]) dest")
    case True
    then show ?thesis using that(1) look by (auto dest: append_prefixD)
  next
    case False
    then have "look d (p @ [c]) \<noteq> None" using that(2) look by simp
    then have "look d p = Some Directory" using that(1) assms(1) unfolding disk_ok_def by blast
    then show ?thesis using look by simp
  qed
  then show ?thesis using assms(2) unfolding disk_ok_def by blast
qed

lemma copied_hd:
  assumes "disk_ok d" and "is_absolute src" and "r \<noteq> []" and "copied src ex d r"
  shows "\<exists>n. hd r = Normal_c n \<and> look d (src @ [Normal_c n]) \<noteq> None"
proof -
  obtain n t where r: "r = Normal_c n # t" using assms(3,4) by (cases r) (auto simp: copied_def)
  have "look d ((src @ [Normal_c n]) @ t) \<noteq> None" using assms(4) r by (simp add: copied_def)
  then have "look d (src @ [Normal_c n]) \<noteq> None"
    using disk_ok_ancestor [OF assms(1), of "src @ [Normal_c n]" t] by (cases "t = []") auto
  with r show ?thesis by simp
qed

lemma plantable_chain:
  assumes p: "plantable src dest ex d"
    and look: "\<And>q. look d' q = (if q \<noteq> [] \<and> prefix q dest then Some Directory else look d q)"
  shows "normal_path r \<Longrightarrow> \<not> spared src ex r \<Longrightarrow> look d' (src @ r) = look d (src @ r)"
    and "copied src ex d' r \<longleftrightarrow> copied src ex d r"
    and "separate src dest ex UNIV d'"
    and "reaches dest d'"
proof -
  have src: "look d' (src @ r) = look d (src @ r)" if "normal_path r" "\<not> spared src ex r" for r
    using p that look [of "src @ r"] unfolding plantable_def by metis
  then show "normal_path r \<Longrightarrow> \<not> spared src ex r \<Longrightarrow> look d' (src @ r) = look d (src @ r)" .
  have cop: "copied src ex d' r \<longleftrightarrow> copied src ex d r" for r
    by (rule copied_cong) (rule src)
  then show "copied src ex d' r \<longleftrightarrow> copied src ex d r" .
  have "look d' (dest @ r) = look d (dest @ r)" if "r \<noteq> []" for r using look that by (auto simp: prefix_def)
  then show "separate src dest ex UNIV d'" using p cop unfolding plantable_def separate_def by simp
  show "reaches dest d'" using look by (simp add: reaches_def)
qed

lemma inner_copies: "inner_copies n cwd ex"
proof (induction n)
  case 0
  have "\<not> (\<forall>r. copied src ex d r \<longrightarrow> length r < 0)" if "plantable src dest ex d" for src dest d
  proof -
    have "copied src ex d []" using that by (simp add: copied_def plantable_def)
    then show ?thesis by blast
  qed
  then show ?case unfolding inner_copies_def by blast
next
  case (Suc n)
  have "\<exists>d'. copy_inner (Suc n) cwd src dest ex d = (Inr (), d') \<and> planted src dest ex d d'"
    if p: "plantable src dest ex d" and fuel: "\<forall>r. copied src ex d r \<longrightarrow> length r < Suc n" for src dest d
  proof -
    have d: "disk_ok d" and a: "is_absolute src" and ne: "dest \<noteq> []" and dir: "look d src = Some Directory"
      using p by (simp_all add: plantable_def)
    have "\<forall>q. q \<noteq> [] \<and> prefix q dest \<longrightarrow> look d q \<in> {None, Some Directory}"
      using p unfolding plantable_def by blast
    from create_dir_all_ok [OF this] obtain d1 where c1: "create_dir_all dest d = (Inr (), d1)"
      and l1: "\<And>q. look d1 q = (if q \<noteq> [] \<and> prefix q dest then Some Directory else look d q)"
      and dist: "distinct (map fst d) \<longrightarrow> distinct (map fst d1)"
      by blast
    note chain = plantable_chain [OF p l1]
    have d1: "disk_ok d1" using disk_ok_chain [OF d _ l1] dist d by (simp add: disk_ok_def)
    have dir1: "look d1 src = Some Directory" using chain(1) [of "[]"] dir by simp
    obtain names where names: "read_dir src d1 = Inr names"
      using dir1 by (simp add: read_dir_def is_dir_def)
    note rd = read_dir_Inr [OF names]
    have "distinct names" using read_dir_distinct [OF names] d1 by (simp add: disk_ok_def)
    moreover have "\<forall>x \<in> set names. look d1 (src @ [Normal_c x]) \<noteq> None" using rd by blast
    moreover have "separate src dest ex (Normal_c ` set names) d1" using chain(3) unfolding separate_def by blast
    moreover have "\<forall>r. copied src ex d1 r \<longrightarrow> length r \<le> n" using fuel chain(2) by (simp add: less_Suc_eq_le)
    ultimately obtain d2 where c2: "copy_entries n cwd names src dest ex d1 = (Inr (), d2)"
      and g: "grafted src dest ex (Normal_c ` set names) d1 d2"
      using copy_entries_spec [OF Suc a ne _ _ d1 chain(4)] by blast
    have hd_names: "hd r \<in> Normal_c ` set names" if "r \<noteq> []" "copied src ex d1 r" for r
      using copied_hd [OF d1 a that] rd by auto
    have "look d2 (dest @ r) = look d (src @ r)" if "r \<noteq> []" "copied src ex d r" for r
    proof -
      have "look d2 (dest @ r) = look d1 (src @ r)"
        using g that hd_names [of r] chain(2) [of r] unfolding grafted_def by blast
      then show ?thesis using chain(1) [of r] that by (simp add: copied_def)
    qed
    moreover have "look d2 q = look d q"
      if "\<nexists>r. q = dest @ r \<and> r \<noteq> [] \<and> copied src ex d r" "\<not> (q \<noteq> [] \<and> prefix q dest)" for q
    proof -
      have "look d2 q = look d1 q" using g that chain(2) unfolding grafted_def by blast
      then show ?thesis using l1 that(2) by auto
    qed
    ultimately have "planted src dest ex d d2"
      using g grafted_reaches [OF g chain(4)] unfolding planted_def grafted_def by blast
    then show ?thesis using c1 c2 names by (simp add: io_bind_def)
  qed
  then show ?case unfolding inner_copies_def by blast
qed

lemma disk_depth_bound: "look d q \<noteq> None \<Longrightarrow> length q \<le> disk_depth d"
proof -
  assume "look d q \<noteq> None"
  then obtain e where "(q, e) \<in> set d" by (auto dest: map_of_SomeD)
  then have "length q \<in> set (0 # map (\<lambda>(p, _). length p) d)" by force
  then have "length q \<le> Max (set (0 # map (\<lambda>(p, _). length p) d))" by (intro Max_ge) simp_all
  then show ?thesis by (simp only: disk_depth_def Max.set_eq_fold)
qed

lemma copy_dir_recursive_copies:
  assumes "plantable src dest (canonical_or_original cwd exclude d) d"
  shows "\<exists>d'. copy_dir_recursive cwd src dest exclude d = (Inr (), d')
    \<and> planted src dest (canonical_or_original cwd exclude d) d d'"
proof -
  have "length r < Suc (disk_depth d)" if "copied src ex d r" for ex r
    using disk_depth_bound [of d "src @ r"] that by (simp add: copied_def)
  then show ?thesis
    using inner_copies [of "Suc (disk_depth d)" cwd "canonical_or_original cwd exclude d"] assms
    unfolding inner_copies_def copy_dir_recursive_def by blast
qed


subsection \<open>What clearing a directory does\<close>

definition cleared :: "path \<Rightarrow> path \<Rightarrow> component set \<Rightarrow> path \<Rightarrow> bool" where
  "cleared dir ex K q \<longleftrightarrow> (\<exists>c r. q = dir @ c # r \<and> c \<in> K \<and> dir @ [c] \<noteq> ex)"

lemma cleared_insert: "cleared dir ex (insert c K) q \<longleftrightarrow> (dir @ [c] \<noteq> ex \<and> prefix (dir @ [c]) q) \<or> cleared dir ex K q"
  by (auto simp: cleared_def prefix_def)

lemma disk_ok_filter:
  assumes "disk_ok d"
  shows "disk_ok (filter (\<lambda>(q, _). \<not> prefix p q) d)"
proof -
  have "look (filter (\<lambda>(q, _). \<not> prefix p q) d) q = Some Directory"
    if "q \<noteq> []" "look (filter (\<lambda>(q, _). \<not> prefix p q) d) (q @ [c]) \<noteq> None" for q c
  proof -
    have "\<not> prefix p (q @ [c])" "look d (q @ [c]) \<noteq> None" using that(2) by (auto simp: look_filter split: if_splits)
    moreover then have "look d q = Some Directory" using assms that(1) unfolding disk_ok_def by blast
    ultimately show ?thesis by (auto simp: look_filter)
  qed
  then show ?thesis using assms unfolding disk_ok_def by (blast intro: distinct_map_filter)
qed

lemma remove_entry:
  assumes "disk_ok d" and "p \<noteq> []" and "look d p \<noteq> None"
  shows "\<exists>d'. (if is_dir p d then remove_dir_all p d else remove_file p d) = (Inr (), d') \<and> disk_ok d'
    \<and> (\<forall>q. look d' q = (if prefix p q then None else look d q))"
proof (cases "look d p = Some Directory")
  case True
  then show ?thesis using disk_ok_filter [OF assms(1)] by (simp add: remove_dir_all_def is_dir_def look_filter)
next
  case False
  then obtain b where b: "look d p = Some (Regular b)" using assms(3) by (metis entry.exhaust not_None_eq)
  have only: "prefix p q \<longleftrightarrow> q = p" if "(q, e) \<in> set d" for q e
  proof -
    have "look d q \<noteq> None" using that by (metis fst_conv image_eqI map_of_eq_None_iff)
    then show ?thesis using disk_ok_ancestor [OF assms(1,2)] False by (auto simp: prefix_def)
  qed
  have "filter (\<lambda>(q, _). q \<noteq> p) d = filter (\<lambda>(q, _). \<not> prefix p q) d"
    by (rule filter_cong) (auto simp: only)
  then show ?thesis using False b disk_ok_filter [OF assms(1)] by (simp add: remove_file_def is_dir_def look_filter)
qed

lemma clear_entries_spec:
  assumes "distinct names" and "\<forall>x \<in> set names. look d (dir @ [Normal_c x]) \<noteq> None" and "disk_ok d"
    and a: "is_absolute dir"
  shows "\<exists>d'. clear_entries cwd names dir ex d = (Inr (), d') \<and> disk_ok d'
    \<and> (\<forall>q. look d' q = (if cleared dir ex (Normal_c ` set names) q then None else look d q))"
  using assms(1-3)
proof (induction names arbitrary: d)
  case Nil
  then show ?case by (simp add: cleared_def)
next
  case (Cons x names)
  let ?p = "dir @ [Normal_c x]"
  show ?case
  proof (cases "?p = ex")
    case True
    then have "clear_entries cwd (x # names) dir ex d = clear_entries cwd names dir ex d"
      using is_excluded_absolute [OF is_absolute_append [OF a], of cwd "[Normal_c x]" ex d] by simp
    then show ?thesis using Cons.IH [of d] Cons.prems True by (simp only: list.set image_insert cleared_insert) auto
  next
    case False
    obtain d1 where d1: "(if is_dir ?p d then remove_dir_all ?p d else remove_file ?p d) = (Inr (), d1)" "disk_ok d1"
      "\<forall>q. look d1 q = (if prefix ?p q then None else look d q)"
      using remove_entry [OF Cons.prems(3), of ?p] Cons.prems(2) by auto
    have "\<forall>y \<in> set names. look d1 (dir @ [Normal_c y]) \<noteq> None" using Cons.prems(1,2) d1(3) by auto
    from Cons.IH [OF _ this d1(2)] Cons.prems(1) obtain d2 where
      d2: "clear_entries cwd names dir ex d1 = (Inr (), d2)" "disk_ok d2"
      "\<forall>q. look d2 q = (if cleared dir ex (Normal_c ` set names) q then None else look d1 q)" by auto
    have "clear_entries cwd (x # names) dir ex d = (Inr (), d2)"
      using d1(1) d2(1) False a by (simp add: is_excluded_absolute is_absolute_append io_bind_def Let_def)
    moreover have "\<forall>q. look d2 q = (if cleared dir ex (Normal_c ` set (x # names)) q then None else look d q)"
      using d1(3) d2(3) False by (simp add: cleared_insert)
    ultimately show ?thesis using d2(2) by blast
  qed
qed

lemma clear_dir_excluding_clears:
  assumes "disk_ok d" and "is_absolute dir" and "look d dir = Some Directory"
  shows "\<exists>d'. clear_dir_excluding cwd dir exclude d = (Inr (), d') \<and> disk_ok d'
    \<and> (\<forall>r. normal_path r \<longrightarrow> look d' (dir @ r)
         = (if r \<noteq> [] \<and> dir @ [hd r] \<noteq> canonical_or_original cwd exclude d then None else look d (dir @ r)))
    \<and> (\<forall>q. (\<nexists>c r. q = dir @ c # r \<and> dir @ [c] \<noteq> canonical_or_original cwd exclude d) \<longrightarrow> look d' q = look d q)"
proof -
  let ?ex = "canonical_or_original cwd exclude d"
  obtain names where names: "read_dir dir d = Inr names" using assms(3) by (simp add: read_dir_def is_dir_def)
  have there: "set names = {n. look d (dir @ [Normal_c n]) \<noteq> None}" using read_dir_Inr [OF names] by simp
  moreover have "distinct names" using read_dir_distinct [OF names] assms(1) by (simp add: disk_ok_def)
  ultimately obtain d' where d': "clear_entries cwd names dir ?ex d = (Inr (), d')" "disk_ok d'"
    "\<forall>q. look d' q = (if cleared dir ?ex (Normal_c ` set names) q then None else look d q)"
    using clear_entries_spec [OF _ _ assms(1,2)] by blast
  have gone: "look d' (dir @ r) = None" if "normal_path r" "r \<noteq> []" "dir @ [hd r] \<noteq> ?ex" for r
  proof (cases "look d (dir @ r) = None")
    case False
    then have "copied dir dir d r" using that(1) by (simp add: copied_def spared_def)
    from copied_hd [OF assms(1,2) that(2) this] have "hd r \<in> Normal_c ` set names" using there by auto
    then have "cleared dir ?ex (Normal_c ` set names) (dir @ r)"
      unfolding cleared_def using that(2,3) by (intro exI [of _ "hd r"] exI [of _ "tl r"]) simp
    then show ?thesis using d'(3) by simp
  qed (use d'(3) in simp)
  moreover have kept: "look d' q = look d q" if "\<nexists>c r. q = dir @ c # r \<and> dir @ [c] \<noteq> ?ex" for q
  proof -
    have "\<not> cleared dir ?ex (Normal_c ` set names) q" using that unfolding cleared_def by blast
    then show ?thesis using d'(3) by simp
  qed
  moreover have "look d' (dir @ r) = look d (dir @ r)" if "\<not> (r \<noteq> [] \<and> dir @ [hd r] \<noteq> ?ex)" for r
    by (rule kept) (use that in auto)
  ultimately show ?thesis using d'(1,2) names by (auto simp: clear_dir_excluding_def io_bind_def)
qed


section \<open>Properties\<close>

text \<open>\<open>snapshot_of W R dest d0 d\<close>: on disk \<open>d\<close> the directory \<open>dest\<close> is a copy of what the workspace \<open>W\<close> held on
  disk \<open>d0\<close>, without the checkpoints root \<open>R\<close>.\<close>

definition snapshot_of :: "path \<Rightarrow> path \<Rightarrow> path \<Rightarrow> disk \<Rightarrow> disk \<Rightarrow> bool" where
  "snapshot_of W R dest d0 d \<longleftrightarrow>
     look d dest = Some Directory \<and>
     (\<forall>r. r \<noteq> [] \<and> normal_path r \<longrightarrow> look d (dest @ r) = (if spared W R r then None else look d0 (W @ r)))"

lemma spared_if_below:
  assumes "\<not> prefix R W" and "prefix R (W @ r)"
  shows "spared W R r"
proof -
  have "prefix W R" using assms prefix_same_cases [of R "W @ r" W] by auto
  then show ?thesis using assms by (auto simp: spared_def strict_prefix_def)
qed

lemma copy_takes_snapshot:
  assumes d: "disk_ok d" and a: "is_absolute W" and dir: "look d W = Some Directory"
    and apart: "\<not> prefix R W" and R: "reaches R d" "R \<noteq> []" and dest: "strict_prefix R dest" "look d dest = None"
    and free: "\<forall>p. p \<noteq> [] \<and> prefix p dest \<longrightarrow> look d p \<in> {None, Some Directory}"
    and ex: "canonical_or_original cwd exclude d = R"
  shows "\<exists>d'. copy_dir_recursive cwd W dest exclude d = (Inr (), d') \<and> disk_ok d' \<and> snapshot_of W R dest d d'
    \<and> (\<forall>q. \<not> prefix R q \<longrightarrow> look d' q = look d q)"
proof -
  have none: "look d (dest @ r) = None" for r
    using disk_ok_ancestor [OF d, of dest r] dest by (cases "r = []") force+
  have below: "prefix R (dest @ r)" for r using dest(1) by (simp add: strict_prefix_def)
  have out: "spared W R r'" if "prefix R (W @ r')" for r' by (rule spared_if_below [OF apart that])
  have "separate W dest R UNIV d"
    unfolding separate_def using none out below by metis
  moreover have "look d p = Some Directory \<or> (look d p = None \<and> (\<forall>r'. normal_path r' \<longrightarrow> spared W R r' \<or> p \<noteq> W @ r'))"
    if p: "p \<noteq> [] \<and> prefix p dest" for p
  proof (cases "prefix p R")
    case True
    then show ?thesis using p by (auto intro: reachesD [OF R(1)])
  next
    case False
    then have "prefix R p" using prefix_same_cases [of p dest R] p dest(1) by (auto simp: strict_prefix_def)
    then show ?thesis using free p out by blast
  qed
  ultimately have "plantable W dest R d"
    unfolding plantable_def using d a dir dest(1) by auto
  then obtain d' where d': "copy_dir_recursive cwd W dest exclude d = (Inr (), d')" "planted W dest R d d'"
    using copy_dir_recursive_copies [of W dest cwd exclude d] unfolding ex by blast
  have kept: "look d' q = look d q" if "\<nexists>r. q = dest @ r \<and> r \<noteq> [] \<and> copied W R d r" "\<not> (q \<noteq> [] \<and> prefix q dest)" for q
    using d'(2) that unfolding planted_def by blast
  have "look d' (dest @ r) = (if spared W R r then None else look d (W @ r))" if "r \<noteq> []" "normal_path r" for r
  proof (cases "copied W R d r")
    case True
    then show ?thesis using d'(2) that unfolding planted_def by (simp add: copied_def)
  next
    case False
    then have "look d' (dest @ r) = look d (dest @ r)" using that by (intro kept) (auto simp: prefix_def)
    then show ?thesis using False none that by (auto simp: copied_def)
  qed
  moreover have "look d' dest = Some Directory" using d'(2) dest by (auto simp: planted_def intro: reachesD)
  moreover have "look d' q = look d q" if q: "\<not> prefix R q" for q
  proof (cases "q \<noteq> [] \<and> prefix q dest")
    case True
    then have "prefix q R" using prefix_same_cases [of q dest R] q dest(1) by (auto simp: strict_prefix_def)
    then have "look d q = Some Directory" using True by (auto intro: reachesD [OF R(1)])
    moreover have "look d' q = Some Directory" using d'(2) True by (auto simp: planted_def intro: reachesD)
    ultimately show ?thesis by simp
  next
    case False
    then show ?thesis using q below by (intro kept) auto
  qed
  ultimately show ?thesis using d' unfolding planted_def snapshot_of_def by blast
qed


lemma disk_ok_reaches: "disk_ok d \<Longrightarrow> look d p = Some Directory \<Longrightarrow> reaches p d"
  unfolding reaches_def prefix_def using disk_ok_ancestor [of d] by (metis append.right_neutral option.distinct(1))

lemma direct_child_kept:
  assumes "\<not> prefix R W" and "prefix W R \<Longrightarrow> \<exists>n. R = W @ [Normal_c n]" and "prefix R (W @ c # r)"
  shows "W @ [c] = R"
proof -
  have "prefix W R" using prefix_same_cases [OF assms(3), of W] assms(1) by auto
  with assms(2,3) show ?thesis by auto
qed

lemma copied_snapshot:
  assumes "strict_prefix R dest" and "snapshot_of W R dest d0 d" and "r \<noteq> []"
  shows "copied dest R d r \<longleftrightarrow> normal_path r \<and> \<not> spared W R r \<and> look d0 (W @ r) \<noteq> None"
proof -
  have "\<not> spared dest R r" using assms(1) by (auto simp: spared_def strict_prefix_def)
  then show ?thesis using assms(2,3) by (auto simp: copied_def snapshot_of_def split: if_splits)
qed

lemma snapshot_plantable:
  assumes d: "disk_ok d" and a: "is_absolute W" "is_absolute R" and dir: "look d W = Some Directory"
    and apart: "\<not> prefix R W" and dest: "strict_prefix R dest" and snap: "snapshot_of W R dest d0 d"
    and gone: "\<And>r. normal_path r \<Longrightarrow> r \<noteq> [] \<Longrightarrow> \<not> spared W R r \<Longrightarrow> look d (W @ r) = None"
  shows "plantable dest W R d"
proof -
  have below: "prefix R (dest @ r)" for r using dest by (simp add: strict_prefix_def)
  have "look d (W @ r) = None \<and> (\<forall>r'. normal_path r' \<longrightarrow> spared dest R r' \<or> W @ r \<noteq> dest @ r')"
    if r: "r \<noteq> []" "copied dest R d r" for r
  proof -
    have free: "\<not> spared W R r" "normal_path r" using copied_snapshot [OF dest snap r(1)] r(2) by auto
    have "W @ r \<noteq> dest @ r'" for r' using below [of r'] spared_if_below [OF apart, of r] free(1) by auto
    then show ?thesis using gone free r(1) by blast
  qed
  then have "separate dest W R UNIV d" unfolding separate_def by blast
  moreover have "is_absolute dest" using dest a(2) by (auto simp: strict_prefix_def prefix_def intro: is_absolute_append)
  moreover have "W \<noteq> []" using a(1) by (rule is_absolute_not_Nil)
  moreover have "look d p = Some Directory" if "p \<noteq> []" "prefix p W" for p
    using that disk_ok_reaches [OF d dir] by (blast intro: reachesD)
  ultimately show ?thesis using d snap unfolding plantable_def snapshot_of_def by blast
qed

lemma snapshot_planted:
  assumes p: "planted dest W R d d'" and W: "W \<noteq> []" and dir: "reaches W d" and apart: "\<not> prefix R W"
    and dest: "strict_prefix R dest" and snap: "snapshot_of W R dest d0 d"
    and gone: "\<And>r. normal_path r \<Longrightarrow> r \<noteq> [] \<Longrightarrow> \<not> spared W R r \<Longrightarrow> look d (W @ r) = None"
  shows "look d' W = Some Directory"
    and "normal_path r \<Longrightarrow> r \<noteq> [] \<Longrightarrow> \<not> spared W R r \<Longrightarrow> look d' (W @ r) = look d0 (W @ r)"
    and "\<not> prefix W q \<or> prefix R q \<Longrightarrow> look d' q = look d q"
proof -
  note cop = copied_snapshot [OF dest snap]
  show "look d' W = Some Directory" using p W by (auto simp: planted_def intro: reachesD)
  show "look d' (W @ r) = look d0 (W @ r)" if r: "normal_path r" "r \<noteq> []" "\<not> spared W R r"
  proof (cases "look d0 (W @ r) = None")
    case True
    then have "\<not> copied dest R d r" using cop r by blast
    then have "look d' (W @ r) = look d (W @ r)" using p r(2) unfolding planted_def by (auto simp: prefix_def)
    then show ?thesis using True gone r by simp
  next
    case False
    then have "copied dest R d r" using cop r by blast
    then have "look d' (W @ r) = look d (dest @ r)" using p r unfolding planted_def by blast
    then show ?thesis using snap r by (simp add: snapshot_of_def)
  qed
  show "look d' q = look d q" if q: "\<not> prefix W q \<or> prefix R q"
  proof (cases "q \<noteq> [] \<and> prefix q W")
    case True
    then show ?thesis using reachesD [OF dir] p by (auto simp: planted_def reaches_def)
  next
    case False
    have "\<not> copied dest R d r" if "q = W @ r" "r \<noteq> []" for r
      using that q cop spared_if_below [OF apart, of r] by auto
    then show ?thesis using p False unfolding planted_def by blast
  qed
qed

lemma snapshot_restores:
  assumes d: "disk_ok d" and a: "is_absolute W" "is_absolute R" and dir: "look d W = Some Directory"
    and apart: "\<not> prefix R W" "prefix W R \<Longrightarrow> \<exists>n. R = W @ [Normal_c n]"
    and dest: "strict_prefix R dest" and snap: "snapshot_of W R dest d0 d" and ex: "absolute cwd exclude = R"
  shows "\<exists>d' d''. clear_dir_excluding cwd W exclude d = (Inr (), d') \<and> copy_dir_recursive cwd dest W exclude d' = (Inr (), d'')
    \<and> look d'' W = Some Directory
    \<and> (\<forall>r. normal_path r \<and> r \<noteq> [] \<and> \<not> spared W R r \<longrightarrow> look d'' (W @ r) = look d0 (W @ r))
    \<and> (\<forall>q. \<not> prefix W q \<or> prefix R q \<longrightarrow> look d'' q = look d q)"
proof -
  have ne: "R \<noteq> []" "W \<noteq> []" using a by (auto dest: is_absolute_not_Nil)
  have "look d R = Some Directory"
    using disk_ok_ancestor [OF d ne(1)] dest snap by (auto simp: snapshot_of_def strict_prefix_def prefix_def)
  then have canon: "canonical_or_original cwd exclude d = R"
    using ex by (simp add: canonical_or_original_def disk_exists_def)
  obtain d' where c: "clear_dir_excluding cwd W exclude d = (Inr (), d')" and d': "disk_ok d'"
    and gone: "\<And>r. normal_path r \<Longrightarrow> r \<noteq> [] \<Longrightarrow> W @ [hd r] \<noteq> R \<Longrightarrow> look d' (W @ r) = None"
    and kept: "\<And>q. (\<nexists>c r. q = W @ c # r \<and> W @ [c] \<noteq> R) \<Longrightarrow> look d' q = look d q"
    using clear_dir_excluding_clears [OF d a(1) dir, of cwd exclude] unfolding canon by auto
  have same: "look d' q = look d q" if "\<not> prefix W q \<or> prefix R q" for q
    using that direct_child_kept [OF apart] by (intro kept) auto
  have gone': "look d' (W @ r) = None" if "normal_path r" "r \<noteq> []" "\<not> spared W R r" for r
    using gone [OF that(1,2)] that by (cases r) (auto simp: spared_Cons)
  have "canonical_or_original cwd exclude d' = R"
    using canon same [of R] ex by (simp add: canonical_or_original_def disk_exists_def split: if_splits)
  moreover have dir': "look d' W = Some Directory" using dir kept [of W] by simp
  moreover have snap': "snapshot_of W R dest d0 d'"
    using snap same dest by (simp add: snapshot_of_def strict_prefix_def)
  ultimately obtain d'' where c2: "copy_dir_recursive cwd dest W exclude d' = (Inr (), d'')" and p: "planted dest W R d' d''"
    using copy_dir_recursive_copies [of dest W cwd exclude d']
      snapshot_plantable [OF d' a dir' apart(1) dest snap' gone'] by auto
  note planted_back = snapshot_planted [OF p ne(2) disk_ok_reaches [OF d' dir'] apart(1) dest snap' gone']
  show ?thesis using c c2 planted_back same by auto
qed

lemma snapshot_destination_under:
  assumes "is_absolute (cs_cwd s)"
  shows "is_absolute (absolute (cs_cwd s) (cs_checkpoints_root s))"
    and "snapshot_destination s wid cid = absolute (cs_cwd s) (cs_checkpoints_root s) @
      [Normal_c (id_display (cs_put s) ''ws'' (ws_ulid wid)), Normal_c (id_display (cs_put s) ''chk'' (chk_ulid cid))]"
  using assms path_join_absolute [OF assms]
  by (auto simp: snapshot_destination_def absolute_def path_join_def is_absolute_def)

lemma create_takes_snapshot:
  assumes cwd: "is_absolute (cs_cwd s)" and R: "R = absolute (cs_cwd s) (cs_checkpoints_root s)"
    and dest: "dest = snapshot_destination s (ws_workspace_id w) cid" and W: "W = ws_canonical_root w" "is_absolute W"
    and d: "disk_ok (ck_disk st)" and dir: "look (ck_disk st) W = Some Directory"
    and apart: "\<not> prefix R W" "prefix W R \<Longrightarrow> \<exists>n. R = W @ [Normal_c n]"
    and free: "\<forall>p. p \<noteq> [] \<and> prefix p dest \<longrightarrow> look (ck_disk st) p \<in> {None, Some Directory}"
    and new: "look (ck_disk st) dest = None" and row: "table_lookup checkpoint_key cid (ck_rows st) = None"
  shows "\<exists>m st1. checkpoint_create s None cid now w sid tid st = (Inr m, st1)
    \<and> checkpoint_key m = cid \<and> cm_workspace_id m = ws_workspace_id w \<and> cm_root_snapshot_path m = dest
    \<and> ck_rows st1 = ck_rows st @ [m] \<and> snapshot_of W R dest (ck_disk st) (ck_disk st1)"
proof -
  note under = snapshot_destination_under [OF cwd]
  have ne: "R \<noteq> []" using under(1) R by (auto dest: is_absolute_not_Nil)
  have strict: "strict_prefix R dest" using under(2) R dest by (simp add: strict_prefix_def)
  have "\<forall>p. p \<noteq> [] \<and> prefix p R \<longrightarrow> look (ck_disk st) p \<in> {None, Some Directory}"
    using free strict by (meson prefix_order.trans strict_prefixE)
  from create_dir_all_ok [OF this] obtain d1 where c1: "create_dir_all R (ck_disk st) = (Inr (), d1)"
    and l1: "\<And>q. look d1 q = (if q \<noteq> [] \<and> prefix q R then Some Directory else look (ck_disk st) q)"
    and dist: "distinct (map fst (ck_disk st)) \<longrightarrow> distinct (map fst d1)" by blast
  have d1: "disk_ok d1" using disk_ok_chain [OF d _ l1] dist d by (simp add: disk_ok_def)
  have "canonical_or_original (cs_cwd s) (cs_checkpoints_root s) d1 = R"
    using l1 ne R by (simp add: canonical_or_original_def disk_exists_def)
  moreover have "reaches R d1" using l1 by (simp add: reaches_def)
  moreover have "look d1 W = Some Directory" using l1 dir by simp
  moreover have "look d1 dest = None" using l1 new strict by (auto simp: strict_prefix_def)
  moreover have "\<forall>p. p \<noteq> [] \<and> prefix p dest \<longrightarrow> look d1 p \<in> {None, Some Directory}" using l1 free by simp
  ultimately obtain d2 where c2: "copy_dir_recursive (cs_cwd s) W dest (cs_checkpoints_root s) d1 = (Inr (), d2)"
    and snap: "snapshot_of W R dest d1 d2"
    using copy_takes_snapshot [OF d1 W(2) _ apart(1) _ ne strict] by blast
  have "look d1 (W @ r) = look (ck_disk st) (W @ r)" if "r \<noteq> []" "\<not> spared W R r" for r
  proof -
    have "\<not> prefix (W @ r) R"
    proof
      assume le: "prefix (W @ r) R"
      then obtain n where "R = W @ [Normal_c n]" using apart(2) by (auto dest: append_prefixD)
      with le that show False by (auto simp: spared_def strict_prefix_def prefix_def Cons_eq_append_conv)
    qed
    then show ?thesis using l1 by simp
  qed
  with snap have "snapshot_of W R dest (ck_disk st) d2" by (simp add: snapshot_of_def)
  moreover have "cid \<notin> checkpoint_key ` set (ck_rows st)" using row by (auto simp: table_lookup_None)
  ultimately show ?thesis
    using c1 c2 unfolding R W(1) dest
    by (simp add: checkpoint_create_def Let_def insert_row_def checkpoint_key_def)
qed



text \<open>A disk and a store on it: the workspace \<open>/w\<close> with one directory and two files, the checkpoints root \<open>/w/c\<close>
  directly inside it.\<close>

lemma disk_ok_list:
  "disk_ok d \<longleftrightarrow> distinct (map fst d) \<and>
     list_all (\<lambda>q. butlast q = [] \<or> look d (butlast q) = Some Directory) (map fst d)"
proof -
  have "look d p = Some Directory"
    if all: "list_all (\<lambda>q. butlast q = [] \<or> look d (butlast q) = Some Directory) (map fst d)"
      and "p \<noteq> []" "look d (p @ [c]) \<noteq> None" for p c
  proof -
    have "p @ [c] \<in> set (map fst d)" using that(3) by (metis list.set_map map_of_eq_None_iff)
    then have "butlast (p @ [c]) = [] \<or> look d (butlast (p @ [c])) = Some Directory"
      using all unfolding list_all_iff by blast
    then show ?thesis using that(2) by simp
  qed
  moreover have "butlast q = [] \<or> look d (butlast q) = Some Directory"
    if ok: "\<forall>p c. p \<noteq> [] \<and> look d (p @ [c]) \<noteq> None \<longrightarrow> look d p = Some Directory" and "q \<in> set (map fst d)" for q
  proof -
    have "look d q \<noteq> None" using that(2) by (metis list.set_map map_of_eq_None_iff)
    then show ?thesis using ok by (cases q rule: rev_cases) auto
  qed
  ultimately show ?thesis unfolding disk_ok_def list_all_iff by blast
qed

lemma all_prefixes: "(\<forall>p. p \<noteq> [] \<and> prefix p q \<longrightarrow> P p) \<longleftrightarrow> list_all (\<lambda>p. p = [] \<or> P p) (prefixes q)"
  by (auto simp: list_all_iff)

definition sample_disk :: disk where
  "sample_disk =
     [([RootDir], Directory), ([RootDir, Normal_c ''w''], Directory),
      ([RootDir, Normal_c ''w'', Normal_c ''a''], Regular [1, 2]),
      ([RootDir, Normal_c ''w'', Normal_c ''b''], Directory),
      ([RootDir, Normal_c ''w'', Normal_c ''b'', Normal_c ''f''], Regular [3])]"

definition sample_checkpoints :: "path \<Rightarrow> checkpoint_store" where
  "sample_checkpoints root = \<lparr>cs_cwd = [RootDir], cs_checkpoints_root = root, cs_put = (\<lambda>_. ''0'')\<rparr>"

definition sample_metadata :: "path \<Rightarrow> checkpoint_metadata" where
  "sample_metadata dest =
     \<lparr>cm_checkpoint_id = CheckpointId 7, cm_workspace_id = WorkspaceId 1, cm_session_id = None, cm_task_id = None,
      cm_created_at = 0, cm_root_snapshot_path = dest\<rparr>"

definition sample_snapshot :: "path \<Rightarrow> disk" where
  "sample_snapshot dest =
     [(butlast dest, Directory), (dest, Directory), (dest @ [Normal_c ''a''], Regular [1, 2]),
      (dest @ [Normal_c ''b''], Directory), (dest @ [Normal_c ''b'', Normal_c ''f''], Regular [3])]"

lemma sample_create:
  "checkpoint_create (sample_checkpoints [RootDir, Normal_c ''w'', Normal_c ''c'']) None (CheckpointId 7) 0
     sample_workspace None None \<lparr>ck_disk = sample_disk, ck_rows = []\<rparr>
   = (Inr (sample_metadata [RootDir, Normal_c ''w'', Normal_c ''c'', Normal_c ''ws_0'', Normal_c ''chk_0'']),
      \<lparr>ck_disk = sample_disk @ ([RootDir, Normal_c ''w'', Normal_c ''c''], Directory)
         # sample_snapshot [RootDir, Normal_c ''w'', Normal_c ''c'', Normal_c ''ws_0'', Normal_c ''chk_0''],
       ck_rows = [sample_metadata [RootDir, Normal_c ''w'', Normal_c ''c'', Normal_c ''ws_0'', Normal_c ''chk_0'']]\<rparr>)"
  by code_simp


text \<open>
  With the checkpoints root two levels inside the workspace (\<open>/w/b/c\<close>), \<open>create\<close> leaves the root out at every
  depth, but \<open>clear_dir_excluding\<close> compares only the top-level entries with it: \<open>restore\<close> first removes
  \<open>/w/b\<close> with every snapshot in it and then fails, leaving the workspace empty.
\<close>

lemma restore_destroys_nested_checkpoints:
  "(case checkpoint_create (sample_checkpoints [RootDir, Normal_c ''w'', Normal_c ''b'', Normal_c ''c'']) None
         (CheckpointId 7) 0 sample_workspace None None \<lparr>ck_disk = sample_disk, ck_rows = []\<rparr> of (made, st) \<Rightarrow>
      (\<not> isl made,
       checkpoint_restore (sample_checkpoints [RootDir, Normal_c ''w'', Normal_c ''b'', Normal_c ''c'']) None
         (CheckpointId 7) sample_workspace st))
   = (True, Inl (CheckpointIo ''not a directory''),
      \<lparr>ck_disk = [([RootDir], Directory), ([RootDir, Normal_c ''w''], Directory)],
       ck_rows = [sample_metadata
         [RootDir, Normal_c ''w'', Normal_c ''b'', Normal_c ''c'', Normal_c ''ws_0'', Normal_c ''chk_0'']]\<rparr>)"
  by code_simp

text \<open>
  Startup recovery refuses exactly the checkpoints that a restore refuses on their own account. Over a table of
  unique ids, a readable store lists the row of a checkpoint as unusable for a reason precisely when restoring that
  checkpoint into its own workspace stops with that reason before it touches anything.
\<close>

theorem unusable_snapshots_are_what_restore_refuses:
  assumes "unique_keys checkpoint_key (ck_rows st)" and "m \<in> set (ck_rows st)" and "ws_workspace_id w = cm_workspace_id m"
  shows "\<exists>listed. unusable_snapshots s stamp None st = Inr listed \<and>
    (\<forall>e. (cm_checkpoint_id m, cm_workspace_id m, e) \<in> set listed \<longleftrightarrow>
       e \<in> {SnapshotMissing, SnapshotPathNotAbsolute} \<and>
       checkpoint_restore s None (cm_checkpoint_id m) w st = (Inl e, st))"
proof -
  have found: "table_lookup checkpoint_key (cm_checkpoint_id m) (ck_rows st) = Some m"
    using unique_keys_lookup [OF assms(1,2)] by (simp add: checkpoint_key_def)
  have same: "m' = m" if "m' \<in> set (ck_rows st)" "cm_checkpoint_id m' = cm_checkpoint_id m" for m'
    using unique_keys_lookup [OF assms(1) that(1)] found that(2) by (metis checkpoint_key_def option.inject)
  have refused: "snapshot_unusable_reason s m (ck_disk st) = Inl e \<longleftrightarrow>
      e \<in> {SnapshotMissing, SnapshotPathNotAbsolute} \<and>
      checkpoint_restore s None (cm_checkpoint_id m) w st = (Inl e, st)" for e
    using found assms(3)
    by (auto simp: checkpoint_restore_def checkpoint_get_def ok_or_def snapshot_unusable_reason_def snapshot_path_def
        rbind_Inl_conv split: prod.splits sum.splits)
  obtain rows where rows: "checkpoint_list_all stamp None st = Inr rows" "set rows = set (ck_rows st)"
    by (simp add: checkpoint_list_all_def query_checkpoints_def)
  let ?listed = "List.map_filter (\<lambda>m. case snapshot_unusable_reason s m (ck_disk st) of
      Inl reason \<Rightarrow> Some (cm_checkpoint_id m, cm_workspace_id m, reason) | Inr _ \<Rightarrow> None) rows"
  have "(cm_checkpoint_id m, cm_workspace_id m, e) \<in> set ?listed \<longleftrightarrow> snapshot_unusable_reason s m (ck_disk st) = Inl e" for e
    using assms(2) unfolding map_filter_set rows(2) by (auto split: sum.split_asm dest: same intro!: bexI [of _ m])
  then show ?thesis using refused rows(1) by (intro exI [of _ ?listed]) (simp add: unusable_snapshots_def)
qed

theorem unusable_snapshots_are_what_restore_refuses_witness:
  "\<exists>listed. unusable_snapshots (sample_checkpoints [RootDir, Normal_c ''c'']) (\<lambda>_. []) None
       \<lparr>ck_disk = sample_disk, ck_rows = [sample_metadata [Normal_c ''c'']]\<rparr> = Inr listed \<and>
     (CheckpointId 7, WorkspaceId 1, SnapshotPathNotAbsolute) \<in> set listed"
proof -
  let ?s = "sample_checkpoints [RootDir, Normal_c ''c'']" and ?m = "sample_metadata [Normal_c ''c'']"
  let ?st = "\<lparr>ck_disk = sample_disk, ck_rows = [?m]\<rparr>"
  have "checkpoint_restore ?s None (cm_checkpoint_id ?m) sample_workspace ?st = (Inl SnapshotPathNotAbsolute, ?st)"
    by (simp add: checkpoint_restore_def checkpoint_get_def ok_or_def snapshot_path_def sample_metadata_def
        checkpoint_key_def is_absolute_def sample_workspace_def)
  moreover have "unique_keys checkpoint_key (ck_rows ?st)" "?m \<in> set (ck_rows ?st)"
    "ws_workspace_id sample_workspace = cm_workspace_id ?m"
    by (simp_all add: unique_keys_def sample_metadata_def sample_workspace_def)
  ultimately show ?thesis
    using unusable_snapshots_are_what_restore_refuses [of ?st ?m sample_workspace ?s "\<lambda>_. []"]
    by (auto simp: sample_metadata_def)
qed

end
