(* ===== verification/Gateway_Identity.thy ===== *)
theory Gateway_Identity
  imports Gateway_Bytes Gateway_Protocol "HOL-Library.AList"
begin

text \<open>
  The device identity (\<^verbatim>\<open>src/crates/identity/src/device.rs\<close>, \<^verbatim>\<open>src/crates/core/src/device.rs\<close>), the
  interface of the secret stores (\<^verbatim>\<open>secret_store.rs\<close>) with the in-memory store of
  \<^verbatim>\<open>secret_store/memory.rs\<close>, and the device's pairing material: the local pairing code and proof of
  \<^verbatim>\<open>src/apps/daemon/src/handlers.rs\<close> and the cloud status probe of
  \<^verbatim>\<open>src/apps/daemon/src/cloud_pairing_status.rs\<close>.

  A secret store is a record of its three operations over a store state; what the identity relies on is the
  locale \<open>secret_keeper\<close>. Ed25519, SHA-256 and Base64 are the parameter \<open>device_crypto\<close>, the text forms of
  ids and instants the parameter \<open>text_forms\<close>. The random key, the fresh id and the time of creation are
  arguments, as are the faults of the database. The text inside a wrapped parse error is a fixed one.
\<close>

section \<open>Identities and secret stores\<close>

record device_identity =
  di_device_id :: device_id
  di_public_key :: "8 word list"
  di_fingerprint :: string
  di_display_name :: string
  di_created_at :: instant

datatype secret_store_error = SecretBackend string

datatype identity_error =
    IdAlreadyExists
  | IdNotFound
  | IdSecretStore secret_store_error
  | IdStorage string
  | IdInvalidKeyMaterial string

fun identity_error_code :: "identity_error \<Rightarrow> string" where
  "identity_error_code IdAlreadyExists = ''IDENTITY_ALREADY_EXISTS''"
| "identity_error_code IdNotFound = ''IDENTITY_NOT_FOUND''"
| "identity_error_code (IdSecretStore _) = ''IDENTITY_SECRET_STORE_BACKEND''"
| "identity_error_code (IdStorage _) = ''IDENTITY_STORAGE''"
| "identity_error_code (IdInvalidKeyMaterial _) = ''IDENTITY_INVALID_KEY_MATERIAL''"

type_synonym signing_key = "8 word list"

record 's secret_store =
  ss_store_device_key :: "device_id \<Rightarrow> signing_key \<Rightarrow> 's \<Rightarrow> (secret_store_error + unit) \<times> 's"
  ss_load_device_key :: "device_id \<Rightarrow> 's \<Rightarrow> secret_store_error + signing_key option"
  ss_delete_device_key :: "device_id \<Rightarrow> 's \<Rightarrow> (secret_store_error + unit) \<times> 's"

text \<open>The in-memory store: a map behind a mutex.\<close>

record memory_store =
  ms_keys :: "(device_id \<times> signing_key) list"
  ms_poisoned :: bool

definition memory_store_device_key ::
  "device_id \<Rightarrow> signing_key \<Rightarrow> memory_store \<Rightarrow> (secret_store_error + unit) \<times> memory_store" where
  "memory_store_device_key i k s =
     (if ms_poisoned s then (Inl (SecretBackend ''mutex poisoned''), s)
      else (Inr (), s\<lparr>ms_keys := AList.update i k (ms_keys s)\<rparr>))"

definition memory_load_device_key :: "device_id \<Rightarrow> memory_store \<Rightarrow> secret_store_error + signing_key option" where
  "memory_load_device_key i s =
     (if ms_poisoned s then Inl (SecretBackend ''mutex poisoned'') else Inr (map_of (ms_keys s) i))"

definition memory_delete_device_key :: "device_id \<Rightarrow> memory_store \<Rightarrow> (secret_store_error + unit) \<times> memory_store" where
  "memory_delete_device_key i s =
     (if ms_poisoned s then (Inl (SecretBackend ''mutex poisoned''), s)
      else (Inr (), s\<lparr>ms_keys := AList.delete i (ms_keys s)\<rparr>))"

definition InMemorySecretStore :: "memory_store secret_store" where
  "InMemorySecretStore =
     \<lparr>ss_store_device_key = memory_store_device_key, ss_load_device_key = memory_load_device_key,
      ss_delete_device_key = memory_delete_device_key\<rparr>"

section \<open>The device table\<close>

record device_crypto =
  dk_sha256 :: "8 word list \<Rightarrow> 8 word list"
  dk_verifying_key :: "signing_key \<Rightarrow> 8 word list"
  dk_sign :: "signing_key \<Rightarrow> 8 word list \<Rightarrow> 8 word list"
  dk_base64 :: "8 word list \<Rightarrow> string"

record text_forms =
  tf_put :: "ulid \<Rightarrow> string"
  tf_get :: "string \<Rightarrow> string + ulid"
  tf_stamp :: "instant \<Rightarrow> string + string"
  tf_instant :: "string \<Rightarrow> string + instant"

record device_row =
  dr_device_id :: string
  dr_public_key :: "8 word list"
  dr_fingerprint :: string
  dr_display_name :: string
  dr_created_at :: string

definition HEX_DIGIT :: "nat \<Rightarrow> char" where
  "HEX_DIGIT n = ''0123456789ABCDEF'' ! n"

definition HEX :: "8 word list \<Rightarrow> string" where
  "HEX bs = concat (map (\<lambda>b. [HEX_DIGIT (unat b div 16), HEX_DIGIT (unat b mod 16)]) bs)"

text \<open>\<open>chunks(4)\<close>, joined with a dash.\<close>

fun grouped :: "string \<Rightarrow> string" where
  "grouped (a # b # c # d # e # rest) = a # b # c # d # CHR ''-'' # grouped (e # rest)"
| "grouped s = s"

definition compute_fingerprint :: "device_crypto \<Rightarrow> 8 word list \<Rightarrow> string" where
  "compute_fingerprint K pk = grouped (HEX (take 10 (dk_sha256 K pk)))"

definition parse_device_row :: "text_forms \<Rightarrow> device_row \<Rightarrow> identity_error + device_identity" where
  "parse_device_row F r =
     rbind (map_err (\<lambda>_. IdStorage ''invalid device id'') (id_from_str (tf_get F) ''dev'' (dr_device_id r))) (\<lambda>u.
     if length (dr_public_key r) \<noteq> 32 then Inl (IdInvalidKeyMaterial ''stored public key is not 32 bytes'')
     else rbind (map_err IdStorage (tf_instant F (dr_created_at r))) (\<lambda>t.
       Inr \<lparr>di_device_id = DeviceId u, di_public_key = dr_public_key r, di_fingerprint = dr_fingerprint r,
            di_display_name = dr_display_name r, di_created_at = t\<rparr>))"

text \<open>\<open>SELECT ... FROM device LIMIT 1\<close>.\<close>

definition identity_load :: "text_forms \<Rightarrow> string option \<Rightarrow> device_row list \<Rightarrow> identity_error + device_identity option" where
  "identity_load F io rows =
     (case io of
        Some e \<Rightarrow> Inl (IdStorage e)
      | None \<Rightarrow> (case rows of [] \<Rightarrow> Inr None | r # _ \<Rightarrow> rbind (parse_device_row F r) (\<lambda>i. Inr (Some i))))"

definition identity_create ::
  "device_crypto \<Rightarrow> text_forms \<Rightarrow> 's secret_store \<Rightarrow> string option \<Rightarrow> string option \<Rightarrow> signing_key \<Rightarrow> device_id \<Rightarrow> instant
   \<Rightarrow> string \<Rightarrow> device_row list \<times> 's \<Rightarrow> (identity_error + device_identity) \<times> device_row list \<times> 's" where
  "identity_create K F S io_load io_insert sk dev now name = (\<lambda>(rows, s).
     case identity_load F io_load rows of
       Inl e \<Rightarrow> (Inl e, rows, s)
     | Inr (Some _) \<Rightarrow> (Inl IdAlreadyExists, rows, s)
     | Inr None \<Rightarrow>
         let pk = dk_verifying_key K sk; fingerprint = compute_fingerprint K pk in
         (case ss_store_device_key S dev sk s of
            (Inl e, s') \<Rightarrow> (Inl (IdSecretStore e), rows, s')
          | (Inr _, s') \<Rightarrow>
              (case rbind (map_err IdStorage (tf_stamp F now)) (\<lambda>t.
                 case io_insert of
                   Some e \<Rightarrow> Inl (IdStorage e)
                 | None \<Rightarrow> Inr \<lparr>dr_device_id = id_display (tf_put F) ''dev'' (dev_ulid dev), dr_public_key = pk,
                             dr_fingerprint = fingerprint, dr_display_name = name, dr_created_at = t\<rparr>) of
                 Inl e \<Rightarrow> (Inl e, rows, s')
               | Inr r \<Rightarrow>
                   (Inr \<lparr>di_device_id = dev, di_public_key = pk, di_fingerprint = fingerprint,
                         di_display_name = name, di_created_at = now\<rparr>, rows @ [r], s'))))"

definition public_identity where
  "public_identity F io rows = identity_load F io rows"

definition identity_sign ::
  "device_crypto \<Rightarrow> text_forms \<Rightarrow> 's secret_store \<Rightarrow> string option \<Rightarrow> 8 word list \<Rightarrow> device_row list \<times> 's
   \<Rightarrow> identity_error + 8 word list" where
  "identity_sign K F S io message = (\<lambda>(rows, s).
     rbind (identity_load F io rows) (\<lambda>found.
     rbind (ok_or IdNotFound found) (\<lambda>identity.
     rbind (map_err IdSecretStore (ss_load_device_key S (di_device_id identity) s)) (\<lambda>key.
     rbind (ok_or IdNotFound key) (\<lambda>sk. Inr (dk_sign K sk message))))))"

section \<open>Pairing material\<close>

text \<open>\<open>begin_pairing\<close>: the identity is created on first use; the code shows the first eight digits of the
  fingerprint.\<close>

definition pairing_code :: "string \<Rightarrow> string" where
  "pairing_code fingerprint =
     (let compact = take 8 (filter (\<lambda>c. c \<noteq> CHR ''-'') fingerprint) in
      ''KMP-'' @ take 4 compact @ ''-'' @ drop 4 compact)"

definition begin_pairing_identity ::
  "device_crypto \<Rightarrow> text_forms \<Rightarrow> 's secret_store \<Rightarrow> string option \<Rightarrow> string option \<Rightarrow> signing_key \<Rightarrow> device_id \<Rightarrow> instant
   \<Rightarrow> device_row list \<times> 's \<Rightarrow> (identity_error + device_identity) \<times> device_row list \<times> 's" where
  "begin_pairing_identity K F S io_load io_insert sk dev now st =
     (case identity_load F io_load (fst st) of
        Inl e \<Rightarrow> (Inl e, st)
      | Inr (Some i) \<Rightarrow> (Inr i, st)
      | Inr None \<Rightarrow> identity_create K F S io_load io_insert sk dev now ''this-device'' st)"

definition cloud_pairing_message :: "string \<Rightarrow> string \<Rightarrow> 8 word list" where
  "cloud_pairing_message device code =
     utf8 (''kicad-mcp-cloud-web/pair/v1'' @ [CHR 0x0A] @ device @ [CHR 0x0A] @ code)"

definition valid_cloud_pairing_code :: "string \<Rightarrow> bool" where
  "valid_cloud_pairing_code code \<longleftrightarrow> 24 \<le> utf8_len code \<and> utf8_len code \<le> 48
     \<and> list_all (\<lambda>c. is_ascii_alphanumeric c \<or> c = CHR ''-'' \<or> c = CHR ''_'') code"

record cloud_pairing_proof_view =
  cpp_code :: string
  cpp_device_id :: string
  cpp_public_key :: string
  cpp_signature :: string
  cpp_display_name :: string

definition pairing_label :: "string \<Rightarrow> string" where
  "pairing_label label =
     (if label \<noteq> [] \<and> length label \<le> 80
         \<and> \<not> list_ex (\<lambda>c. is_control c \<or> c = CHR ''<'' \<or> c = CHR ''>'') label
      then label else ''Linux Gateway'')"

datatype pairing_failure = PairInternal string | PairIdentity identity_error

definition cloud_pairing_proof ::
  "device_crypto \<Rightarrow> text_forms \<Rightarrow> 's secret_store \<Rightarrow> string option \<Rightarrow> string option \<Rightarrow> string \<Rightarrow> device_row list \<times> 's
   \<Rightarrow> pairing_failure + cloud_pairing_proof_view" where
  "cloud_pairing_proof K F S io_load io_sign code st =
     (if \<not> valid_cloud_pairing_code code then Inl (PairInternal ''invalid cloud pairing code'')
      else
        rbind (map_err PairIdentity (public_identity F io_load (fst st))) (\<lambda>found.
        rbind (ok_or (PairInternal ''device identity not initialized'') found) (\<lambda>identity.
        let device = id_display (tf_put F) ''dev'' (dev_ulid (di_device_id identity)) in
        rbind (map_err PairIdentity (identity_sign K F S io_sign (cloud_pairing_message device code) st)) (\<lambda>sig.
        Inr \<lparr>cpp_code = code, cpp_device_id = device, cpp_public_key = dk_base64 K (di_public_key identity),
             cpp_signature = dk_base64 K sig, cpp_display_name = pairing_label (di_display_name identity)\<rparr>))))"

text \<open>
  \<open>submit_cloud_pairing\<close>: the HTTP client is an argument; \<open>None\<close> stands for a client that cannot be built, and
  otherwise the proof is posted and the status of the reply, if any, comes back.
\<close>

definition submit_cloud_pairing ::
  "(cloud_pairing_proof_view \<Rightarrow> nat option) option \<Rightarrow> pairing_failure + cloud_pairing_proof_view \<Rightarrow> pairing_failure + unit" where
  "submit_cloud_pairing client proof =
     rbind proof (\<lambda>p.
       case client of
         None \<Rightarrow> Inl (PairInternal ''cloud pairing transport unavailable'')
       | Some post \<Rightarrow>
           if post p = Some 202 then Inr ()
           else Inl (PairInternal ''cloud did not accept the pairing invitation; request a new code''))"

section \<open>The cloud status probe\<close>

definition STATUS_DOMAIN :: string where
  "STATUS_DOMAIN = ''kicad-mcp-cloud-web/device-status/v1''"

definition signed_message :: "string \<Rightarrow> string \<Rightarrow> string \<Rightarrow> 8 word list" where
  "signed_message device timestamp nonce =
     utf8 (STATUS_DOMAIN @ [CHR 0x0A] @ ''GET'' @ [CHR 0x0A] @ ''/api/devices'' @ [CHR 0x0A] @ device @ [CHR 0x0A]
       @ timestamp @ [CHR 0x0A] @ nonce)"

record signed_status_probe =
  sb_device_id :: string
  sb_timestamp :: string
  sb_nonce :: string
  sb_signature :: string

text \<open>\<open>timestamp\<close> is absent when the clock stands before the epoch.\<close>

definition make_proof ::
  "device_crypto \<Rightarrow> text_forms \<Rightarrow> 's secret_store \<Rightarrow> string option \<Rightarrow> string option \<Rightarrow> string option \<Rightarrow> string \<Rightarrow> device_row list \<times> 's
   \<Rightarrow> signed_status_probe option" where
  "make_proof K F S io_load io_sign timestamp nonce st =
     Option.bind (ok_flatten (public_identity F io_load (fst st))) (\<lambda>identity.
     let device = id_display (tf_put F) ''dev'' (dev_ulid (di_device_id identity)) in
     Option.bind timestamp (\<lambda>t.
     case identity_sign K F S io_sign (signed_message device t nonce) st of
       Inl _ \<Rightarrow> None
     | Inr sig \<Rightarrow> Some \<lparr>sb_device_id = device, sb_timestamp = t, sb_nonce = nonce, sb_signature = dk_base64 K sig\<rparr>))"

record cloud_status_reply =
  cr_paired :: bool
  cr_device_id :: string
  cr_can_execute_tools :: bool

text \<open>A response: its status, its declared length, and its chunks, of which reading one may fail.\<close>

record http_reply =
  hr_status :: nat
  hr_content_length :: "nat option"
  hr_chunks :: "8 word list option list"

fun read_chunks :: "8 word list \<Rightarrow> 8 word list option list \<Rightarrow> 8 word list option" where
  "read_chunks buf [] = Some buf"
| "read_chunks buf (None # _) = None"
| "read_chunks buf (Some c # cs) = (if length buf + length c > 1024 then None else read_chunks (buf @ c) cs)"

definition poll ::
  "(8 word list \<Rightarrow> string + cloud_status_reply) \<Rightarrow> (signed_status_probe \<Rightarrow> http_reply option) \<Rightarrow> signed_status_probe option
   \<Rightarrow> bool option" where
  "poll decode get proof =
     Option.bind proof (\<lambda>p. Option.bind (get p) (\<lambda>response.
     if hr_status response \<noteq> 200 then None
     else if (case hr_content_length response of None \<Rightarrow> False | Some n \<Rightarrow> n > 1024) then None
     else Option.bind (read_chunks [] (hr_chunks response)) (\<lambda>bytes.
     case decode bytes of
       Inl _ \<Rightarrow> None
     | Inr reply \<Rightarrow>
         if cr_device_id reply \<noteq> sb_device_id p \<or> cr_can_execute_tools reply then None else Some (cr_paired reply))))"

definition is_paired where
  "is_paired decode get proof = (case poll decode get proof of None \<Rightarrow> False | Some b \<Rightarrow> b)"

section \<open>Lemmas\<close>

text \<open>The states of the device table and a secret store under any sequence of attempts to create an identity.\<close>

inductive identity_reachable ::
  "device_crypto \<Rightarrow> text_forms \<Rightarrow> 's secret_store \<Rightarrow> device_row list \<times> 's \<Rightarrow> bool" for K F S where
  initial: "identity_reachable K F S ([], s)"
| create: "identity_reachable K F S st \<Longrightarrow> length sk = 32 \<Longrightarrow>
     identity_create K F S io_load io_insert sk dev now name st = (res, st') \<Longrightarrow> identity_reachable K F S st'"

definition forms_ok :: "text_forms \<Rightarrow> bool" where
  "forms_ok F \<longleftrightarrow> (\<forall>u. tf_get F (tf_put F u) = Inr u) \<and> (\<forall>t s. tf_stamp F t = Inr s \<longrightarrow> tf_instant F s = Inr t)"

definition keys_ok :: "device_crypto \<Rightarrow> bool" where
  "keys_ok K \<longleftrightarrow> (\<forall>sk. length (dk_verifying_key K sk) = 32)"

definition identity_held ::
  "device_crypto \<Rightarrow> text_forms \<Rightarrow> 's secret_store \<Rightarrow> device_row \<Rightarrow> 's \<Rightarrow> bool" where
  "identity_held K F S r s \<longleftrightarrow>
     (\<exists>i sk. parse_device_row F r = Inr i \<and> ss_load_device_key S (di_device_id i) s = Inr (Some sk)
        \<and> di_public_key i = dk_verifying_key K sk \<and> di_fingerprint i = compute_fingerprint K (di_public_key i))"

lemma parse_created_row:
  assumes "forms_ok F" and "keys_ok K" and "tf_stamp F now = Inr t"
  shows "parse_device_row F \<lparr>dr_device_id = id_display (tf_put F) ''dev'' (dev_ulid dev),
      dr_public_key = dk_verifying_key K sk, dr_fingerprint = fp, dr_display_name = name, dr_created_at = t\<rparr>
    = Inr \<lparr>di_device_id = dev, di_public_key = dk_verifying_key K sk, di_fingerprint = fp, di_display_name = name,
        di_created_at = now\<rparr>"
proof -
  have "id_from_str (tf_get F) ''dev'' (id_display (tf_put F) ''dev'' (dev_ulid dev)) = Inr (dev_ulid dev)"
    using assms(1) by (auto simp: id_from_str_Inr id_display_def forms_ok_def)
  then show ?thesis using assms by (simp add: parse_device_row_def forms_ok_def keys_ok_def)
qed

text \<open>An attempt that does not insert a row leaves the table alone; it inserts only into an empty table.\<close>

lemma identity_create_cases:
  assumes "identity_create K F S io_load io_insert sk dev now name (rows, s) = (res, rows', s')"
  obtains (refused) e where "res = Inl e" "rows' = rows" "rows \<noteq> [] \<Longrightarrow> s' = s"
  | (created) t where "rows = []" "ss_store_device_key S dev sk s = (Inr (), s')" "tf_stamp F now = Inr t"
      "res = Inr \<lparr>di_device_id = dev, di_public_key = dk_verifying_key K sk,
         di_fingerprint = compute_fingerprint K (dk_verifying_key K sk), di_display_name = name, di_created_at = now\<rparr>"
      "rows' = [\<lparr>dr_device_id = id_display (tf_put F) ''dev'' (dev_ulid dev), dr_public_key = dk_verifying_key K sk,
         dr_fingerprint = compute_fingerprint K (dk_verifying_key K sk), dr_display_name = name, dr_created_at = t\<rparr>]"
proof (cases "identity_load F io_load rows")
  case (Inl e)
  then show thesis using assms by (intro refused) (auto simp: identity_create_def)
next
  case (Inr found)
  show thesis
  proof (cases found)
    case (Some i)
    then show thesis using assms Inr by (intro refused) (auto simp: identity_create_def)
  next
    case None
    with Inr have "rows = []" by (auto simp: identity_load_def rbind_Inr_conv split: option.splits list.splits)
    with assms Inr None show thesis
      by (auto simp: identity_create_def Let_def split: prod.splits sum.splits option.splits
          intro: refused created elim!: rbind_Inr_conv [THEN iffD1, elim_format])
  qed
qed

text \<open>What the identity relies on: a key that was stored is the key that is loaded.\<close>

locale secret_keeper =
  fixes S :: "'s secret_store"
  assumes stored: "length k = 32 \<Longrightarrow> ss_store_device_key S i k s = (Inr (), s') \<Longrightarrow> ss_load_device_key S i s' = Inr (Some k)"
begin

lemma created_identity_held:
  assumes "forms_ok F" and "keys_ok K" and "tf_stamp F now = Inr t" and "ss_store_device_key S dev sk s = (Inr (), s')"
    and "length sk = 32"
  shows "identity_held K F S \<lparr>dr_device_id = id_display (tf_put F) ''dev'' (dev_ulid dev),
    dr_public_key = dk_verifying_key K sk, dr_fingerprint = compute_fingerprint K (dk_verifying_key K sk),
    dr_display_name = name, dr_created_at = t\<rparr> s'"
  unfolding identity_held_def parse_created_row [OF assms(1-3)] using stored [OF assms(5,4)] by simp

lemma reachable_table:
  assumes "forms_ok F" and "keys_ok K" and "identity_reachable K F S st"
  shows "fst st = [] \<or> (\<exists>r. fst st = [r] \<and> identity_held K F S r (snd st))"
  using assms(3)
proof (induction rule: identity_reachable.induct)
  case (create st io_load io_insert sk dev now name res st')
  obtain rows s rows' s' where st: "st = (rows, s)" "st' = (rows', s')" by fastforce
  from create.hyps(3) [unfolded st] show ?case
  proof (cases rule: identity_create_cases)
    case (refused e)
    then show ?thesis using create.IH st by auto
  next
    case (created t)
    then show ?thesis using created_identity_held [OF assms(1,2)] create.hyps(2) st by simp
  qed
qed simp

end

interpretation memory: secret_keeper InMemorySecretStore
  by unfold_locales
    (auto simp: InMemorySecretStore_def memory_store_device_key_def memory_load_device_key_def
      update_conv' split: if_splits)

section \<open>Properties\<close>

text \<open>
  C31: The device has one identity, and it is the identity that signs. Whatever attempts to create one were made,
  with storage faults anywhere between the secret store and the device table, the table has at most one row; a row
  that is there can be loaded, its fingerprint is that of its public key, every signature of the device is made
  with the secret key of exactly that public key, and a further attempt to create an identity is refused and
  changes neither the table nor the secret store.
\<close>

theorem device_has_one_identity_and_signs_with_its_key:
  assumes "secret_keeper S" and "forms_ok F" and "keys_ok K" and "identity_reachable K F S (rows, s)"
  shows "rows = [] \<or> (\<exists>i sk. identity_load F None rows = Inr (Some i) \<and> length rows = 1
    \<and> di_public_key i = dk_verifying_key K sk \<and> di_fingerprint i = compute_fingerprint K (di_public_key i)
    \<and> (\<forall>message. identity_sign K F S None message (rows, s) = Inr (dk_sign K sk message))
    \<and> (\<forall>io_insert sk' dev now name. identity_create K F S None io_insert sk' dev now name (rows, s)
         = (Inl IdAlreadyExists, rows, s)))"
  using secret_keeper.reachable_table [OF assms]
  by (auto simp: identity_held_def identity_load_def identity_sign_def identity_create_def ok_or_def)

definition sample_forms :: text_forms where
  "sample_forms = \<lparr>tf_put = (\<lambda>u. replicate (nat (uint u)) CHR ''1''), tf_get = (\<lambda>s. Inr (of_nat (length s))),
     tf_stamp = (\<lambda>t. Inr (if t < 0 then CHR ''-'' # replicate (nat (- t)) CHR ''1'' else replicate (nat t) CHR ''1'')),
     tf_instant = (\<lambda>s. Inr (case s of CHR ''-'' # r \<Rightarrow> - int (length r) | _ \<Rightarrow> int (length s)))\<rparr>"

definition sample_device_crypto :: device_crypto where
  "sample_device_crypto = \<lparr>dk_sha256 = (\<lambda>m. take 32 (m @ replicate 32 0)), dk_verifying_key = (\<lambda>k. take 32 (k @ replicate 32 0)),
     dk_sign = (\<lambda>k m. k @ m), dk_base64 = hex\<rparr>"

lemma sample_forms_ok: "forms_ok sample_forms"
proof -
  have "tf_instant sample_forms s = Inr t" if "tf_stamp sample_forms t = Inr s" for t s
    using that by (cases "nat t") (auto simp: sample_forms_def split: if_splits list.splits)
  then show ?thesis by (simp add: forms_ok_def) (simp add: sample_forms_def)
qed

lemma sample_keys_ok: "keys_ok sample_device_crypto"
  by (auto simp: keys_ok_def sample_device_crypto_def min_def)

definition sample_memory :: memory_store where
  "sample_memory = \<lparr>ms_keys = [], ms_poisoned = False\<rparr>"

theorem device_has_one_identity_and_signs_with_its_key_witness:
  "\<exists>i rows s sk. identity_create sample_device_crypto sample_forms InMemorySecretStore None None (replicate 32 1) (DeviceId 2) 3
       ''this-device'' ([], sample_memory) = (Inr i, rows, s)
   \<and> identity_load sample_forms None rows = Inr (Some i) \<and> di_public_key i = dk_verifying_key sample_device_crypto sk
   \<and> identity_sign sample_device_crypto sample_forms InMemorySecretStore None [7] (rows, s) = Inr (sk @ [7])"
proof -
  obtain res rows s where c: "identity_create sample_device_crypto sample_forms InMemorySecretStore None None
      (replicate 32 1) (DeviceId 2) 3 ''this-device'' ([], sample_memory) = (res, rows, s)"
    by (metis prod.exhaust)
  from c have rows: "rows \<noteq> []" and res: "\<exists>i. res = Inr i"
    by (auto simp: identity_create_def identity_load_def InMemorySecretStore_def memory_store_device_key_def
        sample_memory_def sample_forms_def Let_def)
  have "identity_reachable sample_device_crypto sample_forms InMemorySecretStore (rows, s)"
    using identity_reachable.create [OF identity_reachable.initial _ c] by simp
  from device_has_one_identity_and_signs_with_its_key [OF memory.secret_keeper_axioms sample_forms_ok sample_keys_ok this] rows
  obtain i sk where i: "identity_load sample_forms None rows = Inr (Some i)" "di_public_key i = dk_verifying_key sample_device_crypto sk"
    "identity_sign sample_device_crypto sample_forms InMemorySecretStore None [7] (rows, s) = Inr (dk_sign sample_device_crypto sk [7])"
    by blast
  from c have "res = Inr i"
  proof (cases rule: identity_create_cases)
    case (created t)
    then show ?thesis
      using i(1) parse_created_row [OF sample_forms_ok sample_keys_ok created(3), where dev = "DeviceId 2"] by (simp add: identity_load_def)
  qed (use res in auto)
  then show ?thesis using c i by (auto simp: sample_device_crypto_def)
qed

text \<open>
  The two messages the device signs for the cloud cannot stand for each other, and each one determines its parts.
\<close>

lemma split_at_newline:
  assumes "c \<notin> set a" and "c \<notin> set b" and "a @ c # x = b @ c # y"
  shows "a = b \<and> x = y"
  using assms by (induction a arbitrary: b) (auto simp: Cons_eq_append_conv)

lemma signed_message_inject:
  assumes "signed_message d t n = signed_message d' t' n'"
    and "CHR 0x0A \<notin> set d" "CHR 0x0A \<notin> set d'" "CHR 0x0A \<notin> set t" "CHR 0x0A \<notin> set t'"
  shows "d = d' \<and> t = t' \<and> n = n'"
proof -
  have "d @ CHR 0x0A # t @ CHR 0x0A # n = d' @ CHR 0x0A # t' @ CHR 0x0A # n'"
    using utf8_inject [OF assms(1) [unfolded signed_message_def]] by (simp add: STATUS_DOMAIN_def)
  from split_at_newline [OF assms(2,3) this] have "d = d'" "t @ CHR 0x0A # n = t' @ CHR 0x0A # n'" by simp_all
  with split_at_newline [OF assms(4,5)] show ?thesis by simp
qed

lemma cloud_pairing_message_inject:
  assumes "cloud_pairing_message d c = cloud_pairing_message d' c'"
    and "CHR 0x0A \<notin> set d" "CHR 0x0A \<notin> set d'"
  shows "d = d' \<and> c = c'"
proof -
  have "d @ CHR 0x0A # c = d' @ CHR 0x0A # c'"
    using utf8_inject [OF assms(1) [unfolded cloud_pairing_message_def]] by simp
  from split_at_newline [OF assms(2,3) this] show ?thesis by simp
qed

lemma pairing_and_status_messages_differ: "cloud_pairing_message d c \<noteq> signed_message d' t n"
proof
  assume "cloud_pairing_message d c = signed_message d' t n"
  from utf8_inject [OF this [unfolded cloud_pairing_message_def signed_message_def]] show False
    by (simp add: STATUS_DOMAIN_def)
qed

lemma read_chunks_bound: "read_chunks buf cs = Some bytes \<Longrightarrow> length buf \<le> 1024 \<Longrightarrow> length bytes \<le> 1024"
  by (induction buf cs rule: read_chunks.induct) (auto split: if_splits)

lemma poll_Some:
  assumes "poll decode get probe = Some b"
  obtains p response bytes reply where "probe = Some p" "get p = Some response" "hr_status response = 200"
    "length bytes \<le> 1024" "decode bytes = Inr reply" "cr_device_id reply = sb_device_id p" "\<not> cr_can_execute_tools reply"
    "b = cr_paired reply"
proof -
  from assms obtain p response bytes where "probe = Some p" "get p = Some response" "hr_status response = 200"
    and b: "read_chunks [] (hr_chunks response) = Some bytes"
    and "(case decode bytes of Inl _ \<Rightarrow> None | Inr reply \<Rightarrow> if cr_device_id reply \<noteq> sb_device_id p \<or> cr_can_execute_tools reply
      then None else Some (cr_paired reply)) = Some b"
    by (auto simp: poll_def bind_eq_Some_conv split: if_splits)
  with read_chunks_bound [OF b] show thesis
    by (cases "decode bytes") (auto split: if_splits intro: that)
qed


definition sample_device_row :: device_row where
  "sample_device_row = \<lparr>dr_device_id = ''dev_11'', dr_public_key = replicate 32 1, dr_fingerprint = ''0101-0101-0101-0101-0101'',
     dr_display_name = ''bench'', dr_created_at = ''1''\<rparr>"

definition sample_device :: "device_row list \<times> memory_store" where
  "sample_device = ([sample_device_row], \<lparr>ms_keys = [(DeviceId 2, replicate 32 1)], ms_poisoned = False\<rparr>)"


end
