(* ===== verification/Gateway_Control.thy ===== *)
theory Gateway_Control
  imports Gateway_Revocation Gateway_Identity
begin

text \<open>
  The local control channel: the request and response types of \<^verbatim>\<open>src/crates/protocol/src/ipc.rs\<close>, the views
  and handlers of \<^verbatim>\<open>src/apps/daemon/src/handlers.rs\<close>, and the connection loop of
  \<^verbatim>\<open>src/apps/daemon/src/ipc_server.rs\<close>.

  The handlers run on the daemon state of \<open>Gateway_Daemon\<close> together with the lease table, the device table with
  its secret store, and the shutdown flag. What one handler run observes of its surroundings (faults, clock, cloud,
  core bridge, display texts of errors) is the record \<open>control_world\<close>, so two requests may meet different ones.
  The handlers run their database work in blocking tasks; the branch for a task that panicked is left out, since no
  expression in those tasks panics.
\<close>

section \<open>Requests, views and responses\<close>

datatype ipc_request =
    RIdentity
  | RStatus
  | RPairingStatus
  | RBeginPairing
  | RCloudPairingProof string
  | RSubmitCloudPairing string
  | RListSessions
  | RListAccessGrants
  | RListAuthorizationLeases grant_id
  | RApproveSession session_id
  | RDenySession session_id string
  | RPauseSession session_id
  | RResumeSession session_id
  | RRevokeSession session_id
  | RListWorkspaces
  | RAuthorizeWorkspace string string
  | RRemoveWorkspace workspace_id
  | RAuditSummary
  | RListPendingApprovals
  | RApproveOperation operation_id
  | RDenyOperation operation_id string
  | RDaemonShutdown

record daemon_status_view =
  dsv_device_fingerprint :: "string option"
  dsv_paired :: bool
  dsv_core_bridge_reachable :: bool
  dsv_active_session_count :: nat
  dsv_active_grant_count :: nat
  dsv_pending_approval_grant_count :: nat
  dsv_transport_state :: string
  dsv_workspace_count :: nat

record pairing_status_view =
  psv_paired :: bool
  psv_device_fingerprint :: "string option"

record pairing_begun_view =
  pbv_pairing_code :: string
  pbv_mock_provider :: bool

record workspace_info =
  wi_workspace_id :: workspace_id
  wi_display_name :: string

record verified_identity_view =
  viv_issuer :: string
  viv_subject :: string
  viv_verification_source :: string
  viv_authentication_strength :: string

record session_view =
  sv_session_id :: session_id
  sv_remote_principal :: string
  sv_principal_assurance :: string
  sv_verified_identity :: "verified_identity_view option"
  sv_status :: string
  sv_authorization_status :: string
  sv_transport_state :: string
  sv_capability_profile :: string
  sv_task_scope :: string
  sv_expires_at :: string
  sv_workspace_ids :: "workspace_id list"
  sv_workspaces :: "workspace_info list"

record access_grant_view =
  agv_grant_id :: grant_id
  agv_subject_session_id :: session_id
  agv_device_id :: device_id
  agv_remote_principal :: string
  agv_principal_assurance :: string
  agv_verified_identity :: "verified_identity_view option"
  agv_authorization_status :: string
  agv_grant_kind :: string
  agv_capability_profile :: string
  agv_task_scope :: string
  agv_issued_at :: string
  agv_approved_at :: "string option"
  agv_expires_at :: string
  agv_revoked_at :: "string option"
  agv_revocation_reason :: "string option"
  agv_consumed_at :: "string option"
  agv_workspace_ids :: "workspace_id list"
  agv_workspaces :: "workspace_info list"
  agv_transport_state :: string

record authorization_lease_view =
  alv_lease_id :: lease_id
  alv_grant_id :: grant_id
  alv_subject_session_id :: session_id
  alv_device_id :: device_id
  alv_issued_at :: string
  alv_expires_at :: string
  alv_consumed_at :: "string option"
  alv_consumed_by_operation :: "operation_id option"
  alv_workspace_ids :: "workspace_id list"
  alv_capabilities :: "string list"

record workspace_view =
  wv_workspace_id :: workspace_id
  wv_display_name :: string
  wv_canonical_root :: string
  wv_enabled :: bool

record audit_summary_view =
  asv_total_events :: nat
  asv_note :: string

record risk_factor_view =
  rfv_code :: string
  rfv_subject :: string
  rfv_observed_count :: "u64 option"
  rfv_threshold :: "u64 option"
  rfv_escalated_to :: string

record pending_approval_view =
  pav_operation_id :: operation_id
  pav_session_id :: session_id
  pav_workspace_id :: workspace_id
  pav_workspace :: "workspace_info option"
  pav_tool_name :: string
  pav_risk :: string
  pav_base_risk :: string
  pav_risk_policy_version :: u32
  pav_risk_factors :: "risk_factor_view list"

record ipc_error_view =
  iev_code :: string
  iev_message :: string
  iev_retryable :: bool

datatype ipc_response =
    AIdentity daemon_identity_view
  | AStatus daemon_status_view
  | APairingStatus pairing_status_view
  | APairingBegun pairing_begun_view
  | ACloudPairingProof cloud_pairing_proof_view
  | ASessions "session_view list"
  | AAccessGrants "access_grant_view list"
  | AAuthorizationLeases "authorization_lease_view list"
  | AWorkspaces "workspace_view list"
  | AWorkspaceAuthorized workspace_view
  | AAuditSummary audit_summary_view
  | APendingApprovals "pending_approval_view list"
  | AAck
  | AError ipc_error_view

section \<open>The state and surroundings of a handler\<close>

record 's control =
  ct_daemon :: daemon
  ct_leases :: "authorization_lease list"
  ct_device :: "device_row list \<times> 's"
  ct_shutdown :: bool

record 's control_world =
  cw_world :: world
  cw_crypto :: device_crypto
  cw_forms :: text_forms
  cw_secrets :: "'s secret_store"
  cw_instance_id :: string
  cw_daemon_version :: string
  cw_error_text :: "daemon_error \<Rightarrow> string"
  cw_fresh_key :: signing_key
  cw_fresh_device :: device_id
  cw_probe_time :: "string option"
  cw_probe_nonce :: string
  cw_cloud_get :: "signed_status_probe \<Rightarrow> http_reply option"
  cw_decode_status :: "8 word list \<Rightarrow> string + cloud_status_reply"
  cw_cloud_post :: "(cloud_pairing_proof_view \<Rightarrow> nat option) option"
  cw_core_reachable :: bool
  cf_identity_load :: "string option"
  cf_identity_insert :: "string option"
  cf_identity_sign :: "string option"
  cf_probe_load :: "string option"
  cf_probe_sign :: "string option"
  cf_session_list :: "string option"
  cf_grant_list :: "string option"
  cf_lease_list :: "string option"
  cf_workspace_list :: "string option"
  cf_audit_list :: "string option"

definition to_ipc_error :: "'s control_world \<Rightarrow> daemon_error \<Rightarrow> ipc_error_view" where
  "to_ipc_error W e = \<lparr>iev_code = daemon_error_code e, iev_message = cw_error_text W e, iev_retryable = False\<rparr>"

definition error_response :: "'s control_world \<Rightarrow> daemon_error \<Rightarrow> ipc_response" where
  "error_response W e = AError (to_ipc_error W e)"

definition respond :: "'s control_world \<Rightarrow> ('a \<Rightarrow> ipc_response) \<Rightarrow> daemon_error + 'a \<Rightarrow> ipc_response" where
  "respond W ok r = (case r of Inl e \<Rightarrow> error_response W e | Inr x \<Rightarrow> ok x)"

definition identity_failed :: "identity_error \<Rightarrow> daemon_error" where
  "identity_failed e = DaemonIdentityFailed (identity_error_code e)"

fun pairing_failed :: "pairing_failure \<Rightarrow> daemon_error" where
  "pairing_failed (PairInternal m) = Internal m"
| "pairing_failed (PairIdentity e) = identity_failed e"

section \<open>Views\<close>

fun transport_state_debug :: "transport_state \<Rightarrow> string" where
  "transport_state_debug TDisconnected = ''Disconnected''"
| "transport_state_debug TConnecting = ''Connecting''"
| "transport_state_debug TConnected = ''Connected''"
| "transport_state_debug TReconnecting = ''Reconnecting''"
| "transport_state_debug TFailed = ''Failed''"

fun risk_level_debug :: "risk_level \<Rightarrow> string" where
  "risk_level_debug Low = ''Low''"
| "risk_level_debug Normal = ''Normal''"
| "risk_level_debug High = ''High''"
| "risk_level_debug Critical = ''Critical''"

fun text_join :: "string \<Rightarrow> string list \<Rightarrow> string" where
  "text_join sep [] = []"
| "text_join sep [x] = x"
| "text_join sep (x # y # ys) = x @ sep @ text_join sep (y # ys)"

definition capability_debug :: "capability \<Rightarrow> string" where
  "capability_debug c = ''Capability('' @ [CHR 0x22] @ capability_as_str c @ [CHR 0x22] @ '')''"

fun capability_profile_debug :: "capability_profile \<Rightarrow> string" where
  "capability_profile_debug Inspect = ''Inspect''"
| "capability_profile_debug Design = ''Design''"
| "capability_profile_debug Manufacturing = ''Manufacturing''"
| "capability_profile_debug (Custom cs) =
     ''Custom({'' @ text_join '', '' (map capability_debug (sorted_list_of_fset cs)) @ ''})''"

definition workspace_infos :: "world \<Rightarrow> workspace_table \<Rightarrow> workspace_id list \<Rightarrow> workspace_info list" where
  "workspace_infos w rows ids =
     List.map_filter (\<lambda>i. map_option
       (\<lambda>ws. \<lparr>wi_workspace_id = ws_workspace_id ws, wi_display_name = ws_display_name ws\<rparr>)
       (ok_flatten (workspace_load (f_workspace_load w) i rows))) ids"

fun risk_factor_view_of :: "risk_factor \<Rightarrow> risk_factor_view" where
  "risk_factor_view_of (BulkArgumentCardinality subject n t l) =
     \<lparr>rfv_code = ''bulk_argument_cardinality'', rfv_subject = subject, rfv_observed_count = Some n,
      rfv_threshold = Some t, rfv_escalated_to = risk_level_debug l\<rparr>"
| "risk_factor_view_of (ConfirmedOverwrite subject l) =
     \<lparr>rfv_code = ''confirmed_overwrite'', rfv_subject = subject, rfv_observed_count = None,
      rfv_threshold = None, rfv_escalated_to = risk_level_debug l\<rparr>"

definition verified_identity_view_of :: "access_grant \<Rightarrow> verified_identity_view option" where
  "verified_identity_view_of g =
     (if \<not> principal_is_verified (gr_principal g) then None
      else map_option (\<lambda>i. \<lparr>viv_issuer = vp_issuer i, viv_subject = vp_subject i,
         viv_verification_source = verification_source_as_str (vp_verification_source i),
         viv_authentication_strength = vp_authentication_strength i\<rparr>) (pr_verified (gr_principal g)))"

definition to_session_view ::
  "world \<Rightarrow> session \<Rightarrow> access_grant option \<Rightarrow> string \<Rightarrow> workspace_table \<Rightarrow> session_view" where
  "to_session_view w s g transport rows =
     \<lparr>sv_session_id = ses_session_id s,
      sv_remote_principal = ses_remote_principal s,
      sv_principal_assurance =
        (case g of
           Some g \<Rightarrow> if principal_is_verified (gr_principal g) then ''verified'' else ''unverified''
         | None \<Rightarrow> ''unverified''),
      sv_verified_identity = Option.bind g verified_identity_view_of,
      sv_status = session_status_debug (ses_status s),
      sv_authorization_status =
        (case g of Some g \<Rightarrow> authorization_status_as_str (gr_status g) | None \<Rightarrow> ''none''),
      sv_transport_state = transport,
      sv_capability_profile = capability_profile_debug (ses_capability_profile s),
      sv_task_scope = ses_task_scope s,
      sv_expires_at = w_stamp w (ses_expires_at s),
      sv_workspace_ids = sorted_list_of_fset (ses_workspace_ids s),
      sv_workspaces = workspace_infos w rows (sorted_list_of_fset (ses_workspace_ids s))\<rparr>"

definition to_grant_view :: "world \<Rightarrow> access_grant \<Rightarrow> string \<Rightarrow> workspace_table \<Rightarrow> access_grant_view" where
  "to_grant_view w g transport rows =
     \<lparr>agv_grant_id = gr_grant_id g,
      agv_subject_session_id = gr_subject_session_id g,
      agv_device_id = gr_device_id g,
      agv_remote_principal = pr_name (gr_principal g),
      agv_principal_assurance = (if principal_is_verified (gr_principal g) then ''verified'' else ''unverified''),
      agv_verified_identity = verified_identity_view_of g,
      agv_authorization_status = authorization_status_as_str (gr_status g),
      agv_grant_kind = grant_kind_as_str (gr_kind g),
      agv_capability_profile = capability_profile_debug (gr_capability_profile g),
      agv_task_scope = gr_task_scope g,
      agv_issued_at = w_stamp w (gr_issued_at g),
      agv_approved_at = map_option (w_stamp w) (gr_approved_at g),
      agv_expires_at = w_stamp w (gr_expires_at g),
      agv_revoked_at = map_option (w_stamp w) (gr_revoked_at g),
      agv_revocation_reason = gr_revocation_reason g,
      agv_consumed_at = map_option (w_stamp w) (gr_consumed_at g),
      agv_workspace_ids = sorted_list_of_fset (gr_workspace_ids g),
      agv_workspaces = workspace_infos w rows (sorted_list_of_fset (gr_workspace_ids g)),
      agv_transport_state = transport\<rparr>"

definition to_lease_view :: "world \<Rightarrow> authorization_lease \<Rightarrow> authorization_lease_view" where
  "to_lease_view w l =
     \<lparr>alv_lease_id = le_lease_id l,
      alv_grant_id = le_grant_id l,
      alv_subject_session_id = le_subject_session_id l,
      alv_device_id = le_device_id l,
      alv_issued_at = w_stamp w (le_issued_at l),
      alv_expires_at = w_stamp w (le_expires_at l),
      alv_consumed_at = map_option (w_stamp w) (le_consumed_at l),
      alv_consumed_by_operation = le_consumed_by_operation l,
      alv_workspace_ids = sorted_list_of_fset (le_workspace_ids l),
      alv_capabilities = map capability_as_str (sorted_list_of_fset (le_capabilities l))\<rparr>"

text \<open>\<open>to_string_lossy\<close> of a canonical path.\<close>

fun component_text :: "component \<Rightarrow> string" where
  "component_text RootDir = []"
| "component_text CurDir = ''.''"
| "component_text ParentDir = ''..''"
| "component_text (Normal_c n) = n"

definition path_to_string :: "path \<Rightarrow> string" where
  "path_to_string p = (if p = [RootDir] then ''/'' else text_join ''/'' (map component_text p))"

definition to_workspace_view :: "workspace_authorization \<Rightarrow> workspace_view" where
  "to_workspace_view ws =
     \<lparr>wv_workspace_id = ws_workspace_id ws, wv_display_name = ws_display_name ws,
      wv_canonical_root = path_to_string (ws_canonical_root ws), wv_enabled = ws_enabled ws\<rparr>"

section \<open>Handlers\<close>

definition handle_identity :: "'s control_world \<Rightarrow> ipc_response" where
  "handle_identity W = AIdentity
     \<lparr>div_product_id = DAEMON_PRODUCT_ID, div_protocol_version = LOCAL_IPC_PROTOCOL_VERSION,
      div_daemon_version = cw_daemon_version W, div_instance_id = cw_instance_id W\<rparr>"

definition cloud_paired :: "'s control_world \<Rightarrow> 's control \<Rightarrow> bool" where
  "cloud_paired W c =
     is_paired (cw_decode_status W) (cw_cloud_get W)
       (make_proof (cw_crypto W) (cw_forms W) (cw_secrets W) (cf_probe_load W) (cf_probe_sign W) (cw_probe_time W)
         (cw_probe_nonce W) (ct_device c))"

definition handle_status :: "'s control_world \<Rightarrow> 's control \<Rightarrow> ipc_response" where
  "handle_status W c =
     (let w = cw_world W; d = ct_daemon c in
      respond W (\<lambda>v. AStatus v)
        (rbind (map_err identity_failed (public_identity (cw_forms W) (cf_identity_load W) (fst (ct_device c)))) (\<lambda>i.
         rbind (map_err DaemonSession (session_list_active (cf_session_list W) (d_sessions d))) (\<lambda>active.
         rbind (map_err DaemonAuthorization (list_all_grants (cf_grant_list W) (d_grants d))) (\<lambda>grants.
         rbind (map_err DaemonWorkspace (workspace_list (cf_workspace_list W) (d_workspaces d))) (\<lambda>workspaces.
         Inr \<lparr>dsv_device_fingerprint = map_option di_fingerprint i,
              dsv_paired = (if i \<noteq> None then cloud_paired W c else False),
              dsv_core_bridge_reachable = cw_core_reachable W,
              dsv_active_session_count = length active,
              dsv_active_grant_count = length (filter (\<lambda>g. grant_is_usable_at g (w_now w)) grants),
              dsv_pending_approval_grant_count = length (filter (\<lambda>g. gr_status g = PendingApproval) grants),
              dsv_transport_state = transport_state_debug (d_transport_state d),
              dsv_workspace_count = length workspaces\<rparr>))))))"

definition handle_pairing_status :: "'s control_world \<Rightarrow> 's control \<Rightarrow> ipc_response" where
  "handle_pairing_status W c =
     respond W (\<lambda>i. APairingStatus
         \<lparr>psv_paired = (if i \<noteq> None then cloud_paired W c else False), psv_device_fingerprint = map_option di_fingerprint i\<rparr>)
       (map_err identity_failed (public_identity (cw_forms W) (cf_identity_load W) (fst (ct_device c))))"

definition handle_begin_pairing :: "'s control_world \<Rightarrow> 's control \<Rightarrow> ipc_response \<times> 's control" where
  "handle_begin_pairing W c =
     (case begin_pairing_identity (cw_crypto W) (cw_forms W) (cw_secrets W) (cf_identity_load W) (cf_identity_insert W)
             (cw_fresh_key W) (cw_fresh_device W) (w_utc (cw_world W)) (ct_device c) of
        (res, device) \<Rightarrow>
          (respond W (\<lambda>i. APairingBegun \<lparr>pbv_pairing_code = pairing_code (di_fingerprint i), pbv_mock_provider = True\<rparr>)
             (map_err identity_failed res), c\<lparr>ct_device := device\<rparr>))"

definition pairing_proof_result where
  "pairing_proof_result W code c =
     cloud_pairing_proof (cw_crypto W) (cw_forms W) (cw_secrets W) (cf_identity_load W) (cf_identity_sign W) code (ct_device c)"

definition handle_cloud_pairing_proof :: "'s control_world \<Rightarrow> string \<Rightarrow> 's control \<Rightarrow> ipc_response" where
  "handle_cloud_pairing_proof W code c =
     respond W ACloudPairingProof (map_err pairing_failed (pairing_proof_result W code c))"

definition handle_submit_cloud_pairing :: "'s control_world \<Rightarrow> string \<Rightarrow> 's control \<Rightarrow> ipc_response" where
  "handle_submit_cloud_pairing W code c =
     respond W (\<lambda>_. AAck) (map_err pairing_failed
       (submit_cloud_pairing (cw_cloud_post W) (pairing_proof_result W code c)))"

text \<open>\<open>by_subject\<close> is a hash map filled in the order of the rows: a later grant of the same subject wins.\<close>

definition handle_list_sessions :: "'s control_world \<Rightarrow> 's control \<Rightarrow> ipc_response" where
  "handle_list_sessions W c =
     (let w = cw_world W; d = ct_daemon c in
      respond W ASessions
        (rbind (map_err DaemonAuthorization (list_all_grants (cf_grant_list W) (d_grants d))) (\<lambda>grants.
         rbind (map_err DaemonSession (session_list_all (cf_session_list W) (d_sessions d))) (\<lambda>sessions.
         Inr (map (\<lambda>s. to_session_view w s (map_of (rev (map (\<lambda>g. (gr_subject_session_id g, g)) grants)) (ses_session_id s))
              (transport_state_debug (d_transport_state d)) (d_workspaces d)) sessions)))))"

definition handle_list_access_grants :: "'s control_world \<Rightarrow> 's control \<Rightarrow> ipc_response" where
  "handle_list_access_grants W c =
     (let d = ct_daemon c in
      respond W (\<lambda>grants. AAccessGrants
          (map (\<lambda>g. to_grant_view (cw_world W) g (transport_state_debug (d_transport_state d)) (d_workspaces d)) grants))
        (map_err DaemonAuthorization (list_all_grants (cf_grant_list W) (d_grants d))))"

definition handle_list_authorization_leases :: "'s control_world \<Rightarrow> grant_id \<Rightarrow> 's control \<Rightarrow> ipc_response" where
  "handle_list_authorization_leases W gid c =
     respond W (\<lambda>leases. AAuthorizationLeases (map (to_lease_view (cw_world W)) leases))
       (map_err DaemonAuthorization (list_leases_for_grant (w_stamp (cw_world W)) (cf_lease_list W) gid (ct_leases c)))"

definition on_daemon :: "'s control_world \<Rightarrow> ('a \<Rightarrow> ipc_response) \<Rightarrow> (daemon_error + 'a) \<times> daemon \<Rightarrow> 's control
   \<Rightarrow> ipc_response \<times> 's control" where
  "on_daemon W ok r c = (respond W ok (fst r), c\<lparr>ct_daemon := snd r\<rparr>)"

definition handle_decide_session ::
  "'s control_world \<Rightarrow> session_id \<Rightarrow> session_event \<Rightarrow> 's control \<Rightarrow> ipc_response \<times> 's control" where
  "handle_decide_session W sid e c = on_daemon W (\<lambda>_. AAck) (decide_session (cw_world W) sid e (ct_daemon c)) c"

definition handle_list_workspaces :: "'s control_world \<Rightarrow> 's control \<Rightarrow> ipc_response" where
  "handle_list_workspaces W c =
     respond W (\<lambda>ws. AWorkspaces (map to_workspace_view ws))
       (map_err DaemonWorkspace (workspace_list (cf_workspace_list W) (d_workspaces (ct_daemon c))))"

definition handle_authorize_workspace ::
  "'s control_world \<Rightarrow> string \<Rightarrow> string \<Rightarrow> 's control \<Rightarrow> ipc_response \<times> 's control" where
  "handle_authorize_workspace W p name c =
     on_daemon W (\<lambda>ws. AWorkspaceAuthorized (to_workspace_view ws))
       (authorize_workspace (cw_world W) (path_of_string p) name (ct_daemon c)) c"

definition handle_remove_workspace :: "'s control_world \<Rightarrow> workspace_id \<Rightarrow> 's control \<Rightarrow> ipc_response \<times> 's control" where
  "handle_remove_workspace W wid c = on_daemon W (\<lambda>_. AAck) (remove_workspace (cw_world W) wid (ct_daemon c)) c"

fun audit_error_text :: "audit_error \<Rightarrow> string" where
  "audit_error_text AuditNotFound = ''audit event not found''"
| "audit_error_text (AuditStorage m) = ''storage error: '' @ m"

definition handle_audit_summary :: "'s control_world \<Rightarrow> 's control \<Rightarrow> ipc_response" where
  "handle_audit_summary W c =
     respond W (\<lambda>events. AAuditSummary \<lparr>asv_total_events = length events, asv_note = ''most recent 1000 events''\<rparr>)
       (map_err (\<lambda>e. Internal (audit_error_text e))
         (list_recent (w_stamp (cw_world W)) (cf_audit_list W) 1000 (d_audit (ct_daemon c))))"

definition pending_view :: "world \<Rightarrow> workspace_table \<Rightarrow> pending_summary \<Rightarrow> daemon_error + pending_approval_view" where
  "pending_view w rows p =
     rbind (map_err DaemonWorkspace (workspace_load (f_workspace_load w) (ps_workspace_id p) rows)) (\<lambda>ws.
       Inr \<lparr>pav_operation_id = ps_operation_id p, pav_session_id = ps_session_id p,
            pav_workspace_id = ps_workspace_id p,
            pav_workspace = map_option
              (\<lambda>ws. \<lparr>wi_workspace_id = ws_workspace_id ws, wi_display_name = ws_display_name ws\<rparr>) ws,
            pav_tool_name = ps_tool_name p,
            pav_risk = risk_level_debug (ra_effective_risk (ps_risk p)),
            pav_base_risk = risk_level_debug (ra_base_risk (ps_risk p)),
            pav_risk_policy_version = ra_policy_version (ps_risk p),
            pav_risk_factors = map risk_factor_view_of (ra_factors (ps_risk p))\<rparr>)"

definition handle_list_pending_approvals :: "'s control_world \<Rightarrow> 's control \<Rightarrow> ipc_response" where
  "handle_list_pending_approvals W c =
     respond W APendingApprovals
       (collect_results (pending_view (cw_world W) (d_workspaces (ct_daemon c)))
         (list_pending_operations (ct_daemon c)))"

definition handle_approve_operation :: "'s control_world \<Rightarrow> operation_id \<Rightarrow> 's control \<Rightarrow> ipc_response \<times> 's control" where
  "handle_approve_operation W op c =
     on_daemon W (\<lambda>_. AAck) (approve_pending_operation (cw_world W) op (ct_daemon c)) c"

definition handle_deny_operation :: "'s control_world \<Rightarrow> operation_id \<Rightarrow> 's control \<Rightarrow> ipc_response \<times> 's control" where
  "handle_deny_operation W op c =
     on_daemon W (\<lambda>_. AAck) (deny_pending_operation (cw_world W) op (ct_daemon c)) c"

fun handle_request :: "'s control_world \<Rightarrow> ipc_request \<Rightarrow> 's control \<Rightarrow> ipc_response \<times> 's control" where
  "handle_request W RIdentity c = (handle_identity W, c)"
| "handle_request W RStatus c = (handle_status W c, c)"
| "handle_request W RPairingStatus c = (handle_pairing_status W c, c)"
| "handle_request W RBeginPairing c = handle_begin_pairing W c"
| "handle_request W (RCloudPairingProof code) c = (handle_cloud_pairing_proof W code c, c)"
| "handle_request W (RSubmitCloudPairing code) c = (handle_submit_cloud_pairing W code c, c)"
| "handle_request W RListSessions c = (handle_list_sessions W c, c)"
| "handle_request W RListAccessGrants c = (handle_list_access_grants W c, c)"
| "handle_request W (RListAuthorizationLeases gid) c = (handle_list_authorization_leases W gid c, c)"
| "handle_request W (RApproveSession sid) c = handle_decide_session W sid EApprove c"
| "handle_request W (RDenySession sid reason) c = handle_decide_session W sid (EDeny reason) c"
| "handle_request W (RPauseSession sid) c = handle_decide_session W sid EPause c"
| "handle_request W (RResumeSession sid) c = handle_decide_session W sid EResume c"
| "handle_request W (RRevokeSession sid) c = handle_decide_session W sid ERevoke c"
| "handle_request W RListWorkspaces c = (handle_list_workspaces W c, c)"
| "handle_request W (RAuthorizeWorkspace p name) c = handle_authorize_workspace W p name c"
| "handle_request W (RRemoveWorkspace wid) c = handle_remove_workspace W wid c"
| "handle_request W RAuditSummary c = (handle_audit_summary W c, c)"
| "handle_request W RListPendingApprovals c = (handle_list_pending_approvals W c, c)"
| "handle_request W (RApproveOperation op) c = handle_approve_operation W op c"
| "handle_request W (RDenyOperation op _) c = handle_deny_operation W op c"
| "handle_request W RDaemonShutdown c = (AAck, c\<lparr>ct_shutdown := True\<rparr>)"

section \<open>Connections\<close>

lemma read_loop_shorter:
  assumes "fst (read_loop fin buf input) = Inr bytes" and "input \<noteq> []"
  shows "length (snd (read_loop fin buf input)) < length input"
  using assms
proof (induction fin buf input rule: read_loop.induct)
  case (2 fin buf b bs)
  show ?case
  proof (cases "b = 10 \<or> length (buf @ [b]) > MAX_MESSAGE_BYTES")
    case True
    then show ?thesis by (auto simp: Let_def)
  next
    case False
    then have *: "read_loop fin buf (b # bs) = read_loop fin (buf @ [b]) bs" by (simp add: Let_def)
    show ?thesis
    proof (cases bs)
      case Nil
      then show ?thesis using * by (simp split: stream_end.splits)
    next
      case (Cons a as)
      then have "length (snd (read_loop fin (buf @ [b]) bs)) < length bs"
        using 2 False * by (simp only: list.distinct) auto
      then show ?thesis using * by simp
    qed
  qed
qed simp

lemma read_message_shorter:
  assumes "read_message decode fin input = (Inr v, rest)"
  shows "length rest < length input"
proof -
  obtain buf where "read_loop fin [] input = (Inr buf, rest)"
    using assms by (auto simp: read_message_def split: prod.splits sum.splits)
  moreover have "input \<noteq> []"
    using assms by (auto simp: read_message_def split: stream_end.splits)
  ultimately show ?thesis using read_loop_shorter [of fin "[]" input buf] by simp
qed

text \<open>
  The loop of one connection. The surroundings and the fault of the write are those of the \<open>n\<close>-th request of the
  connection; the result is the error that ended it, if any, with the bytes written and the state left behind. Each
  round consumes input, so the loop ends with the connection.
\<close>

function handle_connection ::
  "(nat \<Rightarrow> 's control_world) \<Rightarrow> (byte list \<Rightarrow> string + ipc_request) \<Rightarrow> (ipc_response \<Rightarrow> string + byte list)
   \<Rightarrow> (nat \<Rightarrow> string option) \<Rightarrow> stream_end \<Rightarrow> nat \<Rightarrow> byte list \<Rightarrow> byte list \<Rightarrow> 's control
   \<Rightarrow> (codec_error + unit) \<times> byte list \<times> 's control" where
  "handle_connection Ws decode encode ios fin n input out c =
     (case read_message decode fin input of
        (Inl ConnectionClosed, _) \<Rightarrow> (Inr (), out, c)
      | (Inl e, _) \<Rightarrow> (Inl e, out, c)
      | (Inr request, rest) \<Rightarrow>
          (case handle_request (Ws n) request c of
             (response, c1) \<Rightarrow>
               (case write_message encode (ios n) response out of
                  (Inl e, out1) \<Rightarrow> (Inl e, out1, c1)
                | (Inr _, out1) \<Rightarrow> handle_connection Ws decode encode ios fin (Suc n) rest out1 c1)))"
  by pat_completeness auto

termination
  by (relation "measure (\<lambda>(_, _, _, _, _, _, input, _, _). length input)") (auto dest: read_message_shorter [OF sym])

declare handle_connection.simps [simp del]

section \<open>Which requests answer with what, and which may change what\<close>

datatype response_kind =
    KIdentity | KStatus | KPairingStatus | KPairingBegun | KCloudPairingProof | KSessions | KAccessGrants
  | KAuthorizationLeases | KWorkspaces | KWorkspaceAuthorized | KAuditSummary | KPendingApprovals | KAck | KError

fun response_kind_of :: "ipc_response \<Rightarrow> response_kind" where
  "response_kind_of (AIdentity _) = KIdentity"
| "response_kind_of (AStatus _) = KStatus"
| "response_kind_of (APairingStatus _) = KPairingStatus"
| "response_kind_of (APairingBegun _) = KPairingBegun"
| "response_kind_of (ACloudPairingProof _) = KCloudPairingProof"
| "response_kind_of (ASessions _) = KSessions"
| "response_kind_of (AAccessGrants _) = KAccessGrants"
| "response_kind_of (AAuthorizationLeases _) = KAuthorizationLeases"
| "response_kind_of (AWorkspaces _) = KWorkspaces"
| "response_kind_of (AWorkspaceAuthorized _) = KWorkspaceAuthorized"
| "response_kind_of (AAuditSummary _) = KAuditSummary"
| "response_kind_of (APendingApprovals _) = KPendingApprovals"
| "response_kind_of AAck = KAck"
| "response_kind_of (AError _) = KError"

fun answer_kind :: "ipc_request \<Rightarrow> response_kind" where
  "answer_kind RIdentity = KIdentity"
| "answer_kind RStatus = KStatus"
| "answer_kind RPairingStatus = KPairingStatus"
| "answer_kind RBeginPairing = KPairingBegun"
| "answer_kind (RCloudPairingProof _) = KCloudPairingProof"
| "answer_kind RListSessions = KSessions"
| "answer_kind RListAccessGrants = KAccessGrants"
| "answer_kind (RListAuthorizationLeases _) = KAuthorizationLeases"
| "answer_kind RListWorkspaces = KWorkspaces"
| "answer_kind (RAuthorizeWorkspace _ _) = KWorkspaceAuthorized"
| "answer_kind RAuditSummary = KAuditSummary"
| "answer_kind RListPendingApprovals = KPendingApprovals"
| "answer_kind _ = KAck"

fun decides :: "ipc_request \<Rightarrow> bool" where
  "decides (RApproveSession _) = True"
| "decides (RDenySession _ _) = True"
| "decides (RPauseSession _) = True"
| "decides (RResumeSession _) = True"
| "decides (RRevokeSession _) = True"
| "decides _ = False"

fun acts :: "ipc_request \<Rightarrow> bool" where
  "acts RBeginPairing = True"
| "acts (RAuthorizeWorkspace _ _) = True"
| "acts (RRemoveWorkspace _) = True"
| "acts (RApproveOperation _) = True"
| "acts (RDenyOperation _ _) = True"
| "acts RDaemonShutdown = True"
| "acts rq = decides rq"

lemma respond_kind: "(\<And>x. response_kind_of (ok x) = k) \<Longrightarrow> response_kind_of (respond W ok r) \<in> {k, KError}"
  by (simp add: respond_def error_response_def split: sum.splits)

lemmas handler_defs = handle_identity_def handle_status_def handle_pairing_status_def handle_begin_pairing_def
  handle_cloud_pairing_proof_def handle_submit_cloud_pairing_def handle_list_sessions_def handle_list_access_grants_def
  handle_list_authorization_leases_def handle_decide_session_def handle_list_workspaces_def
  handle_authorize_workspace_def handle_remove_workspace_def handle_audit_summary_def
  handle_list_pending_approvals_def handle_approve_operation_def handle_deny_operation_def on_daemon_def

lemma decide_save_calls [simp]: "d_calls (snd (decide_save w g d)) = d_calls d"
  by (simp add: decide_save_def split: prod.splits)

lemma decide_finish_calls [simp]: "d_calls (snd (decide_finish w sid e g d)) = d_calls d"
  by (simp add: decide_finish_def invalidate_pending_for_session_def Let_def split: sum.splits prod.splits)

lemma decide_session_calls [simp]: "d_calls (snd (decide_session w sid e d)) = d_calls d"
proof (cases "decide_read w sid e d")
  case (Inr g)
  obtain res d1 where d1: "decide_save w g d = (res, d1)" by fastforce
  then have "d_calls d1 = d_calls d" using decide_save_calls [of w g d] by simp
  then show ?thesis using Inr d1 by (cases res) (simp_all add: decide_session_def)
qed (simp add: decide_session_def)

lemma approve_calls:
  "d_calls (snd (approve_pending_operation w op d)) = d_calls d \<or>
     (\<exists>p. map_of (d_pending d) op = Some p \<and> still_authorized w p d
        \<and> d_calls (snd (approve_pending_operation w op d)) = d_calls d @ [po_request p])"
  by (cases rule: approve_pending_cases [of d op w]) (auto simp: Let_def)

section \<open>Properties\<close>

text \<open>
  C28: The control channel keeps its types. Whatever the state and the surroundings, the response to a request is of
  the one kind the request asks for, or an error.
\<close>

theorem response_has_the_kind_of_its_request:
  "response_kind_of (fst (handle_request W rq c)) \<in> {answer_kind rq, KError}"
  by (cases rq)
    (simp_all add: handler_defs Let_def respond_kind insertI1 del: insert_iff split: prod.splits)

text \<open>
  C29: The local control channel observes, and acts only where the user decided. Only the requests that act change
  anything at all; only the five decisions about a session touch a grant or a session; a tool is called by no
  request except the approval of an operation, and then it is the one queued operation that is approved and still
  authorized; and whatever a request does to the daemon is one of the steps for which the other theories show
  their invariants.
\<close>

theorem control_channel_acts_only_on_decisions:
  fixes W :: "'s control_world" and c :: "'s control"
  shows "(acts rq \<or> snd (handle_request W rq c) = c)
    \<and> (decides rq \<or> d_grants (ct_daemon (snd (handle_request W rq c))) = d_grants (ct_daemon c)
         \<and> d_sessions (ct_daemon (snd (handle_request W rq c))) = d_sessions (ct_daemon c))
    \<and> (d_calls (ct_daemon (snd (handle_request W rq c))) = d_calls (ct_daemon c) \<or>
         (\<exists>op p. rq = RApproveOperation op \<and> map_of (d_pending (ct_daemon c)) op = Some p
            \<and> still_authorized (cw_world W) p (ct_daemon c)
            \<and> d_calls (ct_daemon (snd (handle_request W rq c))) = d_calls (ct_daemon c) @ [po_request p]))
    \<and> (ct_daemon (snd (handle_request W rq c)) = ct_daemon c \<or>
         daemon_step (ct_daemon c) (ct_daemon (snd (handle_request W rq c))))"
proof (cases "decides rq")
  case True
  then obtain sid e where "handle_request W rq c = handle_decide_session W sid e c" and "acts rq"
    by (cases rq) auto
  then show ?thesis using True by (auto simp: handler_defs intro: daemon_step.decide)
next
  case False
  have "acts rq \<or> snd (handle_request W rq c) = c" using False by (cases rq) simp_all
  moreover have "d_grants (ct_daemon (snd (handle_request W rq c))) = d_grants (ct_daemon c)
      \<and> d_sessions (ct_daemon (snd (handle_request W rq c))) = d_sessions (ct_daemon c)"
    using False by (cases rq) (simp_all add: handler_defs split: prod.splits)
  moreover have "d_calls (ct_daemon (snd (handle_request W rq c))) = d_calls (ct_daemon c) \<or>
      (\<exists>op p. rq = RApproveOperation op \<and> map_of (d_pending (ct_daemon c)) op = Some p
         \<and> still_authorized (cw_world W) p (ct_daemon c)
         \<and> d_calls (ct_daemon (snd (handle_request W rq c))) = d_calls (ct_daemon c) @ [po_request p])"
    using False approve_calls by (cases rq) (simp_all add: handler_defs split: prod.splits)
  moreover have "ct_daemon (snd (handle_request W rq c)) = ct_daemon c \<or>
      daemon_step (ct_daemon c) (ct_daemon (snd (handle_request W rq c)))"
    using False by (cases rq) (auto simp: handler_defs intro: daemon_step.intros split: prod.splits)
  ultimately show ?thesis by blast
qed

subsection \<open>The transport binding stays inside\<close>

definition rebind_principal :: "(string \<Rightarrow> string) \<Rightarrow> authorization_principal \<Rightarrow> authorization_principal" where
  "rebind_principal f p =
     p\<lparr>pr_verified := map_option (\<lambda>v. v\<lparr>vp_transport_binding := f (vp_transport_binding v)\<rparr>) (pr_verified p)\<rparr>"

definition rebind_grant :: "(string \<Rightarrow> string) \<Rightarrow> access_grant \<Rightarrow> access_grant" where
  "rebind_grant f g = g\<lparr>gr_principal := rebind_principal f (gr_principal g)\<rparr>"

definition rebind_row :: "(string \<Rightarrow> string) \<Rightarrow> grant_row \<Rightarrow> grant_row" where
  "rebind_row f r = r\<lparr>rg_grant := rebind_grant f (rg_grant r)\<rparr>"

definition rebound :: "(string \<Rightarrow> string) \<Rightarrow> 's control \<Rightarrow> 's control" where
  "rebound f c = c\<lparr>ct_daemon := (ct_daemon c)\<lparr>d_grants := map (rebind_row f) (d_grants (ct_daemon c))\<rparr>\<rparr>"

definition keeps_blank :: "(string \<Rightarrow> string) \<Rightarrow> bool" where
  "keeps_blank f \<longleftrightarrow> (\<forall>b. blank (f b) \<longleftrightarrow> blank b)"

lemma rebind_required:
  "keeps_blank f \<Longrightarrow> has_required_binding_fields (v\<lparr>vp_transport_binding := f (vp_transport_binding v)\<rparr>)
     \<longleftrightarrow> has_required_binding_fields v"
  by (simp add: has_required_binding_fields_def keeps_blank_def)

lemma rebind_is_verified:
  "keeps_blank f \<Longrightarrow> principal_is_verified (rebind_principal f p) \<longleftrightarrow> principal_is_verified p"
  by (auto simp: principal_is_verified_def rebind_principal_def rebind_required split: option.splits)

lemma rebind_parse:
  "keeps_blank f \<Longrightarrow> parse_grant (rebind_row f r) = map_sum id (rebind_grant f) (parse_grant r)"
  by (cases "pr_assurance (gr_principal (rg_grant r))"; cases "pr_verified (gr_principal (rg_grant r))")
    (simp_all add: parse_grant_def rebind_row_def rebind_grant_def parse_principal_def rebind_principal_def rebind_required
      principal_verified_def principal_unverified_def)

lemma rebind_collect:
  assumes "keeps_blank f"
  shows "collect_results parse_grant (map (rebind_row f) rows)
    = map_sum id (map (rebind_grant f)) (collect_results parse_grant rows)"
proof (induction rows)
  case (Cons r rows)
  then show ?case
    by (cases "parse_grant r"; cases "collect_results parse_grant rows") (simp_all add: rebind_parse [OF assms])
qed simp

lemma rebind_list:
  "keeps_blank f \<Longrightarrow> list_all_grants io (map (rebind_row f) rows) = map_sum id (map (rebind_grant f)) (list_all_grants io rows)"
  by (simp add: list_all_grants_def with_io_def rebind_collect split: option.splits)

lemma rebind_identity_view:
  "keeps_blank f \<Longrightarrow> verified_identity_view_of (rebind_grant f g) = verified_identity_view_of g"
  by (cases "pr_verified (gr_principal g)")
    (simp_all add: verified_identity_view_of_def rebind_grant_def rebind_is_verified, simp_all add: rebind_principal_def)

lemma rebind_grant_view:
  "keeps_blank f \<Longrightarrow> to_grant_view w (rebind_grant f g) t rows = to_grant_view w g t rows"
  by (simp add: to_grant_view_def rebind_identity_view) (simp add: rebind_grant_def rebind_is_verified, simp add: rebind_principal_def)

lemma rebind_session_view:
  "keeps_blank f \<Longrightarrow> to_session_view w s (map_option (rebind_grant f) k) t rows = to_session_view w s k t rows"
  by (cases k) (simp_all add: to_session_view_def rebind_identity_view, simp add: rebind_grant_def rebind_is_verified)

lemma rebind_fields [simp]:
  "gr_subject_session_id (rebind_grant f g) = gr_subject_session_id g"
  "gr_status (rebind_grant f g) = gr_status g"
  "grant_is_usable_at (rebind_grant f g) now \<longleftrightarrow> grant_is_usable_at g now"
  by (simp_all add: rebind_grant_def grant_is_usable_at_def grant_is_expired_at_def)

lemma rebind_by_subject:
  "map_of (rev (map (\<lambda>g. (gr_subject_session_id g, g)) (map (rebind_grant f) gs))) sid
   = map_option (rebind_grant f) (map_of (rev (map (\<lambda>g. (gr_subject_session_id g, g)) gs)) sid)"
proof -
  have "rev (map (\<lambda>g. (gr_subject_session_id g, g)) (map (rebind_grant f) gs))
      = map (\<lambda>(k, g). (k, rebind_grant f g)) (rev (map (\<lambda>g. (gr_subject_session_id g, g)) gs))"
    by (simp add: rev_map)
  then show ?thesis by (simp only: map_of_map o_apply)
qed

lemma rebound_simps [simp]:
  "d_grants (ct_daemon (rebound f c)) = map (rebind_row f) (d_grants (ct_daemon c))"
  "d_sessions (ct_daemon (rebound f c)) = d_sessions (ct_daemon c)"
  "d_workspaces (ct_daemon (rebound f c)) = d_workspaces (ct_daemon c)"
  "d_transport_state (ct_daemon (rebound f c)) = d_transport_state (ct_daemon c)"
  "d_audit (ct_daemon (rebound f c)) = d_audit (ct_daemon c)"
  "list_pending_operations (ct_daemon (rebound f c)) = list_pending_operations (ct_daemon c)"
  "ct_device (rebound f c) = ct_device c" "ct_leases (rebound f c) = ct_leases c"
  by (simp_all add: rebound_def list_pending_operations_def)

text \<open>
  C30: No observing request reveals the transport binding of an actor. Replacing the bindings of the stored grants by
  other ones, empty only where they were empty, changes no response: what the control channel reports about
  identities is the issuer, subject, verification source and strength of verified grants and nothing more.
\<close>

theorem observers_do_not_see_the_transport_binding:
  assumes "keeps_blank f" and "\<not> acts rq"
  shows "fst (handle_request W rq (rebound f c)) = fst (handle_request W rq c)"
proof -
  note rb = rebind_list [OF assms(1)]
  have "handle_status W (rebound f c) = handle_status W c"
  proof (cases "list_all_grants (cf_grant_list W) (d_grants (ct_daemon c))")
    case (Inr gs)
    have "length (filter P (map (rebind_grant f) gs)) = length (filter P gs)" if "\<And>g. P (rebind_grant f g) = P g" for P
      using that by (simp add: filter_map o_def)
    then show ?thesis using Inr by (simp add: handle_status_def cloud_paired_def rb Let_def cong: if_cong)
  qed (simp add: handle_status_def cloud_paired_def rb Let_def)
  moreover have "handle_list_sessions W (rebound f c) = handle_list_sessions W c"
    by (cases "list_all_grants (cf_grant_list W) (d_grants (ct_daemon c))")
      (simp_all add: handle_list_sessions_def rb Let_def rebind_by_subject rebind_session_view [OF assms(1)]
        del: map_map list.map_comp)
  moreover have "handle_list_access_grants W (rebound f c) = handle_list_access_grants W c"
    by (cases "list_all_grants (cf_grant_list W) (d_grants (ct_daemon c))")
      (simp_all add: handle_list_access_grants_def rb Let_def respond_def rebind_grant_view [OF assms(1)] o_def)
  ultimately show ?thesis
    using assms(2)
    by (cases rq) (simp_all add: handler_defs cloud_paired_def pairing_proof_result_def Let_def cong: if_cong)
qed

definition sample_control_world :: "memory_store control_world" where
  "sample_control_world =
     \<lparr>cw_world = sample_world False, cw_crypto = sample_device_crypto, cw_forms = sample_forms,
      cw_secrets = InMemorySecretStore, cw_instance_id = ''i'', cw_daemon_version = ''0.1.0'', cw_error_text = (\<lambda>_. []),
      cw_fresh_key = replicate 32 1, cw_fresh_device = DeviceId 2, cw_probe_time = None, cw_probe_nonce = ''n'',
      cw_cloud_get = (\<lambda>_. None), cw_decode_status = (\<lambda>_. Inl []), cw_cloud_post = None, cw_core_reachable = False,
      cf_identity_load = None, cf_identity_insert = None, cf_identity_sign = None, cf_probe_load = None,
      cf_probe_sign = None, cf_session_list = None, cf_grant_list = None, cf_lease_list = None,
      cf_workspace_list = None, cf_audit_list = None\<rparr>"

definition sample_control :: "memory_store control" where
  "sample_control = \<lparr>ct_daemon = sample_daemon\<lparr>d_grants := [grant_to_row
       ((sample_active Standing)\<lparr>gr_principal := principal_verified ''agent'' sample_actor\<rparr>)]\<rparr>,
     ct_leases = [], ct_device = sample_device, ct_shutdown = False\<rparr>"

theorem observers_do_not_see_the_transport_binding_witness:
  "fst (handle_request sample_control_world RListAccessGrants (rebound (\<lambda>b. if blank b then b else ''other'') sample_control))
     = fst (handle_request sample_control_world RListAccessGrants sample_control)
   \<and> rebound (\<lambda>b. if blank b then b else ''other'') sample_control \<noteq> sample_control"
proof
  let ?f = "\<lambda>b :: string. if blank b then b else ''other''"
  have "keeps_blank ?f" by (auto simp: keeps_blank_def blank_def is_white_def)
  from observers_do_not_see_the_transport_binding [OF this, of RListAccessGrants sample_control_world sample_control]
  show "fst (handle_request sample_control_world RListAccessGrants (rebound ?f sample_control))
     = fst (handle_request sample_control_world RListAccessGrants sample_control)" by simp
  have other: "vp_transport_binding (the (pr_verified (gr_principal (rg_grant (hd (d_grants (ct_daemon (rebound ?f sample_control)))))))) = ''other''"
    by (simp add: sample_control_def rebind_row_def rebind_grant_def rebind_principal_def grant_to_row_def principal_verified_def
        sample_actor_def blank_def is_white_def)
  have chan: "vp_transport_binding (the (pr_verified (gr_principal (rg_grant (hd (d_grants (ct_daemon sample_control))))))) = ''chan''"
    by (simp add: sample_control_def grant_to_row_def principal_verified_def sample_actor_def)
  show "rebound ?f sample_control \<noteq> sample_control"
  proof
    assume "rebound ?f sample_control = sample_control"
    from other [unfolded this] chan show False by simp
  qed
qed

subsection \<open>A connection\<close>

text \<open>The responses to a sequence of requests, in the surroundings of the \<open>n\<close>-th request and those after it.\<close>

fun served :: "(nat \<Rightarrow> 's control_world) \<Rightarrow> nat \<Rightarrow> ipc_request list \<Rightarrow> 's control \<Rightarrow> ipc_response list \<times> 's control" where
  "served Ws n [] c = ([], c)"
| "served Ws n (rq # rqs) c =
     (let (a, c1) = handle_request (Ws n) rq c; (as, c2) = served Ws (Suc n) rqs c1 in (a # as, c2))"

lemma served_length: "served Ws n rqs c = (as, c') \<Longrightarrow> length as = length rqs"
  by (induction rqs arbitrary: n c as) (auto split: prod.splits)

definition fits :: "('a \<Rightarrow> string + byte list) \<Rightarrow> 'a \<Rightarrow> bool" where
  "fits encode v \<longleftrightarrow> (\<exists>bytes. encode v = Inr bytes \<and> length bytes \<le> MAX_MESSAGE_BYTES)"

definition frames :: "('a \<Rightarrow> string + byte list) \<Rightarrow> 'a list \<Rightarrow> byte list" where
  "frames encode vs = concat (map (\<lambda>v. (case encode v of Inr bytes \<Rightarrow> bytes | Inl _ \<Rightarrow> []) @ [10]) vs)"

lemma frames_simps [simp]:
  "frames encode [] = []"
  "encode v = Inr bytes \<Longrightarrow> frames encode (v # vs) = bytes @ 10 # frames encode vs"
  by (simp_all add: frames_def)

lemma write_message_fits:
  "encode v = Inr bytes \<Longrightarrow> length bytes \<le> MAX_MESSAGE_BYTES \<Longrightarrow>
     write_message encode None v out = (Inr (), out @ bytes @ [10])"
  by (simp add: write_message_def)

lemma write_all_iff:
  "write_all encode vs out = (Inr (), out') \<longleftrightarrow> list_all (fits encode) vs \<and> out' = out @ frames encode vs"
proof (induction vs arbitrary: out)
  case (Cons v vs)
  show ?case
  proof (cases "fits encode v")
    case True
    then obtain bytes where "encode v = Inr bytes" "length bytes \<le> MAX_MESSAGE_BYTES" by (auto simp: fits_def)
    then show ?thesis using Cons True by (simp add: write_message_fits)
  next
    case False
    then have "fst (write_message encode None v out) \<noteq> Inr ()"
      by (auto simp: fits_def write_message_def split: sum.splits)
    then show ?thesis using False by (auto split: prod.splits sum.splits)
  qed
qed auto

lemma connection_serves:
  assumes "json_codec encode_request decode_request" and "\<And>n. ios n = None"
    and "list_all (fits encode_request) rqs" and "served Ws n rqs c = (as, c')" and "list_all (fits encode) as"
  shows "handle_connection Ws decode_request encode ios Closed n (frames encode_request rqs) out c
    = (Inr (), out @ frames encode as, c')"
  using assms(3-5)
proof (induction rqs arbitrary: n out c as)
  case Nil
  then show ?case by (simp add: handle_connection.simps read_message_def)
next
  case (Cons rq rqs)
  obtain a c1 as' where step: "handle_request (Ws n) rq c = (a, c1)" "served Ws (Suc n) rqs c1 = (as', c')" "as = a # as'"
    using Cons.prems(2) by (auto split: prod.splits)
  obtain bytes where b: "encode_request rq = Inr bytes" "length bytes \<le> MAX_MESSAGE_BYTES"
    using Cons.prems(1) by (auto simp: fits_def)
  obtain reply where r: "encode a = Inr reply" "length reply \<le> MAX_MESSAGE_BYTES"
    using Cons.prems(3) step(3) by (auto simp: fits_def)
  have "handle_connection Ws decode_request encode ios Closed n (frames encode_request (rq # rqs)) out c
      = handle_connection Ws decode_request encode ios Closed (Suc n) (frames encode_request rqs) (out @ reply @ [10]) c1"
    using read_written [OF assms(1) b, of Closed "frames encode_request rqs"] b(1) step(1) assms(2)
      write_message_fits [where encode = encode and v = a, OF r]
    by (subst handle_connection.simps) simp
  also have "\<dots> = (Inr (), (out @ reply @ [10]) @ frames encode as', c')"
    using Cons.IH [OF _ step(2)] Cons.prems step(3) by simp
  finally show ?case using r(1) step(3) by simp
qed

text \<open>
  A connection answers every request, once and in order. Where all requests on the wire and all their responses
  fit into a message and writing does not fail, the daemon's loop ends with the peer's close, and the peer reads back
  exactly the responses that handling the requests one after the other gives, followed by the end of the connection.
\<close>

theorem connection_answers_every_request_in_order:
  assumes "json_codec encode_request decode_request" and "json_codec encode decode" and "\<And>n. ios n = None"
    and "write_all encode_request rqs [] = (Inr (), wire)" and "served Ws 0 rqs c = (answers, c')"
    and "\<forall>a \<in> set answers. \<exists>bytes. encode a = Inr bytes \<and> length bytes \<le> MAX_MESSAGE_BYTES"
  shows "\<exists>wire'. handle_connection Ws decode_request encode ios Closed 0 wire [] c = (Inr (), wire', c')
    \<and> read_all (length rqs + 1) decode Closed wire' = (answers, Some ConnectionClosed)"
proof -
  have fit: "list_all (fits encode) answers" using assms(6) by (simp add: list_all_iff fits_def)
  have rqs: "list_all (fits encode_request) rqs" "wire = frames encode_request rqs" using assms(4) by (simp_all add: write_all_iff)
  have "handle_connection Ws decode_request encode ios Closed 0 wire [] c = (Inr (), frames encode answers, c')"
    using connection_serves [where ios = ios and encode = encode and out = "[]", OF assms(1,3) rqs(1) assms(5) fit] rqs(2) by simp
  moreover have "write_all encode answers [] = (Inr (), [] @ frames encode answers)" using fit by (simp add: write_all_iff)
  from write_all_frames [OF assms(2) this]
  have "read_all (length rqs + 1) decode Closed (frames encode answers) = (answers, Some ConnectionClosed)"
    unfolding append_Nil served_length [OF assms(5)] by blast
  ultimately show ?thesis by blast
qed

theorem connection_answers_every_request_in_order_witness:
  "\<exists>wire'. handle_connection (\<lambda>_. sample_control_world) (\<lambda>b. if b = [1] then Inr RDaemonShutdown else Inl [])
       (\<lambda>a. if a = AAck then Inr [2] else Inl []) (\<lambda>_. None) Closed 0 [1, 10] [] sample_control
     = (Inr (), wire', sample_control\<lparr>ct_shutdown := True\<rparr>)
   \<and> read_all 2 (\<lambda>_. Inr AAck) Closed wire' = ([AAck], Some ConnectionClosed)"
proof -
  let ?er = "\<lambda>r. if r = RDaemonShutdown then Inr [1] else Inl [] :: string + byte list"
  let ?dr = "\<lambda>b. if b = [1] then Inr RDaemonShutdown else Inl [] :: string + ipc_request"
  let ?ea = "\<lambda>a. if a = AAck then Inr [2] else Inl [] :: string + byte list"
  have codecs: "json_codec ?er ?dr" "json_codec ?ea (\<lambda>_. Inr AAck)" by (auto simp: json_codec_def split: if_splits)
  have wire: "write_all ?er [RDaemonShutdown] [] = (Inr (), [1, 10])"
    by (simp add: write_message_def MAX_MESSAGE_BYTES_def)
  have served: "served (\<lambda>_. sample_control_world) 0 [RDaemonShutdown] sample_control
      = ([AAck], sample_control\<lparr>ct_shutdown := True\<rparr>)" by simp
  have "\<exists>wire'. handle_connection (\<lambda>_. sample_control_world) ?dr ?ea (\<lambda>_. None) Closed 0 [1, 10] [] sample_control
      = (Inr (), wire', sample_control\<lparr>ct_shutdown := True\<rparr>)
    \<and> read_all (length [RDaemonShutdown] + 1) (\<lambda>_. Inr AAck) Closed wire' = ([AAck], Some ConnectionClosed)"
    by (rule connection_answers_every_request_in_order [where encode_request = ?er and decode_request = ?dr, OF codecs _ wire served])
      (simp_all add: MAX_MESSAGE_BYTES_def)
  then show ?thesis by (simp add: numeral_2_eq_2)
qed

end
