(* ===== verification/Gateway_Relay.thy ===== *)
theory Gateway_Relay
  imports Gateway_Transport Gateway_Identity Gateway_Config
begin

text \<open>
  The outbound connection to the cloud relay, \<^verbatim>\<open>src/apps/daemon/src/relay_transport.rs\<close>: the handshake in which
  the device signs a challenge of the server, the heartbeats, and the refusal of everything else.

  What the WebSocket yields at each read and whether a write succeeds are arguments; the texts written on the open
  socket are part of the state, as the JSON values they print. The JSON parser and the Base64 decoder are parameters,
  the keys and text forms those of \<open>Gateway_Identity\<close>.
\<close>

section \<open>Sockets\<close>

datatype ws_message = WsText string | WsBinary | WsPing | WsPong | WsClose

datatype ws_read = ReadTimeout | ReadClosed | ReadFailed | ReadMessage ws_message

datatype ws_connect = OpenTimedOut | OpenFailed | Opened

record relay_transport =
  rl_url :: url
  rl_socket :: "json list option"
  rl_state :: transport_state

definition relay_new :: "url \<Rightarrow> relay_transport" where
  "relay_new u = \<lparr>rl_url = u, rl_socket = None, rl_state = TDisconnected\<rparr>"

definition relay_error :: "string \<Rightarrow> transport_error" where
  "relay_error e = ConnectFailed e"

definition challenge_message :: "string \<Rightarrow> string \<Rightarrow> 8 word list" where
  "challenge_message device nonce =
     utf8 (''kicad-mcp-cloud-relay/auth/v1'' @ [CHR 0x0A] @ device @ [CHR 0x0A] @ nonce)"

definition next_text :: "ws_read \<Rightarrow> transport_error + string" where
  "next_text r =
     (case r of
        ReadTimeout \<Rightarrow> Inl (relay_error ''remote device-auth handshake timed out'')
      | ReadClosed \<Rightarrow> Inl (relay_error ''relay closed handshake'')
      | ReadFailed \<Rightarrow> Inl (relay_error ''relay handshake read failed'')
      | ReadMessage (WsText raw) \<Rightarrow>
          if utf8_len raw > 4096 then Inl (relay_error ''oversized relay handshake'') else Inr raw
      | ReadMessage _ \<Rightarrow> Inl (relay_error ''unexpected relay handshake frame''))"

section \<open>JSON values\<close>

fun json_get :: "json \<Rightarrow> string \<Rightarrow> json option" where
  "json_get (JObject entries) k = map_of entries k"
| "json_get _ k = None"

fun json_as_str :: "json \<Rightarrow> string option" where
  "json_as_str (JString s) = Some s"
| "json_as_str _ = None"

fun json_as_u64 :: "json \<Rightarrow> nat option" where
  "json_as_u64 (JNumber n) = (if 0 \<le> n \<and> n < 2 ^ 64 then Some (nat n) else None)"
| "json_as_u64 _ = None"

definition protocol_field :: "json \<Rightarrow> string \<Rightarrow> transport_error + string" where
  "protocol_field v k = ok_or (relay_error ''malformed relay handshake'') (Option.bind (json_get v k) json_as_str)"

section \<open>The handshake\<close>

text \<open>The faults and inputs one call of \<open>connect\<close> meets, in their order.\<close>

record relay_io =
  ri_identity_fault :: "string option"
  ri_open :: ws_connect
  ri_challenge :: ws_read
  ri_sign_fault :: "string option"
  ri_proof_sent :: bool
  ri_ready :: ws_read

record relay_codec =
  rc_parse :: "string \<Rightarrow> json option"
  rc_decode64 :: "string \<Rightarrow> 8 word list option"

definition check_challenge :: "relay_codec \<Rightarrow> string \<Rightarrow> transport_error + string" where
  "check_challenge C raw =
     rbind (ok_or (relay_error ''invalid challenge JSON'') (rc_parse C raw)) (\<lambda>challenge.
     rbind (protocol_field challenge ''type'') (\<lambda>ty.
     if ty \<noteq> ''challenge'' then Inl (relay_error ''unexpected challenge type'')
     else
       rbind (protocol_field challenge ''nonce'') (\<lambda>nonce.
       if (case rc_decode64 C nonce of None \<Rightarrow> True | Some bytes \<Rightarrow> length bytes \<noteq> 32)
         then Inl (relay_error ''invalid challenge nonce'')
       else if (case Option.bind (json_get challenge ''expires_in_seconds'') json_as_u64 of
                  None \<Rightarrow> True | Some ttl \<Rightarrow> ttl = 0 \<or> ttl > 30)
         then Inl (relay_error ''invalid challenge expiry'')
       else Inr nonce)))"

definition check_ready :: "relay_codec \<Rightarrow> string \<Rightarrow> string \<Rightarrow> transport_error + unit" where
  "check_ready C device raw =
     rbind (ok_or (relay_error ''invalid ready JSON'') (rc_parse C raw)) (\<lambda>ready.
     rbind (protocol_field ready ''type'') (\<lambda>ty.
     if ty \<noteq> ''ready'' then Inl (relay_error ''relay did not authenticate this device'')
     else
       rbind (protocol_field ready ''device_id'') (\<lambda>named.
       if named \<noteq> device then Inl (relay_error ''relay did not authenticate this device'') else Inr ())))"

definition relay_proof :: "device_crypto \<Rightarrow> string \<Rightarrow> 8 word list \<Rightarrow> json" where
  "relay_proof K device sig =
     JObject [(''type'', JString ''proof''), (''device_id'', JString device), (''signature'', JString (dk_base64 K sig))]"

definition relay_handshake ::
  "device_crypto \<Rightarrow> text_forms \<Rightarrow> 's secret_store \<Rightarrow> relay_codec \<Rightarrow> relay_io \<Rightarrow> device_row list \<times> 's
   \<Rightarrow> transport_error + json list" where
  "relay_handshake K F S C io st =
     rbind (map_err (\<lambda>_. relay_error ''secure device identity read failed'')
        (public_identity F (ri_identity_fault io) (fst st))) (\<lambda>found.
     rbind (ok_or (relay_error ''device identity is not initialized'') found) (\<lambda>identity.
     let device = id_display (tf_put F) ''dev'' (dev_ulid (di_device_id identity)) in
     rbind (case ri_open io of
              OpenTimedOut \<Rightarrow> Inl (relay_error ''TLS/WebSocket connect timed out'')
            | OpenFailed \<Rightarrow> Inl (relay_error ''TLS/WebSocket connect failed'')
            | Opened \<Rightarrow> Inr ()) (\<lambda>_.
     rbind (next_text (ri_challenge io)) (\<lambda>challenge_raw.
     rbind (check_challenge C challenge_raw) (\<lambda>nonce.
     rbind (map_err (\<lambda>_. relay_error ''device signing failed'')
        (identity_sign K F S (ri_sign_fault io) (challenge_message device nonce) st)) (\<lambda>sig.
     if \<not> ri_proof_sent io then Inl (relay_error ''device proof send failed'')
     else
       rbind (next_text (ri_ready io)) (\<lambda>ready_raw.
       rbind (check_ready C device ready_raw) (\<lambda>_.
       Inr [relay_proof K device sig]))))))))"

definition relay_connect ::
  "device_crypto \<Rightarrow> text_forms \<Rightarrow> 's secret_store \<Rightarrow> relay_codec \<Rightarrow> relay_io \<Rightarrow> device_row list \<times> 's
   \<Rightarrow> relay_transport \<Rightarrow> (transport_error + unit) \<times> relay_transport" where
  "relay_connect K F S C io st r =
     (let r = r\<lparr>rl_state := TConnecting\<rparr> in
      case relay_handshake K F S C io st of
        Inl e \<Rightarrow> (Inl e, r)
      | Inr sent \<Rightarrow> (Inr (), r\<lparr>rl_socket := Some sent, rl_state := TConnected\<rparr>))"

section \<open>The open connection\<close>

definition relay_disconnect :: "relay_transport \<Rightarrow> (transport_error + unit) \<times> relay_transport" where
  "relay_disconnect r = (Inr (), r\<lparr>rl_socket := None, rl_state := TDisconnected\<rparr>)"

definition relay_send :: "envelope \<Rightarrow> relay_transport \<Rightarrow> (transport_error + unit) \<times> relay_transport" where
  "relay_send e r = (Inl (SendFailed ''privileged cloud relay messages are not enabled''), r)"

definition heartbeat :: "string \<Rightarrow> json" where
  "heartbeat message_id = JObject [(''type'', JString ''heartbeat''), (''message_id'', JString message_id)]"

definition is_heartbeat_ack :: "json \<Rightarrow> bool" where
  "is_heartbeat_ack v \<longleftrightarrow> Option.bind (json_get v ''type'') json_as_str = Some ''heartbeat_ack''
     \<and> (case Option.bind (json_get v ''message_id'') json_as_str of
          None \<Rightarrow> False | Some i \<Rightarrow> i \<noteq> [] \<and> utf8_len i \<le> 80)"

text \<open>What one call of \<open>receive\<close> meets: the read, a fresh message id, and whether a heartbeat can be written.\<close>

record relay_input =
  in_read :: ws_read
  in_message_id :: string
  in_heartbeat_sent :: bool

definition relay_receive ::
  "relay_codec \<Rightarrow> relay_input \<Rightarrow> relay_transport \<Rightarrow> (transport_error + inbound_envelope) \<times> relay_transport" where
  "relay_receive C i r =
     (case rl_socket r of
        None \<Rightarrow> (Inl NotConnected, r)
      | Some sent \<Rightarrow>
          (case in_read i of
             ReadTimeout \<Rightarrow>
               if in_heartbeat_sent i
               then (Inl NoMessage, r\<lparr>rl_socket := Some (sent @ [heartbeat (in_message_id i)])\<rparr>)
               else (Inl (ReceiveFailed ''heartbeat send failed''), r)
           | ReadMessage (WsText raw) \<Rightarrow>
               if utf8_len raw > 4096 then (Inl (ReceiveFailed ''oversized relay frame''), r)
               else
                 (case rc_parse C raw of
                    None \<Rightarrow> (Inl (ReceiveFailed ''invalid relay frame''), r)
                  | Some v \<Rightarrow>
                      if is_heartbeat_ack v then (Inl NoMessage, r)
                      else (Inl (ReceiveFailed ''untrusted remote command rejected''), r))
           | ReadMessage WsPing \<Rightarrow> (Inl NoMessage, r)
           | ReadMessage WsPong \<Rightarrow> (Inl NoMessage, r)
           | _ \<Rightarrow> (Inl (ReceiveFailed ''relay socket closed or invalid''), r)))"

definition relay_health :: "relay_transport \<Rightarrow> transport_health" where
  "relay_health r = \<lparr>th_connected = (rl_state r = TConnected), th_last_error = None\<rparr>"

section \<open>A transport that delivers nothing\<close>

text \<open>
  The receive loop of the daemon over a transport: each turn, the loop calls \<open>receive\<close>, or the shutdown signal wins
  (an input of \<open>None\<close>).
\<close>

fun drive :: "('i \<Rightarrow> 's \<Rightarrow> (transport_error + inbound_envelope) \<times> 's) \<Rightarrow> (world \<times> 'i option) list \<Rightarrow> 's
    \<Rightarrow> (world \<times> turn) list" where
  "drive receive [] s = []"
| "drive receive ((w, None) # ins) s = [(w, ShutDown)]"
| "drive receive ((w, Some i) # ins) s = (case receive i s of (res, s') \<Rightarrow> (w, Received res) # drive receive ins s')"

locale heartbeat_only =
  fixes receive :: "'i \<Rightarrow> 's \<Rightarrow> (transport_error + inbound_envelope) \<times> 's"
    and send :: "envelope \<Rightarrow> 's \<Rightarrow> (transport_error + unit) \<times> 's"
  assumes delivers_nothing: "\<exists>e s'. receive i s = (Inl e, s')"
    and sends_nothing: "\<exists>e. send m s = (Inl e, s)"
begin

lemma loop_changes_nothing: "snd (processor_loop (drive receive ins s) d) = d"
proof (induction ins arbitrary: s)
  case (Cons x ins)
  obtain w o' where x: "x = (w, o')" by (cases x)
  show ?case
  proof (cases o')
    case (Some i)
    obtain e s' where "receive i s = (Inl e, s')" using delivers_nothing by blast
    with Cons.IH x Some show ?thesis by simp
  qed (simp add: x)
qed simp

lemma processor_changes_nothing: "snd (run_remote_processor (drive receive ins s) d) = d\<lparr>d_transport := True\<rparr>"
  by (simp add: run_remote_processor_def loop_changes_nothing)

end

interpretation relay: heartbeat_only "relay_receive C" relay_send for C
  by unfold_locales (auto simp: relay_receive_def relay_send_def split: option.splits ws_read.splits ws_message.splits)

section \<open>Lemmas\<close>

text \<open>The states of a relay transport under any sequence of calls.\<close>

inductive relay_reachable ::
  "device_crypto \<Rightarrow> text_forms \<Rightarrow> 's secret_store \<Rightarrow> relay_codec \<Rightarrow> url \<Rightarrow> relay_transport \<Rightarrow> bool" for K F S C u where
  initial: "relay_reachable K F S C u (relay_new u)"
| connect: "relay_reachable K F S C u r \<Longrightarrow> relay_reachable K F S C u (snd (relay_connect K F S C io st r))"
| disconnect: "relay_reachable K F S C u r \<Longrightarrow> relay_reachable K F S C u (snd (relay_disconnect r))"
| send: "relay_reachable K F S C u r \<Longrightarrow> relay_reachable K F S C u (snd (relay_send e r))"
| receive: "relay_reachable K F S C u r \<Longrightarrow> relay_reachable K F S C u (snd (relay_receive C i r))"

lemma check_challenge_Inr:
  assumes "check_challenge C raw = Inr nonce"
  shows "\<exists>v bytes ttl. rc_parse C raw = Some v \<and> json_get v ''nonce'' = Some (JString nonce)
    \<and> rc_decode64 C nonce = Some bytes \<and> length bytes = 32
    \<and> json_get v ''expires_in_seconds'' = Some (JNumber ttl) \<and> 0 < ttl \<and> ttl \<le> 30"
proof -
  have str: "x = JString s" if "json_as_str x = Some s" for x s using that by (cases x) auto
  have num: "\<exists>n. x = JNumber n \<and> t = nat n \<and> 0 \<le> n" if "json_as_u64 x = Some t" for x t
    using that by (cases x) (auto split: if_splits)
  show ?thesis
    using assms by (fastforce simp: check_challenge_def rbind_Inr_conv protocol_field_def bind_eq_Some_conv
        split: if_splits option.split_asm dest!: str num)
qed

lemma relay_handshake_Inr:
  assumes "relay_handshake K F S C io st = Inr sent"
  shows "\<exists>i device nonce bytes sig. public_identity F (ri_identity_fault io) (fst st) = Inr (Some i)
    \<and> device = id_display (tf_put F) ''dev'' (dev_ulid (di_device_id i))
    \<and> identity_sign K F S (ri_sign_fault io) (challenge_message device nonce) st = Inr sig
    \<and> rc_decode64 C nonce = Some bytes \<and> length bytes = 32
    \<and> sent = [relay_proof K device sig]
    \<and> (\<exists>raw. ri_ready io = ReadMessage (WsText raw) \<and> check_ready C device raw = Inr ())"
proof -
  have read: "\<exists>raw. x = ReadMessage (WsText raw) \<and> r = raw" if "next_text x = Inr r" for x r
    using that by (auto simp: next_text_def split: ws_read.splits ws_message.splits if_splits)
  show ?thesis
    using assms unfolding relay_handshake_def rbind_Inr_conv Let_def
    by (fastforce simp: rbind_Inr_conv split: if_splits dest: check_challenge_Inr read)
qed

definition written :: "device_crypto \<Rightarrow> json list \<Rightarrow> bool" where
  "written K sent \<longleftrightarrow> (\<exists>device sig ids. sent = relay_proof K device sig # map heartbeat ids)"

lemma relay_reachable_inv:
  assumes "relay_reachable K F S C u r"
  shows "rl_url r = u \<and> (case rl_socket r of None \<Rightarrow> rl_state r \<noteq> TConnected | Some sent \<Rightarrow> written K sent)"
  using assms
proof induction
  case (connect r io st)
  have "written K sent" if "relay_handshake K F S C io st = Inr sent" for sent
    using relay_handshake_Inr [OF that] unfolding written_def by (metis list.simps(8))
  with connect show ?case by (auto simp: relay_connect_def Let_def split: sum.splits option.splits)
next
  case (receive r i)
  have "written K (sent @ [heartbeat x])" if "written K sent" for sent x
    using that unfolding written_def by (metis append_Cons list.simps(8) list.simps(9) map_append)
  with receive show ?case
    by (auto simp: relay_receive_def split: option.splits ws_read.splits ws_message.splits)
qed (auto simp: relay_new_def relay_disconnect_def relay_send_def split: option.splits)


text \<open>A signature made for the relay never stands for a pairing proof or a status probe, which the same key signs.\<close>

lemma relay_domain_is_separate:
  "challenge_message d n \<noteq> cloud_pairing_message d' c" "challenge_message d n \<noteq> signed_message d' t n'"
  unfolding challenge_message_def cloud_pairing_message_def signed_message_def STATUS_DOMAIN_def
  by (rule notI, drule utf8_inject, simp)+

section \<open>Properties\<close>

text \<open>
  C35: The relay connection admits no remote command. In whatever order the transport is used and whatever the relay
  sends: draining it with the receive loop changes nothing in the daemon but the note that a transport is set, no
  envelope is ever sent, and the only texts written on an open socket are one proof of the device key and heartbeats.
  A connect that succeeds has signed, with the stored device key and in the domain of the relay, the stored device id
  and a challenge of 32 bytes, and the relay has answered with that device id.
\<close>

theorem relay_admits_no_remote_command:
  assumes "relay_reachable K F S C u r"
  shows "snd (run_remote_processor (drive (relay_receive C) ins r) d) = d\<lparr>d_transport := True\<rparr>
    \<and> (\<exists>e. relay_send m r = (Inl e, r))
    \<and> (\<forall>sent. rl_socket r = Some sent \<longrightarrow> written K sent)
    \<and> (\<forall>io st r'. relay_connect K F S C io st r = (Inr (), r') \<longrightarrow>
        (\<exists>i nonce bytes sig ready v. public_identity F (ri_identity_fault io) (fst st) = Inr (Some i)
          \<and> rc_decode64 C nonce = Some bytes \<and> length bytes = 32
          \<and> identity_sign K F S (ri_sign_fault io)
              (challenge_message (id_display (tf_put F) ''dev'' (dev_ulid (di_device_id i))) nonce) st = Inr sig
          \<and> rl_socket r' = Some [relay_proof K (id_display (tf_put F) ''dev'' (dev_ulid (di_device_id i))) sig]
          \<and> ri_ready io = ReadMessage (WsText ready) \<and> rc_parse C ready = Some v
          \<and> json_get v ''device_id'' = Some (JString (id_display (tf_put F) ''dev'' (dev_ulid (di_device_id i))))))"
proof -
  have named: "\<exists>v. rc_parse C raw = Some v \<and> json_get v ''device_id'' = Some (JString device)"
    if "check_ready C device raw = Inr ()" for raw device
  proof -
    have str: "x = JString s" if "json_as_str x = Some s" for x s using that by (cases x) auto
    show ?thesis
      using that by (auto simp: check_ready_def rbind_Inr_conv protocol_field_def bind_eq_Some_conv
          split: if_splits dest!: str)
  qed
  have "\<exists>i nonce bytes sig ready v. public_identity F (ri_identity_fault io) (fst st) = Inr (Some i)
          \<and> rc_decode64 C nonce = Some bytes \<and> length bytes = 32
          \<and> identity_sign K F S (ri_sign_fault io)
              (challenge_message (id_display (tf_put F) ''dev'' (dev_ulid (di_device_id i))) nonce) st = Inr sig
          \<and> rl_socket r' = Some [relay_proof K (id_display (tf_put F) ''dev'' (dev_ulid (di_device_id i))) sig]
          \<and> ri_ready io = ReadMessage (WsText ready) \<and> rc_parse C ready = Some v
          \<and> json_get v ''device_id'' = Some (JString (id_display (tf_put F) ''dev'' (dev_ulid (di_device_id i))))"
    if c: "relay_connect K F S C io st r = (Inr (), r')" for io st r'
  proof -
    obtain sent where h: "relay_handshake K F S C io st = Inr sent" and s: "rl_socket r' = Some sent"
      using c by (auto simp: relay_connect_def Let_def split: sum.splits)
    from relay_handshake_Inr [OF h] s named show ?thesis by blast
  qed
  moreover have "\<exists>e. relay_send m r = (Inl e, r)" by (rule relay.sends_nothing)
  ultimately show ?thesis
    using relay_reachable_inv [OF assms] by (auto simp: relay.processor_changes_nothing)
qed

definition sample_relay_codec :: relay_codec where
  "sample_relay_codec = \<lparr>rc_parse = (\<lambda>raw.
       if raw = ''c'' then Some (JObject [(''type'', JString ''challenge''), (''nonce'', JString ''n''), (''expires_in_seconds'', JNumber 30)])
       else if raw = ''r'' then Some (JObject [(''type'', JString ''ready''), (''device_id'', JString ''dev_1'')])
       else Some (JObject [(''type'', JString ''operation_request'')])),
     rc_decode64 = (\<lambda>_. Some (replicate 32 0))\<rparr>"

definition sample_relay_io :: relay_io where
  "sample_relay_io = \<lparr>ri_identity_fault = None, ri_open = Opened, ri_challenge = ReadMessage (WsText ''c''), ri_sign_fault = None,
     ri_proof_sent = True, ri_ready = ReadMessage (WsText ''r'')\<rparr>"

definition sample_relay_identity :: "device_row list \<times> memory_store" where
  "sample_relay_identity = ([\<lparr>dr_device_id = ''dev_1'', dr_public_key = replicate 32 1, dr_fingerprint = [],
       dr_display_name = ''this-device'', dr_created_at = []\<rparr>],
     \<lparr>ms_keys = [(DeviceId 1, replicate 32 1)], ms_poisoned = False\<rparr>)"

lemma sample_relay_connects:
  "\<exists>r'. relay_connect sample_device_crypto sample_forms InMemorySecretStore sample_relay_codec sample_relay_io
     sample_relay_identity (relay_new u) = (Inr (), r')"
  by (simp add: relay_connect_def relay_handshake_def sample_relay_identity_def public_identity_def identity_load_def
      parse_device_row_def sample_forms_def id_from_str_def id_display_def sample_relay_io_def next_text_def utf8_len_def
      check_challenge_def sample_relay_codec_def protocol_field_def check_ready_def identity_sign_def
      InMemorySecretStore_def memory_load_device_key_def strip_prefix_def Let_def)

theorem relay_admits_no_remote_command_witness:
  "snd (run_remote_processor (drive (relay_receive sample_relay_codec)
       [(sample_world True, Some \<lparr>in_read = ReadMessage (WsText ''x''), in_message_id = ''1'', in_heartbeat_sent = True\<rparr>)]
       (relay_new (the (sample_url [])))) sample_daemon) = sample_daemon\<lparr>d_transport := True\<rparr>
   \<and> (\<exists>r' device sig. relay_connect sample_device_crypto sample_forms InMemorySecretStore sample_relay_codec sample_relay_io
        sample_relay_identity (relay_new (the (sample_url []))) = (Inr (), r')
      \<and> rl_socket r' = Some [relay_proof sample_device_crypto device sig])"
proof -
  note r = relay_admits_no_remote_command [OF relay_reachable.initial [where K = sample_device_crypto
        and F = sample_forms and S = InMemorySecretStore and C = sample_relay_codec and u = "the (sample_url [])"]]
  obtain r' where c: "relay_connect sample_device_crypto sample_forms InMemorySecretStore sample_relay_codec sample_relay_io
      sample_relay_identity (relay_new (the (sample_url []))) = (Inr (), r')"
    using sample_relay_connects by blast
  moreover have "\<exists>device sig. rl_socket r' = Some [relay_proof sample_device_crypto device sig]"
    using r c by blast
  ultimately show ?thesis using r by blast
qed

end
