(* ===== verification/Gateway_Bridge.thy ===== *)
theory Gateway_Bridge
  imports Gateway_Daemon Gateway_Config "HOL-Library.AList"
begin

text \<open>
  The client of the local kicad-mcp-pro server, \<^verbatim>\<open>src/crates/core-bridge/src/client.rs\<close> with the message shapes of
  \<^verbatim>\<open>protocol.rs\<close>, and the comparison of its live tool list with the registry,
  \<^verbatim>\<open>src/apps/daemon/src/tool_reconciliation.rs\<close>.

  The HTTP client is the argument \<open>post\<close>, from a request to what comes back: a timeout, another failure, or a reply
  with its session header, status and decoded body. The requests sent are kept in the bridge's state. The daemon
  model takes a whole call as the parameter \<open>w_bridge\<close>; \<open>call_tool\<close> is what stands behind it.
\<close>

section \<open>Messages\<close>

definition FINAL_MCP_PROTOCOL_VERSION :: string where
  "FINAL_MCP_PROTOCOL_VERSION = ''2026-07-28''"

definition LEGACY_MCP_PROTOCOL_VERSION :: string where
  "LEGACY_MCP_PROTOCOL_VERSION = ''2025-11-25''"

datatype protocol_lane = Final2026 | Legacy2025

fun lane_protocol_version :: "protocol_lane \<Rightarrow> string" where
  "lane_protocol_version Final2026 = FINAL_MCP_PROTOCOL_VERSION"
| "lane_protocol_version Legacy2025 = LEGACY_MCP_PROTOCOL_VERSION"

definition uses_initialize :: "protocol_lane \<Rightarrow> bool" where
  "uses_initialize l \<longleftrightarrow> l = Legacy2025"

definition uses_session_ids :: "protocol_lane \<Rightarrow> bool" where
  "uses_session_ids l \<longleftrightarrow> l = Legacy2025"

record json_rpc_request =
  rr_jsonrpc :: string
  rr_id :: string
  rr_method :: string
  rr_params :: json

definition json_rpc_request_new :: "string \<Rightarrow> string \<Rightarrow> json \<Rightarrow> json_rpc_request" where
  "json_rpc_request_new i mth params = \<lparr>rr_jsonrpc = ''2.0'', rr_id = i, rr_method = mth, rr_params = params\<rparr>"

record json_rpc_error_body =
  jre_code :: int
  jre_message :: string

record json_rpc_response =
  jrr_result :: "json option"
  jrr_error :: "json_rpc_error_body option"

record tool_descriptor =
  td_name :: string
  td_description :: "string option"

text \<open>A request as it goes out: the headers that vary, and the body.\<close>

record http_request =
  hq_endpoint :: url
  hq_protocol_version :: string
  hq_method :: "string option"
  hq_name :: "string option"
  hq_session_id :: "string option"
  hq_body :: json_rpc_request

record bridge_reply =
  br_session_id :: "string option"
  br_status :: nat
  br_body :: "string + json_rpc_response"

datatype http_outcome = TimedOut | NoAnswer string | Answer bridge_reply

section \<open>The client\<close>

record core_bridge_config =
  cbc_endpoint :: url
  cbc_timeout_ms :: nat
  cbc_lane :: protocol_lane

definition core_bridge_config_new :: "url \<Rightarrow> core_bridge_config" where
  "core_bridge_config_new endpoint = \<lparr>cbc_endpoint = endpoint, cbc_timeout_ms = 30000, cbc_lane = Final2026\<rparr>"

definition with_protocol_lane :: "protocol_lane \<Rightarrow> core_bridge_config \<Rightarrow> core_bridge_config" where
  "with_protocol_lane l c = c\<lparr>cbc_lane := l\<rparr>"

record core_bridge =
  cb_endpoint :: url
  cb_lane :: protocol_lane
  cb_session_id :: "string option"
  cb_sent :: "http_request list"

text \<open>
  \<open>assert_loopback\<close> reads the host as text. An IP host of a parsed URL prints as an address that parses back to it; a
  domain may still spell an IPv4 address in a URL of a scheme the URL standard does not know, but it holds neither
  brackets nor colons, so it never spells an IPv6 address.
\<close>

definition lower :: "char \<Rightarrow> char" where
  "lower c = (let n = of_char c :: nat in if 65 \<le> n \<and> n \<le> 90 then char_of (n + 32) else c)"

definition parse_octet :: "string \<Rightarrow> nat option" where
  "parse_octet s =
     (if s = [] \<or> length s > 3 \<or> length s > 1 \<and> hd s = CHR ''0'' \<or> \<not> list_all (\<lambda>c. c \<in> set ''0123456789'') s then None
      else let n = foldl (\<lambda>a c. a * 10 + (of_char c - 48)) 0 s in if n \<le> 255 then Some n else None)"

definition ipv4_text_is_loopback :: "string \<Rightarrow> bool" where
  "ipv4_text_is_loopback s =
     (case map parse_octet (split_at (CHR ''.'') s) of
        [Some a, Some _, Some _, Some _] \<Rightarrow> a = 127
      | _ \<Rightarrow> False)"

definition host_is_loopback :: "url \<Rightarrow> bool" where
  "host_is_loopback u =
     (case url_host u of
        None \<Rightarrow> False
      | Some (Domain d) \<Rightarrow> map lower d = ''localhost'' \<or> ipv4_text_is_loopback d
      | Some (Ipv4 a) \<Rightarrow> ipv4_is_loopback a
      | Some (Ipv6 a) \<Rightarrow> ipv6_is_loopback a)"

definition assert_loopback :: "(url \<Rightarrow> string) \<Rightarrow> url \<Rightarrow> core_bridge_error + unit" where
  "assert_loopback show_url u = (if host_is_loopback u then Inr () else Inl (EndpointNotAllowed (show_url u)))"

text \<open>\<open>built\<close> is the fault of building the HTTP client.\<close>

definition core_bridge_new ::
  "(url \<Rightarrow> string) \<Rightarrow> string option \<Rightarrow> core_bridge_config \<Rightarrow> core_bridge_error + core_bridge" where
  "core_bridge_new show_url built cfg =
     rbind (assert_loopback show_url (cbc_endpoint cfg)) (\<lambda>_.
       case built of
         Some e \<Rightarrow> Inl (ProtocolError (''failed to build http client: '' @ e))
       | None \<Rightarrow> Inr \<lparr>cb_endpoint = cbc_endpoint cfg, cb_lane = cbc_lane cfg, cb_session_id = None, cb_sent = []\<rparr>)"

definition bridge_meta :: "string \<Rightarrow> core_bridge \<Rightarrow> json" where
  "bridge_meta version b =
     JObject [(''io.modelcontextprotocol/protocolVersion'', JString (lane_protocol_version (cb_lane b))),
       (''io.modelcontextprotocol/clientInfo'',
          JObject [(''name'', JString ''kicad-mcp-pro-gateway''), (''version'', JString version)]),
       (''io.modelcontextprotocol/clientCapabilities'', JObject [])]"

definition prepare_params :: "string \<Rightarrow> core_bridge \<Rightarrow> json \<Rightarrow> core_bridge_error + json" where
  "prepare_params version b params =
     (if cb_lane b \<noteq> Final2026 then Inr params
      else
        (case params of
           JObject entries \<Rightarrow>
             if map_of entries ''_meta'' \<noteq> None
             then Inl (ProtocolError ''final MCP request metadata is owned by the core bridge'')
             else Inr (JObject (AList.update ''_meta'' (bridge_meta version b) entries))
         | _ \<Rightarrow> Inl (ProtocolError ''final MCP request params must be a JSON object'')))"

definition bridge_request :: "core_bridge \<Rightarrow> string \<Rightarrow> json \<Rightarrow> string \<Rightarrow> string option \<Rightarrow> http_request" where
  "bridge_request b mth params corr name =
     \<lparr>hq_endpoint = cb_endpoint b,
      hq_protocol_version = lane_protocol_version (cb_lane b),
      hq_method = (if cb_lane b = Final2026 then Some mth else None),
      hq_name = (if cb_lane b = Final2026 then name else None),
      hq_session_id = (if uses_session_ids (cb_lane b) then cb_session_id b else None),
      hq_body = json_rpc_request_new corr mth params\<rparr>"

definition response_result :: "json_rpc_response \<Rightarrow> core_bridge_error + json" where
  "response_result body =
     (case jrr_error body of
        Some err \<Rightarrow> Inl (ToolError (Some (jre_code err)) (jre_message err))
      | None \<Rightarrow> ok_or (ProtocolError ''response had neither result nor error'') (jrr_result body))"

definition bridge_send ::
  "(nat \<Rightarrow> string) \<Rightarrow> string \<Rightarrow> (http_request \<Rightarrow> http_outcome) \<Rightarrow> string \<Rightarrow> json \<Rightarrow> string \<Rightarrow> string option \<Rightarrow> core_bridge
   \<Rightarrow> (core_bridge_error + json) \<times> core_bridge" where
  "bridge_send show_status version post mth params corr name b =
     (case prepare_params version b params of
        Inl e \<Rightarrow> (Inl e, b)
      | Inr params \<Rightarrow>
          let rq = bridge_request b mth params corr name; b1 = b\<lparr>cb_sent := cb_sent b @ [rq]\<rparr> in
          (case post rq of
             TimedOut \<Rightarrow> (Inl Timeout, b1)
           | NoAnswer m \<Rightarrow> (Inl (Unreachable m), b1)
           | Answer r \<Rightarrow>
               let b2 = (if uses_session_ids (cb_lane b1)
                         then (case br_session_id r of None \<Rightarrow> b1 | Some v \<Rightarrow> b1\<lparr>cb_session_id := Some v\<rparr>) else b1) in
               (if \<not> (200 \<le> br_status r \<and> br_status r < 300)
                then (Inl (ProtocolError (''http status '' @ show_status (br_status r))), b2)
                else
                  (rbind (map_err (\<lambda>e. ProtocolError (''response body was not valid JSON-RPC: '' @ e)) (br_body r))
                     response_result, b2))))"

definition bridge_initialize where
  "bridge_initialize show_status version post corr b =
     (if \<not> uses_initialize (cb_lane b)
      then (Inl (ProtocolError ''initialize is only valid for the explicit MCP 2025-11-25 legacy lane''), b)
      else
        bridge_send show_status version post ''initialize''
          (JObject [(''protocolVersion'', JString (lane_protocol_version (cb_lane b))), (''capabilities'', JObject []),
             (''clientInfo'', JObject [(''name'', JString ''kicad-mcp-pro-gateway''), (''version'', JString version)])])
          corr None b)"

definition bridge_connect where
  "bridge_connect show_status version post corr b =
     (case cb_lane b of
        Final2026 \<Rightarrow> bridge_send show_status version post ''server/discover'' (JObject []) corr None b
      | Legacy2025 \<Rightarrow> bridge_initialize show_status version post corr b)"

text \<open>\<open>serde\<close> reads a struct from an object, where unknown fields are ignored and the description may be missing, or
  from an array of its fields in order.\<close>

definition decode_description :: "json option \<Rightarrow> string option option" where
  "decode_description j =
     (case j of
        None \<Rightarrow> Some None
      | Some JNull \<Rightarrow> Some None
      | Some (JString d) \<Rightarrow> Some (Some d)
      | _ \<Rightarrow> None)"

fun decode_tool :: "json \<Rightarrow> string + tool_descriptor" where
  "decode_tool (JObject entries) =
     (case (map_of entries ''name'', decode_description (map_of entries ''description'')) of
        (Some (JString n), Some d) \<Rightarrow> Inr \<lparr>td_name = n, td_description = d\<rparr>
      | _ \<Rightarrow> Inl ''invalid tool'')"
| "decode_tool (JArray (JString n # rest)) =
     (case (rest, decode_description (case rest of [] \<Rightarrow> None | j # _ \<Rightarrow> Some j)) of
        ([], Some d) \<Rightarrow> Inr \<lparr>td_name = n, td_description = d\<rparr>
      | ([_], Some d) \<Rightarrow> Inr \<lparr>td_name = n, td_description = d\<rparr>
      | _ \<Rightarrow> Inl ''invalid tool'')"
| "decode_tool _ = Inl ''invalid tool''"

definition decode_tools :: "json \<Rightarrow> string + tool_descriptor list" where
  "decode_tools j = (case j of JArray items \<Rightarrow> collect_results decode_tool items | _ \<Rightarrow> Inl ''invalid tool list'')"

definition bridge_list_tools where
  "bridge_list_tools show_status version post corr b =
     (case bridge_send show_status version post ''tools/list'' (JObject []) corr None b of
        (res, b1) \<Rightarrow>
          (rbind res (\<lambda>result.
             let tools = (case result of
                            JObject entries \<Rightarrow> (case map_of entries ''tools'' of Some t \<Rightarrow> t | None \<Rightarrow> JArray [])
                          | _ \<Rightarrow> JArray []) in
             map_err (\<lambda>e. ProtocolError (''malformed tools/list result: '' @ e)) (decode_tools tools)), b1))"

definition bridge_call_tool where
  "bridge_call_tool show_status version post name arguments corr b =
     bridge_send show_status version post ''tools/call'' (JObject [(''name'', JString name), (''arguments'', arguments)])
       corr (Some name) b"

section \<open>Live tools against the registry\<close>

record live_tool_reconciliation =
  ltr_registry_coverage :: tool_registry_coverage
  ltr_live_not_in_snapshot :: "string list"
  ltr_snapshot_not_live :: "string list"

definition reconcile_live_tool_registry where
  "reconcile_live_tool_registry show_status version post_connect post_list reg sn b =
     (case bridge_connect show_status version post_connect ''registry-reconcile-connect'' b of
        (Inl e, b1) \<Rightarrow> (Inl e, b1)
      | (Inr _, b1) \<Rightarrow>
          (case bridge_list_tools show_status version post_list ''registry-reconcile-list'' b1 of
             (Inl e, b2) \<Rightarrow> (Inl e, b2)
           | (Inr tools, b2) \<Rightarrow>
               let live = fset_of_list (map td_name tools); snap = fset_of_list (sn_tools sn) in
               (Inr \<lparr>ltr_registry_coverage = coverage_against_tool_names reg (sorted_list_of_fset live),
                     ltr_live_not_in_snapshot = sorted_list_of_fset (live |-| snap),
                     ltr_snapshot_not_live = sorted_list_of_fset (snap |-| live)\<rparr>, b2)))"

section \<open>Lemmas\<close>

inductive bridge_reachable :: "core_bridge \<Rightarrow> core_bridge \<Rightarrow> bool" for b0 where
  start: "bridge_reachable b0 b0"
| connected: "bridge_reachable b0 b \<Longrightarrow> bridge_reachable b0 (snd (bridge_connect show_status version post corr b))"
| initialized: "bridge_reachable b0 b \<Longrightarrow> bridge_reachable b0 (snd (bridge_initialize show_status version post corr b))"
| listed: "bridge_reachable b0 b \<Longrightarrow> bridge_reachable b0 (snd (bridge_list_tools show_status version post corr b))"
| called: "bridge_reachable b0 b \<Longrightarrow>
     bridge_reachable b0 (snd (bridge_call_tool show_status version post name arguments corr b))"

text \<open>What every request of a lane looks like.\<close>

definition final_request :: "url \<Rightarrow> http_request \<Rightarrow> bool" where
  "final_request u r \<longleftrightarrow> hq_endpoint r = u \<and> hq_protocol_version r = FINAL_MCP_PROTOCOL_VERSION
     \<and> hq_session_id r = None \<and> hq_method r = Some (rr_method (hq_body r)) \<and> rr_method (hq_body r) \<noteq> ''initialize''
     \<and> (\<exists>entries info. rr_params (hq_body r) = JObject entries \<and> map_of entries ''_meta'' = Some (JObject info)
          \<and> map_of info ''io.modelcontextprotocol/protocolVersion'' = Some (JString FINAL_MCP_PROTOCOL_VERSION))"

definition legacy_request :: "url \<Rightarrow> http_request \<Rightarrow> bool" where
  "legacy_request u r \<longleftrightarrow> hq_endpoint r = u \<and> hq_protocol_version r = LEGACY_MCP_PROTOCOL_VERSION
     \<and> hq_method r = None \<and> hq_name r = None"

definition bridge_inv :: "url \<Rightarrow> protocol_lane \<Rightarrow> core_bridge \<Rightarrow> bool" where
  "bridge_inv u l b \<longleftrightarrow> cb_endpoint b = u \<and> cb_lane b = l \<and>
     (case l of
        Final2026 \<Rightarrow> cb_session_id b = None \<and> (\<forall>r \<in> set (cb_sent b). final_request u r)
      | Legacy2025 \<Rightarrow> (\<forall>r \<in> set (cb_sent b). legacy_request u r))"

lemma bridge_send_cases:
  obtains (refused) e where "bridge_send show_status version post mth params corr name b = (Inl e, b)"
  | (sent) ps res session where "prepare_params version b params = Inr ps"
      "bridge_send show_status version post mth params corr name b
        = (res, b\<lparr>cb_sent := cb_sent b @ [bridge_request b mth ps corr name], cb_session_id := session\<rparr>)"
      "cb_lane b = Final2026 \<Longrightarrow> session = cb_session_id b"
proof (cases "prepare_params version b params")
  case (Inl e)
  then show thesis by (intro refused) (simp add: bridge_send_def)
next
  case (Inr ps)
  have "\<exists>res session. bridge_send show_status version post mth params corr name b
        = (res, b\<lparr>cb_sent := cb_sent b @ [bridge_request b mth ps corr name], cb_session_id := session\<rparr>)
      \<and> (cb_lane b = Final2026 \<longrightarrow> session = cb_session_id b)"
  proof (cases "\<exists>r v. post (bridge_request b mth ps corr name) = Answer r \<and> uses_session_ids (cb_lane b) \<and> br_session_id r = Some v")
    case True
    then obtain r v where "post (bridge_request b mth ps corr name) = Answer r" "uses_session_ids (cb_lane b)" "br_session_id r = Some v"
      by blast
    then show ?thesis using Inr by (auto simp: bridge_send_def Let_def uses_session_ids_def)
  next
    case False
    then show ?thesis using Inr
      by (intro exI [of _ "fst (bridge_send show_status version post mth params corr name b)"] exI [of _ "cb_session_id b"])
        (auto simp: bridge_send_def Let_def split: http_outcome.splits option.splits)
  qed
  then show thesis using Inr sent by blast
qed

lemma final_params:
  assumes "prepare_params version b params = Inr ps" and "cb_lane b = Final2026"
  shows "\<exists>entries info. ps = JObject entries \<and> map_of entries ''_meta'' = Some (JObject info)
    \<and> map_of info ''io.modelcontextprotocol/protocolVersion'' = Some (JString FINAL_MCP_PROTOCOL_VERSION)"
  using assms by (auto simp: prepare_params_def update_conv' bridge_meta_def split: json.splits if_splits)

lemma bridge_send_inv:
  assumes "bridge_inv u l b" and "l = Final2026 \<Longrightarrow> mth \<noteq> ''initialize''"
  shows "bridge_inv u l (snd (bridge_send show_status version post mth params corr name b))"
proof (cases rule: bridge_send_cases [of show_status version post mth params corr name b])
  case (refused e)
  then show ?thesis using assms(1) by simp
next
  case (sent ps res session)
  show ?thesis
  proof (cases l)
    case Final2026
    then have "final_request u (bridge_request b mth ps corr name)"
      using assms final_params [OF sent(1)]
      by (simp add: final_request_def bridge_request_def bridge_inv_def json_rpc_request_new_def uses_session_ids_def)
    then show ?thesis using sent(2,3) assms(1) Final2026 by (simp add: bridge_inv_def)
  next
    case Legacy2025
    then have "legacy_request u (bridge_request b mth ps corr name)"
      using assms(1) by (simp add: legacy_request_def bridge_request_def bridge_inv_def)
    then show ?thesis using sent(2) assms(1) Legacy2025 by (simp add: bridge_inv_def)
  qed
qed

lemma bridge_initialize_inv:
  assumes "bridge_inv u l b"
  shows "bridge_inv u l (snd (bridge_initialize show_status version post corr b))"
proof (cases "cb_lane b")
  case Final2026
  then show ?thesis using assms by (simp add: bridge_initialize_def uses_initialize_def)
next
  case Legacy2025
  then have "l \<noteq> Final2026" using assms by (auto simp: bridge_inv_def)
  then show ?thesis using bridge_send_inv [OF assms] Legacy2025 by (simp add: bridge_initialize_def uses_initialize_def)
qed

lemma bridge_reachable_inv:
  assumes "bridge_reachable b0 b" and "bridge_inv u l b0"
  shows "bridge_inv u l b"
  using assms
proof (induction rule: bridge_reachable.induct)
  case (connected b show_status version post corr)
  then show ?case
    using bridge_initialize_inv bridge_send_inv by (cases "cb_lane b") (simp_all add: bridge_connect_def)
next
  case (initialized b show_status version post corr)
  then show ?case by (simp add: bridge_initialize_inv)
next
  case (listed b show_status version post corr)
  then show ?case using bridge_send_inv [of u l b "''tools/list''"]
    by (simp add: bridge_list_tools_def split_beta)
next
  case (called b show_status version post name arguments corr)
  then show ?case using bridge_send_inv [of u l b "''tools/call''"] by (simp add: bridge_call_tool_def)
qed simp

section \<open>Properties\<close>


definition sample_endpoint :: url where
  "sample_endpoint = \<lparr>url_scheme = ''http'', url_username = [], url_password = None, url_host = Some (Domain ''LocalHost''),
     url_port = Some 3334, url_path = ''/mcp'', url_query = None, url_fragment = None\<rparr>"


end
