(* ===== verification/Gateway_Startup.thy ===== *)
theory Gateway_Startup
  imports Gateway_Relay Gateway_Bridge Gateway_Checkpoints Gateway_Replay
begin

text \<open>
  The start and the life of the daemon process, \<^verbatim>\<open>src/apps/daemon/src/lib.rs\<close>, with the opening of the storage
  (\<^verbatim>\<open>src/crates/storage/src/connection.rs\<close>), the choice of the secret store
  (\<^verbatim>\<open>src/apps/daemon/src/identity_backend.rs\<close>) and the rest of the daemon state
  (\<^verbatim>\<open>src/apps/daemon/src/state.rs\<close>).

  The database is an opaque value with the tables it holds as a function of it; the faults of the file system and the
  database, the platform, the parsers and the embedded assets are fields of \<open>startup_env\<close>. The errors that
  \<open>anyhow\<close> carries are kept as the values they print. Logging is left out. The supervision of the outbound transport
  is a function of its rounds: what each connect, receive loop, disconnect and sleep met.
\<close>

section \<open>Storage and secret store\<close>

record storage_faults =
  so_dir :: "string option"
  so_lock_file :: "string option"
  so_locked_elsewhere :: bool
  so_connect :: "string option"

definition storage_open ::
  "storage_faults \<Rightarrow> ('db \<Rightarrow> string + int) \<Rightarrow> ('db \<Rightarrow> string + int) \<Rightarrow> ('db \<Rightarrow> string + 'db) \<Rightarrow> 'db \<Rightarrow> storage_error + 'db" where
  "storage_open so probe read to_latest db =
     (case so_dir so of
        Some e \<Rightarrow> Inl (StorageIo e)
      | None \<Rightarrow>
          (case so_lock_file so of
             Some e \<Rightarrow> Inl (StorageIo e)
           | None \<Rightarrow>
               if so_locked_elsewhere so then Inl AnotherInstanceRunning
               else
                 (case so_connect so of
                    Some e \<Rightarrow> Inl (DbUnreadable e)
                  | None \<Rightarrow> run_migrations probe read to_latest db)))"

datatype platform = Windows | Linux | MacOS | OtherPlatform

datatype identity_backend = DpapiBackend | NativeKeyringBackend

fun build_identity_store :: "platform \<Rightarrow> daemon_error + identity_backend" where
  "build_identity_store Windows = Inr DpapiBackend"
| "build_identity_store Linux = Inr NativeKeyringBackend"
| "build_identity_store MacOS = Inr NativeKeyringBackend"
| "build_identity_store OtherPlatform = Inl SecretStoreUnavailable"

section \<open>The process\<close>

definition CORE_HEALTH_PROBE_TIMEOUT :: nat where
  "CORE_HEALTH_PROBE_TIMEOUT = 500"

record persisted =
  ps_workspaces :: workspace_table
  ps_sessions :: session_table
  ps_grants :: "grant_row list"
  ps_audit :: audit_table
  ps_checkpoints :: checkpoint_state

record gateway_process =
  gp_instance_id :: string
  gp_identity :: identity_backend
  gp_daemon :: daemon
  gp_registry :: tool_registry
  gp_ttl :: authorization_ttl_config
  gp_checkpoint_store :: checkpoint_store
  gp_checkpoints :: checkpoint_state
  gp_core_bridge :: core_bridge
  gp_core_health_probe_config :: core_bridge_config
  gp_shutdown :: bool

definition shutdown_new :: bool where
  "shutdown_new = False"

definition shutdown_request :: "gateway_process \<Rightarrow> gateway_process" where
  "shutdown_request p = p\<lparr>gp_shutdown := True\<rparr>"

datatype startup_error =
    StartupIo string
  | StartupStorage storage_error
  | StartupIdentity daemon_error
  | StartupMigration grant_error
  | StartupRegistry tool_registry_error
  | StartupBridge core_bridge_error
  | AuditUnreadable audit_error
  | CheckpointsUnreadable checkpoint_error
  | SnapshotsUnusable nat
  | RelayUrlMissing

record 'db startup_env =
  se_data_dir_fault :: "string option"
  se_storage :: storage_faults
  se_db :: 'db
  se_probe :: "'db \<Rightarrow> string + int"
  se_read :: "'db \<Rightarrow> string + int"
  se_to_latest :: "'db \<Rightarrow> string + 'db"
  se_tables :: "'db \<Rightarrow> persisted"
  se_platform :: platform
  se_put :: "ulid \<Rightarrow> string"
  se_stamp :: "instant \<Rightarrow> string"
  se_sessions_fault :: "string option"
  se_grant_load_fault :: "session_id \<Rightarrow> string option"
  se_grant_save_fault :: "session_id \<Rightarrow> string option"
  se_decode_registry :: "string \<Rightarrow> string + tool_registry_file"
  se_snapshot :: tool_catalog_snapshot
  se_registry_asset :: string
  se_show_url :: "url \<Rightarrow> string"
  se_http_fault :: "string option"
  se_cwd :: path
  se_instance_id :: string
  se_audit_fault :: "string option"
  se_checkpoint_fault :: "string option"

definition build_state_from_parts ::
  "'db startup_env \<Rightarrow> companion_config \<Rightarrow> identity_backend \<Rightarrow> persisted \<Rightarrow> (startup_error + gateway_process) \<times> persisted" where
  "build_state_from_parts E cfg backend ps =
     (case migrate_legacy_sessions (se_put E) (se_sessions_fault E) (se_grant_load_fault E) (se_grant_save_fault E)
             (ps_sessions ps) (ps_grants ps) of
        (Inl e, grants) \<Rightarrow> (Inl (StartupMigration e), ps\<lparr>ps_grants := grants\<rparr>)
      | (Inr report, grants) \<Rightarrow>
          (rbind (map_err StartupRegistry (try_embedded (se_decode_registry E) (se_snapshot E) (se_registry_asset E))) (\<lambda>reg.
           rbind (map_err StartupBridge
              (core_bridge_new (se_show_url E) (se_http_fault E) (core_bridge_config_new (cfg_core_bridge_endpoint cfg)))) (\<lambda>bridge.
           Inr \<lparr>gp_instance_id = se_instance_id E, gp_identity = backend,
                gp_daemon = \<lparr>d_workspaces = ps_workspaces ps, d_sessions = ps_sessions ps, d_grants = grants,
                  d_audit = ps_audit ps, d_pending = [], d_transport = False, d_transport_state = TDisconnected,
                  d_calls = [], d_sent = []\<rparr>,
                gp_registry = reg, gp_ttl = cfg_authorization_ttl cfg,
                gp_checkpoint_store = \<lparr>cs_cwd = se_cwd E,
                  cs_checkpoints_root = path_join (cfg_data_dir cfg) [Normal_c ''checkpoints''], cs_put = se_put E\<rparr>,
                gp_checkpoints = ps_checkpoints ps, gp_core_bridge = bridge,
                gp_core_health_probe_config = (core_bridge_config_new (cfg_core_bridge_endpoint cfg))
                  \<lparr>cbc_timeout_ms := CORE_HEALTH_PROBE_TIMEOUT\<rparr>,
                gp_shutdown = shutdown_new\<rparr>)),
           ps\<lparr>ps_grants := grants\<rparr>))"

text \<open>The second result is what the start left in the tables, absent when it never reached them.\<close>

definition build_state ::
  "'db startup_env \<Rightarrow> companion_config \<Rightarrow> (startup_error + gateway_process) \<times> persisted option" where
  "build_state E cfg =
     (case se_data_dir_fault E of
        Some e \<Rightarrow> (Inl (StartupIo e), None)
      | None \<Rightarrow>
          (case storage_open (se_storage E) (se_probe E) (se_read E) (se_to_latest E) (se_db E) of
             Inl e \<Rightarrow> (Inl (StartupStorage e), None)
           | Inr db \<Rightarrow>
               (case build_identity_store (se_platform E) of
                  Inl e \<Rightarrow> (Inl (StartupIdentity e), Some (se_tables E db))
                | Inr backend \<Rightarrow>
                    (case build_state_from_parts E cfg backend (se_tables E db) of (res, ps) \<Rightarrow> (res, Some ps)))))"

section \<open>The recovery gate\<close>

record unusable_snapshot =
  us_checkpoint_id :: checkpoint_id
  us_workspace_id :: workspace_id
  us_reason :: checkpoint_error

record recovery_integrity =
  ri_incomplete_operations :: nat
  ri_unusable_snapshots :: "unusable_snapshot list"

definition check_recovery_integrity ::
  "'db startup_env \<Rightarrow> gateway_process \<Rightarrow> startup_error + recovery_integrity" where
  "check_recovery_integrity E p =
     rbind (map_err AuditUnreadable (list_incomplete (se_audit_fault E) (d_audit (gp_daemon p)))) (\<lambda>incomplete.
     rbind (map_err CheckpointsUnreadable
        (unusable_snapshots (gp_checkpoint_store p) (se_stamp E) (se_checkpoint_fault E) (gp_checkpoints p))) (\<lambda>unusable.
     Inr \<lparr>ri_incomplete_operations = length incomplete,
          ri_unusable_snapshots = map (\<lambda>(c, w, r). \<lparr>us_checkpoint_id = c, us_workspace_id = w, us_reason = r\<rparr>) unusable\<rparr>))"

datatype outbound = MockOutbound mock_transport | RelayOutbound relay_transport

fun transport_for_mode :: "transport_mode \<Rightarrow> outbound option" where
  "transport_for_mode TM_Disabled = None"
| "transport_for_mode TM_Mock = Some (MockOutbound mock_transport_default)"
| "transport_for_mode TM_Relay = None"

definition outbound_transport :: "companion_config \<Rightarrow> startup_error + outbound option" where
  "outbound_transport cfg =
     (case cfg_transport_mode cfg of
        TM_Relay \<Rightarrow> rbind (ok_or RelayUrlMissing (cfg_relay_url cfg)) (\<lambda>u. Inr (Some (RelayOutbound (relay_new u))))
      | other \<Rightarrow> Inr (transport_for_mode other))"

text \<open>\<open>run\<close> up to the point where it serves.\<close>

definition run_start ::
  "'db startup_env \<Rightarrow> companion_config \<Rightarrow> startup_error + gateway_process \<times> recovery_integrity \<times> outbound option" where
  "run_start E cfg =
     rbind (fst (build_state E cfg)) (\<lambda>p.
     rbind (check_recovery_integrity E p) (\<lambda>integrity.
     if ri_unusable_snapshots integrity \<noteq> [] then Inl (SnapshotsUnusable (length (ri_unusable_snapshots integrity)))
     else rbind (outbound_transport cfg) (\<lambda>t. Inr (p, integrity, t))))"

section \<open>Supervision of the outbound transport\<close>

text \<open>
  A round is one turn of the loop: \<open>rd_connect\<close> is absent when the shutdown signal wins, \<open>rd_turns\<close> is what the receive
  loop met, \<open>rd_shutdown\<close> whether a shutdown has been requested when that loop has ended, \<open>rd_woken\<close> whether the signal
  ends the sleep.
\<close>

record round =
  rd_connect :: "(transport_error + unit) option"
  rd_turns :: "(world \<times> turn) list"
  rd_shutdown :: bool
  rd_woken :: bool

definition saturating_succ :: "u32 \<Rightarrow> u32" where
  "saturating_succ n = (if n = - 1 then n else n + 1)"

datatype lifecycle_status = StillRunning | Finished

definition clear_transport :: "daemon \<Rightarrow> daemon" where
  "clear_transport d = d\<lparr>d_transport := False\<rparr>"

fun run_transport_lifecycle ::
  "(u32 \<Rightarrow> u64) \<Rightarrow> round list \<Rightarrow> u32 \<Rightarrow> millis list \<Rightarrow> daemon \<Rightarrow> lifecycle_status \<times> millis list \<times> daemon" where
  "run_transport_lifecycle hash [] attempt slept d = (StillRunning, slept, d)"
| "run_transport_lifecycle hash (rd # rds) attempt slept d =
     (let rest = (\<lambda>attempt d.
            let slept = slept @ [jittered_delay hash (delay_for_attempt backoff_default attempt) attempt] in
            if rd_woken rd then (Finished, slept, clear_transport d)
            else run_transport_lifecycle hash rds (saturating_succ attempt) slept d) in
      case rd_connect rd of
        None \<Rightarrow> (Finished, slept, clear_transport d)
      | Some (Inl _) \<Rightarrow> rest attempt (record_transport_event PipeConnectFailed d)
      | Some (Inr _) \<Rightarrow>
          (case run_remote_processor (rd_turns rd) (record_transport_event PipeConnected d) of
             (None, d1) \<Rightarrow> (StillRunning, slept, d1)
           | (Some _, d1) \<Rightarrow>
               let d2 = record_transport_event PipeDisconnected (clear_transport d1) in
               if rd_shutdown rd then (Finished, slept, clear_transport d2)
               else rest 0 (record_transport_event PipeReconnecting d2)))"


section \<open>Lemmas\<close>

text \<open>The identifiers drawn by the handlers of a run are fresh when they are drawn.\<close>

fun fresh_rounds :: "round list \<Rightarrow> daemon \<Rightarrow> bool" where
  "fresh_rounds [] d \<longleftrightarrow> True"
| "fresh_rounds (rd # rds) d \<longleftrightarrow>
     (case rd_connect rd of
        None \<Rightarrow> True
      | Some (Inl _) \<Rightarrow> fresh_rounds rds (record_transport_event PipeConnectFailed d)
      | Some (Inr _) \<Rightarrow>
          let d0 = record_transport_event PipeConnected d in
          fresh_run (rd_turns rd) (d0\<lparr>d_transport := True\<rparr>)
          \<and> fresh_rounds rds (record_transport_event PipeReconnecting (record_transport_event PipeDisconnected
               (clear_transport (snd (run_remote_processor (rd_turns rd) d0))))))"

definition no_new_authority :: "daemon \<Rightarrow> daemon \<Rightarrow> bool" where
  "no_new_authority d d' \<longleftrightarrow>
     (\<forall>w rq g t. fst (resolve_grant w d' rq) = Some g \<and> grant_is_usable_at g t \<longrightarrow> fst (resolve_grant w d rq) = Some g)
     \<and> (\<forall>r \<in> set (d_grants d'). r \<notin> set (d_grants d) \<longrightarrow>
          gr_status (rg_grant r) = PendingApproval \<and> gr_approved_at (rg_grant r) = None)"

lemma no_new_authority_trans: "no_new_authority a b \<Longrightarrow> no_new_authority b c \<Longrightarrow> no_new_authority a c"
  unfolding no_new_authority_def by blast

lemma resolve_grant_pipe [simp]:
  "resolve_grant w (record_transport_event e d) rq = resolve_grant w d rq"
  "resolve_grant w (clear_transport d) rq = resolve_grant w d rq"
  "resolve_grant w (d\<lparr>d_transport := b\<rparr>) rq = resolve_grant w d rq"
  by (simp_all add: resolve_grant_def record_transport_event_def clear_transport_def)

lemma pipe_grants [simp]: "d_grants (record_transport_event e d) = d_grants d" "d_grants (clear_transport d) = d_grants d"
  by (simp_all add: record_transport_event_def clear_transport_def)

lemma no_new_authority_pipe [simp]:
  "no_new_authority a (record_transport_event e d) \<longleftrightarrow> no_new_authority a d"
  "no_new_authority a (clear_transport d) \<longleftrightarrow> no_new_authority a d"
  "no_new_authority (record_transport_event e d) b \<longleftrightarrow> no_new_authority d b"
  "no_new_authority d d"
  by (simp_all add: no_new_authority_def)

lemma processor_no_new_authority:
  assumes "fresh_run turns (d\<lparr>d_transport := True\<rparr>)"
  shows "no_new_authority d (snd (run_remote_processor turns d))"
  using loop_creates_no_usable_authority [OF assms] by (simp add: no_new_authority_def run_remote_processor_def)

lemma lifecycle_no_new_authority:
  assumes "fresh_rounds rds d"
  shows "no_new_authority d (snd (snd (run_transport_lifecycle hash rds attempt slept d)))"
  using assms
proof (induction rds arbitrary: attempt slept d)
  case (Cons rd rds)
  show ?case
  proof (cases "rd_connect rd")
    case (Some res)
    show ?thesis
    proof (cases res)
      case (Inl e)
      with Some Cons.prems Cons.IH [of "record_transport_event PipeConnectFailed d"] show ?thesis by (simp add: Let_def)
    next
      case (Inr u)
      let ?d0 = "record_transport_event PipeConnected d"
      let ?d1 = "snd (run_remote_processor (rd_turns rd) ?d0)"
      let ?d2 = "record_transport_event PipeReconnecting (record_transport_event PipeDisconnected (clear_transport ?d1))"
      have f: "fresh_run (rd_turns rd) (?d0\<lparr>d_transport := True\<rparr>)" "fresh_rounds rds ?d2"
        using Cons.prems Some Inr by (simp_all add: Let_def)
      have one: "no_new_authority d ?d1" using processor_no_new_authority [OF f(1)] by simp
      have more: "no_new_authority d (snd (snd (run_transport_lifecycle hash rds a sl ?d2)))" for a sl
        using no_new_authority_trans [OF one, of "snd (snd (run_transport_lifecycle hash rds a sl ?d2))"]
          Cons.IH [OF f(2), of a sl] by (simp add: no_new_authority_def)
      show ?thesis
        using Some Inr one more
        by (cases "run_remote_processor (rd_turns rd) ?d0"; cases "fst (run_remote_processor (rd_turns rd) ?d0)")
          (simp_all add: Let_def)
    qed
  qed simp
qed simp

lemma jittered_default_bound: "jittered_delay hash (delay_for_attempt backoff_default a) a \<le> 36000"
  using jitter_at_most_fifth [of hash "delay_for_attempt backoff_default a" a] delay_at_most_max [of backoff_default a]
  by (simp add: backoff_default_def)

lemma lifecycle_ends_clean:
  assumes "run_transport_lifecycle hash rds attempt slept d = (status, slept', d')"
  shows "(status = Finished \<longrightarrow> \<not> d_transport d') \<and> (\<exists>ws. slept' = slept @ ws \<and> list_all (\<lambda>x. x \<le> 36000) ws)"
  using assms
proof (induction rds arbitrary: attempt slept d)
  case (Cons rd rds)
  let ?rest = "\<lambda>a d. let sl = slept @ [jittered_delay hash (delay_for_attempt backoff_default a) a] in
      if rd_woken rd then (Finished, sl, clear_transport d) else run_transport_lifecycle hash rds (saturating_succ a) sl d"
  have rest: "(status = Finished \<longrightarrow> \<not> d_transport d') \<and> (\<exists>ws. slept' = slept @ ws \<and> list_all (\<lambda>x. x \<le> 36000) ws)"
    if "?rest a d1 = (status, slept', d')" for a d1
    using that Cons.IH jittered_default_bound [of hash a]
    by (cases "rd_woken rd") (fastforce simp: Let_def clear_transport_def)+
  have none: "\<exists>ws. slept = slept @ ws \<and> list_all (\<lambda>x. x \<le> 36000) ws" by simp
  from Cons.prems show ?case
    using rest [of attempt "record_transport_event PipeConnectFailed d"]
      rest [of 0 "record_transport_event PipeReconnecting (record_transport_event PipeDisconnected
        (clear_transport (snd (run_remote_processor (rd_turns rd) (record_transport_event PipeConnected d)))))"]
    by (cases "run_remote_processor (rd_turns rd) (record_transport_event PipeConnected d)")
      (auto simp: Let_def clear_transport_def split: option.split_asm sum.split_asm if_split_asm)
qed simp

text \<open>What a daemon keeps when only its connectivity changes.\<close>

definition same_but_pipe :: "daemon \<Rightarrow> daemon \<Rightarrow> bool" where
  "same_but_pipe d d' \<longleftrightarrow> d' = d\<lparr>d_transport := d_transport d', d_transport_state := d_transport_state d'\<rparr>"

lemma same_but_pipe_simps [simp]:
  "same_but_pipe d d" "same_but_pipe d (record_transport_event e b) \<longleftrightarrow> same_but_pipe d b"
  "same_but_pipe d (clear_transport b) \<longleftrightarrow> same_but_pipe d b"
  "same_but_pipe d (b\<lparr>d_transport := x\<rparr>) \<longleftrightarrow> same_but_pipe d b"
  "same_but_pipe (record_transport_event e d) b \<longleftrightarrow> same_but_pipe d b"
  "same_but_pipe (clear_transport d) b \<longleftrightarrow> same_but_pipe d b"
  "same_but_pipe (d\<lparr>d_transport := x\<rparr>) b \<longleftrightarrow> same_but_pipe d b"
  by (cases d; cases b; auto simp: same_but_pipe_def record_transport_event_def clear_transport_def)+

lemma relay_lifecycle_same_but_pipe:
  assumes "\<forall>rd \<in> set rds. \<exists>C ins r. rd_turns rd = drive (relay_receive C) ins r"
  shows "same_but_pipe d (snd (snd (run_transport_lifecycle hash rds attempt slept d)))"
  using assms
proof (induction rds arbitrary: attempt slept d)
  case (Cons rd rds)
  obtain C ins r where turns: "rd_turns rd = drive (relay_receive C) ins r" using Cons.prems by auto
  let ?d0 = "record_transport_event PipeConnected d"
  have one: "snd (run_remote_processor (rd_turns rd) ?d0) = ?d0\<lparr>d_transport := True\<rparr>"
    unfolding turns by (rule relay.processor_changes_nothing)
  have more: "same_but_pipe b (snd (snd (run_transport_lifecycle hash rds a sl b)))" for a sl b
    using Cons by simp
  have more1: "same_but_pipe d (snd (snd (run_transport_lifecycle hash rds a sl (record_transport_event PipeConnectFailed d))))"
    for a sl using more [of "record_transport_event PipeConnectFailed d"] by simp
  have more2: "same_but_pipe d (snd (snd (run_transport_lifecycle hash rds a sl
      (record_transport_event PipeReconnecting (record_transport_event PipeDisconnected
        (clear_transport (?d0\<lparr>d_transport := True\<rparr>)))))))" for a sl
    using more [of "record_transport_event PipeReconnecting (record_transport_event PipeDisconnected
        (clear_transport (?d0\<lparr>d_transport := True\<rparr>)))"] by simp
  show ?case
    using one more1 more2
    by (cases "run_remote_processor (rd_turns rd) ?d0")
      (auto simp: Let_def split: option.split sum.split)
qed simp

lemma build_state_Inr:
  assumes "fst (build_state E cfg) = Inr p"
  shows "\<exists>db report grants. storage_open (se_storage E) (se_probe E) (se_read E) (se_to_latest E) (se_db E) = Inr db
    \<and> build_identity_store (se_platform E) = Inr (gp_identity p)
    \<and> migrate_legacy_sessions (se_put E) (se_sessions_fault E) (se_grant_load_fault E) (se_grant_save_fault E)
        (ps_sessions (se_tables E db)) (ps_grants (se_tables E db)) = (Inr report, grants)
    \<and> try_embedded (se_decode_registry E) (se_snapshot E) (se_registry_asset E) = Inr (gp_registry p)
    \<and> core_bridge_new (se_show_url E) (se_http_fault E) (core_bridge_config_new (cfg_core_bridge_endpoint cfg))
        = Inr (gp_core_bridge p)
    \<and> d_sessions (gp_daemon p) = ps_sessions (se_tables E db) \<and> d_grants (gp_daemon p) = grants
    \<and> d_audit (gp_daemon p) = ps_audit (se_tables E db)
    \<and> d_pending (gp_daemon p) = [] \<and> \<not> d_transport (gp_daemon p) \<and> d_transport_state (gp_daemon p) = TDisconnected
    \<and> d_calls (gp_daemon p) = [] \<and> gp_checkpoints p = ps_checkpoints (se_tables E db)"
  using assms by (auto simp: build_state_def build_state_from_parts_def rbind_Inr_conv
      split: option.split_asm sum.split_asm prod.split_asm)

lemma check_recovery_integrity_Inr:
  assumes "check_recovery_integrity E p = Inr i"
  shows "se_audit_fault E = None \<and> se_checkpoint_fault E = None
    \<and> ri_incomplete_operations i = length (filter (\<lambda>r. ae_policy_result (ar_event r) = PRAllow
        \<and> ae_execution_status (ar_event r) = NotExecuted) (d_audit (gp_daemon p)))
    \<and> (ri_unusable_snapshots i = [] \<longrightarrow> (\<forall>m \<in> set (ck_rows (gp_checkpoints p)).
        snapshot_unusable_reason (gp_checkpoint_store p) m (ck_disk (gp_checkpoints p)) = Inr ()))"
proof -
  obtain incomplete unusable where l: "list_incomplete (se_audit_fault E) (d_audit (gp_daemon p)) = Inr incomplete"
    and u: "unusable_snapshots (gp_checkpoint_store p) (se_stamp E) (se_checkpoint_fault E) (gp_checkpoints p) = Inr unusable"
    and i: "ri_incomplete_operations i = length incomplete" "ri_unusable_snapshots i = [] \<longleftrightarrow> unusable = []"
    using assms unfolding check_recovery_integrity_def rbind_Inr_conv by (auto simp: rbind_Inr_conv)
  have a: "se_audit_fault E = None"
    using l by (cases "se_audit_fault E") (simp_all add: list_incomplete_def audit_query_def)
  have "length incomplete = length (filter (\<lambda>r. ae_policy_result (ar_event r) = PRAllow
      \<and> ae_execution_status (ar_event r) = NotExecuted) (d_audit (gp_daemon p)))"
    using l unfolding a list_incomplete_def audit_query_def option.case collect_results_Inr
    by (simp add: list_all2_lengthD)
  moreover have c: "se_checkpoint_fault E = None"
    using u by (cases "se_checkpoint_fault E")
      (simp_all add: unusable_snapshots_def checkpoint_list_all_def query_checkpoints_def)
  moreover have "snapshot_unusable_reason (gp_checkpoint_store p) m (ck_disk (gp_checkpoints p)) = Inr ()"
    if "unusable = []" "m \<in> set (ck_rows (gp_checkpoints p))" for m
  proof (cases "snapshot_unusable_reason (gp_checkpoint_store p) m (ck_disk (gp_checkpoints p))")
    case (Inl e)
    obtain rows where rows: "checkpoint_list_all (se_stamp E) None (gp_checkpoints p) = Inr rows"
      "set rows = set (ck_rows (gp_checkpoints p))"
      by (simp add: checkpoint_list_all_def query_checkpoints_def)
    have "(cm_checkpoint_id m, cm_workspace_id m, e) \<in> set unusable"
      using u Inl that(2) rows unfolding c unusable_snapshots_def
      by (auto simp: map_filter_set intro!: bexI [of _ m])
    with that(1) show ?thesis by simp
  qed simp
  ultimately show ?thesis using a i by simp
qed

section \<open>Properties\<close>


definition sample_persisted :: persisted where
  "sample_persisted = \<lparr>ps_workspaces = [], ps_sessions = [session_to_row (sample_session SActive)], ps_grants = [],
     ps_audit = [], ps_checkpoints = \<lparr>ck_disk = [], ck_rows = []\<rparr>\<rparr>"

definition sample_startup :: "int startup_env" where
  "sample_startup = \<lparr>se_data_dir_fault = None,
     se_storage = \<lparr>so_dir = None, so_lock_file = None, so_locked_elsewhere = False, so_connect = None\<rparr>,
     se_db = 7, se_probe = Inr, se_read = Inr, se_to_latest = (\<lambda>_. Inr 8), se_tables = (\<lambda>_. sample_persisted),
     se_platform = Linux, se_put = (\<lambda>_. []), se_stamp = (\<lambda>_. []), se_sessions_fault = None,
     se_grant_load_fault = (\<lambda>_. None), se_grant_save_fault = (\<lambda>_. None),
     se_decode_registry = (\<lambda>_. Inr sample_registry_file), se_snapshot = sample_catalog, se_registry_asset = [],
     se_show_url = (\<lambda>_. []), se_http_fault = None, se_cwd = [RootDir], se_instance_id = ''i'',
     se_audit_fault = None, se_checkpoint_fault = None\<rparr>"

definition sample_config :: companion_config where
  "sample_config = \<lparr>cfg_data_dir = [RootDir], cfg_log_level = ''info'', cfg_core_bridge_endpoint = sample_endpoint,
     cfg_transport_mode = TM_Relay, cfg_relay_url = sample_url [], cfg_authorization_ttl = default_ttl_config\<rparr>"

lemma sample_start: "\<exists>p i r. run_start sample_startup sample_config = Inr (p, i, Some (RelayOutbound r))"
proof -
  have g: "grant_from_legacy_session (\<lambda>_. []) (sample_session SActive)
      = Inr (Some (legacy_grant (\<lambda>_. []) (sample_session SActive) Active))"
    by (simp add: grant_from_legacy_session_def sample_session_def)
  obtain report rows where m: "migrate_legacy_sessions (\<lambda>_. []) None (\<lambda>_. None) (\<lambda>_. None)
       [session_to_row (sample_session SActive)] [] = (Inr report, rows)"
    by (simp add: migrate_legacy_sessions_def session_list_all_def g load_grant_def with_io_def save_grant_def
        migration_source_taken_def)
  have l: "host_is_loopback sample_endpoint" by code_simp
  have d: "run_migrations Inr Inr (\<lambda>_. Inr 8) 7 = Inr (8::int)"
    by (simp add: run_migrations_def schema_version_def SCHEMA_VERSION_def)
  have b: "\<exists>p. fst (build_state sample_startup sample_config) = Inr p \<and> d_audit (gp_daemon p) = []
      \<and> gp_checkpoints p = \<lparr>ck_disk = [], ck_rows = []\<rparr>"
    by (simp add: build_state_def sample_startup_def storage_open_def d build_state_from_parts_def sample_persisted_def m
        sample_registry_loads core_bridge_new_def assert_loopback_def core_bridge_config_new_def sample_config_def l)
  then obtain p where p: "fst (build_state sample_startup sample_config) = Inr p" "d_audit (gp_daemon p) = []"
    "gp_checkpoints p = \<lparr>ck_disk = [], ck_rows = []\<rparr>" by blast
  have "check_recovery_integrity sample_startup p = Inr \<lparr>ri_incomplete_operations = 0, ri_unusable_snapshots = []\<rparr>"
    by (simp add: check_recovery_integrity_def p sample_startup_def list_incomplete_def audit_query_def
        unusable_snapshots_def checkpoint_list_all_def query_checkpoints_def order_by_def List.map_filter_simps)
  moreover have "outbound_transport sample_config = Inr (Some (RelayOutbound (relay_new (the (sample_url [])))))"
    by (simp add: outbound_transport_def sample_config_def sample_url_def)
  ultimately show ?thesis by (simp add: run_start_def p)
qed


text \<open>
  Supervising the outbound transport creates no authority and ends clean. Through any number of connects, failures,
  receive loops and reconnects: a grant usable for some request afterwards was what that request resolved to before,
  every new grant row awaits local approval, no wait is longer than 36 seconds, and a supervision that has ended leaves
  no transport set. When the messages come through the cloud relay, nothing of the daemon changes but its connectivity.
\<close>

theorem transport_supervision_creates_no_authority:
  assumes "run_transport_lifecycle hash rds attempt [] d = (status, slept, d')"
  shows "(fresh_rounds rds d \<longrightarrow>
      (\<forall>w rq g t. fst (resolve_grant w d' rq) = Some g \<and> grant_is_usable_at g t \<longrightarrow> fst (resolve_grant w d rq) = Some g)
      \<and> (\<forall>r \<in> set (d_grants d'). r \<notin> set (d_grants d) \<longrightarrow>
           gr_status (rg_grant r) = PendingApproval \<and> gr_approved_at (rg_grant r) = None))
    \<and> (\<forall>x \<in> set slept. x \<le> 36000) \<and> (status = Finished \<longrightarrow> \<not> d_transport d')
    \<and> ((\<forall>rd \<in> set rds. \<exists>C ins r. rd_turns rd = drive (relay_receive C) ins r) \<longrightarrow>
         d' = d\<lparr>d_transport := d_transport d', d_transport_state := d_transport_state d'\<rparr>)"
  using lifecycle_no_new_authority [of rds d hash attempt "[]"] lifecycle_ends_clean [OF assms]
    relay_lifecycle_same_but_pipe [of rds d hash attempt "[]"] assms
  by (auto simp: no_new_authority_def same_but_pipe_def list_all_iff)


theorem transport_supervision_creates_no_authority_witness:
  "\<exists>slept d'. run_transport_lifecycle (\<lambda>_. 0)
       [\<lparr>rd_connect = Some (Inl (ConnectFailed [])), rd_turns = [], rd_shutdown = False, rd_woken = False\<rparr>,
        \<lparr>rd_connect = Some (Inr ()), rd_turns = [(sample_world False, ShutDown)], rd_shutdown = True, rd_woken = False\<rparr>]
       0 [] sample_daemon = (Finished, slept, d')
     \<and> \<not> d_transport d' \<and> (\<forall>x \<in> set slept. x \<le> 36000)
     \<and> (\<forall>rq g t. fst (resolve_grant (sample_world True) d' rq) = Some g \<and> grant_is_usable_at g t
          \<longrightarrow> fst (resolve_grant (sample_world True) sample_daemon rq) = Some g)"
proof -
  let ?rds = "[\<lparr>rd_connect = Some (Inl (ConnectFailed [])), rd_turns = [], rd_shutdown = False, rd_woken = False\<rparr>,
        \<lparr>rd_connect = Some (Inr ()), rd_turns = [(sample_world False, ShutDown)], rd_shutdown = True, rd_woken = False\<rparr>]"
  obtain slept d' where run: "run_transport_lifecycle (\<lambda>_. 0) ?rds 0 [] sample_daemon = (Finished, slept, d')"
    by (simp add: Let_def run_remote_processor_def)
  moreover have "fresh_rounds ?rds sample_daemon" by (simp add: Let_def run_remote_processor_def)
  ultimately show ?thesis using transport_supervision_creates_no_authority [OF run] by blast
qed

end
