(* ===== verification/Gateway_Runtime.thy ===== *)
theory Gateway_Runtime
  imports Gateway_Control Gateway_Startup
begin

text \<open>
  The running daemon process: the accept loop and connection tasks of \<^verbatim>\<open>src/apps/daemon/src/ipc_server.rs\<close>, and
  \<open>run_runtime\<close> with the signal handling of \<open>run\<close> (\<^verbatim>\<open>src/apps/daemon/src/lib.rs\<close>), beside the supervised transport.

  The tasks of the process share its state, so the process is a step relation in which any task may take the next step. A
  connection task waits for a request, or has handled one and not yet written the answer. An aborted task is dropped
  where it next suspends, so it may still take a step until then. A handled request is one step here; steps inside
  a handler are the subject of \<open>Gateway_Interleaving\<close>. A failure to install the signal handler, which ends the
  process at once, is left out.
\<close>

section \<open>The process\<close>

datatype conn_task = Waiting | Answering ipc_response

datatype server_phase = Serving | Draining | ServerDone | ServerFailed

datatype remote_phase = NoRemote | RemoteRunning | RemoteDone

record 's runtime =
  rn_control :: "'s control"
  rn_tasks :: "(nat \<times> conn_task) list"
  rn_next :: nat
  rn_server :: server_phase
  rn_remote :: remote_phase
  rn_interrupted :: bool
  rn_delivered :: "(nat \<times> ipc_response) list"

definition run_runtime :: "'s control \<Rightarrow> 'o option \<Rightarrow> 's runtime" where
  "run_runtime c transport =
     \<lparr>rn_control = c, rn_tasks = [], rn_next = 0, rn_server = Serving,
      rn_remote = (case transport of None \<Rightarrow> NoRemote | Some _ \<Rightarrow> RemoteRunning), rn_interrupted = False, rn_delivered = []\<rparr>"

definition on_daemon_of :: "(daemon \<Rightarrow> daemon) \<Rightarrow> 's runtime \<Rightarrow> 's runtime" where
  "on_daemon_of f r = r\<lparr>rn_control := (rn_control r)\<lparr>ct_daemon := f (ct_daemon (rn_control r))\<rparr>\<rparr>"

text \<open>A connection task finishes when its peer closes, an exchange fails, or the task is aborted.\<close>

inductive runtime_step :: "'s runtime \<Rightarrow> 's runtime \<Rightarrow> bool" where
  accept: "rn_server r = Serving \<Longrightarrow>
     runtime_step r (r\<lparr>rn_tasks := rn_tasks r @ [(rn_next r, Waiting)], rn_next := Suc (rn_next r)\<rparr>)"
| accept_fault: "rn_server r = Serving \<Longrightarrow> runtime_step r (r\<lparr>rn_server := ServerFailed, rn_tasks := []\<rparr>)"
| request: "map_of (rn_tasks r) i = Some Waiting \<Longrightarrow> handle_request W rq (rn_control r) = (response, c) \<Longrightarrow>
     runtime_step r (r\<lparr>rn_control := c, rn_tasks := AList.update i (Answering response) (rn_tasks r)\<rparr>)"
| answer: "map_of (rn_tasks r) i = Some (Answering response) \<Longrightarrow>
     runtime_step r (r\<lparr>rn_tasks := AList.update i Waiting (rn_tasks r), rn_delivered := rn_delivered r @ [(i, response)]\<rparr>)"
| finish: "i \<in> fst ` set (rn_tasks r) \<Longrightarrow> runtime_step r (r\<lparr>rn_tasks := AList.delete i (rn_tasks r)\<rparr>)"
| received: "rn_remote r = RemoteRunning \<Longrightarrow> rn_server r \<noteq> ServerFailed \<Longrightarrow> fresh_ids w (ct_daemon (rn_control r)) \<Longrightarrow>
     runtime_step r (on_daemon_of (handle_inbound_envelope w env vp) r)"
| connectivity: "rn_remote r = RemoteRunning \<Longrightarrow> rn_server r \<noteq> ServerFailed \<Longrightarrow>
     runtime_step r (on_daemon_of (record_transport_event ev) r)"
| transport_set: "rn_remote r = RemoteRunning \<Longrightarrow> rn_server r \<noteq> ServerFailed \<Longrightarrow>
     runtime_step r (on_daemon_of (\<lambda>d. d\<lparr>d_transport := b\<rparr>) r)"
| interrupt: "\<not> rn_interrupted r \<Longrightarrow>
     runtime_step r (r\<lparr>rn_interrupted := True, rn_control := (rn_control r)\<lparr>ct_shutdown := True\<rparr>\<rparr>)"
| stop: "rn_server r = Serving \<Longrightarrow> ct_shutdown (rn_control r) \<Longrightarrow> runtime_step r (r\<lparr>rn_server := Draining\<rparr>)"
| drained: "rn_server r = Draining \<Longrightarrow> rn_tasks r = [] \<Longrightarrow> runtime_step r (r\<lparr>rn_server := ServerDone\<rparr>)"
| remote_stop: "rn_remote r = RemoteRunning \<Longrightarrow> ct_shutdown (rn_control r) \<Longrightarrow>
     runtime_step r ((on_daemon_of clear_transport r)\<lparr>rn_remote := RemoteDone\<rparr>)"

text \<open>\<open>try_join!\<close>: the process ends well when the server and the transport have ended.\<close>

definition exited :: "'s runtime \<Rightarrow> bool" where
  "exited r \<longleftrightarrow> rn_server r = ServerDone \<and> rn_remote r \<noteq> RemoteRunning"

inductive runtime_reachable :: "'s control \<Rightarrow> 'o option \<Rightarrow> 's runtime \<Rightarrow> bool" for c transport where
  started: "runtime_reachable c transport (run_runtime c transport)"
| stepped: "runtime_reachable c transport r \<Longrightarrow> runtime_step r r' \<Longrightarrow> runtime_reachable c transport r'"

section \<open>Lemmas\<close>

lemma on_daemon_of_simps [simp]:
  "ct_daemon (rn_control (on_daemon_of f r)) = f (ct_daemon (rn_control r))"
  "ct_shutdown (rn_control (on_daemon_of f r)) = ct_shutdown (rn_control r)"
  "rn_tasks (on_daemon_of f r) = rn_tasks r" "rn_server (on_daemon_of f r) = rn_server r"
  "rn_remote (on_daemon_of f r) = rn_remote r" "rn_next (on_daemon_of f r) = rn_next r"
  "rn_delivered (on_daemon_of f r) = rn_delivered r"
  by (simp_all add: on_daemon_of_def)

lemma handle_request_shutdown: "handle_request W rq c = (response, c') \<Longrightarrow> ct_shutdown c \<Longrightarrow> ct_shutdown c'"
  by (cases rq) (auto simp: handler_defs split: prod.splits)

lemma handle_request_daemon:
  assumes "handle_request W rq c = (response, c')"
  shows "ct_daemon c' = ct_daemon c \<or> daemon_step (ct_daemon c) (ct_daemon c')"
proof -
  have "ct_daemon (snd (handle_request W rq c)) = ct_daemon c
      \<or> daemon_step (ct_daemon c) (ct_daemon (snd (handle_request W rq c)))"
    by (cases rq) (auto simp: handler_defs intro: daemon_step.intros split: prod.splits)
  with assms show ?thesis by simp
qed

text \<open>Every step of the process is a step of the daemon, or leaves the daemon as it is.\<close>

lemma runtime_step_daemon:
  assumes "runtime_step r r'"
  shows "ct_daemon (rn_control r') = ct_daemon (rn_control r) \<or> daemon_step (ct_daemon (rn_control r)) (ct_daemon (rn_control r'))"
  using assms
  by cases (auto simp: clear_transport_def dest: handle_request_daemon intro: daemon_step.intros)

definition runtime_inv :: "'s runtime \<Rightarrow> bool" where
  "runtime_inv r \<longleftrightarrow>
     (rn_server r \<in> {Draining, ServerDone} \<longrightarrow> ct_shutdown (rn_control r))
   \<and> (rn_remote r = RemoteDone \<longrightarrow> ct_shutdown (rn_control r))
   \<and> (rn_server r \<in> {ServerDone, ServerFailed} \<longrightarrow> rn_tasks r = [])"

lemma runtime_inv_step: "runtime_step r r' \<Longrightarrow> runtime_inv r \<Longrightarrow> runtime_inv r'"
  by (induction rule: runtime_step.induct) (auto simp: runtime_inv_def dest: handle_request_shutdown)

lemma runtime_inv_reachable: "runtime_reachable c transport r \<Longrightarrow> runtime_inv r"
proof (induction rule: runtime_reachable.induct)
  case started
  show ?case by (simp add: run_runtime_def runtime_inv_def split: option.split)
next
  case (stepped r r')
  then show ?case by (blast intro: runtime_inv_step)
qed

lemma runtime_daemon_ok:
  assumes "daemon_ok (ct_daemon c)" and "runtime_reachable c transport r"
  shows "daemon_ok (ct_daemon (rn_control r))"
  using assms(2)
proof (induction rule: runtime_reachable.induct)
  case started
  show ?case using assms(1) by (simp add: run_runtime_def)
next
  case (stepped r r')
  then show ?case using runtime_step_daemon daemon_step_ok by metis
qed

text \<open>From a requested shutdown the tasks can be ended one by one, then the server and the transport.\<close>

lemma tasks_can_end: "\<exists>r'. runtime_step\<^sup>*\<^sup>* r r' \<and> r' = r\<lparr>rn_tasks := []\<rparr>"
proof (induction "length (rn_tasks r)" arbitrary: r rule: less_induct)
  case less
  show ?case
  proof (cases "rn_tasks r")
    case (Cons t ts)
    let ?r = "r\<lparr>rn_tasks := AList.delete (fst t) (rn_tasks r)\<rparr>"
    have "length (rn_tasks ?r) < length (rn_tasks r)"
      using Cons length_delete_le [of "fst t" ts] by simp
    from less [OF this] have "runtime_step\<^sup>*\<^sup>* ?r (r\<lparr>rn_tasks := []\<rparr>)" by simp
    moreover have "runtime_step r ?r" by (rule runtime_step.finish) (simp add: Cons)
    ultimately show ?thesis by (blast intro: converse_rtranclp_into_rtranclp)
  qed (metis (no_types, lifting) rtranclp.rtrancl_refl runtime.surjective runtime.update_convs(2))
qed

lemma server_can_stop:
  assumes "ct_shutdown (rn_control r)" and "rn_server r \<noteq> ServerFailed" and "runtime_inv r"
  shows "\<exists>r'. runtime_step\<^sup>*\<^sup>* r r' \<and> rn_server r' = ServerDone \<and> rn_control r' = rn_control r \<and> rn_remote r' = rn_remote r"
proof (cases "rn_server r = ServerDone")
  case False
  then obtain d where d: "runtime_step\<^sup>*\<^sup>* r d" "d = r\<lparr>rn_server := Draining\<rparr>"
  proof (cases "rn_server r")
    case Serving
    then have "runtime_step r (r\<lparr>rn_server := Draining\<rparr>)" using assms(1) by (rule runtime_step.stop)
    with that show ?thesis by blast
  next
    case Draining
    then have "r = r\<lparr>rn_server := Draining\<rparr>" by simp
    with that show ?thesis by blast
  qed (use assms(2) in auto)
  have "runtime_step\<^sup>*\<^sup>* d (d\<lparr>rn_tasks := []\<rparr>)" using tasks_can_end by blast
  moreover have "runtime_step (d\<lparr>rn_tasks := []\<rparr>) (d\<lparr>rn_tasks := [], rn_server := ServerDone\<rparr>)"
    using runtime_step.drained [of "d\<lparr>rn_tasks := []\<rparr>"] d(2) by simp
  ultimately have "runtime_step\<^sup>*\<^sup>* r (d\<lparr>rn_tasks := [], rn_server := ServerDone\<rparr>)"
    using d(1) by (meson rtranclp.rtrancl_into_rtrancl rtranclp_trans)
  then show ?thesis using d(2) by (intro exI [of _ "d\<lparr>rn_tasks := [], rn_server := ServerDone\<rparr>"]) simp
qed blast

lemma process_can_exit:
  assumes "ct_shutdown (rn_control r)" and "rn_server r \<noteq> ServerFailed" and "runtime_inv r"
  shows "\<exists>r'. runtime_step\<^sup>*\<^sup>* r r' \<and> exited r'"
proof -
  obtain s where s: "runtime_step\<^sup>*\<^sup>* r s" "rn_server s = ServerDone" "rn_control s = rn_control r" "rn_remote s = rn_remote r"
    using server_can_stop [OF assms] by blast
  show ?thesis
  proof (cases "rn_remote s = RemoteRunning")
    case True
    have "runtime_step s ((on_daemon_of clear_transport s)\<lparr>rn_remote := RemoteDone\<rparr>)"
      using True assms(1) s(3) by (intro runtime_step.remote_stop) simp_all
    moreover have "exited ((on_daemon_of clear_transport s)\<lparr>rn_remote := RemoteDone\<rparr>)"
      using s(2) by (simp add: exited_def)
    ultimately show ?thesis using s(1) by (meson rtranclp.rtrancl_into_rtrancl)
  next
    case False
    then show ?thesis using s by (auto simp: exited_def)
  qed
qed

section \<open>Properties\<close>


section \<open>Concrete runs\<close>

definition shutdown_asked :: "memory_store runtime" where
  "shutdown_asked = \<lparr>rn_control = sample_control\<lparr>ct_shutdown := True\<rparr>, rn_tasks = [(0, Answering AAck)], rn_next = 1,
     rn_server = Serving, rn_remote = NoRemote, rn_interrupted = False, rn_delivered = []\<rparr>"

lemma shutdown_asked_reachable: "runtime_reachable sample_control (None :: unit option) shutdown_asked"
proof -
  let ?r0 = "run_runtime sample_control (None :: unit option)"
  let ?r1 = "?r0\<lparr>rn_tasks := [(0, Waiting)], rn_next := 1\<rparr>"
  have "runtime_step ?r0 ?r1" using runtime_step.accept [of ?r0] by (simp add: run_runtime_def)
  then have "runtime_reachable sample_control (None :: unit option) ?r1"
    using runtime_reachable.started runtime_reachable.stepped by blast
  moreover have "runtime_step ?r1 shutdown_asked"
    using runtime_step.request [of ?r1 0 sample_control_world RDaemonShutdown AAck "sample_control\<lparr>ct_shutdown := True\<rparr>"]
    by (simp add: run_runtime_def shutdown_asked_def sample_control_def)
  ultimately show ?thesis by (rule runtime_reachable.stepped)
qed

lemma sample_control_ok: "daemon_ok (ct_daemon sample_control)"
  by (simp add: sample_control_def sample_daemon_def daemon_ok_def grants_ok_def queue_ok_def unique_keys_def
      grant_to_row_def session_to_row_def subject_of_def sample_active_def sample_session_def
      sample_pending_def grant_requested_def grant_key_def session_key_def grant_id_of_session_def)


text \<open>
  The acknowledgement of a shutdown request can be lost: the handler raises the signal before its answer is written, the
  server aborts all connection tasks when it sees the signal, and the client that asked for the shutdown reads the end of
  its connection instead of the answer.
\<close>

lemma shutdown_acknowledgement_can_be_lost:
  "\<exists>r. runtime_reachable sample_control (None :: unit option) r \<and> exited r \<and> \<not> rn_interrupted r \<and> rn_delivered r = []"
proof -
  let ?s = "shutdown_asked\<lparr>rn_server := Draining\<rparr>"
  have "runtime_step shutdown_asked ?s" using runtime_step.stop [of shutdown_asked] by (simp add: shutdown_asked_def)
  moreover have "runtime_step ?s (?s\<lparr>rn_tasks := []\<rparr>)"
    using runtime_step.finish [of 0 ?s] by (simp add: shutdown_asked_def)
  moreover have "runtime_step (?s\<lparr>rn_tasks := []\<rparr>) (?s\<lparr>rn_tasks := [], rn_server := ServerDone\<rparr>)"
    using runtime_step.drained [of "?s\<lparr>rn_tasks := []\<rparr>"] by simp
  ultimately have "runtime_reachable sample_control (None :: unit option) (?s\<lparr>rn_tasks := [], rn_server := ServerDone\<rparr>)"
    using shutdown_asked_reachable by (blast intro: runtime_reachable.stepped)
  moreover have "exited (?s\<lparr>rn_tasks := [], rn_server := ServerDone\<rparr>)"
    "\<not> rn_interrupted (?s\<lparr>rn_tasks := [], rn_server := ServerDone\<rparr>)"
    "rn_delivered (?s\<lparr>rn_tasks := [], rn_server := ServerDone\<rparr>) = []"
    by (simp_all add: exited_def shutdown_asked_def)
  ultimately show ?thesis by blast
qed

end
