(* ===== verification/Gateway_Upstream.thy ===== *)
theory Gateway_Upstream
  imports Gateway_Registry
begin

text \<open>
  The upstream manifest of reviewed tool effects, \<^verbatim>\<open>src/crates/policy/src/upstream_effect_manifest.rs\<close>: its
  strict validation and its comparison with the embedded registry. \<open>serde_json::from_str\<close> into the raw
  structs is the parameter \<open>decode\<close>. The \<open>BTreeMap\<close>s of tools and of argument shapes are lists in key order
  with distinct keys, and a message that prints a nested error keeps that error as a value.
\<close>

definition UPSTREAM_EFFECT_MANIFEST_SCHEMA_MAJOR :: nat where
  "UPSTREAM_EFFECT_MANIFEST_SCHEMA_MAJOR = 2"

definition UPSTREAM_EFFECT_MANIFEST_REPOSITORY :: string where
  "UPSTREAM_EFFECT_MANIFEST_REPOSITORY = ''oaslananka/kicad-mcp-pro''"

record upstream_effect_manifest_source =
  ms_repository :: string
  ms_version :: string
  ms_reviewed_source_sha :: string

datatype effect_verification_requirement = SourceReview | InputSchemaMatch

datatype transaction_support = NoTransactions | InternalGuarded | ExternalLifecycle | UnknownTransactions

datatype argument_value_kind = AvString | AvBoolean | AvNumber | AvObject | AvCollection | AvUnknown

datatype collection_item_kind = CiString | CiBoolean | CiNumber | CiObject | CiUnknown

datatype breadth_dimension = BreadthItemCount | BreadthPathCount

record argument_shape_fact =
  sh_argument :: string
  sh_value_kind :: argument_value_kind
  sh_item_kind :: "collection_item_kind option"
  sh_breadth_dimension :: "breadth_dimension option"

record reviewed_tool_effect_facts =
  rf_contract :: tool_effect_contract
  rf_argument_shapes :: "argument_shape_fact list"
  rf_destructive :: bool
  rf_idempotent :: bool
  rf_supports_dry_run :: bool
  rf_supports_rollback :: bool
  rf_transaction_support :: transaction_support
  rf_verification_requirements :: "effect_verification_requirement set"
  rf_reviewed_source_paths :: "string list"

record upstream_effect_manifest =
  um_schema_version :: string
  um_source :: upstream_effect_manifest_source
  um_tools :: "(string \<times> reviewed_tool_effect_facts) list"

record effect_manifest_reconciliation =
  er_fallback_only_reviewed :: "string list"
  er_upstream_only_reviewed :: "string list"
  er_contract_mismatches :: "string list"
  er_risk_fact_mismatches :: "string list"

definition is_exact_match :: "effect_manifest_reconciliation \<Rightarrow> bool" where
  "is_exact_match r \<longleftrightarrow> er_fallback_only_reviewed r = [] \<and> er_upstream_only_reviewed r = []
     \<and> er_contract_mismatches r = [] \<and> er_risk_fact_mismatches r = []"

datatype path_contract_fault = RequiredWithDefault string | PathContractFault tool_effect_contract_error

datatype argument_shape_fault = ShapeArgumentAbsent string | ShapeWithoutItemKind string | ShapeNotCollection string

datatype upstream_effect_manifest_error =
    MalformedJson string
  | UnsupportedSchemaVersion string
  | SourceRepositoryMismatch string string
  | InvalidSourceVersion string
  | InvalidSourceSha string
  | EmptyManifest
  | UpstreamDuplicateTool string
  | InvalidToolName string
  | DuplicateFact string string
  | MissingReviewEvidence string
  | InvalidReviewedSourcePath string string
  | InconsistentDestructive string
  | InvalidPathContract string path_contract_fault
  | UpstreamInvalidContract string tool_effect_contract_error
  | InvalidArgumentShape string argument_shape_fault
  | StaleSource string string string
  | UnclassifiedTool string

section \<open>Raw manifests\<close>

record raw_source =
  rws_repository :: string
  rws_version :: string
  rws_reviewed_source_sha :: string

record raw_argument_shape =
  ras_argument :: string
  ras_value_kind :: argument_value_kind
  ras_item_kind :: "collection_item_kind option"
  ras_breadth_dimension :: "breadth_dimension option"

record raw_path_argument =
  rpa_argument :: string
  rpa_effects :: "operation_effect list"
  rpa_required :: bool
  rpa_default :: "string option"
  rpa_base_argument :: "string option"

record raw_tool =
  rt_name :: string
  rt_arguments :: "string list"
  rt_effects :: "operation_effect list"
  rt_path_arguments :: "raw_path_argument list"
  rt_argument_shapes :: "raw_argument_shape list"
  rt_destructive :: bool
  rt_idempotent :: bool
  rt_supports_dry_run :: bool
  rt_supports_rollback :: bool
  rt_transaction_support :: transaction_support
  rt_verification_requirements :: "effect_verification_requirement list"
  rt_reviewed_source_paths :: "string list"

record raw_manifest =
  rm_schema_version :: string
  rm_source :: raw_source
  rm_tools :: "raw_tool list"

section \<open>Checks on text\<close>

definition is_ascii_digit :: "char \<Rightarrow> bool" where
  "is_ascii_digit c \<longleftrightarrow> (let n = of_char c :: nat in 48 \<le> n \<and> n \<le> 57)"

definition is_ascii_lowercase :: "char \<Rightarrow> bool" where
  "is_ascii_lowercase c \<longleftrightarrow> (let n = of_char c :: nat in 97 \<le> n \<and> n \<le> 122)"

definition strict_semver_major :: "string \<Rightarrow> nat option" where
  "strict_semver_major v =
     (case split_at (CHR ''.'') v of
        [major, minor, patch] \<Rightarrow>
          if major = [] \<or> minor = [] \<or> patch = [] \<or> \<not> list_all is_ascii_digit major
             \<or> \<not> list_all is_ascii_digit minor \<or> \<not> list_all is_ascii_digit patch
          then None else parse_usize major
      | _ \<Rightarrow> None)"

definition is_lower_hex_sha :: "string \<Rightarrow> bool" where
  "is_lower_hex_sha v \<longleftrightarrow> utf8_len v = 40
     \<and> list_all (\<lambda>c. is_ascii_digit c \<or> (let n = of_char c :: nat in 97 \<le> n \<and> n \<le> 102)) v"

definition valid_tool_name :: "string \<Rightarrow> bool" where
  "valid_tool_name name \<longleftrightarrow>
     (case name of
        [] \<Rightarrow> False
      | c # cs \<Rightarrow> is_ascii_lowercase c
          \<and> list_all (\<lambda>c. is_ascii_lowercase c \<or> is_ascii_digit c \<or> c = CHR ''_'') cs)"

definition validate_tool_name :: "string \<Rightarrow> upstream_effect_manifest_error + unit" where
  "validate_tool_name name = (if valid_tool_name name then Inr () else Inl (InvalidToolName name))"

definition reject_duplicates :: "string \<Rightarrow> string \<Rightarrow> 'a list \<Rightarrow> upstream_effect_manifest_error + unit" where
  "reject_duplicates tool field vs =
     (if card (set vs) = length vs then Inr () else Inl (DuplicateFact tool field))"

definition is_mutating_effect :: "operation_effect \<Rightarrow> bool" where
  "is_mutating_effect e \<longleftrightarrow> e \<in> {Write, Create, Delete}"

definition is_safe_source_path :: "string \<Rightarrow> bool" where
  "is_safe_source_path v \<longleftrightarrow>
     \<not> (trim v = [] \<or> CHR 0x5C \<in> set v)
     \<and> \<not> is_absolute (path_of_string v)
     \<and> list_all (\<lambda>segment. segment \<noteq> [] \<and> segment \<noteq> ''.'' \<and> segment \<noteq> ''..'') (split_at (CHR ''/'') v)
     \<and> list_all (\<lambda>c. case c of Normal_c _ \<Rightarrow> True | _ \<Rightarrow> False) (path_of_string v)"

section \<open>Parsing\<close>

definition validate_schema_version :: "string \<Rightarrow> upstream_effect_manifest_error + unit" where
  "validate_schema_version v =
     (if strict_semver_major v = Some UPSTREAM_EFFECT_MANIFEST_SCHEMA_MAJOR then Inr ()
      else Inl (UnsupportedSchemaVersion v))"

definition parse_source :: "raw_source \<Rightarrow> upstream_effect_manifest_error + upstream_effect_manifest_source" where
  "parse_source s =
     (if rws_repository s \<noteq> UPSTREAM_EFFECT_MANIFEST_REPOSITORY
        then Inl (SourceRepositoryMismatch UPSTREAM_EFFECT_MANIFEST_REPOSITORY (rws_repository s))
      else if strict_semver_major (rws_version s) = None then Inl (InvalidSourceVersion (rws_version s))
      else if \<not> is_lower_hex_sha (rws_reviewed_source_sha s)
        then Inl (InvalidSourceSha (rws_reviewed_source_sha s))
      else Inr \<lparr>ms_repository = rws_repository s, ms_version = rws_version s,
                ms_reviewed_source_sha = rws_reviewed_source_sha s\<rparr>)"

fun parse_shapes_loop ::
  "string \<Rightarrow> string fset \<Rightarrow> raw_argument_shape list \<Rightarrow> argument_shape_fact list
   \<Rightarrow> upstream_effect_manifest_error + argument_shape_fact list" where
  "parse_shapes_loop tool declared [] shapes = Inr shapes"
| "parse_shapes_loop tool declared (raw # raws) shapes =
     (if ras_argument raw |\<notin>| declared
        then Inl (InvalidArgumentShape tool (ShapeArgumentAbsent (ras_argument raw)))
      else if ras_value_kind raw = AvCollection \<and> ras_item_kind raw = None
        then Inl (InvalidArgumentShape tool (ShapeWithoutItemKind (ras_argument raw)))
      else if ras_value_kind raw \<noteq> AvCollection \<and> (ras_item_kind raw \<noteq> None \<or> ras_breadth_dimension raw \<noteq> None)
        then Inl (InvalidArgumentShape tool (ShapeNotCollection (ras_argument raw)))
      else if table_lookup sh_argument (ras_argument raw) shapes \<noteq> None
        then Inl (DuplicateFact tool ''argument shapes'')
      else parse_shapes_loop tool declared raws (insort_key sh_argument
             \<lparr>sh_argument = ras_argument raw, sh_value_kind = ras_value_kind raw, sh_item_kind = ras_item_kind raw,
              sh_breadth_dimension = ras_breadth_dimension raw\<rparr> shapes))"

definition parse_argument_shapes ::
  "string \<Rightarrow> string list \<Rightarrow> raw_argument_shape list
   \<Rightarrow> upstream_effect_manifest_error + argument_shape_fact list" where
  "parse_argument_shapes tool arguments raws = parse_shapes_loop tool (fset_of_list arguments) raws []"

definition parse_review_evidence ::
  "string \<Rightarrow> effect_verification_requirement list \<Rightarrow> string list
   \<Rightarrow> upstream_effect_manifest_error + effect_verification_requirement set \<times> string list" where
  "parse_review_evidence tool requirements source_paths =
     rbind (reject_duplicates tool ''verification requirements'' requirements) (\<lambda>_.
     rbind (reject_duplicates tool ''reviewed source paths'' source_paths) (\<lambda>_.
     if SourceReview \<notin> set requirements \<or> InputSchemaMatch \<notin> set requirements \<or> source_paths = []
     then Inl (MissingReviewEvidence tool)
     else
       (case List.find (\<lambda>p. \<not> is_safe_source_path p) source_paths of
          Some p \<Rightarrow> Inl (InvalidReviewedSourcePath tool p)
        | None \<Rightarrow> Inr (set requirements, source_paths))))"

fun parse_paths_loop ::
  "string \<Rightarrow> raw_path_argument list \<Rightarrow> string fset \<Rightarrow> path_argument_contract list \<Rightarrow> bool
   \<Rightarrow> upstream_effect_manifest_error + path_argument_contract list \<times> bool" where
  "parse_paths_loop tool [] names acc changes = Inr (acc, changes)"
| "parse_paths_loop tool (p # ps) names acc changes =
     (if rpa_argument p |\<in>| names then Inl (DuplicateFact tool ''path arguments'')
      else
        rbind (reject_duplicates tool ''path effects'' (rpa_effects p)) (\<lambda>_.
        if rpa_required p \<and> rpa_default p \<noteq> None
        then Inl (InvalidPathContract tool (RequiredWithDefault (rpa_argument p)))
        else
          rbind (map_err (\<lambda>e. InvalidPathContract tool (PathContractFault e))
             (path_argument_contract_new (rpa_argument p) (rpa_effects p) (rpa_required p) (rpa_default p)
                (rpa_base_argument p))) (\<lambda>c.
          parse_paths_loop tool ps (finsert (rpa_argument p) names) (acc @ [c])
            (changes \<or> list_ex is_mutating_effect (rpa_effects p)))))"

definition parse_path_arguments ::
  "string \<Rightarrow> raw_path_argument list \<Rightarrow> upstream_effect_manifest_error + path_argument_contract list \<times> bool" where
  "parse_path_arguments tool raws = parse_paths_loop tool raws {||} [] False"

definition parse_tool ::
  "raw_tool \<Rightarrow> upstream_effect_manifest_error + string \<times> reviewed_tool_effect_facts" where
  "parse_tool raw =
     (let name = rt_name raw in
      rbind (validate_tool_name name) (\<lambda>_.
      rbind (reject_duplicates name ''arguments'' (rt_arguments raw)) (\<lambda>_.
      rbind (reject_duplicates name ''effects'' (rt_effects raw)) (\<lambda>_.
      rbind (parse_argument_shapes name (rt_arguments raw) (rt_argument_shapes raw)) (\<lambda>shapes.
      rbind (parse_review_evidence name (rt_verification_requirements raw) (rt_reviewed_source_paths raw))
        (\<lambda>(requirements, source_paths).
      rbind (parse_path_arguments name (rt_path_arguments raw)) (\<lambda>(path_arguments, path_changes_state).
      let changes_state = list_ex is_mutating_effect (rt_effects raw) \<or> path_changes_state in
      if rt_destructive raw \<noteq> changes_state then Inl (InconsistentDestructive name)
      else
        rbind (map_err (UpstreamInvalidContract name)
           (tool_effect_contract_new (rt_arguments raw) (rt_effects raw) path_arguments)) (\<lambda>t.
        Inr (name, \<lparr>rf_contract = t, rf_argument_shapes = shapes, rf_destructive = rt_destructive raw,
          rf_idempotent = rt_idempotent raw, rf_supports_dry_run = rt_supports_dry_run raw,
          rf_supports_rollback = rt_supports_rollback raw, rf_transaction_support = rt_transaction_support raw,
          rf_verification_requirements = requirements, rf_reviewed_source_paths = source_paths\<rparr>)))))))))"

fun parse_tools_loop ::
  "raw_tool list \<Rightarrow> (string \<times> reviewed_tool_effect_facts) list
   \<Rightarrow> upstream_effect_manifest_error + (string \<times> reviewed_tool_effect_facts) list" where
  "parse_tools_loop [] tools = Inr tools"
| "parse_tools_loop (raw # raws) tools =
     rbind (parse_tool raw) (\<lambda>(name, facts).
     if map_of tools name \<noteq> None then Inl (UpstreamDuplicateTool name)
     else parse_tools_loop raws (insort_key fst (name, facts) tools))"

definition parse_tools ::
  "raw_tool list \<Rightarrow> upstream_effect_manifest_error + (string \<times> reviewed_tool_effect_facts) list" where
  "parse_tools raws = (if raws = [] then Inl EmptyManifest else parse_tools_loop raws [])"

definition manifest_from_json_str ::
  "(string \<Rightarrow> string + raw_manifest) \<Rightarrow> string \<Rightarrow> upstream_effect_manifest_error + upstream_effect_manifest" where
  "manifest_from_json_str decode text =
     rbind (map_err MalformedJson (decode text)) (\<lambda>raw.
     rbind (validate_schema_version (rm_schema_version raw)) (\<lambda>_.
     rbind (parse_source (rm_source raw)) (\<lambda>source.
     rbind (parse_tools (rm_tools raw)) (\<lambda>tools.
     Inr \<lparr>um_schema_version = rm_schema_version raw, um_source = source, um_tools = tools\<rparr>))))"

definition manifest_tool :: "upstream_effect_manifest \<Rightarrow> string \<Rightarrow> reviewed_tool_effect_facts option" where
  "manifest_tool m name = map_of (um_tools m) name"

definition manifest_tool_names :: "upstream_effect_manifest \<Rightarrow> string list" where
  "manifest_tool_names m = map fst (um_tools m)"

definition argument_shape :: "reviewed_tool_effect_facts \<Rightarrow> string \<Rightarrow> argument_shape_fact option" where
  "argument_shape f a = table_lookup sh_argument a (rf_argument_shapes f)"

section \<open>Comparison with the catalogue and the registry\<close>

definition manifest_validate_source ::
  "upstream_effect_manifest \<Rightarrow> tool_catalog_snapshot \<Rightarrow> upstream_effect_manifest_error + unit" where
  "manifest_validate_source m sn =
     (if ms_repository (um_source m) \<noteq> sn_source_repository sn
        then Inl (StaleSource ''repository'' (sn_source_repository sn) (ms_repository (um_source m)))
      else if ms_reviewed_source_sha (um_source m) \<noteq> sn_source_sha sn
        then Inl (StaleSource ''reviewed_source_sha'' (sn_source_sha sn) (ms_reviewed_source_sha (um_source m)))
      else Inr ())"

fun expected_dimension :: "risk_breadth_dimension \<Rightarrow> breadth_dimension" where
  "expected_dimension ItemCount = BreadthItemCount"
| "expected_dimension PathCount = BreadthPathCount"

fun fact_matches :: "reviewed_tool_effect_facts \<Rightarrow> risk_rule \<Rightarrow> bool" where
  "fact_matches f (ArgumentCardinality arg dim _ _ _) =
     (case argument_shape f arg of
        None \<Rightarrow> False
      | Some s \<Rightarrow> sh_value_kind s = AvCollection \<and> sh_breadth_dimension s = Some (expected_dimension dim))"
| "fact_matches f (BooleanEquals arg _ _ _ _ _) =
     (case argument_shape f arg of None \<Rightarrow> False | Some s \<Rightarrow> sh_value_kind s = AvBoolean)"

definition risk_fact_mismatches :: "upstream_effect_manifest \<Rightarrow> tool_registry \<Rightarrow> string list \<Rightarrow> string list" where
  "risk_fact_mismatches m reg names =
     concat (map (\<lambda>name.
       case manifest_tool m name of
         None \<Rightarrow> []
       | Some upstream \<Rightarrow>
           map (\<lambda>rule. name @ ''.'' @ rule_argument rule)
             (filter (\<lambda>rule. \<not> fact_matches upstream rule) (registry_risk_rules reg name))) names)"

definition reconcile_with_fallback ::
  "upstream_effect_manifest \<Rightarrow> tool_registry \<Rightarrow> upstream_effect_manifest_error + effect_manifest_reconciliation" where
  "reconcile_with_fallback m reg =
     (case List.find (\<lambda>name. registry_resolve reg name = None) (manifest_tool_names m) of
        Some name \<Rightarrow> Inl (UnclassifiedTool name)
      | None \<Rightarrow>
          let upstream_names = fset_of_list (manifest_tool_names m);
              fallback_names = fset_of_list (effect_contract_names reg);
              both = sorted_list_of_fset (upstream_names |\<inter>| fallback_names) in
          Inr \<lparr>er_fallback_only_reviewed = sorted_list_of_fset (fallback_names |-| upstream_names),
               er_upstream_only_reviewed = sorted_list_of_fset (upstream_names |-| fallback_names),
               er_contract_mismatches =
                 filter (\<lambda>name. case (manifest_tool m name, registry_effect_contract reg name) of
                     (Some upstream, Some fallback) \<Rightarrow> rf_contract upstream \<noteq> fallback
                   | _ \<Rightarrow> False) both,
               er_risk_fact_mismatches = risk_fact_mismatches m reg both\<rparr>)"

section \<open>Lemmas\<close>


text \<open>What each reviewed fact promises.\<close>

definition shape_ok :: "string fset \<Rightarrow> argument_shape_fact \<Rightarrow> bool" where
  "shape_ok declared s \<longleftrightarrow> sh_argument s |\<in>| declared \<and> (sh_value_kind s = AvCollection \<longleftrightarrow> sh_item_kind s \<noteq> None)
     \<and> (sh_breadth_dimension s \<noteq> None \<longrightarrow> sh_value_kind s = AvCollection)"

definition changes_state :: "tool_effect_contract \<Rightarrow> bool" where
  "changes_state t \<longleftrightarrow> contract_has_effect t Write \<or> contract_has_effect t Create \<or> contract_has_effect t Delete"

definition facts_ok :: "reviewed_tool_effect_facts \<Rightarrow> bool" where
  "facts_ok f \<longleftrightarrow> contract_ok (tc_path_arguments (rf_contract f))
     \<and> (rf_destructive f \<longleftrightarrow> changes_state (rf_contract f))
     \<and> list_all (shape_ok (tc_arguments (rf_contract f))) (rf_argument_shapes f)
     \<and> SourceReview \<in> rf_verification_requirements f \<and> InputSchemaMatch \<in> rf_verification_requirements f
     \<and> rf_reviewed_source_paths f \<noteq> [] \<and> list_all is_safe_source_path (rf_reviewed_source_paths f)"

lemma collect_arguments_fset: "collect_arguments as acc = Inr d \<Longrightarrow> d = acc |\<union>| fset_of_list as"
  by (induction as acc rule: collect_arguments.induct) (auto split: if_splits)

lemma collect_path_arguments_set: "collect_path_arguments declared cs acc = Inr m \<Longrightarrow> set m = set cs \<union> set acc"
  by (induction declared cs acc rule: collect_path_arguments.induct)
    (auto simp: set_insort_key split: if_splits)

lemma tool_effect_contract_new_parts:
  assumes "tool_effect_contract_new args effs pas = Inr t"
  shows "tc_arguments t = fset_of_list args" and "tc_effects t = fset_of_list effs"
    and "set (tc_path_arguments t) = set pas"
  using assms by (auto simp: tool_effect_contract_new_def rbind_Inr_conv
      dest!: collect_arguments_fset collect_path_arguments_set split: if_splits)

lemma changes_state_iff:
  "changes_state t \<longleftrightarrow> (\<exists>e. is_mutating_effect e \<and> (e |\<in>| tc_effects t \<or> (\<exists>p \<in> set (tc_path_arguments t). e |\<in>| pa_effects p)))"
  by (auto simp: changes_state_def contract_has_effect_def is_mutating_effect_def list_ex_iff)

lemma parse_shapes_loop_ok:
  "parse_shapes_loop tool declared raws shapes = Inr shapes' \<Longrightarrow> list_all (shape_ok declared) shapes
     \<Longrightarrow> list_all (shape_ok declared) shapes'"
  by (induction tool declared raws shapes rule: parse_shapes_loop.induct)
    (auto simp: list_all_iff set_insort_key shape_ok_def split: if_splits)

lemma parse_paths_loop_changes:
  "parse_paths_loop tool raws names acc changes = Inr (pas, changed) \<Longrightarrow>
     (changes \<longleftrightarrow> (\<exists>p \<in> set acc. \<exists>e. is_mutating_effect e \<and> e |\<in>| pa_effects p)) \<Longrightarrow>
     changed \<longleftrightarrow> (\<exists>p \<in> set pas. \<exists>e. is_mutating_effect e \<and> e |\<in>| pa_effects p)"
proof (induction tool raws names acc changes rule: parse_paths_loop.induct)
  case (2 tool p ps names acc changes)
  obtain c where c: "path_argument_contract_new (rpa_argument p) (rpa_effects p) (rpa_required p) (rpa_default p)
        (rpa_base_argument p) = Inr c"
    and g: "rpa_argument p |\<notin>| names" "reject_duplicates tool ''path effects'' (rpa_effects p) = Inr ()"
      "\<not> (rpa_required p \<and> rpa_default p \<noteq> None)"
    and rest: "parse_paths_loop tool ps (finsert (rpa_argument p) names) (acc @ [c])
        (changes \<or> list_ex is_mutating_effect (rpa_effects p)) = Inr (pas, changed)"
    using "2.prems"(1) by (auto simp: rbind_Inr_conv split: if_splits)
  have "pa_effects c = fset_of_list (rpa_effects p)"
    using c by (auto simp: path_argument_contract_new_def rbind_Inr_conv split: if_splits option.splits)
  then show ?case
    using "2.IH" [OF g(1) g(3) rest] "2.prems"(2)
    by (auto simp: list_ex_iff fset_of_list_elem)
qed auto

lemma parse_tool_ok:
  assumes "parse_tool raw = Inr (name, f)"
  shows "valid_tool_name name \<and> facts_ok f"
proof -
  note d = parse_tool_def Let_def rbind_Inr_conv parse_argument_shapes_def parse_path_arguments_def
    validate_tool_name_def
  obtain shapes where
    shapes: "parse_shapes_loop (rt_name raw) (fset_of_list (rt_arguments raw)) (rt_argument_shapes raw) [] = Inr shapes"
    using assms by (auto simp: d)
  obtain req paths where
    ev: "parse_review_evidence (rt_name raw) (rt_verification_requirements raw) (rt_reviewed_source_paths raw) = Inr (req, paths)"
    using assms by (auto simp: d)
  obtain pas changed where
    pas: "parse_paths_loop (rt_name raw) (rt_path_arguments raw) {||} [] False = Inr (pas, changed)"
    using assms by (auto simp: d)
  have t: "tool_effect_contract_new (rt_arguments raw) (rt_effects raw) pas = Inr (rf_contract f)"
    and destr: "rf_destructive f = (list_ex is_mutating_effect (rt_effects raw) \<or> changed)"
    and f: "rf_argument_shapes f = shapes" "rf_verification_requirements f = req" "rf_reviewed_source_paths f = paths"
    and name: "valid_tool_name name"
    using assms shapes ev pas by (auto simp: d split: if_splits)
  note parts = tool_effect_contract_new_parts [OF t]
  have "list_all (shape_ok (tc_arguments (rf_contract f))) shapes"
    using parse_shapes_loop_ok [OF shapes] by (simp add: parts)
  moreover have "rf_destructive f \<longleftrightarrow> changes_state (rf_contract f)"
    using parse_paths_loop_changes [OF pas] unfolding changes_state_iff destr
    by (auto simp: parts list_ex_iff fset_of_list_elem)
  moreover have "SourceReview \<in> rf_verification_requirements f" "InputSchemaMatch \<in> rf_verification_requirements f"
    "rf_reviewed_source_paths f \<noteq> []" "list_all is_safe_source_path (rf_reviewed_source_paths f)"
    using ev by (auto simp: f parse_review_evidence_def rbind_Inr_conv find_None_iff list_all_iff
        split: if_splits option.splits)
  ultimately show ?thesis
    using name contract_new_ok [OF t] by (simp add: facts_ok_def f)
qed

lemma parse_tools_loop_ok:
  "parse_tools_loop raws tools = Inr tools' \<Longrightarrow> distinct (map fst tools)
     \<Longrightarrow> \<forall>(n, f) \<in> set tools. valid_tool_name n \<and> facts_ok f
     \<Longrightarrow> distinct (map fst tools') \<and> (\<forall>(n, f) \<in> set tools'. valid_tool_name n \<and> facts_ok f)
       \<and> length tools' = length tools + length raws"
proof (induction raws tools rule: parse_tools_loop.induct)
  case (2 raw raws tools)
  from "2.prems"(1) obtain n f where p: "parse_tool raw = Inr (n, f)" and new: "map_of tools n = None"
    and rest: "parse_tools_loop raws (insort_key fst (n, f) tools) = Inr tools'"
    by (auto simp: rbind_Inr_conv simp del: map_of_eq_None_iff split: if_splits)
  have "distinct (map fst (insort_key fst (n, f) tools))"
    using "2.prems"(2) new by (simp add: distinct_map distinct_insort map_of_eq_None_iff inj_on_def set_insort_key) force
  moreover have "\<forall>(n, f) \<in> set (insort_key fst (n, f) tools). valid_tool_name n \<and> facts_ok f"
    using "2.prems"(3) parse_tool_ok [OF p] by (auto simp: set_insort_key)
  ultimately show ?case
    using "2.IH" [OF _ rest] new by simp
qed simp

lemma manifest_from_json_str_Inr:
  assumes "manifest_from_json_str decode text = Inr m"
  shows "strict_semver_major (um_schema_version m) = Some 2" "um_tools m \<noteq> []" "distinct (map fst (um_tools m))"
    "ms_repository (um_source m) = UPSTREAM_EFFECT_MANIFEST_REPOSITORY"
    "is_lower_hex_sha (ms_reviewed_source_sha (um_source m))"
    "manifest_tool m name = Some f \<Longrightarrow> valid_tool_name name \<and> facts_ok f"
proof -
  obtain raw where raw: "decode text = Inr raw" "parse_tools (rm_tools raw) = Inr (um_tools m)"
    "parse_source (rm_source raw) = Inr (um_source m)" "validate_schema_version (um_schema_version m) = Inr ()"
    using assms by (auto simp: manifest_from_json_str_def rbind_Inr_conv)
  have l: "parse_tools_loop (rm_tools raw) [] = Inr (um_tools m)" "rm_tools raw \<noteq> []"
    using raw(2) by (auto simp: parse_tools_def split: if_splits)
  note tools = parse_tools_loop_ok [OF l(1)]
  show "strict_semver_major (um_schema_version m) = Some 2"
    using raw(4) by (simp add: validate_schema_version_def UPSTREAM_EFFECT_MANIFEST_SCHEMA_MAJOR_def split: if_splits)
  show "um_tools m \<noteq> []" using tools l(2) by auto
  show "distinct (map fst (um_tools m))" using tools by simp
  show "ms_repository (um_source m) = UPSTREAM_EFFECT_MANIFEST_REPOSITORY"
    "is_lower_hex_sha (ms_reviewed_source_sha (um_source m))"
    using raw(3) by (cases "um_source m"; auto simp: parse_source_def split: if_splits)+
  show "valid_tool_name name \<and> facts_ok f" if "manifest_tool m name = Some f"
    using tools map_of_SomeD [OF that [unfolded manifest_tool_def]] by auto
qed

lemma effect_contract_names_iff:
  assumes "distinct (map fst (reg_entries reg))"
  shows "name \<in> set (effect_contract_names reg) \<longleftrightarrow> registry_effect_contract reg name \<noteq> None"
proof -
  have "name \<in> set (effect_contract_names reg) \<longleftrightarrow> (\<exists>e. (name, e) \<in> set (reg_entries reg) \<and> te_effect_contract e \<noteq> None)"
    by (force simp: effect_contract_names_def)
  also have "\<dots> \<longleftrightarrow> registry_effect_contract reg name \<noteq> None"
    unfolding registry_effect_contract_def bind_eq_None_conv using assms map_of_eq_Some_iff [of "reg_entries reg" name]
    by (metis not_None_eq option.inject option.sel)
  finally show ?thesis .
qed

lemma registry_loaded_distinct:
  assumes "registry_loaded reg"
  shows "distinct (map fst (reg_entries reg))"
  using assms unfolding registry_loaded_def
  by (auto elim!: registry_from_toml_str_Inr dest: parse_entries_distinct)

lemma risk_fact_mismatches_Nil:
  "risk_fact_mismatches m reg names = [] \<longleftrightarrow>
     (\<forall>name \<in> set names. \<forall>f rule. manifest_tool m name = Some f \<and> rule \<in> set (registry_risk_rules reg name)
        \<longrightarrow> fact_matches f rule)"
  by (auto simp: risk_fact_mismatches_def filter_empty_conv split: option.splits)

lemma rules_imply_contract:
  assumes "registry_loaded reg" and "rule \<in> set (registry_risk_rules reg name)"
  shows "registry_effect_contract reg name \<noteq> None"
  using registry.rules_covered [OF assms(1)] assms(2) by (auto simp: registry_resolver_def)

lemma manifest_tool_names_iff: "name \<in> set (manifest_tool_names m) \<longleftrightarrow> manifest_tool m name \<noteq> None"
  by (force simp: manifest_tool_names_def manifest_tool_def map_of_eq_None_iff)

section \<open>Properties\<close>

text \<open>
  An accepted upstream manifest is pinned and reviewed. When the text is accepted, it has schema major two,
  comes from the pinned repository at a full lower-case commit id, and lists at least one tool and no tool twice;
  every tool it lists has a plain lower-case name, a validated acyclic path contract, is marked destructive exactly
  when its contract writes, creates or deletes anything, describes the shape of declared arguments only, with an item
  kind exactly for collections, and carries both kinds of review evidence with source paths that stay inside the
  repository.
\<close>

theorem accepted_upstream_manifest_is_pinned_and_reviewed:
  assumes "manifest_from_json_str decode text = Inr m"
  shows "strict_semver_major (um_schema_version m) = Some 2
    \<and> ms_repository (um_source m) = ''oaslananka/kicad-mcp-pro'' \<and> is_lower_hex_sha (ms_reviewed_source_sha (um_source m))
    \<and> um_tools m \<noteq> [] \<and> distinct (manifest_tool_names m)
    \<and> (\<forall>name f. manifest_tool m name = Some f \<longrightarrow> valid_tool_name name \<and> contract_ok (tc_path_arguments (rf_contract f))
        \<and> (rf_destructive f \<longleftrightarrow> changes_state (rf_contract f))
        \<and> list_all (shape_ok (tc_arguments (rf_contract f))) (rf_argument_shapes f)
        \<and> rf_verification_requirements f = {SourceReview, InputSchemaMatch}
        \<and> rf_reviewed_source_paths f \<noteq> [] \<and> list_all is_safe_source_path (rf_reviewed_source_paths f))"
proof -
  note ok = manifest_from_json_str_Inr [OF assms]
  have "X = {SourceReview, InputSchemaMatch}" if "SourceReview \<in> X" "InputSchemaMatch \<in> X"
    for X :: "effect_verification_requirement set"
    using that effect_verification_requirement.exhaust by blast
  with ok show ?thesis
    by (auto simp: manifest_tool_names_def UPSTREAM_EFFECT_MANIFEST_REPOSITORY_def facts_ok_def)
qed

text \<open>
  An exact match means that both sources say the same. Comparing an accepted manifest with a loaded registry
  succeeds and reports an exact match if and only if the two agree on the effect contract of every tool name, or on
  having none, and the manifest supports with an argument shape every fact that a local risk rule reads.
\<close>

theorem exact_match_is_agreement_on_every_tool:
  assumes "manifest_from_json_str decode text = Inr m" and "registry_loaded reg"
  shows "(\<exists>r. reconcile_with_fallback m reg = Inr r \<and> is_exact_match r) \<longleftrightarrow>
      (\<forall>name. map_option rf_contract (manifest_tool m name) = registry_effect_contract reg name)
      \<and> (\<forall>name f rule. manifest_tool m name = Some f \<and> rule \<in> set (registry_risk_rules reg name) \<longrightarrow> fact_matches f rule)"
    (is "?match \<longleftrightarrow> ?contracts \<and> ?facts")
proof -
  let ?up = "fset_of_list (manifest_tool_names m)" and ?fb = "fset_of_list (effect_contract_names reg)"
  note names = manifest_tool_names_iff effect_contract_names_iff [OF registry_loaded_distinct [OF assms(2)]]
  have known: "registry_resolve reg n \<noteq> None" if "registry_effect_contract reg n \<noteq> None" for n
    using registry.contract_known [OF assms(2)] that by (auto simp: registry_resolver_def)
  let ?both = "sorted_list_of_fset (?up |\<inter>| ?fb)"
  have both: "n \<in> set ?both \<longleftrightarrow> manifest_tool m n \<noteq> None \<and> registry_effect_contract reg n \<noteq> None" for n
    by (simp add: sorted_list_of_fset.rep_eq fset_of_list.rep_eq names)
  have same: "?up |-| ?fb = {||} \<longleftrightarrow> (\<forall>n. manifest_tool m n \<noteq> None \<longrightarrow> registry_effect_contract reg n \<noteq> None)"
    "?fb |-| ?up = {||} \<longleftrightarrow> (\<forall>n. registry_effect_contract reg n \<noteq> None \<longrightarrow> manifest_tool m n \<noteq> None)"
    unfolding names [symmetric] by (auto simp: fset_eq_iff fset_of_list_elem)
  have resolved: "List.find (\<lambda>n. registry_resolve reg n = None) (manifest_tool_names m) = None \<longleftrightarrow>
      (\<forall>n. manifest_tool m n \<noteq> None \<longrightarrow> registry_resolve reg n \<noteq> None)"
    unfolding find_None_iff names [symmetric] by (metis (no_types, lifting))
  have "?match \<longleftrightarrow> List.find (\<lambda>n. registry_resolve reg n = None) (manifest_tool_names m) = None
      \<and> ?up |-| ?fb = {||} \<and> ?fb |-| ?up = {||}
      \<and> (\<forall>n \<in> set ?both. map_option rf_contract (manifest_tool m n) = registry_effect_contract reg n)
      \<and> risk_fact_mismatches m reg ?both = []"
  proof -
    have nil: "sorted_list_of_fset A = [] \<longleftrightarrow> A = {||}" for A :: "string fset"
      by (simp add: sorted_list_of_fset.rep_eq fset_inject [symmetric])
    have mism: "filter (\<lambda>n. case (manifest_tool m n, registry_effect_contract reg n) of
          (Some u, Some v) \<Rightarrow> rf_contract u \<noteq> v | _ \<Rightarrow> False) ?both = [] \<longleftrightarrow>
        (\<forall>n \<in> set ?both. map_option rf_contract (manifest_tool m n) = registry_effect_contract reg n)"
      unfolding filter_empty_conv
    proof (rule ball_cong [OF refl])
      fix n assume "n \<in> set ?both"
      then show "\<not> (case (manifest_tool m n, registry_effect_contract reg n) of
            (Some u, Some v) \<Rightarrow> rf_contract u \<noteq> v | _ \<Rightarrow> False)
          \<longleftrightarrow> map_option rf_contract (manifest_tool m n) = registry_effect_contract reg n"
        unfolding both by (cases "manifest_tool m n"; cases "registry_effect_contract reg n") simp_all
    qed
    show ?thesis
      unfolding reconcile_with_fallback_def is_exact_match_def Let_def mism [symmetric] nil [symmetric]
      by (simp split: option.split) blast
  qed
  also have "\<dots> \<longleftrightarrow> ?contracts \<and> ?facts"
  proof -
    have c: "?contracts \<longleftrightarrow> (\<forall>n. manifest_tool m n \<noteq> None \<longrightarrow> registry_effect_contract reg n \<noteq> None)
        \<and> (\<forall>n. registry_effect_contract reg n \<noteq> None \<longrightarrow> manifest_tool m n \<noteq> None)
        \<and> (\<forall>n \<in> set ?both. map_option rf_contract (manifest_tool m n) = registry_effect_contract reg n)"
      unfolding Ball_def both by (metis option.map_disc_iff)
    have f: "risk_fact_mismatches m reg ?both = [] \<longleftrightarrow> ?facts"
      unfolding risk_fact_mismatches_Nil Ball_def both
      using rules_imply_contract [OF assms(2)] by (metis option.distinct(1))
    have assoc: "(A \<and> B \<and> C \<and> D \<and> E) \<longleftrightarrow> (B \<and> C \<and> D) \<and> E" if "B \<Longrightarrow> A" for A B C D E
      using that by blast
    show ?thesis unfolding resolved same c f by (rule assoc) (use known in blast)
  qed
  finally show ?thesis .
qed

section \<open>Witnesses\<close>

definition sample_raw_tool :: raw_tool where
  "sample_raw_tool = \<lparr>rt_name = ''a'', rt_arguments = [''overwrite''], rt_effects = [Write], rt_path_arguments = [],
     rt_argument_shapes = [\<lparr>ras_argument = ''overwrite'', ras_value_kind = AvBoolean, ras_item_kind = None,
       ras_breadth_dimension = None\<rparr>],
     rt_destructive = True, rt_idempotent = False, rt_supports_dry_run = False, rt_supports_rollback = False,
     rt_transaction_support = NoTransactions, rt_verification_requirements = [SourceReview, InputSchemaMatch],
     rt_reviewed_source_paths = [''src/a.py'']\<rparr>"

definition sample_raw_manifest :: raw_manifest where
  "sample_raw_manifest = \<lparr>rm_schema_version = ''2.0.0'',
     rm_source = \<lparr>rws_repository = ''oaslananka/kicad-mcp-pro'', rws_version = ''1.2.3'',
       rws_reviewed_source_sha = replicate 40 (CHR ''0'')\<rparr>,
     rm_tools = [sample_raw_tool]\<rparr>"

definition sample_facts :: reviewed_tool_effect_facts where
  "sample_facts = \<lparr>rf_contract = \<lparr>tc_arguments = {|''overwrite''|}, tc_effects = {|Write|}, tc_path_arguments = []\<rparr>,
     rf_argument_shapes = [\<lparr>sh_argument = ''overwrite'', sh_value_kind = AvBoolean, sh_item_kind = None,
       sh_breadth_dimension = None\<rparr>],
     rf_destructive = True, rf_idempotent = False, rf_supports_dry_run = False, rf_supports_rollback = False,
     rf_transaction_support = NoTransactions, rf_verification_requirements = {SourceReview, InputSchemaMatch},
     rf_reviewed_source_paths = [''src/a.py'']\<rparr>"

definition sample_upstream :: upstream_effect_manifest where
  "sample_upstream = \<lparr>um_schema_version = ''2.0.0'',
     um_source = \<lparr>ms_repository = ''oaslananka/kicad-mcp-pro'', ms_version = ''1.2.3'',
       ms_reviewed_source_sha = replicate 40 (CHR ''0'')\<rparr>,
     um_tools = [(''a'', sample_facts)]\<rparr>"

lemma sample_upstream_parses: "manifest_from_json_str (\<lambda>_. Inr sample_raw_manifest) [] = Inr sample_upstream"
proof -
  have t: "tool_effect_contract_new [''overwrite''] [Write] []
      = Inr \<lparr>tc_arguments = {|''overwrite''|}, tc_effects = {|Write|}, tc_path_arguments = []\<rparr>"
    by (simp add: tool_effect_contract_new_def blank_def is_white_def validate_path_dependencies_def)
  have safe: "is_safe_source_path ''src/a.py''" by code_simp
  have name: "valid_tool_name ''a''" by code_simp
  have semver: "strict_semver_major ''2.0.0'' = Some 2" "strict_semver_major ''1.2.3'' = Some 1"
    by (simp_all add: strict_semver_major_def parse_usize_def digit_value_def is_ascii_digit_def)
  have sha: "is_lower_hex_sha (replicate 40 (CHR ''0''))"
    by (simp add: is_lower_hex_sha_def utf8_len_def is_ascii_digit_def list_all_iff map_replicate sum_list_replicate)
  have "parse_tool sample_raw_tool = Inr (''a'', sample_facts)"
    by (simp add: parse_tool_def sample_raw_tool_def validate_tool_name_def name reject_duplicates_def
        parse_argument_shapes_def parse_review_evidence_def safe parse_path_arguments_def is_mutating_effect_def t
        sample_facts_def)
  then show ?thesis
    by (simp add: manifest_from_json_str_def sample_raw_manifest_def validate_schema_version_def semver
        UPSTREAM_EFFECT_MANIFEST_SCHEMA_MAJOR_def parse_source_def UPSTREAM_EFFECT_MANIFEST_REPOSITORY_def sha
        parse_tools_def sample_upstream_def)
qed

theorem accepted_upstream_manifest_is_pinned_and_reviewed_witness:
  "manifest_tool sample_upstream ''a'' = Some sample_facts \<and> changes_state (rf_contract sample_facts)"
proof -
  have "manifest_tool sample_upstream ''a'' = Some sample_facts" and "rf_destructive sample_facts"
    by (simp_all add: manifest_tool_def sample_upstream_def sample_facts_def)
  with accepted_upstream_manifest_is_pinned_and_reviewed [OF sample_upstream_parses] show ?thesis by blast
qed

theorem exact_match_is_agreement_on_every_tool_witness:
  "\<exists>r. reconcile_with_fallback sample_upstream sample_registry = Inr r \<and> is_exact_match r"
proof -
  have "registry_loaded sample_registry"
    using sample_registry_loads unfolding registry_loaded_def try_embedded_def rbind_Inr_conv
    by (auto split: if_splits list.splits)
  moreover have "map_option rf_contract (manifest_tool sample_upstream n) = registry_effect_contract sample_registry n" for n
    by (simp add: manifest_tool_def sample_upstream_def sample_facts_def registry_effect_contract_def sample_registry_def)
  moreover have "fact_matches f rule"
    if "manifest_tool sample_upstream n = Some f" "rule \<in> set (registry_risk_rules sample_registry n)" for n f rule
    using that by (auto simp: manifest_tool_def sample_upstream_def sample_facts_def registry_risk_rules_def
        sample_registry_def argument_shape_def split: if_splits)
  ultimately show ?thesis
    using exact_match_is_agreement_on_every_tool [OF sample_upstream_parses] by blast
qed

end
