(* ===== verification/Gateway_Reconcile.thy ===== *)
theory Gateway_Reconcile
  imports Gateway_Upstream Gateway_Bytes
begin

text \<open>
  The two maintenance programs of the policy crate (\<^verbatim>\<open>src/crates/policy/src/bin/reconcile-tool-registry.rs\<close> and
  \<^verbatim>\<open>reconcile-upstream-effect-manifest.rs\<close>): the refresh of the catalogue snapshot and the gate that compares the upstream
  manifest with the pinned production registry.

  Files, the TOML printer and the decoders are arguments, errors are the texts the programs end with, and what they print
  besides the snapshot is left out. Characters are code points below 256, so \<open>from_utf8\<close> decodes the two-byte forms of
  UTF-8 that these have and refuses the rest.
\<close>

section \<open>The upstream manifest gate\<close>

definition MAX_MANIFEST_BYTES :: nat where
  "MAX_MANIFEST_BYTES = 1024 * 1024"

fun from_utf8 :: "8 word list \<Rightarrow> string option" where
  "from_utf8 [] = Some []"
| "from_utf8 (b # bs) =
     (if b < 128 then map_option ((#) (char_of (unat b))) (from_utf8 bs)
      else case bs of
        c # cs \<Rightarrow>
          if 0xC2 \<le> b \<and> b \<le> 0xC3 \<and> 128 \<le> c \<and> c < 192
          then map_option ((#) (char_of ((unat b - 192) * 64 + (unat c - 128)))) (from_utf8 cs) else None
      | [] \<Rightarrow> None)"

text \<open>\<open>io\<close> is a fault of reading the standard input; \<open>take\<close> hands over at most one byte more than the limit.\<close>

definition read_manifest :: "string option \<Rightarrow> 8 word list \<Rightarrow> string + string" where
  "read_manifest io input =
     (let limited = take (MAX_MANIFEST_BYTES + 1) input in
      case io of
        Some e \<Rightarrow> Inl e
      | None \<Rightarrow>
          (case from_utf8 limited of
             None \<Rightarrow> Inl ''stream did not contain valid UTF-8''
           | Some text \<Rightarrow>
               if length limited > MAX_MANIFEST_BYTES
                 then Inl ''tool-effect manifest exceeds the 1 MiB reconciliation limit''
               else if trim text = [] then Inl ''tool-effect manifest input is empty''
               else Inr text))"

record reconcile_inputs =
  ri_decode_manifest :: "string \<Rightarrow> string + raw_manifest"
  ri_decode_registry :: "string \<Rightarrow> string + tool_registry_file"
  ri_snapshot :: tool_catalog_snapshot
  ri_registry_asset :: string
  ri_manifest_error_text :: "upstream_effect_manifest_error \<Rightarrow> string"
  ri_registry_error_text :: "tool_registry_error \<Rightarrow> string"
  ri_catalog_error_text :: "tool_catalog_error \<Rightarrow> string"
  ri_to_toml :: "tool_catalog_snapshot \<Rightarrow> tool_catalog_error + string"

definition embedded_registry :: "reconcile_inputs \<Rightarrow> string + tool_registry" where
  "embedded_registry R =
     map_err (ri_registry_error_text R) (try_embedded (ri_decode_registry R) (ri_snapshot R) (ri_registry_asset R))"

definition reconcile_upstream_main :: "reconcile_inputs \<Rightarrow> string option \<Rightarrow> 8 word list \<Rightarrow> string + unit" where
  "reconcile_upstream_main R io input =
     rbind (read_manifest io input) (\<lambda>json.
     rbind (map_err (ri_manifest_error_text R) (manifest_from_json_str (ri_decode_manifest R) json)) (\<lambda>manifest.
     rbind (embedded_registry R) (\<lambda>registry.
     rbind (map_err (ri_manifest_error_text R) (reconcile_with_fallback manifest registry)) (\<lambda>report.
     if isl (manifest_validate_source manifest (ri_snapshot R)) \<or> \<not> is_exact_match report
     then Inl ''upstream effect manifest is not an exact production fallback/source-pin match''
     else Inr ()))))"

section \<open>The catalogue refresh\<close>

definition USAGE :: string where
  "USAGE = ''usage: reconcile-tool-registry <tools-reference.generated.md> <source-sha> [output.toml]''"

text \<open>
  What the refresh leaves behind: nothing after the help text, otherwise the snapshot's TOML, in the named file or on the
  standard output, and the coverage report it prints.
\<close>

datatype refresh_outcome =
    HelpShown
  | SnapshotWritten string string tool_registry_coverage
  | SnapshotPrinted string tool_registry_coverage

definition reconcile_registry_main ::
  "reconcile_inputs \<Rightarrow> (string \<Rightarrow> string + string) \<Rightarrow> (string \<Rightarrow> string option) \<Rightarrow> string list \<Rightarrow> string + refresh_outcome" where
  "reconcile_registry_main R read_file write_fault args =
     (if args = [] \<or> ''--help'' \<in> set args \<or> ''-h'' \<in> set args then Inr HelpShown
      else if \<not> (2 \<le> length args \<and> length args \<le> 3) then Inl USAGE
      else
        rbind (read_file (args ! 0)) (\<lambda>markdown.
        rbind (map_err (ri_catalog_error_text R)
          (from_tools_reference_markdown ''oaslananka/kicad-mcp-pro'' ''main'' (args ! 1) markdown)) (\<lambda>snapshot.
        rbind (embedded_registry R) (\<lambda>registry.
        let report = coverage_against registry snapshot in
        rbind (map_err (ri_catalog_error_text R) (ri_to_toml R snapshot)) (\<lambda>toml.
        if 2 < length args
        then case write_fault (args ! 2) of Some e \<Rightarrow> Inl e | None \<Rightarrow> Inr (SnapshotWritten (args ! 2) toml report)
        else Inr (SnapshotPrinted toml report))))))"

section \<open>Lemmas\<close>

lemma from_utf8_ascii: "\<forall>c \<in> set s. of_char c < (128 :: nat) \<Longrightarrow> from_utf8 (utf8 s) = Some s"
proof (induction s)
  case (Cons c s)
  then have n: "of_char c < (128 :: nat)" by simp
  then have "unat (of_nat (of_char c) :: 8 word) = of_char c" by (simp add: unat_of_nat)
  moreover from this n have "(of_nat (of_char c) :: 8 word) < 128" by (simp add: word_less_nat_alt)
  ultimately show ?case using Cons n by (simp add: utf8_char_def Let_def)
qed simp

lemma read_manifest_Inr:
  "read_manifest io input = Inr json \<longleftrightarrow>
     io = None \<and> length input \<le> MAX_MANIFEST_BYTES \<and> from_utf8 input = Some json \<and> \<not> blank json"
  by (auto simp: read_manifest_def Let_def trim_Nil_iff_blank min_def split: option.splits if_splits)

lemma try_embedded_loaded: "try_embedded decode sn asset = Inr reg \<Longrightarrow> registry_loaded reg"
  unfolding registry_loaded_def try_embedded_def rbind_Inr_conv by (auto split: if_splits list.splits)

lemma manifest_validate_source_Inr:
  "\<not> isl (manifest_validate_source m sn) \<longleftrightarrow>
     ms_repository (um_source m) = sn_source_repository sn \<and> ms_reviewed_source_sha (um_source m) = sn_source_sha sn"
  by (simp add: manifest_validate_source_def)

section \<open>Properties\<close>

text \<open>
  C39: The reconciliation gate is exact. It passes if and only if the input is readable, at most one mebibyte of UTF-8 text
  that is not blank, and parses to an accepted manifest which agrees with the embedded production registry on the effect
  contract of every tool name (or on having none), supports every fact a local risk rule reads, and was reviewed at exactly
  the repository and commit the catalogue snapshot is pinned to.
\<close>

theorem upstream_gate_passes_only_an_exact_match:
  "reconcile_upstream_main R io input = Inr () \<longleftrightarrow>
    (\<exists>json m reg. io = None \<and> length input \<le> MAX_MANIFEST_BYTES \<and> from_utf8 input = Some json \<and> \<not> blank json
      \<and> manifest_from_json_str (ri_decode_manifest R) json = Inr m
      \<and> try_embedded (ri_decode_registry R) (ri_snapshot R) (ri_registry_asset R) = Inr reg
      \<and> (\<forall>name. map_option rf_contract (manifest_tool m name) = registry_effect_contract reg name)
      \<and> (\<forall>name f rule. manifest_tool m name = Some f \<and> rule \<in> set (registry_risk_rules reg name) \<longrightarrow> fact_matches f rule)
      \<and> ms_repository (um_source m) = sn_source_repository (ri_snapshot R)
      \<and> ms_reviewed_source_sha (um_source m) = sn_source_sha (ri_snapshot R))"
proof -
  have gate: "rbind (map_err g (reconcile_with_fallback m reg)) (\<lambda>report.
      if isl (manifest_validate_source m sn) \<or> \<not> is_exact_match report then Inl x else Inr ()) = Inr ()
    \<longleftrightarrow> (\<exists>r. reconcile_with_fallback m reg = Inr r \<and> is_exact_match r)
      \<and> ms_repository (um_source m) = sn_source_repository sn \<and> ms_reviewed_source_sha (um_source m) = sn_source_sha sn"
    for g m reg sn and x :: string
    unfolding manifest_validate_source_Inr [symmetric] by (auto simp: rbind_Inr_conv)
  have match: "(\<exists>r. reconcile_with_fallback m reg = Inr r \<and> is_exact_match r) \<longleftrightarrow>
      (\<forall>name. map_option rf_contract (manifest_tool m name) = registry_effect_contract reg name)
      \<and> (\<forall>name f rule. manifest_tool m name = Some f \<and> rule \<in> set (registry_risk_rules reg name) \<longrightarrow> fact_matches f rule)"
    if "manifest_from_json_str (ri_decode_manifest R) json = Inr m"
      "try_embedded (ri_decode_registry R) (ri_snapshot R) (ri_registry_asset R) = Inr reg" for json m reg
    using exact_match_is_agreement_on_every_tool [OF that(1) try_embedded_loaded [OF that(2)]] .
  have "reconcile_upstream_main R io input = Inr () \<longleftrightarrow>
    (\<exists>json. read_manifest io input = Inr json \<and> (\<exists>m. manifest_from_json_str (ri_decode_manifest R) json = Inr m
      \<and> (\<exists>reg. try_embedded (ri_decode_registry R) (ri_snapshot R) (ri_registry_asset R) = Inr reg
        \<and> (\<exists>r. reconcile_with_fallback m reg = Inr r \<and> is_exact_match r)
        \<and> ms_repository (um_source m) = sn_source_repository (ri_snapshot R)
        \<and> ms_reviewed_source_sha (um_source m) = sn_source_sha (ri_snapshot R))))"
    unfolding reconcile_upstream_main_def embedded_registry_def
    by (simp only: rbind_Inr_conv [of "read_manifest io input"]
        rbind_Inr_conv [of "map_err (ri_manifest_error_text R) (manifest_from_json_str (ri_decode_manifest R) json)" for json]
        rbind_Inr_conv [of "map_err (ri_registry_error_text R) z" for z] map_err_Inr_conv gate)
  then show ?thesis using match unfolding read_manifest_Inr by (smt (verit))
qed

section \<open>Witness\<close>

definition pinned_catalog :: tool_catalog_snapshot where
  "pinned_catalog = sample_catalog\<lparr>sn_source_repository := ''oaslananka/kicad-mcp-pro'',
     sn_source_sha := replicate 40 (CHR ''0'')\<rparr>"

definition pinned_registry_file :: tool_registry_file where
  "pinned_registry_file = sample_registry_file\<lparr>trf_source_repository := Some ''oaslananka/kicad-mcp-pro'',
     trf_source_sha := Some (replicate 40 (CHR ''0''))\<rparr>"

definition pinned_registry :: tool_registry where
  "pinned_registry = sample_registry\<lparr>reg_source := Some \<lparr>tcs_contract_version = 1,
     tcs_source_repository = ''oaslananka/kicad-mcp-pro'', tcs_source_ref = ''m'',
     tcs_source_sha = replicate 40 (CHR ''0'')\<rparr>\<rparr>"

definition sample_reconcile :: reconcile_inputs where
  "sample_reconcile = \<lparr>ri_decode_manifest = (\<lambda>_. Inr sample_raw_manifest), ri_decode_registry = (\<lambda>_. Inr pinned_registry_file),
     ri_snapshot = pinned_catalog, ri_registry_asset = [], ri_manifest_error_text = (\<lambda>_. []),
     ri_registry_error_text = (\<lambda>_. []), ri_catalog_error_text = (\<lambda>_. []), ri_to_toml = (\<lambda>_. Inr [])\<rparr>"

lemma pinned_registry_loads: "try_embedded (\<lambda>_. Inr pinned_registry_file) pinned_catalog [] = Inr pinned_registry"
proof -
  have contract: "tool_effect_contract_new [''overwrite''] [Write] []
      = Inr \<lparr>tc_arguments = {|''overwrite''|}, tc_effects = {|Write|}, tc_path_arguments = []\<rparr>"
    by (simp add: tool_effect_contract_new_def blank_def is_white_def validate_path_dependencies_def)
  have entry: "parse_entry (reg_source pinned_registry) sample_entry_raw = Inr (snd (hd (reg_entries pinned_registry)))"
    by (simp add: parse_entry_def sample_entry_raw_def pinned_registry_def sample_registry_def capability_parse_def
        capability_ALL_def risk_parse_def parse_effect_contract_def parse_effects_def parse_effect_def
        contract parse_risk_rules_def validate_rule_argument_def validate_rule_effect_def
        contract_has_effect_def validate_rule_escalation_def less_eq_risk_level_def Let_def)
  have "registry_from_toml_str (\<lambda>_. Inr pinned_registry_file) pinned_catalog [] = Inr pinned_registry"
    using entry by (simp add: registry_from_toml_str_def pinned_registry_file_def sample_registry_file_def pinned_registry_def
        sample_registry_def pinned_catalog_def sample_catalog_def parse_contract_source_def TOOL_EFFECT_CONTRACT_VERSION_def
        Let_def validate_source_def validate_source_fields_def sample_entry_raw_def)
  then show ?thesis
    by (simp add: try_embedded_def pinned_registry_def sample_registry_def coverage_against_def
        coverage_against_tool_names_def pinned_catalog_def sample_catalog_def sorted_list_of_fset.rep_eq Let_def)
qed

theorem upstream_gate_passes_only_an_exact_match_witness:
  "reconcile_upstream_main sample_reconcile None (utf8 ''x'') = Inr ()"
proof -
  have parsed: "manifest_from_json_str (\<lambda>_. Inr sample_raw_manifest) ''x'' = Inr sample_upstream"
    using sample_upstream_parses by (simp add: manifest_from_json_str_def)
  have "length (utf8 ''x'') \<le> MAX_MANIFEST_BYTES" "\<not> blank ''x''"
    by (simp_all add: MAX_MANIFEST_BYTES_def utf8_char_def blank_def is_white_def)
  moreover have "from_utf8 (utf8 ''x'') = Some ''x''" by (rule from_utf8_ascii) simp
  moreover have "map_option rf_contract (manifest_tool sample_upstream n) = registry_effect_contract pinned_registry n" for n
    by (simp add: manifest_tool_def sample_upstream_def sample_facts_def registry_effect_contract_def pinned_registry_def
        sample_registry_def)
  moreover have "fact_matches f rule"
    if "manifest_tool sample_upstream n = Some f" "rule \<in> set (registry_risk_rules pinned_registry n)" for n f rule
    using that by (auto simp: manifest_tool_def sample_upstream_def sample_facts_def registry_risk_rules_def
        pinned_registry_def sample_registry_def argument_shape_def split: if_splits)
  moreover have "ms_repository (um_source sample_upstream) = sn_source_repository pinned_catalog"
    "ms_reviewed_source_sha (um_source sample_upstream) = sn_source_sha pinned_catalog"
    by (simp_all add: sample_upstream_def pinned_catalog_def)
  ultimately show ?thesis
    using parsed pinned_registry_loads
    unfolding upstream_gate_passes_only_an_exact_match sample_reconcile_def reconcile_inputs.select_convs by blast
qed

end
