(* ===== verification/Gateway_Secrets.thy ===== *)
theory Gateway_Secrets
  imports Gateway_Identity
begin

text \<open>
  The production secret stores (\<^verbatim>\<open>src/crates/identity/src/secret_store/native_keyring.rs\<close> on Linux and macOS,
  \<^verbatim>\<open>windows_dpapi.rs\<close> on Windows).

  The keyring of the operating system and the DPAPI calls are parameters, with what the stores rely on as the predicates
  \<open>keyring_ok\<close> and \<open>dpapi_ok\<close>; the files of the DPAPI store are a map from file names, and a counter in the state picks the
  fault of each access. A key is a list of 32 bytes. Wiping of memory is left out.
\<close>

section \<open>The native keyring\<close>

datatype keyring_error = KeyringNoEntry | KeyringFailure string

record 'k keyring_provider =
  kp_build :: "string \<Rightarrow> string \<Rightarrow> string option"
  kp_set_secret :: "string \<Rightarrow> string \<Rightarrow> 8 word list \<Rightarrow> 'k \<Rightarrow> keyring_error option \<times> 'k"
  kp_get_secret :: "string \<Rightarrow> string \<Rightarrow> 'k \<Rightarrow> keyring_error + 8 word list"
  kp_delete_credential :: "string \<Rightarrow> string \<Rightarrow> 'k \<Rightarrow> keyring_error option \<times> 'k"
  kp_error_text :: "keyring_error \<Rightarrow> string"

record 'k system_keyring =
  sy_poisoned :: bool
  sy_keyring :: 'k

definition SERVICE_NAME :: string where
  "SERVICE_NAME = ''dev.oaslananka.kicad-mcp-pro-gateway.device-key''"

definition lock_operations :: "'k system_keyring \<Rightarrow> string + unit" where
  "lock_operations y = (if sy_poisoned y then Inl ''credential operation lock poisoned'' else Inr ())"

definition keyring_entry :: "'k keyring_provider \<Rightarrow> string \<Rightarrow> string \<Rightarrow> string + unit" where
  "keyring_entry P service account = (case kp_build P service account of Some e \<Rightarrow> Inl e | None \<Rightarrow> Inr ())"

definition system_set_secret ::
  "'k keyring_provider \<Rightarrow> string \<Rightarrow> string \<Rightarrow> 8 word list \<Rightarrow> 'k system_keyring \<Rightarrow> (string + unit) \<times> 'k system_keyring" where
  "system_set_secret P service account secret y =
     (case rbind (lock_operations y) (\<lambda>_. keyring_entry P service account) of
        Inl e \<Rightarrow> (Inl e, y)
      | Inr _ \<Rightarrow>
          (case kp_set_secret P service account secret (sy_keyring y) of
             (None, k) \<Rightarrow> (Inr (), y\<lparr>sy_keyring := k\<rparr>)
           | (Some e, k) \<Rightarrow> (Inl (kp_error_text P e), y\<lparr>sy_keyring := k\<rparr>)))"

definition system_get_secret ::
  "'k keyring_provider \<Rightarrow> string \<Rightarrow> string \<Rightarrow> 'k system_keyring \<Rightarrow> string + 8 word list option" where
  "system_get_secret P service account y =
     rbind (lock_operations y) (\<lambda>_.
     rbind (keyring_entry P service account) (\<lambda>_.
     case kp_get_secret P service account (sy_keyring y) of
       Inr secret \<Rightarrow> Inr (Some secret)
     | Inl KeyringNoEntry \<Rightarrow> Inr None
     | Inl e \<Rightarrow> Inl (kp_error_text P e)))"

definition system_delete_secret ::
  "'k keyring_provider \<Rightarrow> string \<Rightarrow> string \<Rightarrow> 'k system_keyring \<Rightarrow> (string + unit) \<times> 'k system_keyring" where
  "system_delete_secret P service account y =
     (case rbind (lock_operations y) (\<lambda>_. keyring_entry P service account) of
        Inl e \<Rightarrow> (Inl e, y)
      | Inr _ \<Rightarrow>
          (case kp_delete_credential P service account (sy_keyring y) of
             (None, k) \<Rightarrow> (Inr (), y\<lparr>sy_keyring := k\<rparr>)
           | (Some KeyringNoEntry, k) \<Rightarrow> (Inr (), y\<lparr>sy_keyring := k\<rparr>)
           | (Some e, k) \<Rightarrow> (Inl (kp_error_text P e), y\<lparr>sy_keyring := k\<rparr>)))"

definition device_account :: "(ulid \<Rightarrow> string) \<Rightarrow> device_id \<Rightarrow> string" where
  "device_account put i = id_display put ''dev'' (dev_ulid i)"

definition native_store_device_key ::
  "'k keyring_provider \<Rightarrow> (ulid \<Rightarrow> string) \<Rightarrow> device_id \<Rightarrow> signing_key \<Rightarrow> 'k system_keyring
   \<Rightarrow> (secret_store_error + unit) \<times> 'k system_keyring" where
  "native_store_device_key P put i key y =
     (case system_set_secret P SERVICE_NAME (device_account put i) key y of (r, y') \<Rightarrow> (map_err SecretBackend r, y'))"

definition native_load_device_key ::
  "'k keyring_provider \<Rightarrow> (ulid \<Rightarrow> string) \<Rightarrow> device_id \<Rightarrow> 'k system_keyring \<Rightarrow> secret_store_error + signing_key option" where
  "native_load_device_key P put i y =
     rbind (map_err SecretBackend (system_get_secret P SERVICE_NAME (device_account put i) y)) (\<lambda>found.
     case found of
       None \<Rightarrow> Inr None
     | Some secret \<Rightarrow>
         if length secret \<noteq> 32 then Inl (SecretBackend ''stored device key has wrong length'') else Inr (Some secret))"

definition native_delete_device_key ::
  "'k keyring_provider \<Rightarrow> (ulid \<Rightarrow> string) \<Rightarrow> device_id \<Rightarrow> 'k system_keyring
   \<Rightarrow> (secret_store_error + unit) \<times> 'k system_keyring" where
  "native_delete_device_key P put i y =
     (case system_delete_secret P SERVICE_NAME (device_account put i) y of (r, y') \<Rightarrow> (map_err SecretBackend r, y'))"

definition NativeKeyringSecretStore :: "'k keyring_provider \<Rightarrow> (ulid \<Rightarrow> string) \<Rightarrow> 'k system_keyring secret_store" where
  "NativeKeyringSecretStore P put =
     \<lparr>ss_store_device_key = native_store_device_key P put, ss_load_device_key = native_load_device_key P put,
      ss_delete_device_key = native_delete_device_key P put\<rparr>"

section \<open>DPAPI\<close>

record dpapi_host =
  dh_create_dir :: "nat \<Rightarrow> string option"
  dh_protect :: "nat \<Rightarrow> 8 word list \<Rightarrow> string + 8 word list"
  dh_unprotect :: "8 word list \<Rightarrow> string + 8 word list"
  dh_write :: "nat \<Rightarrow> (string \<times> 8 word list option) option"
  dh_stat_fault :: "nat \<Rightarrow> bool"
  dh_read :: "nat \<Rightarrow> string option"
  dh_remove :: "nat \<Rightarrow> string option"

record dpapi_store =
  ds_tick :: nat
  ds_files :: "string \<Rightarrow> 8 word list option"

definition dpapi_path_for :: "(ulid \<Rightarrow> string) \<Rightarrow> device_id \<Rightarrow> string" where
  "dpapi_path_for put i = device_account put i @ ''.bin''"

definition dpapi_exists :: "dpapi_host \<Rightarrow> string \<Rightarrow> dpapi_store \<Rightarrow> bool" where
  "dpapi_exists H f s \<longleftrightarrow> ds_files s f \<noteq> None \<and> \<not> dh_stat_fault H (ds_tick s)"

text \<open>The lengths go to the system as 32-bit integers.\<close>

definition protect :: "dpapi_host \<Rightarrow> nat \<Rightarrow> 8 word list \<Rightarrow> secret_store_error + 8 word list" where
  "protect H t plaintext =
     map_err (\<lambda>e. SecretBackend (''CryptProtectData failed: '' @ e))
       (dh_protect H t (take (unat (of_nat (length plaintext) :: 32 word)) plaintext))"

definition unprotect :: "dpapi_host \<Rightarrow> 8 word list \<Rightarrow> secret_store_error + 8 word list" where
  "unprotect H ciphertext =
     map_err (\<lambda>e. SecretBackend (''CryptUnprotectData failed: '' @ e))
       (dh_unprotect H (take (unat (of_nat (length ciphertext) :: 32 word)) ciphertext))"

definition dpapi_store_device_key ::
  "dpapi_host \<Rightarrow> (ulid \<Rightarrow> string) \<Rightarrow> device_id \<Rightarrow> signing_key \<Rightarrow> dpapi_store \<Rightarrow> (secret_store_error + unit) \<times> dpapi_store" where
  "dpapi_store_device_key H put i key s =
     (let t = ds_tick s; s1 = s\<lparr>ds_tick := Suc t\<rparr>; f = dpapi_path_for put i in
      case dh_create_dir H t of
        Some e \<Rightarrow> (Inl (SecretBackend e), s1)
      | None \<Rightarrow>
          (case protect H t key of
             Inl e \<Rightarrow> (Inl e, s1)
           | Inr encrypted \<Rightarrow>
               (case dh_write H t of
                  Some (e, left) \<Rightarrow> (Inl (SecretBackend e), s1\<lparr>ds_files := (ds_files s)(f := left)\<rparr>)
                | None \<Rightarrow> (Inr (), s1\<lparr>ds_files := (ds_files s)(f \<mapsto> encrypted)\<rparr>))))"

definition dpapi_load_device_key ::
  "dpapi_host \<Rightarrow> (ulid \<Rightarrow> string) \<Rightarrow> device_id \<Rightarrow> dpapi_store \<Rightarrow> secret_store_error + signing_key option" where
  "dpapi_load_device_key H put i s =
     (let f = dpapi_path_for put i in
      if \<not> dpapi_exists H f s then Inr None
      else case dh_read H (ds_tick s) of
        Some e \<Rightarrow> Inl (SecretBackend e)
      | None \<Rightarrow>
          rbind (unprotect H (the (ds_files s f))) (\<lambda>decrypted.
          if length decrypted \<noteq> 32 then Inl (SecretBackend ''decrypted key has wrong length'') else Inr (Some decrypted)))"

definition dpapi_delete_device_key ::
  "dpapi_host \<Rightarrow> (ulid \<Rightarrow> string) \<Rightarrow> device_id \<Rightarrow> dpapi_store \<Rightarrow> (secret_store_error + unit) \<times> dpapi_store" where
  "dpapi_delete_device_key H put i s =
     (let t = ds_tick s; s1 = s\<lparr>ds_tick := Suc t\<rparr>; f = dpapi_path_for put i in
      if \<not> dpapi_exists H f s then (Inr (), s1)
      else case dh_remove H t of
        Some e \<Rightarrow> (Inl (SecretBackend e), s1)
      | None \<Rightarrow> (Inr (), s1\<lparr>ds_files := (ds_files s)(f := None)\<rparr>))"

definition DpapiSecretStore :: "dpapi_host \<Rightarrow> (ulid \<Rightarrow> string) \<Rightarrow> dpapi_store secret_store" where
  "DpapiSecretStore H put =
     \<lparr>ss_store_device_key = dpapi_store_device_key H put, ss_load_device_key = dpapi_load_device_key H put,
      ss_delete_device_key = dpapi_delete_device_key H put\<rparr>"

section \<open>What the stores promise\<close>

text \<open>A store keeps a key apart for each device, and hands out only keys of the right length.\<close>

definition keeps_keys :: "'s secret_store \<Rightarrow> bool" where
  "keeps_keys S \<longleftrightarrow>
     (\<forall>i k s s'. length k = 32 \<longrightarrow> ss_store_device_key S i k s = (Inr (), s') \<longrightarrow>
        ss_load_device_key S i s' = Inr (Some k) \<and> (\<forall>j. j \<noteq> i \<longrightarrow> ss_load_device_key S j s' = ss_load_device_key S j s))
   \<and> (\<forall>i s s'. ss_delete_device_key S i s = (Inr (), s') \<longrightarrow>
        ss_load_device_key S i s' = Inr None \<and> (\<forall>j. j \<noteq> i \<longrightarrow> ss_load_device_key S j s' = ss_load_device_key S j s))"

lemma keeps_keys_keeper: "keeps_keys S \<Longrightarrow> secret_keeper S"
  by unfold_locales (simp add: keeps_keys_def)

definition keyring_ok :: "'k keyring_provider \<Rightarrow> bool" where
  "keyring_ok P \<longleftrightarrow>
     (\<forall>v a x k k'. kp_set_secret P v a x k = (None, k') \<longrightarrow> kp_get_secret P v a k' = Inr x
        \<and> (\<forall>b. b \<noteq> a \<longrightarrow> kp_get_secret P v b k' = kp_get_secret P v b k))
   \<and> (\<forall>v a k r k'. kp_delete_credential P v a k = (r, k') \<and> r \<in> {None, Some KeyringNoEntry} \<longrightarrow>
        kp_get_secret P v a k' = Inl KeyringNoEntry \<and> (\<forall>b. b \<noteq> a \<longrightarrow> kp_get_secret P v b k' = kp_get_secret P v b k))"

definition dpapi_ok :: "dpapi_host \<Rightarrow> bool" where
  "dpapi_ok H \<longleftrightarrow> (\<forall>t. \<not> dh_stat_fault H t \<and> dh_read H t = None)
     \<and> (\<forall>t p c. dh_protect H t p = Inr c \<longrightarrow> length c < 2 ^ 32 \<and> dh_unprotect H c = Inr p)"

lemma device_account_inject: "inj put \<Longrightarrow> device_account put i = device_account put j \<longleftrightarrow> i = j"
  by (cases i; cases j) (simp add: device_account_def id_display_def inj_eq)

lemma dpapi_path_inject: "inj put \<Longrightarrow> dpapi_path_for put i = dpapi_path_for put j \<longleftrightarrow> i = j"
  by (simp add: dpapi_path_for_def device_account_inject)

lemma memory_keeps_keys: "keeps_keys InMemorySecretStore"
  by (auto simp: keeps_keys_def InMemorySecretStore_def memory_store_device_key_def memory_load_device_key_def
      memory_delete_device_key_def update_conv' delete_conv' split: if_splits)

lemma native_keeps_keys:
  assumes "keyring_ok P" and "inj put"
  shows "keeps_keys (NativeKeyringSecretStore P put)"
proof -
  have set_law: "kp_get_secret P v a k' = Inr x \<and> (\<forall>b. b \<noteq> a \<longrightarrow> kp_get_secret P v b k' = kp_get_secret P v b k)"
    if "kp_set_secret P v a x k = (None, k')" for v a x k k'
    using assms(1) that unfolding keyring_ok_def by blast
  have delete_law: "kp_get_secret P v a k' = Inl KeyringNoEntry \<and> (\<forall>b. b \<noteq> a \<longrightarrow> kp_get_secret P v b k' = kp_get_secret P v b k)"
    if "kp_delete_credential P v a k = (r, k')" "r = None \<or> r = Some KeyringNoEntry" for v a k r k'
    using assms(1) that unfolding keyring_ok_def by blast
  note native = NativeKeyringSecretStore_def native_store_device_key_def native_load_device_key_def native_delete_device_key_def
    system_get_secret_def system_set_secret_def system_delete_secret_def
  have "ss_load_device_key (NativeKeyringSecretStore P put) i s' = Inr (Some k)
      \<and> (\<forall>j. j \<noteq> i \<longrightarrow> ss_load_device_key (NativeKeyringSecretStore P put) j s' = ss_load_device_key (NativeKeyringSecretStore P put) j s)"
    if "length k = 32" "ss_store_device_key (NativeKeyringSecretStore P put) i k s = (Inr (), s')" for i k s s'
    using that
    by (auto simp: native lock_operations_def device_account_inject [OF assms(2)] rbind_Inr_conv
        dest!: set_law split: sum.splits option.splits prod.splits)
  moreover have "ss_load_device_key (NativeKeyringSecretStore P put) i s' = Inr None
      \<and> (\<forall>j. j \<noteq> i \<longrightarrow> ss_load_device_key (NativeKeyringSecretStore P put) j s' = ss_load_device_key (NativeKeyringSecretStore P put) j s)"
    if "ss_delete_device_key (NativeKeyringSecretStore P put) i s = (Inr (), s')" for i s s'
    using that
    by (auto simp: native lock_operations_def device_account_inject [OF assms(2)] rbind_Inr_conv
        dest!: delete_law split: sum.splits option.splits prod.splits keyring_error.splits)
  ultimately show ?thesis unfolding keeps_keys_def by blast
qed

lemma unat_length_32: "length (xs :: 'a list) < 2 ^ 32 \<Longrightarrow> take (unat (of_nat (length xs) :: 32 word)) xs = xs"
  by (simp add: unat_of_nat)

lemma protect_key: "length k = 32 \<Longrightarrow> protect H t k = map_err (\<lambda>e. SecretBackend (''CryptProtectData failed: '' @ e)) (dh_protect H t k)"
  unfolding protect_def by (subst unat_length_32) simp_all

lemma unprotect_protected:
  assumes "dpapi_ok H" and "dh_protect H t p = Inr c"
  shows "unprotect H c = Inr p"
proof -
  from assms have "length c < 2 ^ 32" "dh_unprotect H c = Inr p" unfolding dpapi_ok_def by blast+
  then show ?thesis unfolding unprotect_def by (subst unat_length_32) simp_all
qed

lemma dpapi_stored:
  assumes "length k = 32" and "dpapi_store_device_key H put i k s = (Inr (), s')"
  obtains c where "dh_protect H (ds_tick s) k = Inr c" "ds_files s' = (ds_files s)(dpapi_path_for put i \<mapsto> c)"
  using assms by (auto simp: dpapi_store_device_key_def Let_def protect_key split: option.splits sum.splits)

lemma dpapi_load_alt:
  assumes "dpapi_ok H"
  shows "dpapi_load_device_key H put i s =
    (case ds_files s (dpapi_path_for put i) of
       None \<Rightarrow> Inr None
     | Some c \<Rightarrow> rbind (unprotect H c) (\<lambda>d.
         if length d \<noteq> 32 then Inl (SecretBackend ''decrypted key has wrong length'') else Inr (Some d)))"
  using assms by (auto simp: dpapi_load_device_key_def dpapi_exists_def dpapi_ok_def Let_def split: option.split)

lemma dpapi_keeps_keys:
  assumes "dpapi_ok H" and "inj put"
  shows "keeps_keys (DpapiSecretStore H put)"
proof -
  have "dpapi_load_device_key H put i s' = Inr (Some k)
      \<and> (\<forall>j. j \<noteq> i \<longrightarrow> dpapi_load_device_key H put j s' = dpapi_load_device_key H put j s)"
    if "length k = 32" "dpapi_store_device_key H put i k s = (Inr (), s')" for i k s s'
  proof -
    note prems = that
    obtain c where "dh_protect H (ds_tick s) k = Inr c" "ds_files s' = (ds_files s)(dpapi_path_for put i \<mapsto> c)"
      by (rule dpapi_stored [OF prems])
    with prems(1) show ?thesis
      by (auto simp: dpapi_load_alt [OF assms(1)] unprotect_protected [OF assms(1)] dpapi_path_inject [OF assms(2)])
  qed
  moreover have "dpapi_load_device_key H put i s' = Inr None
      \<and> (\<forall>j. j \<noteq> i \<longrightarrow> dpapi_load_device_key H put j s' = dpapi_load_device_key H put j s)"
    if "dpapi_delete_device_key H put i s = (Inr (), s')" for i s s'
  proof -
    have "ds_files s' = (ds_files s)(dpapi_path_for put i := None)"
      using that assms(1)
      by (auto simp: dpapi_delete_device_key_def dpapi_exists_def dpapi_ok_def Let_def split: if_splits option.splits)
    then show ?thesis by (simp add: dpapi_load_alt [OF assms(1)] dpapi_path_inject [OF assms(2)])
  qed
  ultimately show ?thesis unfolding keeps_keys_def DpapiSecretStore_def by simp
qed

lemma loaded_key_length:
  "native_load_device_key P put i y = Inr (Some k) \<Longrightarrow> length k = 32"
  "dpapi_load_device_key H put i s = Inr (Some k) \<Longrightarrow> length k = 32"
  by (auto simp: native_load_device_key_def dpapi_load_device_key_def rbind_Inr_conv Let_def split: if_splits option.splits)


definition sample_keyring :: "(string \<times> string \<Rightarrow> 8 word list option) keyring_provider" where
  "sample_keyring = \<lparr>kp_build = (\<lambda>_ _. None), kp_set_secret = (\<lambda>v a x k. (None, k((v, a) \<mapsto> x))),
     kp_get_secret = (\<lambda>v a k. case k (v, a) of None \<Rightarrow> Inl KeyringNoEntry | Some x \<Rightarrow> Inr x),
     kp_delete_credential = (\<lambda>v a k. (if k (v, a) = None then Some KeyringNoEntry else None, k((v, a) := None))),
     kp_error_text = (\<lambda>_. [])\<rparr>"

definition sample_dpapi :: dpapi_host where
  "sample_dpapi = \<lparr>dh_create_dir = (\<lambda>_. None),
     dh_protect = (\<lambda>_ p. if length p < 2 ^ 32 then Inr (map ((+) 7) p) else Inl ''too long''),
     dh_unprotect = (\<lambda>c. Inr (map (\<lambda>b. b - 7) c)), dh_write = (\<lambda>_. None), dh_stat_fault = (\<lambda>_. False),
     dh_read = (\<lambda>_. None), dh_remove = (\<lambda>_. None)\<rparr>"

definition sample_put :: "ulid \<Rightarrow> string" where
  "sample_put u = replicate (unat u) (CHR ''1'')"


end
