(* ===== verification/Gateway_Clients.thy ===== *)
theory Gateway_Clients
  imports Gateway_Control Gateway_Config
begin

text \<open>
  The two local clients of the daemon: the command line (\<^verbatim>\<open>src/apps/cli/src/ipc_client.rs\<close> and
  \<^verbatim>\<open>src/apps/cli/src/main.rs\<close>) and the desktop shell (\<^verbatim>\<open>src/apps/desktop/src-tauri/src/ipc_client.rs\<close>,
  \<^verbatim>\<open>daemon_lifecycle.rs\<close> and \<^verbatim>\<open>main.rs\<close>).

  A client acts on its surroundings and reads back what they do: connections, the stop marker in the data directory,
  processes it starts, the clock. Everything it reads comes from an oracle indexed by a counter that every use
  advances, so any other process may interfere between two steps; everything it does is appended to a trace. The
  clock counts milliseconds. A call under a deadline has a step at which the deadline fires, if it does. A message counts
  as sent when its write has succeeded. What the commands print is left out.
\<close>

section \<open>Surroundings\<close>

datatype client_event =
    EvConnect
  | EvSend ipc_request
  | EvReceive ipc_response
  | EvSpawn path "(string \<times> string) list"
  | EvWriteMarker
  | EvRemoveMarker
  | EvPost cloud_pairing_proof_view

text \<open>
  One connection: the fault of connecting, the faults of the writes, what the reads yield, the step that is waiting
  when the deadline fires (connect, write, read, write, read), and the milliseconds it takes.
\<close>

record link =
  lk_connect :: "string option"
  lk_writes :: "nat \<Rightarrow> string option"
  lk_reads :: "nat \<Rightarrow> string + ipc_response"
  lk_deadline :: "nat option"
  lk_cost :: nat

datatype remove_result = Removed | Absent | RemoveFailed string

record surroundings =
  or_link :: "nat \<Rightarrow> link"
  or_marker :: "nat \<Rightarrow> bool"
  or_remove :: "nat \<Rightarrow> remove_result"
  or_write_marker :: "nat \<Rightarrow> string option"
  or_create_dir :: "nat \<Rightarrow> string option"
  or_executable :: "string + path"
  or_sidecar :: "nat \<Rightarrow> string option"
  or_spawn :: "nat \<Rightarrow> string option"
  or_config :: "nat \<Rightarrow> string + companion_config"
  or_http_client :: "nat \<Rightarrow> string option"
  or_post :: "nat \<Rightarrow> string + nat"
  or_version :: string
  or_identity_error_text :: "daemon_identity_error \<Rightarrow> string"
  or_path_text :: "path \<Rightarrow> string"
  or_get :: "string \<Rightarrow> string + ulid"
  or_id_error_text :: "id_parse_error \<Rightarrow> string"

record client =
  c_tick :: nat
  c_now :: nat
  c_trace :: "client_event list"

definition log_events :: "client_event list \<Rightarrow> client \<Rightarrow> client" where
  "log_events evs c = c\<lparr>c_tick := Suc (c_tick c), c_trace := c_trace c @ evs\<rparr>"

definition elapse :: "nat \<Rightarrow> client \<Rightarrow> client" where
  "elapse ms c = c\<lparr>c_now := c_now c + ms\<rparr>"

section \<open>The verified connection\<close>

datatype probe_error =
    Unavailable string
  | Incompatible string
  | VersionMismatch string string

fun probe_error_text :: "probe_error \<Rightarrow> string" where
  "probe_error_text (Unavailable m) = m"
| "probe_error_text (Incompatible m) = m"
| "probe_error_text (VersionMismatch expected found) =
     ''incompatible Gateway daemon version: expected '' @ expected @ '', found '' @ found"

definition PROBE_TIMEOUT :: nat where "PROBE_TIMEOUT = 1000"

definition REQUEST_TIMEOUT :: nat where "REQUEST_TIMEOUT = 15000"

text \<open>A call under a deadline yields \<open>None\<close> when the deadline fires, with what it did until then.\<close>

type_synonym 'a timed = "'a option \<times> client_event list"

definition await :: "link \<Rightarrow> nat \<Rightarrow> 'a timed \<Rightarrow> 'a timed" where
  "await lk k r = (if lk_deadline lk = Some k then (None, []) else r)"

definition after_doing :: "client_event list \<Rightarrow> 'a timed \<Rightarrow> 'a timed" where
  "after_doing evs r = (fst r, evs @ snd r)"

definition read_identity :: "(daemon_identity_error \<Rightarrow> string) \<Rightarrow> ipc_response \<Rightarrow> probe_error + daemon_identity_view" where
  "read_identity text r =
     (case r of
        AIdentity identity \<Rightarrow>
          rbind (map_err (\<lambda>e. Incompatible (text e)) (validate_for_client identity)) (\<lambda>_. Inr identity)
      | AError _ \<Rightarrow> Inl (Incompatible ''local endpoint returned an error instead of the Gateway identity response'')
      | _ \<Rightarrow> Inl (Incompatible ''local endpoint returned an unexpected identity response variant''))"

fun version_error :: "(daemon_identity_error \<Rightarrow> string) \<Rightarrow> daemon_identity_error \<Rightarrow> probe_error" where
  "version_error text (DaemonVersionMismatch expected found) = VersionMismatch expected found"
| "version_error text other = Incompatible (text other)"

definition probe_daemon_inner ::
  "(daemon_identity_error \<Rightarrow> string) \<Rightarrow> string \<Rightarrow> link \<Rightarrow> (probe_error + daemon_identity_view) timed" where
  "probe_daemon_inner text expected lk =
     await lk 0 (case lk_connect lk of
       Some e \<Rightarrow> (Some (Inl (Unavailable e)), [])
     | None \<Rightarrow> after_doing [EvConnect] (await lk 1 (case lk_writes lk 0 of
         Some e \<Rightarrow> (Some (Inl (Unavailable e)), [])
       | None \<Rightarrow> after_doing [EvSend RIdentity] (await lk 2 (case lk_reads lk 0 of
           Inl e \<Rightarrow> (Some (Inl (Unavailable e)), [])
         | Inr r \<Rightarrow>
             (Some (rbind (read_identity text r) (\<lambda>identity.
                rbind (map_err (version_error text) (validate_daemon_version identity expected)) (\<lambda>_. Inr identity))),
              [EvReceive r]))))))"

definition send_request_inner ::
  "(daemon_identity_error \<Rightarrow> string) \<Rightarrow> string \<Rightarrow> ipc_request \<Rightarrow> link \<Rightarrow> (probe_error + ipc_response) timed" where
  "send_request_inner text expected rq lk =
     (case probe_daemon_inner text expected lk of
        (None, evs) \<Rightarrow> (None, evs)
      | (Some (Inl e), evs) \<Rightarrow> (Some (Inl e), evs)
      | (Some (Inr identity), evs) \<Rightarrow>
          after_doing evs (await lk 3 (case lk_writes lk 1 of
            Some e \<Rightarrow> (Some (Inl (Unavailable e)), [])
          | None \<Rightarrow> after_doing [EvSend rq] (await lk 4 (case lk_reads lk 1 of
              Inl e \<Rightarrow> (Some (Inl (Unavailable e)), [])
            | Inr r \<Rightarrow> (Some (Inr r), [EvReceive r]))))))"

definition send_raw :: "ipc_request \<Rightarrow> link \<Rightarrow> (string + ipc_response) timed" where
  "send_raw rq lk =
     await lk 0 (case lk_connect lk of
       Some e \<Rightarrow> (Some (Inl e), [])
     | None \<Rightarrow> after_doing [EvConnect] (await lk 1 (case lk_writes lk 0 of
         Some e \<Rightarrow> (Some (Inl e), [])
       | None \<Rightarrow> after_doing [EvSend rq] (await lk 2 (case lk_reads lk 0 of
           Inl e \<Rightarrow> (Some (Inl e), [])
         | Inr r \<Rightarrow> (Some (Inr r), [EvReceive r]))))))"

definition probe_daemon :: "surroundings \<Rightarrow> client \<Rightarrow> (probe_error + daemon_identity_view) \<times> client" where
  "probe_daemon W c =
     (let lk = or_link W (c_tick c); (r, evs) = probe_daemon_inner (or_identity_error_text W) (or_version W) lk in
      (case r of
         None \<Rightarrow> Inl (Unavailable ''local daemon identity handshake exceeded its deadline'')
       | Some res \<Rightarrow> res,
       elapse (min (lk_cost lk) PROBE_TIMEOUT) (log_events evs c)))"

definition send_request :: "surroundings \<Rightarrow> ipc_request \<Rightarrow> client \<Rightarrow> (string + ipc_response) \<times> client" where
  "send_request W rq c =
     (let lk = or_link W (c_tick c); (r, evs) = send_request_inner (or_identity_error_text W) (or_version W) rq lk in
      (case r of
         None \<Rightarrow> Inl ''local daemon request exceeded its deadline''
       | Some res \<Rightarrow> map_err probe_error_text res,
       elapse (min (lk_cost lk) REQUEST_TIMEOUT) (log_events evs c)))"

definition send_shutdown_request :: "surroundings \<Rightarrow> client \<Rightarrow> (string + ipc_response) \<times> client" where
  "send_shutdown_request W c =
     (let lk = or_link W (c_tick c); (r, evs) = send_raw RDaemonShutdown lk in
      (case r of
         None \<Rightarrow> Inl ''local daemon shutdown request exceeded its deadline''
       | Some res \<Rightarrow> res,
       elapse (min (lk_cost lk) PROBE_TIMEOUT) (log_events evs c)))"

text \<open>\<open>wait_for_ready\<close> and \<open>wait_for_stopped\<close> poll every 100 milliseconds; the clock of the state makes them end.\<close>

function wait_for_ready_loop ::
  "surroundings \<Rightarrow> nat \<Rightarrow> client \<Rightarrow> (probe_error + daemon_identity_view) \<times> client" where
  "wait_for_ready_loop W deadline c =
     (case probe_daemon W c of
        (Inr identity, c1) \<Rightarrow> (Inr identity, c1)
      | (Inl (Incompatible m), c1) \<Rightarrow> (Inl (Incompatible m), c1)
      | (Inl (VersionMismatch expected found), c1) \<Rightarrow> (Inl (VersionMismatch expected found), c1)
      | (Inl (Unavailable m), c1) \<Rightarrow>
          if c_now c1 \<ge> deadline then (Inl (Unavailable m), c1)
          else wait_for_ready_loop W deadline (elapse 100 c1))"
  by pat_completeness auto

lemma probe_now: "probe_daemon W c = (r, c1) \<Longrightarrow> c_now c \<le> c_now c1 \<and> c_now c1 \<le> c_now c + PROBE_TIMEOUT"
  by (auto simp: probe_daemon_def Let_def elapse_def log_events_def split: prod.splits)

termination wait_for_ready_loop
proof (relation "measure (\<lambda>(W, deadline, c). deadline - c_now c)")
  fix W deadline c r c1 e m
  assume p: "(r, c1) = probe_daemon W c" and late: "\<not> deadline \<le> c_now c1"
  from probe_now [OF p [symmetric]] have "c_now c \<le> c_now c1" by simp
  with late show "((W, deadline, elapse 100 c1), (W, deadline, c)) \<in> measure (\<lambda>(W, deadline, c). deadline - c_now c)"
    by (simp add: elapse_def)
qed simp

declare wait_for_ready_loop.simps [simp del]

definition wait_for_ready :: "surroundings \<Rightarrow> nat \<Rightarrow> client \<Rightarrow> (probe_error + daemon_identity_view) \<times> client" where
  "wait_for_ready W timeout c = wait_for_ready_loop W (c_now c + timeout) c"

definition try_connect :: "surroundings \<Rightarrow> client \<Rightarrow> bool \<times> client" where
  "try_connect W c =
     (let lk = or_link W (c_tick c) in
      (lk_connect lk = None, elapse (lk_cost lk) (log_events (if lk_connect lk = None then [EvConnect] else []) c)))"

function wait_for_stopped_loop :: "surroundings \<Rightarrow> nat \<Rightarrow> client \<Rightarrow> (string + unit) \<times> client" where
  "wait_for_stopped_loop W deadline c =
     (case try_connect W c of
        (False, c1) \<Rightarrow> (Inr (), c1)
      | (True, c1) \<Rightarrow>
          if c_now c1 \<ge> deadline then (Inl ''local daemon did not stop before the deadline'', c1)
          else wait_for_stopped_loop W deadline (elapse 100 c1))"
  by pat_completeness auto

termination wait_for_stopped_loop
  by (relation "measure (\<lambda>(W, deadline, c). deadline - c_now c)")
    (auto simp: try_connect_def Let_def elapse_def log_events_def)

declare wait_for_stopped_loop.simps [simp del]

definition wait_for_stopped :: "surroundings \<Rightarrow> nat \<Rightarrow> client \<Rightarrow> (string + unit) \<times> client" where
  "wait_for_stopped W timeout c = wait_for_stopped_loop W (c_now c + timeout) c"

definition ok_or_bail :: "(string + ipc_response) \<Rightarrow> string + ipc_response" where
  "ok_or_bail r = rbind r (\<lambda>response.
     case response of AError e \<Rightarrow> Inl (iev_message e @ '' ('' @ iev_code e @ '')'') | _ \<Rightarrow> Inr response)"

section \<open>The command line\<close>

type_synonym 'a action = "client \<Rightarrow> (string + 'a) \<times> client"

definition cbind :: "'a action \<Rightarrow> ('a \<Rightarrow> 'b action) \<Rightarrow> 'b action" where
  "cbind m f c = (case m c of (Inl e, c1) \<Rightarrow> (Inl e, c1) | (Inr x, c1) \<Rightarrow> f x c1)"

definition cfail :: "string \<Rightarrow> 'a action" where
  "cfail e c = (Inl e, c)"

definition creturn :: "'a \<Rightarrow> 'a action" where
  "creturn x c = (Inr x, c)"

definition DAEMON_READY_TIMEOUT :: nat where "DAEMON_READY_TIMEOUT = 10000"

definition DAEMON_STOP_TIMEOUT :: nat where "DAEMON_STOP_TIMEOUT = 10000"

definition sibling_daemon_binary :: "surroundings \<Rightarrow> string + path" where
  "sibling_daemon_binary W =
     rbind (or_executable W) (\<lambda>exe.
     rbind (ok_or ''cannot locate packaged sibling daemon binary'' (path_parent exe)) (\<lambda>dir.
     Inr (path_join dir [Normal_c ''kicad-mcp-gateway-daemon''])))"

definition clear_stop_marker :: "surroundings \<Rightarrow> unit action" where
  "clear_stop_marker W c =
     (case or_remove W (c_tick c) of
        Removed \<Rightarrow> (Inr (), log_events [EvRemoveMarker] c)
      | Absent \<Rightarrow> (Inr (), log_events [] c)
      | RemoveFailed e \<Rightarrow> (Inl (''could not clear the explicit daemon-stop marker: '' @ e), log_events [] c))"

definition create_data_dir :: "surroundings \<Rightarrow> unit action" where
  "create_data_dir W c =
     (case or_create_dir W (c_tick c) of Some e \<Rightarrow> (Inl e, log_events [] c) | None \<Rightarrow> (Inr (), log_events [] c))"

definition mark_daemon_stopped :: "surroundings \<Rightarrow> unit action" where
  "mark_daemon_stopped W =
     cbind (create_data_dir W) (\<lambda>_ c.
       case or_write_marker W (c_tick c) of
         Some e \<Rightarrow> (Inl e, log_events [] c)
       | None \<Rightarrow> (Inr (), log_events [EvWriteMarker] c))"

definition daemon_environment :: "surroundings \<Rightarrow> companion_config \<Rightarrow> (string \<times> string) list" where
  "daemon_environment W cfg =
     [(''GATEWAY_DATA_DIR'', or_path_text W (cfg_data_dir cfg)), (''GATEWAY_TRANSPORT_MODE'', ''disabled'')]"

definition spawn_sibling :: "surroundings \<Rightarrow> companion_config \<Rightarrow> unit action" where
  "spawn_sibling W cfg c =
     (case sibling_daemon_binary W of
        Inl e \<Rightarrow> (Inl e, c)
      | Inr binary \<Rightarrow>
          (case or_spawn W (c_tick c) of
             Some e \<Rightarrow> (Inl (''failed to start packaged daemon at '' @ or_path_text W binary @ '': '' @ e
                        @ ''; no alternate daemon was launched''), log_events [] c)
           | None \<Rightarrow> (Inr (), log_events [EvSpawn binary (daemon_environment W cfg)] c)))"

definition stop_verified_daemon :: "surroundings \<Rightarrow> unit action" where
  "stop_verified_daemon W =
     cbind (send_shutdown_request W) (\<lambda>response.
       case response of
         AAck \<Rightarrow> wait_for_stopped W DAEMON_STOP_TIMEOUT
       | AError _ \<Rightarrow> cfail ''daemon refused the shutdown request''
       | _ \<Rightarrow> cfail ''unexpected daemon shutdown response variant'')"

definition launch_daemon :: "surroundings \<Rightarrow> companion_config \<Rightarrow> unit action" where
  "launch_daemon W cfg =
     cbind (clear_stop_marker W) (\<lambda>_.
     cbind (spawn_sibling W cfg) (\<lambda>_ c.
       case wait_for_ready W DAEMON_READY_TIMEOUT c of
         (Inl e, c1) \<Rightarrow> (Inl (''packaged daemon did not become ready: '' @ probe_error_text e), c1)
       | (Inr _, c1) \<Rightarrow> (Inr (), c1)))"

definition daemon_start :: "surroundings \<Rightarrow> companion_config \<Rightarrow> unit action" where
  "daemon_start W cfg c =
     (case probe_daemon W c of
        (Inr identity, c1) \<Rightarrow> clear_stop_marker W c1
      | (Inl (Incompatible m), c1) \<Rightarrow>
          (Inl (''refusing untrusted or incompatible local endpoint: '' @ m @ ''; no alternate daemon was launched''), c1)
      | (Inl (VersionMismatch expected found), c1) \<Rightarrow> cbind (stop_verified_daemon W) (\<lambda>_. launch_daemon W cfg) c1
      | (Inl (Unavailable _), c1) \<Rightarrow> launch_daemon W cfg c1)"

definition stop_verified_daemon_and_pause_supervisor :: "surroundings \<Rightarrow> unit action" where
  "stop_verified_daemon_and_pause_supervisor W c =
     (case stop_verified_daemon W c of
        (Inl e, c1) \<Rightarrow> cbind (clear_stop_marker W) (\<lambda>_. cfail e) c1
      | (Inr _, c1) \<Rightarrow> (Inr (), c1))"

definition daemon_stop :: "surroundings \<Rightarrow> unit action" where
  "daemon_stop W =
     cbind (mark_daemon_stopped W) (\<lambda>_ c.
       case probe_daemon W c of
         (Inr identity, c1) \<Rightarrow> stop_verified_daemon_and_pause_supervisor W c1
       | (Inl (Unavailable _), c1) \<Rightarrow> (Inr (), c1)
       | (Inl (VersionMismatch expected found), c1) \<Rightarrow> stop_verified_daemon_and_pause_supervisor W c1
       | (Inl (Incompatible m), c1) \<Rightarrow>
           cbind (clear_stop_marker W) (\<lambda>_. cfail (''refusing to send a lifecycle request to an unverified local endpoint: ''
             @ m @ ''; no alternate daemon was launched'')) c1)"

definition daemon_restart :: "surroundings \<Rightarrow> companion_config \<Rightarrow> unit action" where
  "daemon_restart W cfg = cbind (daemon_stop W) (\<lambda>_. daemon_start W cfg)"

definition daemon_status :: "surroundings \<Rightarrow> unit action" where
  "daemon_status W c =
     (case probe_daemon W c of
        (Inr identity, c1) \<Rightarrow> (Inr (), c1)
      | (Inl (Unavailable _), c1) \<Rightarrow> (Inr (), log_events [] c1)
      | (Inl (VersionMismatch expected found), c1) \<Rightarrow>
          (Inl (''stale Gateway daemon is running (expected '' @ expected @ '', found '' @ found @ '')''), c1)
      | (Inl (Incompatible m), c1) \<Rightarrow> (Inl (''local endpoint is not a compatible Gateway daemon: '' @ m), c1))"

definition cli_query :: "surroundings \<Rightarrow> ipc_request \<Rightarrow> ipc_response action" where
  "cli_query W rq c = (case send_request W rq c of (r, c1) \<Rightarrow> (ok_or_bail r, c1))"

definition cli_order :: "surroundings \<Rightarrow> ipc_request \<Rightarrow> unit action" where
  "cli_order W rq = cbind (cli_query W rq) (\<lambda>_. creturn ())"

definition cloud_pair :: "surroundings \<Rightarrow> string \<Rightarrow> unit action" where
  "cloud_pair W code =
     cbind (cli_query W (RCloudPairingProof code)) (\<lambda>response.
       case response of
         ACloudPairingProof proof \<Rightarrow>
           (\<lambda>c. case or_http_client W (c_tick c) of
              Some e \<Rightarrow> (Inl e, log_events [] c)
            | None \<Rightarrow>
                (case or_post W (c_tick c) of
                   Inl e \<Rightarrow> (Inl e, log_events [EvPost proof] c)
                 | Inr status \<Rightarrow>
                     if status \<noteq> 202
                     then (Inl ''cloud did not accept this device invitation; generate a fresh code'', log_events [EvPost proof] c)
                     else (Inr (), log_events [EvPost proof] c)))
       | _ \<Rightarrow> cfail ''local Gateway did not return a device pairing proof'')"

definition run_setup :: "surroundings \<Rightarrow> companion_config \<Rightarrow> unit action" where
  "run_setup W cfg =
     cbind (create_data_dir W) (\<lambda>_.
     cbind (daemon_start W cfg) (\<lambda>_ c.
       case send_request W RStatus c of
         (Inr response, c1) \<Rightarrow> (rbind (ok_or_bail (Inr response)) (\<lambda>_. Inr ()), c1)
       | (Inl _, c1) \<Rightarrow> (Inr (), c1)))"

definition parse_session_id :: "surroundings \<Rightarrow> string \<Rightarrow> string + session_id" where
  "parse_session_id W raw =
     rbind (map_err (\<lambda>e. ''invalid session id: '' @ or_id_error_text W e) (id_from_str (or_get W) ''sess'' raw))
       (\<lambda>u. Inr (SessionId u))"

definition cli_session_decision :: "surroundings \<Rightarrow> string \<Rightarrow> (session_id \<Rightarrow> ipc_request) \<Rightarrow> unit action" where
  "cli_session_decision W raw request c =
     (case parse_session_id W raw of
        Inl e \<Rightarrow> (Inl e, c)
      | Inr sid \<Rightarrow> cli_order W (request sid) c)"

datatype workspace_action = WorkspaceAdd string | WorkspaceList | WorkspaceRemove string

datatype session_action =
    SessionList
  | SessionApprove string
  | SessionDeny string string
  | SessionPause string
  | SessionResume string
  | SessionRevoke string

fun workspace_command :: "surroundings \<Rightarrow> workspace_action \<Rightarrow> unit action" where
  "workspace_command W (WorkspaceAdd path) =
     cli_order W (RAuthorizeWorkspace path (case path_file_name (path_of_string path) of Some n \<Rightarrow> n | None \<Rightarrow> path))"
| "workspace_command W WorkspaceList = cli_order W RListWorkspaces"
| "workspace_command W (WorkspaceRemove raw) =
     (case id_from_str (or_get W) ''ws'' raw of
        Inl e \<Rightarrow> cfail (''invalid workspace id: '' @ or_id_error_text W e)
      | Inr u \<Rightarrow> cli_order W (RRemoveWorkspace (WorkspaceId u)))"

fun session_command :: "surroundings \<Rightarrow> session_action \<Rightarrow> unit action" where
  "session_command W SessionList = cbind (cli_query W RListAccessGrants) (\<lambda>_. cli_order W RListSessions)"
| "session_command W (SessionApprove raw) = cli_session_decision W raw RApproveSession"
| "session_command W (SessionDeny raw reason) = cli_session_decision W raw (\<lambda>i. RDenySession i reason)"
| "session_command W (SessionPause raw) = cli_session_decision W raw RPauseSession"
| "session_command W (SessionResume raw) = cli_session_decision W raw RResumeSession"
| "session_command W (SessionRevoke raw) = cli_session_decision W raw RRevokeSession"

datatype cli_command =
    CmdSetup
  | CmdDaemonStart
  | CmdDaemonStop
  | CmdDaemonRestart
  | CmdDaemonStatus
  | CmdDeviceStatus
  | CmdCloudPair string
  | CmdPair
  | CmdStatus
  | CmdWorkspace workspace_action
  | CmdSession session_action
  | CmdAuditList

fun run_command :: "surroundings \<Rightarrow> companion_config \<Rightarrow> cli_command \<Rightarrow> unit action" where
  "run_command W cfg CmdSetup = run_setup W cfg"
| "run_command W cfg CmdDaemonStart = daemon_start W cfg"
| "run_command W cfg CmdDaemonStop = daemon_stop W"
| "run_command W cfg CmdDaemonRestart = daemon_restart W cfg"
| "run_command W cfg CmdDaemonStatus = daemon_status W"
| "run_command W cfg CmdDeviceStatus = cli_order W RPairingStatus"
| "run_command W cfg (CmdCloudPair code) = cloud_pair W code"
| "run_command W cfg CmdPair = cli_order W RBeginPairing"
| "run_command W cfg CmdStatus = cli_order W RStatus"
| "run_command W cfg (CmdWorkspace action) = workspace_command W action"
| "run_command W cfg (CmdSession action) = session_command W action"
| "run_command W cfg CmdAuditList = cli_order W RAuditSummary"

definition cli_main :: "surroundings \<Rightarrow> cli_command \<Rightarrow> unit action" where
  "cli_main W command c =
     (case or_config W (c_tick c) of
        Inl e \<Rightarrow> (Inl e, log_events [] c)
      | Inr cfg \<Rightarrow> run_command W cfg command (log_events [] c))"

section \<open>The desktop shell\<close>

text \<open>
  The desktop has its own copy of the client; where its text is the same as that of the command line (\<open>read_identity\<close>,
  \<open>send_raw\<close>, \<open>wait_for_ready\<close>, \<open>wait_for_stopped\<close>, \<open>send_shutdown_request\<close>) the definitions above stand for both.
\<close>

definition validate_packaged_version ::
  "(daemon_identity_error \<Rightarrow> string) \<Rightarrow> string \<Rightarrow> daemon_identity_view \<Rightarrow> probe_error + unit" where
  "validate_packaged_version text expected identity =
     (case validate_daemon_version identity expected of
        Inr _ \<Rightarrow> Inr ()
      | Inl (DaemonVersionMismatch e found) \<Rightarrow> Inl (VersionMismatch e found)
      | Inl other \<Rightarrow> Inl (Incompatible (text other)))"

definition desktop_probe_daemon_inner ::
  "(daemon_identity_error \<Rightarrow> string) \<Rightarrow> string \<Rightarrow> link \<Rightarrow> (probe_error + daemon_identity_view) timed" where
  "desktop_probe_daemon_inner text expected lk =
     await lk 0 (case lk_connect lk of
       Some e \<Rightarrow> (Some (Inl (Unavailable e)), [])
     | None \<Rightarrow> after_doing [EvConnect] (await lk 1 (case lk_writes lk 0 of
         Some e \<Rightarrow> (Some (Inl (Unavailable e)), [])
       | None \<Rightarrow> after_doing [EvSend RIdentity] (await lk 2 (case lk_reads lk 0 of
           Inl e \<Rightarrow> (Some (Inl (Unavailable e)), [])
         | Inr r \<Rightarrow>
             (Some (rbind (read_identity text r) (\<lambda>identity.
                rbind (validate_packaged_version text expected identity) (\<lambda>_. Inr identity))), [EvReceive r]))))))"

definition desktop_probe_daemon :: "surroundings \<Rightarrow> client \<Rightarrow> (probe_error + daemon_identity_view) \<times> client" where
  "desktop_probe_daemon W c =
     (let lk = or_link W (c_tick c); (r, evs) = desktop_probe_daemon_inner (or_identity_error_text W) (or_version W) lk in
      (case r of
         None \<Rightarrow> Inl (Unavailable ''local daemon identity handshake exceeded its deadline'')
       | Some res \<Rightarrow> res,
       elapse (min (lk_cost lk) PROBE_TIMEOUT) (log_events evs c)))"

definition desktop_send_request_inner ::
  "(daemon_identity_error \<Rightarrow> string) \<Rightarrow> string \<Rightarrow> ipc_request \<Rightarrow> link \<Rightarrow> (probe_error + ipc_response) timed" where
  "desktop_send_request_inner text expected rq lk =
     (case desktop_probe_daemon_inner text expected lk of
        (None, evs) \<Rightarrow> (None, evs)
      | (Some (Inl e), evs) \<Rightarrow> (Some (Inl e), evs)
      | (Some (Inr identity), evs) \<Rightarrow>
          after_doing evs (await lk 3 (case lk_writes lk 1 of
            Some e \<Rightarrow> (Some (Inl (Unavailable e)), [])
          | None \<Rightarrow> after_doing [EvSend rq] (await lk 4 (case lk_reads lk 1 of
              Inl e \<Rightarrow> (Some (Inl (Unavailable e)), [])
            | Inr r \<Rightarrow> (Some (Inr r), [EvReceive r]))))))"

definition desktop_send_request :: "surroundings \<Rightarrow> ipc_request \<Rightarrow> client \<Rightarrow> (string + ipc_response) \<times> client" where
  "desktop_send_request W rq c =
     (let lk = or_link W (c_tick c); (r, evs) = desktop_send_request_inner (or_identity_error_text W) (or_version W) rq lk in
      (case r of
         None \<Rightarrow> Inl ''local daemon request exceeded its deadline''
       | Some res \<Rightarrow> map_err probe_error_text res,
       elapse (min (lk_cost lk) REQUEST_TIMEOUT) (log_events evs c)))"

subsection \<open>The launcher\<close>

definition SIDECAR_NAME :: string where "SIDECAR_NAME = ''kicad-mcp-gateway-daemon''"
definition START_ATTEMPTS :: nat where "START_ATTEMPTS = 3"
definition READY_TIMEOUT :: nat where "READY_TIMEOUT = 5000"
definition STOP_TIMEOUT :: nat where "STOP_TIMEOUT = 10000"
definition WATCHDOG_MIN_DELAY :: nat where "WATCHDOG_MIN_DELAY = 2000"
definition WATCHDOG_MAX_DELAY :: nat where "WATCHDOG_MAX_DELAY = 30000"

datatype daemon_lifecycle_state = LStarting | LReady | LStopped | LFailed

record daemon_lifecycle_view =
  dl_state :: daemon_lifecycle_state
  dl_message :: "string option"
  dl_identity :: "daemon_identity_view option"

record launcher =
  la_adopt_stop_marker_on_first_start :: bool
  la_view :: daemon_lifecycle_view
  la_client :: client

definition launcher_new :: "client \<Rightarrow> launcher" where
  "launcher_new c = \<lparr>la_adopt_stop_marker_on_first_start = True,
     la_view = \<lparr>dl_state = LStarting, dl_message = Some ''Starting the packaged Gateway daemon'', dl_identity = None\<rparr>,
     la_client = c\<rparr>"

definition set_starting :: "launcher \<Rightarrow> launcher" where
  "set_starting l = l\<lparr>la_view := \<lparr>dl_state = LStarting, dl_message = Some ''Starting the packaged Gateway daemon'',
     dl_identity = None\<rparr>\<rparr>"

definition set_ready :: "daemon_identity_view \<Rightarrow> launcher \<Rightarrow> launcher" where
  "set_ready identity l = l\<lparr>la_view := \<lparr>dl_state = LReady, dl_message = None, dl_identity = Some identity\<rparr>\<rparr>"

definition set_stopped :: "string \<Rightarrow> launcher \<Rightarrow> launcher" where
  "set_stopped m l = l\<lparr>la_view := \<lparr>dl_state = LStopped, dl_message = Some m, dl_identity = None\<rparr>\<rparr>"

definition set_failed :: "string \<Rightarrow> launcher \<Rightarrow> launcher" where
  "set_failed m l = l\<lparr>la_view := \<lparr>dl_state = LFailed, dl_message = Some m, dl_identity = None\<rparr>\<rparr>"

definition failed_with :: "string \<Rightarrow> launcher \<Rightarrow> (string + 'a) \<times> launcher" where
  "failed_with m l = (Inl m, set_failed m l)"

definition stopped_with :: "string \<Rightarrow> launcher \<Rightarrow> (string + 'a) \<times> launcher" where
  "stopped_with m l = (Inl m, set_stopped m l)"

definition on_client :: "(client \<Rightarrow> 'a \<times> client) \<Rightarrow> launcher \<Rightarrow> 'a \<times> launcher" where
  "on_client f l = (case f (la_client l) of (r, c) \<Rightarrow> (r, l\<lparr>la_client := c\<rparr>))"

definition marker_exists :: "surroundings \<Rightarrow> client \<Rightarrow> bool \<times> client" where
  "marker_exists W c = (or_marker W (c_tick c), log_events [] c)"

definition STOPPED_FROM_CLI :: string where
  "STOPPED_FROM_CLI = ''Gateway daemon was stopped explicitly from the CLI. Run `kicad-mcp-gateway daemon start` or reopen Gateway Desktop.''"

definition desktop_stop_verified_daemon :: "surroundings \<Rightarrow> launcher \<Rightarrow> (string + unit) \<times> launcher" where
  "desktop_stop_verified_daemon W l =
     (case on_client (send_shutdown_request W) l of
        (Inl e, l1) \<Rightarrow> failed_with (''Stale Gateway daemon could not be stopped safely: '' @ e
            @ ''. No replacement daemon was launched.'') l1
      | (Inr AAck, l1) \<Rightarrow>
          (case on_client (wait_for_stopped W STOP_TIMEOUT) l1 of
             (Inl e, l2) \<Rightarrow> failed_with (''Stale Gateway daemon did not release its local endpoint: '' @ e
                 @ ''. No replacement daemon was launched.'') l2
           | (Inr _, l2) \<Rightarrow> (Inr (), l2))
      | (Inr (AError _), l1) \<Rightarrow>
          failed_with ''Stale Gateway daemon refused shutdown. No replacement daemon was launched.'' l1
      | (Inr _, l1) \<Rightarrow>
          failed_with ''Stale Gateway daemon returned an unexpected shutdown response variant. No replacement daemon was launched.'' l1)"

definition spawn_packaged_daemon :: "surroundings \<Rightarrow> companion_config \<Rightarrow> launcher \<Rightarrow> (string + unit) \<times> launcher" where
  "spawn_packaged_daemon W cfg l =
     (case or_sidecar W (c_tick (la_client l)) of
        Some e \<Rightarrow> failed_with (''Packaged Gateway daemon is missing or invalid: '' @ e
            @ ''. Reinstall Gateway; no alternate daemon will be launched.'') l
      | None \<Rightarrow>
          (case or_spawn W (c_tick (la_client l)) of
             Some e \<Rightarrow> failed_with (''Packaged Gateway daemon could not start: '' @ e
                 @ ''. No alternate daemon will be launched.'') l
           | None \<Rightarrow>
               (Inr (), l\<lparr>la_client := log_events [EvSpawn [Normal_c SIDECAR_NAME] (daemon_environment W cfg)] (la_client l)\<rparr>)))"

fun start_attempts ::
  "surroundings \<Rightarrow> companion_config \<Rightarrow> nat list \<Rightarrow> string \<Rightarrow> launcher \<Rightarrow> (string + path) \<times> launcher" where
  "start_attempts W cfg [] last_error l =
     failed_with (''Packaged Gateway daemon did not become ready: '' @ last_error
       @ ''. Reinstall Gateway; no alternate daemon will be launched.'') l"
| "start_attempts W cfg (attempt # attempts) last_error l =
     (let l1 = l\<lparr>la_client := elapse (250 * attempt) (la_client l)\<rparr> in
      case spawn_packaged_daemon W cfg l1 of
        (Inl e, l2) \<Rightarrow> (Inl e, l2)
      | (Inr _, l2) \<Rightarrow>
          (case on_client (wait_for_ready W READY_TIMEOUT) l2 of
             (Inr identity, l3) \<Rightarrow>
               (case on_client (marker_exists W) l3 of
                  (True, l4) \<Rightarrow>
                    stopped_with ''Gateway daemon was stopped explicitly from the CLI; the desktop supervisor did not restart it.''
                      (snd (desktop_stop_verified_daemon W l4))
                | (False, l4) \<Rightarrow> (Inr (cfg_data_dir cfg), set_ready identity l4))
           | (Inl (Incompatible m), l3) \<Rightarrow>
               failed_with (''Refusing local endpoint: '' @ m @ ''. No alternate endpoint or process will be used.'') l3
           | (Inl (VersionMismatch expected found), l3) \<Rightarrow>
               failed_with (''A stale Gateway daemon '' @ found @ '' appeared during startup; expected '' @ expected
                 @ ''. It will not receive privileged requests.'') l3
           | (Inl (Unavailable m), l3) \<Rightarrow> start_attempts W cfg attempts m l3))"

definition start_packaged :: "surroundings \<Rightarrow> companion_config \<Rightarrow> launcher \<Rightarrow> (string + path) \<times> launcher" where
  "start_packaged W cfg l =
     start_attempts W cfg [0..<START_ATTEMPTS] ''packaged daemon did not become ready'' (set_starting l)"

text \<open>The stop marker at the start of \<open>ensure_ready_locked\<close>: the first call of a launcher removes it, later ones respect it.\<close>

definition adopt_stop_marker :: "surroundings \<Rightarrow> launcher \<Rightarrow> (string + unit) \<times> launcher" where
  "adopt_stop_marker W l =
     (if la_adopt_stop_marker_on_first_start l
      then
        let l1 = l\<lparr>la_adopt_stop_marker_on_first_start := False\<rparr> in
        (case or_remove W (c_tick (la_client l1)) of
           Removed \<Rightarrow> (Inr (), l1\<lparr>la_client := log_events [EvRemoveMarker] (la_client l1)\<rparr>)
         | Absent \<Rightarrow> (Inr (), l1\<lparr>la_client := log_events [] (la_client l1)\<rparr>)
         | RemoveFailed e \<Rightarrow>
             failed_with (''Could not clear the previous explicit daemon-stop state: '' @ e @ ''. No daemon was launched.'')
               (l1\<lparr>la_client := log_events [] (la_client l1)\<rparr>))
      else
        (case on_client (marker_exists W) l of
           (True, l1) \<Rightarrow> stopped_with STOPPED_FROM_CLI l1
         | (False, l1) \<Rightarrow> (Inr (), l1)))"

definition ensure_ready :: "surroundings \<Rightarrow> launcher \<Rightarrow> (string + path) \<times> launcher" where
  "ensure_ready W l =
     (case or_config W (c_tick (la_client l)) of
        Inl e \<Rightarrow> (Inl (''Gateway configuration is invalid: '' @ e), l\<lparr>la_client := log_events [] (la_client l)\<rparr>)
      | Inr cfg \<Rightarrow>
          (case adopt_stop_marker W (l\<lparr>la_client := log_events [] (la_client l)\<rparr>) of
             (Inl e, l1) \<Rightarrow> (Inl e, l1)
           | (Inr _, l1) \<Rightarrow>
               (case on_client (desktop_probe_daemon W) l1 of
                  (Inr identity, l2) \<Rightarrow> (Inr (cfg_data_dir cfg), set_ready identity l2)
                | (Inl (Incompatible m), l2) \<Rightarrow>
                    failed_with (''Refusing local endpoint: '' @ m @ ''. No alternate endpoint or process will be used.'') l2
                | (Inl (VersionMismatch expected found), l2) \<Rightarrow>
                    (case desktop_stop_verified_daemon W (set_starting l2) of
                       (Inl e, l3) \<Rightarrow> (Inl e, l3)
                     | (Inr _, l3) \<Rightarrow> start_packaged W cfg l3)
                | (Inl (Unavailable _), l2) \<Rightarrow>
                    (case on_client (marker_exists W) l2 of
                       (True, l3) \<Rightarrow> stopped_with STOPPED_FROM_CLI l3
                     | (False, l3) \<Rightarrow> start_packaged W cfg l3))))"

definition next_watchdog_delay :: "nat \<Rightarrow> nat" where
  "next_watchdog_delay current = min (current * 2) WATCHDOG_MAX_DELAY"

text \<open>The first rounds of the watchdog, which runs as long as the desktop does.\<close>

fun watchdog :: "surroundings \<Rightarrow> nat \<Rightarrow> nat \<Rightarrow> launcher \<Rightarrow> nat \<times> launcher" where
  "watchdog W 0 delay l = (delay, l)"
| "watchdog W (Suc n) delay l =
     (case ensure_ready W (l\<lparr>la_client := elapse delay (la_client l)\<rparr>) of
        (Inr _, l1) \<Rightarrow> watchdog W n WATCHDOG_MIN_DELAY l1
      | (Inl _, l1) \<Rightarrow> watchdog W n (next_watchdog_delay delay) l1)"

subsection \<open>Commands\<close>

definition desktop_send :: "surroundings \<Rightarrow> ipc_request \<Rightarrow> launcher \<Rightarrow> (string + ipc_response) \<times> launcher" where
  "desktop_send W rq l =
     (case ensure_ready W l of
        (Inl e, l1) \<Rightarrow> (Inl e, l1)
      | (Inr _, l1) \<Rightarrow> (case on_client (desktop_send_request W rq) l1 of (r, l2) \<Rightarrow> (ok_or_bail r, l2)))"

datatype desktop_command =
    DStatus
  | DPairingStatus
  | DBeginPairing
  | DSubmitCloudPairing string
  | DListSessions
  | DApproveSession session_id
  | DDenySession session_id string
  | DPauseSession session_id
  | DResumeSession session_id
  | DRevokeSession session_id
  | DListWorkspaces
  | DAuthorizeWorkspace string string
  | DRemoveWorkspace workspace_id
  | DAuditSummary
  | DListPendingApprovals
  | DApproveOperation operation_id
  | DDenyOperation operation_id string

text \<open>The request of a command, the kind of response it accepts (any, when it only forwards), and its complaint.\<close>

fun desktop_request :: "desktop_command \<Rightarrow> ipc_request \<times> (response_kind \<times> string) option" where
  "desktop_request DStatus = (RStatus, Some (KStatus, ''daemon returned an unexpected status response variant''))"
| "desktop_request DPairingStatus =
     (RPairingStatus, Some (KPairingStatus, ''daemon returned an unexpected pairing-status response variant''))"
| "desktop_request DBeginPairing =
     (RBeginPairing, Some (KPairingBegun, ''daemon returned an unexpected pairing response variant''))"
| "desktop_request (DSubmitCloudPairing code) =
     (RSubmitCloudPairing code, Some (KAck, ''daemon returned unexpected cloud-pairing response''))"
| "desktop_request DListSessions =
     (RListSessions, Some (KSessions, ''daemon returned an unexpected sessions response variant''))"
| "desktop_request (DApproveSession i) = (RApproveSession i, None)"
| "desktop_request (DDenySession i reason) = (RDenySession i reason, None)"
| "desktop_request (DPauseSession i) = (RPauseSession i, None)"
| "desktop_request (DResumeSession i) = (RResumeSession i, None)"
| "desktop_request (DRevokeSession i) = (RRevokeSession i, None)"
| "desktop_request DListWorkspaces =
     (RListWorkspaces, Some (KWorkspaces, ''daemon returned an unexpected workspaces response variant''))"
| "desktop_request (DAuthorizeWorkspace p n) =
     (RAuthorizeWorkspace p n, Some (KWorkspaceAuthorized, ''daemon returned an unexpected workspace response variant''))"
| "desktop_request (DRemoveWorkspace i) = (RRemoveWorkspace i, None)"
| "desktop_request DAuditSummary =
     (RAuditSummary, Some (KAuditSummary, ''daemon returned an unexpected audit response variant''))"
| "desktop_request DListPendingApprovals =
     (RListPendingApprovals, Some (KPendingApprovals, ''daemon returned an unexpected approvals response variant''))"
| "desktop_request (DApproveOperation i) = (RApproveOperation i, None)"
| "desktop_request (DDenyOperation i reason) = (RDenyOperation i reason, None)"

definition run_desktop_command :: "surroundings \<Rightarrow> desktop_command \<Rightarrow> launcher \<Rightarrow> (string + ipc_response) \<times> launcher" where
  "run_desktop_command W command l =
     (case desktop_request command of
        (rq, expected) \<Rightarrow>
          (case desktop_send W rq l of
             (r, l1) \<Rightarrow>
               (rbind r (\<lambda>response.
                  case expected of
                    None \<Rightarrow> Inr response
                  | Some (kind, complaint) \<Rightarrow> if response_kind_of response = kind then Inr response else Inl complaint),
                l1)))"

definition daemon_lifecycle :: "surroundings \<Rightarrow> launcher \<Rightarrow> daemon_lifecycle_view \<times> launcher" where
  "daemon_lifecycle W l = (case ensure_ready W l of (_, l1) \<Rightarrow> (la_view l1, l1))"

section \<open>Traces\<close>

text \<open>
  The discipline of a trace, as a recursion over its events that tracks the state of the current connection and whether
  the last handshake met a Gateway (an identity that passed the protocol checks, of whatever version): an identity request
  comes first on a connection; a shutdown comes first on a connection and only after such a handshake; any other request
  goes out only after an identity response that passed the protocol and the version checks on the same connection; and a
  daemon is started only with its transport disabled.
\<close>

datatype conn_state = FreshConn | AskedConn | VerifiedConn | SpentConn

definition meets_gateway :: "ipc_response \<Rightarrow> bool" where
  "meets_gateway r = (case r of AIdentity i \<Rightarrow> validate_for_client i = Inr () | _ \<Rightarrow> False)"

definition proves_identity :: "string \<Rightarrow> ipc_response \<Rightarrow> bool" where
  "proves_identity version r =
     (case r of AIdentity i \<Rightarrow> validate_for_client i = Inr () \<and> div_daemon_version i = version | _ \<Rightarrow> False)"

fun disciplined :: "string \<Rightarrow> bool \<Rightarrow> conn_state \<Rightarrow> client_event list \<Rightarrow> bool" where
  "disciplined v k s [] = True"
| "disciplined v k s (EvConnect # es) = disciplined v k FreshConn es"
| "disciplined v k s (EvSend rq # es) =
     (if rq = RIdentity then s = FreshConn \<and> disciplined v k AskedConn es
      else if rq = RDaemonShutdown then s = FreshConn \<and> k \<and> disciplined v k SpentConn es
      else s = VerifiedConn \<and> disciplined v k SpentConn es)"
| "disciplined v k s (EvReceive r # es) =
     disciplined v (if s = AskedConn then meets_gateway r else k)
       (if s = AskedConn \<and> proves_identity v r then VerifiedConn else SpentConn) es"
| "disciplined v k s (EvSpawn p env # es) = (map_of env ''GATEWAY_TRANSPORT_MODE'' = Some ''disabled'' \<and> disciplined v k s es)"
| "disciplined v k s (_ # es) = disciplined v k s es"

definition safe_trace :: "string \<Rightarrow> client_event list \<Rightarrow> bool" where
  "safe_trace v es \<longleftrightarrow> (\<forall>k s. disciplined v k s es)"

definition safe_known :: "string \<Rightarrow> client_event list \<Rightarrow> bool" where
  "safe_known v es \<longleftrightarrow> (\<forall>s. disciplined v True s es)"

definition safe_before :: "string \<Rightarrow> client_event list \<Rightarrow> bool" where
  "safe_before v es \<longleftrightarrow> (\<forall>ys. safe_known v ys \<longrightarrow> safe_trace v (es @ ys))"

lemma disciplined_append: "disciplined v k s xs \<Longrightarrow> safe_trace v ys \<Longrightarrow> disciplined v k s (xs @ ys)"
  by (induction v k s xs rule: disciplined.induct) (auto simp: safe_trace_def split: if_splits)

lemma safe_trace_append: "safe_trace v xs \<Longrightarrow> safe_trace v ys \<Longrightarrow> safe_trace v (xs @ ys)"
  by (meson disciplined_append safe_trace_def)

lemma safe_known_append: "safe_known v xs \<Longrightarrow> safe_trace v ys \<Longrightarrow> safe_known v (xs @ ys)"
  by (meson disciplined_append safe_known_def)

lemma safe_trace_simps [simp]:
  "safe_trace v []" "safe_trace v [EvConnect]" "safe_trace v [EvWriteMarker]" "safe_trace v [EvRemoveMarker]"
  "safe_trace v [EvPost pr]" "safe_trace v [EvSpawn p (daemon_environment W cfg)]"
  by (simp_all add: safe_trace_def daemon_environment_def)

definition spawns :: "client_event list \<Rightarrow> nat" where
  "spawns es = length (filter (\<lambda>e. case e of EvSpawn _ _ \<Rightarrow> True | _ \<Rightarrow> False) es)"

lemma spawns_simps [simp]: "spawns [] = 0" "spawns (xs @ ys) = spawns xs + spawns ys"
  by (simp_all add: spawns_def)

text \<open>What an operation adds to the trace: a safe segment with at most a number of started processes.\<close>

definition adds :: "string \<Rightarrow> nat \<Rightarrow> client \<Rightarrow> client \<Rightarrow> bool" where
  "adds v n c c' \<longleftrightarrow> (\<exists>evs. c_trace c' = c_trace c @ evs \<and> safe_trace v evs \<and> spawns evs \<le> n)"

lemma adds_refl [simp]: "adds v n c c" "adds v n c (elapse ms c)"
  by (auto simp: adds_def elapse_def)

lemma adds_trans: "adds v m a b \<Longrightarrow> adds v n b c \<Longrightarrow> adds v (m + n) a c"
  unfolding adds_def by (metis append.assoc safe_trace_append spawns_simps(2) add_mono)

lemma adds_mono: "adds v m a b \<Longrightarrow> m \<le> n \<Longrightarrow> adds v n a b"
  unfolding adds_def by (meson order_trans)

lemma adds_log: "safe_trace v evs \<Longrightarrow> spawns evs \<le> n \<Longrightarrow> adds v n c (log_events evs c)"
  by (auto simp: adds_def log_events_def)

lemma adds_elapse [simp]: "adds v n a (elapse ms b) \<longleftrightarrow> adds v n a b" "adds v n (elapse ms a) b \<longleftrightarrow> adds v n a b"
  by (simp_all add: adds_def elapse_def)

lemma adds_trans0: "adds v 0 a b \<Longrightarrow> adds v n b c \<Longrightarrow> adds v n a c" "adds v n a b \<Longrightarrow> adds v 0 b c \<Longrightarrow> adds v n a c"
  using adds_trans [of v 0 a b n c] adds_trans [of v n a b 0 c] by simp_all

text \<open>A handshake that meets a Gateway, and a step that is only safe after one.\<close>

definition reveals :: "string \<Rightarrow> client \<Rightarrow> client \<Rightarrow> bool" where
  "reveals v c c' \<longleftrightarrow> (\<exists>evs. c_trace c' = c_trace c @ evs \<and> safe_before v evs \<and> spawns evs = 0)"

definition adds_known :: "string \<Rightarrow> nat \<Rightarrow> client \<Rightarrow> client \<Rightarrow> bool" where
  "adds_known v n c c' \<longleftrightarrow> (\<exists>evs. c_trace c' = c_trace c @ evs \<and> safe_known v evs \<and> spawns evs \<le> n)"

lemma reveals_then: "reveals v a b \<Longrightarrow> adds_known v n b c \<Longrightarrow> adds v n a c"
  unfolding reveals_def adds_known_def adds_def safe_before_def by (metis append.assoc spawns_simps(2) add_0)

lemma adds_then_reveals: "adds v 0 a b \<Longrightarrow> reveals v b c \<Longrightarrow> reveals v a c"
  unfolding reveals_def adds_def safe_before_def
  by (metis append.assoc safe_trace_append spawns_simps(2) add_0 le_zero_eq)

lemma adds_known_then: "adds_known v m a b \<Longrightarrow> adds v n b c \<Longrightarrow> adds_known v (m + n) a c"
  unfolding adds_known_def adds_def by (metis append.assoc safe_known_append spawns_simps(2) add_mono)

lemma reveals_elapse [simp]: "reveals v (elapse ms a) b \<longleftrightarrow> reveals v a b" "reveals v a (elapse ms b) \<longleftrightarrow> reveals v a b"
  by (simp_all add: reveals_def elapse_def)

lemma reveals_log [simp]: "reveals v a (log_events [] b) \<longleftrightarrow> reveals v a b"
  by (simp add: reveals_def log_events_def)

subsection \<open>The exchanges\<close>

lemma read_identity_Inr: "read_identity text r = Inr i \<longleftrightarrow> r = AIdentity i \<and> validate_for_client i = Inr ()"
  by (cases r) (auto simp: read_identity_def rbind_Inr_conv)

lemma validate_daemon_version_Inr [simp]: "validate_daemon_version i v = Inr u \<longleftrightarrow> div_daemon_version i = v"
  by (simp add: validate_daemon_version_def)

lemma probe_inner_safe:
  assumes "probe_daemon_inner text v lk = (r, evs)"
  shows "safe_trace v evs \<and> spawns evs = 0
    \<and> (\<forall>i. r = Some (Inr i) \<longrightarrow> validate_for_client i = Inr () \<and> div_daemon_version i = v
        \<and> evs = [EvConnect, EvSend RIdentity, EvReceive (AIdentity i)])"
  using assms
  by (auto simp: probe_daemon_inner_def await_def after_doing_def safe_trace_def spawns_def rbind_Inr_conv read_identity_Inr
      split: if_splits option.splits sum.splits)

lemma version_error_mismatch:
  "rbind (read_identity text r) (\<lambda>i. rbind (map_err (version_error text) (validate_daemon_version i v)) (\<lambda>_. Inr i)) = res \<Longrightarrow>
   (\<exists>i. res = Inr i) \<or> (\<exists>expected found. res = Inl (VersionMismatch expected found)) \<Longrightarrow>
   \<exists>i. r = AIdentity i \<and> validate_for_client i = Inr ()"
  by (cases r) (auto simp: read_identity_def rbind_Inr_conv rbind_Inl_conv map_err_Inl_conv)

lemma probe_inner_meets:
  assumes "probe_daemon_inner text v lk = (Some r, evs)"
    and "(\<exists>i. r = Inr i) \<or> (\<exists>expected found. r = Inl (VersionMismatch expected found))"
  shows "\<exists>i. validate_for_client i = Inr () \<and> evs = [EvConnect, EvSend RIdentity, EvReceive (AIdentity i)]"
  using assms
  by (auto simp: probe_daemon_inner_def await_def after_doing_def dest: version_error_mismatch
      split: if_splits option.splits sum.splits)

lemma send_inner_safe:
  assumes "send_request_inner text v rq lk = (r, evs)" and "rq \<notin> {RIdentity, RDaemonShutdown}"
  shows "safe_trace v evs \<and> spawns evs = 0"
proof -
  obtain p pe where p: "probe_daemon_inner text v lk = (p, pe)" by (cases "probe_daemon_inner text v lk")
  note safe = probe_inner_safe [OF p]
  consider "p = None" | e where "p = Some (Inl e)" | i where "p = Some (Inr i)" by (metis option.exhaust sum.exhaust)
  then show ?thesis
  proof cases
    case 3
    with safe have "validate_for_client i = Inr ()" "div_daemon_version i = v"
      "pe = [EvConnect, EvSend RIdentity, EvReceive (AIdentity i)]" by simp_all
    with assms p 3 show ?thesis
      by (auto simp: send_request_inner_def await_def after_doing_def safe_trace_def spawns_def proves_identity_def
          split: if_splits option.splits sum.splits)
  qed (use assms(1) p safe in \<open>simp_all add: send_request_inner_def\<close>)
qed

lemma raw_safe:
  assumes "send_raw RDaemonShutdown lk = (r, evs)"
  shows "safe_known v evs \<and> spawns evs = 0"
  using assms by (auto simp: send_raw_def await_def after_doing_def safe_known_def spawns_def
      split: if_splits option.splits sum.splits)

lemma probe_daemon_adds: "adds (or_version W) 0 c (snd (probe_daemon W c))"
proof -
  obtain r evs where "probe_daemon_inner (or_identity_error_text W) (or_version W) (or_link W (c_tick c)) = (r, evs)"
    by (cases "probe_daemon_inner (or_identity_error_text W) (or_version W) (or_link W (c_tick c))")
  with probe_inner_safe [OF this] show ?thesis by (simp add: probe_daemon_def Let_def adds_log)
qed

lemma probe_daemon_Inr:
  assumes "probe_daemon W c = (Inr i, c1)"
  shows "validate_for_client i = Inr () \<and> div_daemon_version i = or_version W"
proof -
  obtain r evs where p: "probe_daemon_inner (or_identity_error_text W) (or_version W) (or_link W (c_tick c)) = (r, evs)"
    by (cases "probe_daemon_inner (or_identity_error_text W) (or_version W) (or_link W (c_tick c))")
  with assms have "r = Some (Inr i)" by (auto simp: probe_daemon_def Let_def split: option.splits)
  with probe_inner_safe [OF p] show ?thesis by simp
qed

lemma send_request_adds:
  assumes "rq \<notin> {RIdentity, RDaemonShutdown}"
  shows "adds (or_version W) 0 c (snd (send_request W rq c))"
proof -
  obtain r evs where "send_request_inner (or_identity_error_text W) (or_version W) rq (or_link W (c_tick c)) = (r, evs)"
    by (cases "send_request_inner (or_identity_error_text W) (or_version W) rq (or_link W (c_tick c))")
  with send_inner_safe [OF this assms] show ?thesis by (simp add: send_request_def Let_def adds_log)
qed

lemma shutdown_adds_known: "adds_known (or_version W) 0 c (snd (send_shutdown_request W c))"
proof -
  obtain r evs where "send_raw RDaemonShutdown (or_link W (c_tick c)) = (r, evs)"
    by (cases "send_raw RDaemonShutdown (or_link W (c_tick c))")
  with raw_safe [OF this, of "or_version W"] show ?thesis
    by (auto simp: send_shutdown_request_def Let_def adds_known_def log_events_def elapse_def)
qed

lemma probe_daemon_reveals:
  assumes "probe_daemon W c = (r, c1)" and "(\<exists>i. r = Inr i) \<or> (\<exists>expected found. r = Inl (VersionMismatch expected found))"
  shows "reveals (or_version W) c c1"
proof -
  let ?lk = "or_link W (c_tick c)"
  obtain p evs where p: "probe_daemon_inner (or_identity_error_text W) (or_version W) ?lk = (p, evs)"
    by (cases "probe_daemon_inner (or_identity_error_text W) (or_version W) ?lk")
  from assms p have some: "p = Some r" by (auto simp: probe_daemon_def Let_def split: option.splits)
  obtain i where i: "validate_for_client i = Inr ()" "evs = [EvConnect, EvSend RIdentity, EvReceive (AIdentity i)]"
    using probe_inner_meets [OF p [unfolded some] assms(2)] by blast
  then have "safe_before (or_version W) evs"
    by (auto simp: safe_before_def safe_trace_def safe_known_def meets_gateway_def)
  moreover have "c_trace c1 = c_trace c @ evs"
    using assms(1) p by (auto simp: probe_daemon_def Let_def log_events_def elapse_def)
  moreover have "spawns evs = 0" by (simp add: i spawns_def)
  ultimately show ?thesis unfolding reveals_def by blast
qed

subsection \<open>The polling loops\<close>

lemma wait_for_ready_loop_adds: "adds (or_version W) 0 c (snd (wait_for_ready_loop W deadline c))"
proof (induction W deadline c rule: wait_for_ready_loop.induct)
  case (1 W deadline c)
  obtain r c1 where p: "probe_daemon W c = (r, c1)" by (cases "probe_daemon W c")
  have a: "adds (or_version W) 0 c c1" using probe_daemon_adds [of W c] by (simp add: p)
  show ?case
  proof (cases "(\<exists>m. r = Inl (Unavailable m)) \<and> \<not> deadline \<le> c_now c1")
    case True
    then obtain m where m: "r = Inl (Unavailable m)" by blast
    have "adds (or_version W) 0 c1 (snd (wait_for_ready_loop W deadline (elapse 100 c1)))"
      using "1.IH" [OF p [symmetric] m refl] True by simp
    with a have "adds (or_version W) 0 c (snd (wait_for_ready_loop W deadline (elapse 100 c1)))" by (rule adds_trans0(1))
    with True m show ?thesis by (subst wait_for_ready_loop.simps) (simp add: p)
  next
    case False
    with a show ?thesis by (subst wait_for_ready_loop.simps) (auto simp: p split: sum.split probe_error.split)
  qed
qed

text \<open>The loop ends at most one probe and one pause after the deadline, and gives up only when the deadline has passed.\<close>

lemma wait_for_ready_loop_result:
  assumes "wait_for_ready_loop W deadline c = (r, c')"
  shows "c_now c' \<le> max (c_now c) (deadline + 100) + PROBE_TIMEOUT
    \<and> (\<forall>i. r = Inr i \<longrightarrow> validate_for_client i = Inr () \<and> div_daemon_version i = or_version W)
    \<and> (\<forall>m. r = Inl (Unavailable m) \<longrightarrow> deadline \<le> c_now c')"
  using assms
proof (induction W deadline c rule: wait_for_ready_loop.induct)
  case (1 W deadline c)
  obtain r1 c1 where p: "probe_daemon W c = (r1, c1)" by (cases "probe_daemon W c")
  note now = probe_now [OF p]
  show ?case
  proof (cases "(\<exists>m. r1 = Inl (Unavailable m)) \<and> \<not> deadline \<le> c_now c1")
    case True
    then obtain m where m: "r1 = Inl (Unavailable m)" by blast
    have "wait_for_ready_loop W deadline (elapse 100 c1) = (r, c')"
      using "1.prems" True m by (subst (asm) wait_for_ready_loop.simps) (simp add: p)
    from "1.IH" [OF p [symmetric] m refl _ this] True show ?thesis by (auto simp: elapse_def)
  next
    case False
    with "1.prems" have "r = r1 \<and> c' = c1 \<and> (\<forall>m. r1 = Inl (Unavailable m) \<longrightarrow> deadline \<le> c_now c1)"
      by (subst (asm) wait_for_ready_loop.simps) (auto simp: p split: sum.split_asm probe_error.split_asm if_splits)
    with now probe_daemon_Inr [of W c] p show ?thesis by auto
  qed
qed

lemma wait_for_ready_loop_reveals:
  assumes "wait_for_ready_loop W deadline c = (Inr i, c')"
  shows "reveals (or_version W) c c'"
  using assms
proof (induction W deadline c rule: wait_for_ready_loop.induct)
  case (1 W deadline c)
  obtain r c1 where p: "probe_daemon W c = (r, c1)" by (cases "probe_daemon W c")
  show ?case
  proof (cases "\<exists>m. r = Inl (Unavailable m)")
    case True
    then obtain m where m: "r = Inl (Unavailable m)" by blast
    have a: "adds (or_version W) 0 c (elapse 100 c1)" using probe_daemon_adds [of W c] by (simp add: p)
    have "\<not> deadline \<le> c_now c1" and "wait_for_ready_loop W deadline (elapse 100 c1) = (Inr i, c')"
      using "1.prems" m by (subst (asm) wait_for_ready_loop.simps, simp add: p split: if_splits)+
    from adds_then_reveals [OF a "1.IH" [OF p [symmetric] m refl this]] show ?thesis .
  next
    case False
    with "1.prems" have "r = Inr i" "c' = c1"
      by (subst (asm) wait_for_ready_loop.simps, auto simp: p split: sum.split_asm probe_error.split_asm)+
    with probe_daemon_reveals [OF p] show ?thesis by blast
  qed
qed

lemma wait_for_stopped_loop_adds: "adds v 0 c (snd (wait_for_stopped_loop W deadline c))"
proof (induction W deadline c rule: wait_for_stopped_loop.induct)
  case (1 W deadline c)
  obtain b c1 where p: "try_connect W c = (b, c1)" by (cases "try_connect W c")
  have a: "adds v 0 c c1"
    using p by (auto simp: try_connect_def Let_def adds_log spawns_def)
  show ?case
  proof (cases "b \<and> \<not> deadline \<le> c_now c1")
    case True
    have "adds v 0 c1 (snd (wait_for_stopped_loop W deadline (elapse 100 c1)))"
      using "1.IH" [OF p [symmetric]] True by simp
    with a have "adds v 0 c (snd (wait_for_stopped_loop W deadline (elapse 100 c1)))" by (rule adds_trans0(1))
    with True show ?thesis by (subst wait_for_stopped_loop.simps) (simp add: p)
  next
    case False
    with a show ?thesis by (subst wait_for_stopped_loop.simps) (auto simp: p split: bool.split)
  qed
qed

subsection \<open>The commands of the command line\<close>

text \<open>An action is safe when whatever it does extends the trace safely; sequencing adds up the started processes.\<close>

definition acts_safely :: "string \<Rightarrow> nat \<Rightarrow> (client \<Rightarrow> 'a \<times> client) \<Rightarrow> bool" where
  "acts_safely v n m \<longleftrightarrow> (\<forall>c. adds v n c (snd (m c)))"

named_theorems client_intros

lemma acts_safely_cbind [client_intros]:
  assumes "acts_safely v m f" and "\<And>x. acts_safely v n (g x)"
  shows "acts_safely v (m + n) (cbind f g)"
  unfolding acts_safely_def
proof
  fix c
  obtain r c1 where f: "f c = (r, c1)" by (cases "f c")
  have a: "adds v m c c1" using assms(1) f unfolding acts_safely_def by (metis snd_conv)
  show "adds v (m + n) c (snd (cbind f g c))"
  proof (cases r)
    case (Inl e)
    with a f show ?thesis by (simp add: cbind_def adds_mono)
  next
    case (Inr x)
    have "adds v n c1 (snd (g x c1))" using assms(2) by (simp add: acts_safely_def)
    with a adds_trans f Inr show ?thesis by (simp add: cbind_def)
  qed
qed

lemma acts_safelyD: "acts_safely v n f \<Longrightarrow> adds v n c (snd (f c))"
  by (simp add: acts_safely_def)

lemma acts_safely_mono: "acts_safely v m f \<Longrightarrow> m \<le> n \<Longrightarrow> acts_safely v n f"
  by (meson acts_safely_def adds_mono)

lemma acts_safely_basic [client_intros]:
  "acts_safely v 0 (cfail e)" "acts_safely v 0 (creturn x)"
  by (simp_all add: acts_safely_def cfail_def creturn_def)

lemma acts_safely_exchanges [client_intros]:
  "acts_safely (or_version W) 0 (probe_daemon W)"
  "acts_safely (or_version W) 0 (wait_for_ready W timeout)"
  "acts_safely v 0 (wait_for_stopped W timeout)"
  "rq \<notin> {RIdentity, RDaemonShutdown} \<Longrightarrow> acts_safely (or_version W) 0 (send_request W rq)"
  by (simp_all add: acts_safely_def probe_daemon_adds wait_for_ready_def wait_for_ready_loop_adds
      wait_for_stopped_def wait_for_stopped_loop_adds send_request_adds)

lemma acts_safely_marker [client_intros]:
  "acts_safely v 0 (clear_stop_marker W)" "acts_safely v 0 (create_data_dir W)" "acts_safely v 0 (marker_exists W)"
  "acts_safely v 1 (spawn_sibling W cfg)"
  by (auto simp: acts_safely_def clear_stop_marker_def create_data_dir_def marker_exists_def spawn_sibling_def
      intro!: adds_log split: remove_result.split option.split sum.split) (simp_all add: spawns_def)

lemma acts_safely_mark_stopped [client_intros]: "acts_safely v 0 (mark_daemon_stopped W)"
proof -
  have "acts_safely v 0 (\<lambda>c. case or_write_marker W (c_tick c) of
      Some e \<Rightarrow> (Inl e, log_events [] c) | None \<Rightarrow> (Inr (), log_events [EvWriteMarker] c))"
    by (auto simp: acts_safely_def intro!: adds_log split: option.split) (simp add: spawns_def)
  from acts_safely_cbind [OF acts_safely_marker(2) this] show ?thesis by (simp add: mark_daemon_stopped_def)
qed

lemma clear_and_fail_safe: "acts_safely v 0 (cbind (clear_stop_marker W) (\<lambda>_. cfail e))"
  using acts_safely_cbind [OF acts_safely_marker(1) acts_safely_basic(1)] by simp

lemma stop_adds_known: "adds_known (or_version W) 0 c (snd (stop_verified_daemon W c))"
proof -
  obtain r c1 where r: "send_shutdown_request W c = (r, c1)" by (cases "send_shutdown_request W c")
  have known: "adds_known (or_version W) 0 c c1" using shutdown_adds_known [of W c] r by simp
  have "adds_known (or_version W) 0 c (snd (wait_for_stopped W DAEMON_STOP_TIMEOUT c1))"
    using adds_known_then [OF known wait_for_stopped_loop_adds] by (simp add: wait_for_stopped_def)
  with known r show ?thesis
    by (auto simp: stop_verified_daemon_def cbind_def cfail_def split: sum.split ipc_response.split)
qed

lemma launch_safe: "acts_safely (or_version W) 1 (launch_daemon W cfg)"
proof -
  have wait: "acts_safely (or_version W) 0 (\<lambda>c. case wait_for_ready W DAEMON_READY_TIMEOUT c of
      (Inl e, c1) \<Rightarrow> (Inl (''packaged daemon did not become ready: '' @ probe_error_text e), c1)
    | (Inr _, c1) \<Rightarrow> (Inr (), c1))"
    using acts_safely_exchanges(2) [of W DAEMON_READY_TIMEOUT]
    by (auto simp: acts_safely_def split: prod.split sum.split) (metis snd_conv)+
  show ?thesis
    unfolding launch_daemon_def
    using acts_safely_cbind [OF acts_safely_marker(1) acts_safely_cbind [OF acts_safely_marker(4) wait]] by simp
qed

lemma daemon_start_safe: "acts_safely (or_version W) 1 (daemon_start W cfg)"
  unfolding acts_safely_def
proof
  fix c
  obtain r c1 where p: "probe_daemon W c = (r, c1)" by (cases "probe_daemon W c")
  have a: "adds (or_version W) 0 c c1" using probe_daemon_adds [of W c] p by simp
  consider i where "r = Inr i" | m where "r = Inl (Incompatible m)" | m where "r = Inl (Unavailable m)"
    | expected found where "r = Inl (VersionMismatch expected found)"
    by (metis sum.exhaust probe_error.exhaust)
  then show "adds (or_version W) 1 c (snd (daemon_start W cfg c))"
  proof cases
    case 1
    have "adds (or_version W) 1 c (snd (clear_stop_marker W c1))"
      using adds_trans [OF a acts_safelyD [OF acts_safely_marker(1)]] by (rule adds_mono) simp
    with p 1 show ?thesis by (simp add: daemon_start_def)
  next
    case 4
    obtain r2 c2 where s: "stop_verified_daemon W c1 = (r2, c2)" by (cases "stop_verified_daemon W c1")
    have known: "adds_known (or_version W) 0 c1 c2" using stop_adds_known [of W c1] s by simp
    have reveal: "reveals (or_version W) c c1" using probe_daemon_reveals [OF p] 4 by blast
    show ?thesis
    proof (cases r2)
      case (Inl e)
      have "adds (or_version W) 1 c c2" using reveals_then [OF reveal known] by (rule adds_mono) simp
      with p 4 s Inl show ?thesis by (simp add: daemon_start_def cbind_def)
    next
      case (Inr u)
      with reveals_then [OF reveal adds_known_then [OF known acts_safelyD [OF launch_safe]]] p 4 s show ?thesis
        by (simp add: daemon_start_def cbind_def)
    qed
  qed (use adds_mono [OF a, of 1] p adds_trans [OF a acts_safelyD [OF launch_safe]] in \<open>simp_all add: daemon_start_def\<close>)
qed

lemma stop_and_pause_adds_known: "adds_known (or_version W) 0 c (snd (stop_verified_daemon_and_pause_supervisor W c))"
proof -
  obtain r c1 where s: "stop_verified_daemon W c = (r, c1)" by (cases "stop_verified_daemon W c")
  have known: "adds_known (or_version W) 0 c c1" using stop_adds_known [of W c] s by simp
  show ?thesis
    using known s
    by (cases r) (simp_all add: stop_verified_daemon_and_pause_supervisor_def
        adds_known_then [OF known acts_safelyD [OF clear_and_fail_safe], simplified])
qed

lemma daemon_stop_safe: "acts_safely (or_version W) 0 (daemon_stop W)"
proof -
  have "adds (or_version W) 0 c (snd (case probe_daemon W c of
         (Inr identity, c1) \<Rightarrow> stop_verified_daemon_and_pause_supervisor W c1
       | (Inl (Unavailable _), c1) \<Rightarrow> (Inr (), c1)
       | (Inl (VersionMismatch expected found), c1) \<Rightarrow> stop_verified_daemon_and_pause_supervisor W c1
       | (Inl (Incompatible m), c1) \<Rightarrow>
           cbind (clear_stop_marker W) (\<lambda>_. cfail (''refusing to send a lifecycle request to an unverified local endpoint: ''
             @ m @ ''; no alternate daemon was launched'')) c1))" for c
  proof -
    obtain r c1 where p: "probe_daemon W c = (r, c1)" by (cases "probe_daemon W c")
    have a: "adds (or_version W) 0 c c1" using probe_daemon_adds [of W c] p by simp
    have stop: "(\<exists>i. r = Inr i) \<or> (\<exists>expected found. r = Inl (VersionMismatch expected found)) \<Longrightarrow>
        adds (or_version W) 0 c (snd (stop_verified_daemon_and_pause_supervisor W c1))"
      using reveals_then [OF probe_daemon_reveals [OF p] stop_and_pause_adds_known] by blast
    from a stop adds_trans0(1) [OF a acts_safelyD [OF clear_and_fail_safe]] show ?thesis
      by (cases r) (auto simp: p split: probe_error.split)
  qed
  then show ?thesis
    unfolding daemon_stop_def
    using acts_safely_cbind [OF acts_safely_mark_stopped] by (metis (no_types, lifting) acts_safely_def add_0)
qed

lemma daemon_restart_safe: "acts_safely (or_version W) 1 (daemon_restart W cfg)"
  unfolding daemon_restart_def using acts_safely_cbind [OF daemon_stop_safe daemon_start_safe] by simp

lemma daemon_status_safe: "acts_safely (or_version W) 0 (daemon_status W)"
  unfolding acts_safely_def
proof
  fix c
  obtain r c1 where p: "probe_daemon W c = (r, c1)" by (cases "probe_daemon W c")
  have a: "adds (or_version W) 0 c c1" using probe_daemon_adds [of W c] p by simp
  then have "adds (or_version W) 0 c (log_events [] c1)" by (simp add: adds_def log_events_def)
  with a p show "adds (or_version W) 0 c (snd (daemon_status W c))"
    by (simp add: daemon_status_def split: sum.split probe_error.split)
qed

lemma cli_query_safe:
  assumes "rq \<notin> {RIdentity, RDaemonShutdown}"
  shows "acts_safely (or_version W) 0 (cli_query W rq)"
  using send_request_adds [OF assms, of W] by (auto simp: acts_safely_def cli_query_def split: prod.split) (metis snd_conv)

lemma cli_order_safe:
  assumes "rq \<notin> {RIdentity, RDaemonShutdown}"
  shows "acts_safely (or_version W) 0 (cli_order W rq)"
  unfolding cli_order_def using acts_safely_cbind [OF cli_query_safe [OF assms] acts_safely_basic(2)] by simp

lemma cloud_pair_safe: "acts_safely (or_version W) 0 (cloud_pair W code)"
proof -
  have post: "acts_safely (or_version W) 0 (\<lambda>c. case or_http_client W (c_tick c) of
              Some e \<Rightarrow> (Inl e, log_events [] c)
            | None \<Rightarrow>
                (case or_post W (c_tick c) of
                   Inl e \<Rightarrow> (Inl e, log_events [EvPost pr] c)
                 | Inr status \<Rightarrow>
                     if status \<noteq> 202
                     then (Inl ''cloud did not accept this device invitation; generate a fresh code'', log_events [EvPost pr] c)
                     else (Inr (), log_events [EvPost pr] c)))" for pr
    by (auto simp: acts_safely_def intro!: adds_log split: option.split sum.split) (simp_all add: spawns_def)
  have query: "acts_safely (or_version W) 0 (cli_query W (RCloudPairingProof code))" by (rule cli_query_safe) simp
  have "acts_safely (or_version W) (0 + 0) (cloud_pair W code)"
    unfolding cloud_pair_def
  proof (rule acts_safely_cbind [OF query])
    fix response
    show "acts_safely (or_version W) 0 (case response of
         ACloudPairingProof proof \<Rightarrow>
           (\<lambda>c. case or_http_client W (c_tick c) of
              Some e \<Rightarrow> (Inl e, log_events [] c)
            | None \<Rightarrow>
                (case or_post W (c_tick c) of
                   Inl e \<Rightarrow> (Inl e, log_events [EvPost proof] c)
                 | Inr status \<Rightarrow>
                     if status \<noteq> 202
                     then (Inl ''cloud did not accept this device invitation; generate a fresh code'', log_events [EvPost proof] c)
                     else (Inr (), log_events [EvPost proof] c)))
       | _ \<Rightarrow> cfail ''local Gateway did not return a device pairing proof'')"
      by (cases response) (simp_all only: ipc_response.case post acts_safely_basic(1))
  qed
  then show ?thesis by simp
qed

lemma run_setup_safe: "acts_safely (or_version W) 1 (run_setup W cfg)"
proof -
  have "acts_safely (or_version W) 0 (\<lambda>c. case send_request W RStatus c of
         (Inr response, c1) \<Rightarrow> (rbind (ok_or_bail (Inr response)) (\<lambda>_. Inr ()), c1)
       | (Inl _, c1) \<Rightarrow> (Inr (), c1))"
    using send_request_adds [of RStatus W] by (auto simp: acts_safely_def split: prod.split sum.split) (metis snd_conv)+
  from acts_safely_cbind [OF acts_safely_marker(2) acts_safely_cbind [OF daemon_start_safe this]] show ?thesis
    by (simp add: run_setup_def)
qed

lemma session_decision_safe:
  assumes "\<And>i. request i \<notin> {RIdentity, RDaemonShutdown}"
  shows "acts_safely (or_version W) 0 (cli_session_decision W raw request)"
  using cli_order_safe [OF assms] by (simp add: acts_safely_def cli_session_decision_def split: sum.split)

lemma workspace_command_safe: "acts_safely (or_version W) 0 (workspace_command W action)"
  by (cases action) (auto intro!: cli_order_safe acts_safely_basic split: sum.split)

lemma session_command_safe: "acts_safely (or_version W) 0 (session_command W action)"
proof (cases action)
  case SessionList
  have "acts_safely (or_version W) (0 + 0) (session_command W SessionList)"
    unfolding session_command.simps by (intro acts_safely_cbind cli_query_safe cli_order_safe) simp_all
  with SessionList show ?thesis by simp
qed (auto intro!: session_decision_safe)

lemma run_command_safe: "acts_safely (or_version W) 1 (run_command W cfg command)"
proof (cases command)
  case CmdSetup
  with run_setup_safe [of W cfg] show ?thesis by simp
next
  case CmdDaemonStart
  with daemon_start_safe [of W cfg] show ?thesis by simp
next
  case CmdDaemonRestart
  with daemon_restart_safe [of W cfg] show ?thesis by simp
qed (auto intro!: acts_safely_mono [where m = 0] cli_order_safe daemon_stop_safe daemon_status_safe cloud_pair_safe
    workspace_command_safe session_command_safe)

lemma cli_main_safe: "acts_safely (or_version W) 1 (cli_main W command)"
proof -
  have "adds (or_version W) 1 c (log_events [] c)" for c by (simp add: adds_def log_events_def exI [of _ "[]"])
  moreover have "adds (or_version W) 1 c (snd (run_command W cfg command (log_events [] c)))" for c cfg
    using acts_safelyD [OF run_command_safe [of W cfg command], of "log_events [] c"] by (simp add: adds_def log_events_def)
  ultimately show ?thesis by (simp add: acts_safely_def cli_main_def split: sum.split)
qed

subsection \<open>The desktop shell\<close>

text \<open>The desktop's copy of the client behaves as the command line's.\<close>

lemma validate_packaged_version_alt:
  "validate_packaged_version text v i = map_err (version_error text) (validate_daemon_version i v)"
  by (simp add: validate_packaged_version_def validate_daemon_version_def)

lemma desktop_probe_daemon_inner_alt: "desktop_probe_daemon_inner = probe_daemon_inner"
  by (intro ext, unfold desktop_probe_daemon_inner_def probe_daemon_inner_def validate_packaged_version_alt) (rule refl)

lemma desktop_client_alt: "desktop_probe_daemon = probe_daemon" "desktop_send_request = send_request"
  by (auto simp: fun_eq_iff desktop_probe_daemon_def probe_daemon_def desktop_send_request_def send_request_def
      desktop_send_request_inner_def send_request_inner_def desktop_probe_daemon_inner_alt)

lemma launcher_client_simps [simp]:
  "la_client (set_starting l) = la_client l" "la_client (set_ready i l) = la_client l"
  "la_client (set_stopped m l) = la_client l" "la_client (set_failed m l) = la_client l"
  "la_client (snd (failed_with m l)) = la_client l" "la_client (snd (stopped_with m l)) = la_client l"
  by (simp_all add: set_starting_def set_ready_def set_stopped_def set_failed_def failed_with_def stopped_with_def)

lemma on_client_conv: "on_client f l = (r, l1) \<longleftrightarrow> f (la_client l) = (r, la_client l1) \<and> l1 = l\<lparr>la_client := la_client l1\<rparr>"
  by (auto simp: on_client_def split: prod.splits)

lemma on_client_safe: "acts_safely v n f \<Longrightarrow> on_client f l = (r, l1) \<Longrightarrow> adds v n (la_client l) (la_client l1)"
  using acts_safelyD [of v n f "la_client l"] by (simp add: on_client_conv)

lemma desktop_stop_adds_known: "adds_known (or_version W) 0 (la_client l) (la_client (snd (desktop_stop_verified_daemon W l)))"
proof -
  obtain r l1 where r: "on_client (send_shutdown_request W) l = (r, l1)" by (cases "on_client (send_shutdown_request W) l")
  obtain r2 l2 where r2: "on_client (wait_for_stopped W STOP_TIMEOUT) l1 = (r2, l2)"
    by (cases "on_client (wait_for_stopped W STOP_TIMEOUT) l1")
  have known: "adds_known (or_version W) 0 (la_client l) (la_client l1)"
    using shutdown_adds_known [of W "la_client l"] r by (simp add: on_client_conv)
  have "adds_known (or_version W) 0 (la_client l) (la_client l2)"
    using adds_known_then [OF known on_client_safe [OF acts_safely_exchanges(3) r2]] by simp
  with known r r2 show ?thesis
    by (auto simp: desktop_stop_verified_daemon_def split: sum.split ipc_response.split)
qed

lemma spawn_packaged_adds: "adds v 1 (la_client l) (la_client (snd (spawn_packaged_daemon W cfg l)))"
  by (auto simp: spawn_packaged_daemon_def intro!: adds_log split: option.split) (simp add: spawns_def)

lemma marker_exists_trace: "on_client (marker_exists W) l = (b, l1) \<Longrightarrow> la_client l1 = log_events [] (la_client l)"
  by (auto simp: on_client_def marker_exists_def)

lemma adds_log_nil [simp]: "adds v n a (log_events [] b) \<longleftrightarrow> adds v n a b" "adds v n (log_events [] a) b \<longleftrightarrow> adds v n a b"
  by (simp_all add: adds_def log_events_def)

lemma start_attempts_adds:
  "adds (or_version W) (length attempts) (la_client l) (la_client (snd (start_attempts W cfg attempts m l)))"
proof (induction attempts arbitrary: m l)
  case Nil
  show ?case by simp
next
  case (Cons attempt attempts)
  let ?v = "or_version W" and ?l1 = "l\<lparr>la_client := elapse (250 * attempt) (la_client l)\<rparr>"
  obtain r2 l2 where r2: "spawn_packaged_daemon W cfg ?l1 = (r2, l2)" by (cases "spawn_packaged_daemon W cfg ?l1")
  have spawn: "adds ?v 1 (la_client l) (la_client l2)" using spawn_packaged_adds [of ?v ?l1 W cfg] r2 by simp
  obtain r3 l3 where r3: "on_client (wait_for_ready W READY_TIMEOUT) l2 = (r3, l3)"
    by (cases "on_client (wait_for_ready W READY_TIMEOUT) l2")
  have wait: "adds ?v 1 (la_client l) (la_client l3)"
    using adds_trans0(2) [OF spawn on_client_safe [OF acts_safely_exchanges(2) r3]] .
  let ?n = "Suc (length attempts)"
  show ?case
  proof (cases "\<exists>m. r3 = Inl (Unavailable m) \<and> (\<exists>u. r2 = Inr u)")
    case True
    then obtain m' where "r3 = Inl (Unavailable m')" by blast
    with adds_trans [OF wait Cons.IH [where m = m' and l = l3]] True r2 r3 show ?thesis by auto
  next
    case False
    obtain b l4 where r4: "on_client (marker_exists W) l3 = (b, l4)" by (cases "on_client (marker_exists W) l3")
    have "adds ?v 1 (la_client l) (la_client (snd (desktop_stop_verified_daemon W l4)))" if "r3 = Inr i" for i
    proof -
      have "reveals ?v (la_client l2) (la_client l3)"
        using r3 that by (auto simp: on_client_conv wait_for_ready_def intro: wait_for_ready_loop_reveals)
      then have "reveals ?v (la_client l2) (la_client l4)" by (simp add: marker_exists_trace [OF r4])
      from adds_trans0(2) [OF spawn reveals_then [OF this desktop_stop_adds_known]] show ?thesis .
    qed
    then have stop: "adds ?v ?n (la_client l) (la_client (snd (desktop_stop_verified_daemon W l4)))" if "r3 = Inr i" for i
      by (rule adds_mono) (use that in simp_all)
    have "adds ?v ?n (la_client l) (la_client l2)" "adds ?v ?n (la_client l) (la_client l3)"
      using adds_mono [OF spawn, of ?n] adds_mono [OF wait, of ?n] by simp_all
    moreover from this(2) have "adds ?v ?n (la_client l) (la_client l4)" by (simp add: marker_exists_trace [OF r4])
    ultimately show ?thesis
      using False stop r2 r3 r4
      by (cases r2; cases r3) (auto simp: Let_def split: probe_error.split bool.split)
  qed
qed

lemma adopt_adds: "adds v n (la_client l) (la_client (snd (adopt_stop_marker W l)))"
proof -
  have "adds v n c (log_events [EvRemoveMarker] c)" for c by (rule adds_log) (simp_all add: spawns_def)
  then show ?thesis
    by (auto simp: adopt_stop_marker_def Let_def on_client_def marker_exists_def split: remove_result.split bool.split)
qed

lemma ensure_ready_adds: "adds (or_version W) START_ATTEMPTS (la_client l) (la_client (snd (ensure_ready W l)))"
proof -
  let ?v = "or_version W" and ?N = START_ATTEMPTS and ?l0 = "l\<lparr>la_client := log_events [] (la_client l)\<rparr>"
  obtain r1 l1 where r1: "adopt_stop_marker W ?l0 = (r1, l1)" by (cases "adopt_stop_marker W ?l0")
  have adopt: "adds ?v n (la_client l) (la_client l1)" for n
    using adopt_adds [of ?v n ?l0 W] r1 by simp
  obtain r2 l2 where r2: "on_client (probe_daemon W) l1 = (r2, l2)" by (cases "on_client (probe_daemon W) l1")
  have probe: "adds ?v 0 (la_client l) (la_client l2)"
    using adds_trans0(1) [OF adopt on_client_safe [OF acts_safely_exchanges(1) r2]] .
  have start: "adds ?v ?N (la_client l') (la_client (snd (start_packaged W cfg l')))" for cfg l'
    using start_attempts_adds [of W "[0..<?N]" "set_starting l'"] by (simp add: start_packaged_def)
  have stop: "adds ?v ?N (la_client l) (la_client (snd (case desktop_stop_verified_daemon W (set_starting l2) of
      (Inl e, l3) \<Rightarrow> (Inl e, l3) | (Inr _, l3) \<Rightarrow> start_packaged W cfg l3)))"
    if "r2 = Inl (VersionMismatch expected found)" for cfg expected found
  proof -
    obtain r3 l3 where r3: "desktop_stop_verified_daemon W (set_starting l2) = (r3, l3)"
      by (cases "desktop_stop_verified_daemon W (set_starting l2)")
    have known: "adds_known ?v 0 (la_client l2) (la_client l3)"
      using desktop_stop_adds_known [of W "set_starting l2"] r3 by simp
    have reveal: "reveals ?v (la_client l) (la_client l2)"
      using adds_then_reveals [OF adopt] probe_daemon_reveals [of W "la_client l1" r2 "la_client l2"] r2 that
      by (auto simp: on_client_conv)
    from reveals_then [OF reveal known] reveals_then [OF reveal adds_known_then [OF known start]] r3 show ?thesis
      by (auto split: sum.split elim: adds_mono)
  qed
  obtain b l3 where r3: "on_client (marker_exists W) l2 = (b, l3)" by (cases "on_client (marker_exists W) l2")
  have l3: "adds ?v n (la_client l) (la_client l3)" for n
    using adds_mono [OF probe, of n] by (simp add: marker_exists_trace [OF r3])
  from adopt adds_mono [OF probe, of ?N] start stop l3 adds_trans0(1) [OF l3 start] r1 r2 r3 show ?thesis
    by (auto simp: ensure_ready_def desktop_client_alt split: sum.split probe_error.split bool.split)
qed

lemma desktop_send_adds:
  assumes "rq \<notin> {RIdentity, RDaemonShutdown}"
  shows "adds (or_version W) START_ATTEMPTS (la_client l) (la_client (snd (desktop_send W rq l)))"
proof -
  obtain r l1 where r: "ensure_ready W l = (r, l1)" by (cases "ensure_ready W l")
  obtain r2 l2 where r2: "on_client (send_request W rq) l1 = (r2, l2)" by (cases "on_client (send_request W rq) l1")
  have ready: "adds (or_version W) START_ATTEMPTS (la_client l) (la_client l1)" using ensure_ready_adds [of W l] r by simp
  with adds_trans0(2) [OF ready on_client_safe [OF acts_safely_exchanges(4) [OF assms] r2]] r r2 show ?thesis
    by (simp add: desktop_send_def desktop_client_alt split: sum.split)
qed

lemma desktop_command_adds: "adds (or_version W) START_ATTEMPTS (la_client l) (la_client (snd (run_desktop_command W command l)))"
proof -
  obtain rq expected where rq: "desktop_request command = (rq, expected)" by (cases "desktop_request command")
  have "rq \<notin> {RIdentity, RDaemonShutdown}" using rq by (cases command) auto
  from desktop_send_adds [OF this, of W l] rq show ?thesis by (auto simp: run_desktop_command_def split: prod.split)
qed

lemma watchdog_adds: "adds (or_version W) (START_ATTEMPTS * n) (la_client l) (la_client (snd (watchdog W n delay l)))"
proof (induction n arbitrary: delay l)
  case 0
  show ?case by simp
next
  case (Suc n)
  let ?l = "l\<lparr>la_client := elapse delay (la_client l)\<rparr>"
  obtain r l1 where r: "ensure_ready W ?l = (r, l1)" by (cases "ensure_ready W ?l")
  have "adds (or_version W) START_ATTEMPTS (la_client l) (la_client l1)" using ensure_ready_adds [of W ?l] r by simp
  from adds_trans [OF this Suc.IH] r show ?case by (simp split: sum.split)
qed

lemma adds_disciplined: "adds v n a b \<Longrightarrow> \<exists>evs. c_trace b = c_trace a @ evs \<and> disciplined v k s evs \<and> spawns evs \<le> n"
  by (auto simp: adds_def safe_trace_def)

text \<open>
  C36: Whatever happens around it, everything a command of the command line, a command of the desktop and any number of
  rounds of the desktop's watchdog do is a disciplined extension of the trace: a request other than the identity
  handshake and the shutdown is sent only on a connection whose peer has just given an identity that passes the protocol
  checks and is of the client's own version; a shutdown is sent only when the last handshake met a Gateway; every daemon
  is started with its transport disabled. A command of the command line starts at most one daemon, a command of the
  desktop at most three, and n rounds of the watchdog at most three times n.
\<close>

theorem clients_send_only_to_a_verified_daemon:
  "(\<exists>evs. c_trace (snd (cli_main W command c)) = c_trace c @ evs
      \<and> disciplined (or_version W) False SpentConn evs \<and> spawns evs \<le> 1)
   \<and> (\<exists>evs. c_trace (la_client (snd (run_desktop_command W dcommand l))) = c_trace (la_client l) @ evs
      \<and> disciplined (or_version W) False SpentConn evs \<and> spawns evs \<le> START_ATTEMPTS)
   \<and> (\<exists>evs. c_trace (la_client (snd (watchdog W n delay l))) = c_trace (la_client l) @ evs
      \<and> disciplined (or_version W) False SpentConn evs \<and> spawns evs \<le> START_ATTEMPTS * n)"
  using adds_disciplined [OF acts_safelyD [OF cli_main_safe]] adds_disciplined [OF desktop_command_adds]
    adds_disciplined [OF watchdog_adds] by blast

subsection \<open>The launcher's view\<close>

text \<open>What the launcher shows after an attempt: a validated identity after a success, none after a failure.\<close>

definition settled :: "surroundings \<Rightarrow> (string + 'a) \<times> launcher \<Rightarrow> bool" where
  "settled W res = (case res of
     (Inr _, l) \<Rightarrow> (case dl_identity (la_view l) of
        None \<Rightarrow> False
      | Some i \<Rightarrow> dl_state (la_view l) = LReady \<and> validate_for_client i = Inr () \<and> div_daemon_version i = or_version W)
   | (Inl _, l) \<Rightarrow> dl_identity (la_view l) = None \<and> dl_state (la_view l) \<in> {LStopped, LFailed})"

lemma settled_simps [simp]:
  "settled W (failed_with m l)" "settled W (stopped_with m l)"
  "settled W (Inr d, set_ready i l) \<longleftrightarrow> validate_for_client i = Inr () \<and> div_daemon_version i = or_version W"
  by (simp_all add: settled_def failed_with_def stopped_with_def set_failed_def set_stopped_def set_ready_def)

lemma settled_failure: "settled W (Inl e, l) \<Longrightarrow> settled W (Inl e', l)"
  by (simp add: settled_def)

lemma stop_failure_settled: "desktop_stop_verified_daemon W l = (Inl e, l1) \<Longrightarrow> settled W (Inl e, l1)"
  by (auto simp: desktop_stop_verified_daemon_def failed_with_def settled_def set_failed_def
      split: prod.splits sum.splits ipc_response.splits)

lemma spawn_failure_settled: "spawn_packaged_daemon W cfg l = (Inl e, l1) \<Longrightarrow> settled W (Inl e, l1)"
  by (auto simp: spawn_packaged_daemon_def failed_with_def settled_def set_failed_def split: option.splits)

lemma adopt_failure_settled: "adopt_stop_marker W l = (Inl e, l1) \<Longrightarrow> settled W (Inl e, l1)"
  by (auto simp: adopt_stop_marker_def Let_def failed_with_def stopped_with_def settled_def set_failed_def set_stopped_def
      split: if_splits remove_result.splits prod.splits bool.splits)

lemma start_attempts_settled: "settled W (start_attempts W cfg attempts m l)"
proof (induction attempts arbitrary: m l)
  case (Cons attempt attempts)
  have valid: "validate_for_client i = Inr () \<and> div_daemon_version i = or_version W"
    if "on_client (wait_for_ready W READY_TIMEOUT) l2 = (Inr i, l3)" for l2 l3 i
    using that wait_for_ready_loop_result [of W _ "la_client l2" "Inr i" "la_client l3"]
    by (auto simp: on_client_conv wait_for_ready_def)
  show ?case
    by (auto simp: Let_def Cons.IH valid spawn_failure_settled split: prod.split sum.split probe_error.split bool.split)
qed simp

lemma ensure_ready_settled:
  assumes "or_config W (c_tick (la_client l)) = Inr cfg"
  shows "settled W (ensure_ready W l)"
proof -
  have valid: "validate_for_client i = Inr () \<and> div_daemon_version i = or_version W"
    if "on_client (probe_daemon W) l1 = (Inr i, l2)" for l1 l2 i
    using that probe_daemon_Inr by (auto simp: on_client_conv)
  show ?thesis
    unfolding ensure_ready_def desktop_client_alt start_packaged_def assms
    by (auto simp: start_attempts_settled valid intro: adopt_failure_settled stop_failure_settled
        split: prod.split sum.split probe_error.split bool.split)
qed

subsection \<open>Concrete surroundings\<close>

definition sample_identity :: daemon_identity_view where
  "sample_identity = \<lparr>div_product_id = DAEMON_PRODUCT_ID, div_protocol_version = LOCAL_IPC_PROTOCOL_VERSION,
     div_daemon_version = ''1.2.3'', div_instance_id = ''i''\<rparr>"

definition sample_link :: "string option \<Rightarrow> nat option \<Rightarrow> nat \<Rightarrow> link" where
  "sample_link fault deadline cost = \<lparr>lk_connect = fault, lk_writes = (\<lambda>_. None),
     lk_reads = (\<lambda>_. Inr (AIdentity sample_identity)), lk_deadline = deadline, lk_cost = cost\<rparr>"

definition sample_client_config :: companion_config where
  "sample_client_config = \<lparr>cfg_data_dir = [RootDir], cfg_log_level = ''info'', cfg_core_bridge_endpoint = the (sample_url []),
     cfg_transport_mode = TM_Disabled, cfg_relay_url = None, cfg_authorization_ttl = default_ttl_config\<rparr>"

definition sample_surroundings :: "link \<Rightarrow> (string + companion_config) \<Rightarrow> surroundings" where
  "sample_surroundings lk cfg = \<lparr>or_link = (\<lambda>_. lk), or_marker = (\<lambda>_. True), or_remove = (\<lambda>_. Absent),
     or_write_marker = (\<lambda>_. None), or_create_dir = (\<lambda>_. None), or_executable = Inr [RootDir, Normal_c ''bin'', Normal_c ''x''],
     or_sidecar = (\<lambda>_. None), or_spawn = (\<lambda>_. None), or_config = (\<lambda>_. cfg), or_http_client = (\<lambda>_. None),
     or_post = (\<lambda>_. Inr 202), or_version = ''1.2.3'', or_identity_error_text = (\<lambda>_. []), or_path_text = (\<lambda>_. []),
     or_get = (\<lambda>_. Inl []), or_id_error_text = (\<lambda>_. [])\<rparr>"

definition sample_client :: client where
  "sample_client = \<lparr>c_tick = 0, c_now = 0, c_trace = []\<rparr>"

lemmas sample_client_defs = sample_surroundings_def sample_link_def sample_client_def sample_identity_def

lemma sample_identity_valid: "validate_for_client sample_identity = Inr ()"
  by code_simp

text \<open>
  Waiting for the daemon is bounded: \<open>wait_for_ready\<close> returns at most a pause of 100 milliseconds and one probe after
  its timeout, says that the daemon is unavailable only once the timeout has passed, and when it succeeds the daemon's
  identity passes the protocol checks and has the client's version.
\<close>

theorem waiting_for_the_daemon_is_bounded:
  assumes "wait_for_ready W timeout c = (r, c')"
  shows "c_now c' \<le> c_now c + timeout + 100 + PROBE_TIMEOUT
    \<and> (\<forall>i. r = Inr i \<longrightarrow> validate_for_client i = Inr () \<and> div_daemon_version i = or_version W)
    \<and> (\<forall>m. r = Inl (Unavailable m) \<longrightarrow> c_now c + timeout \<le> c_now c')"
  using wait_for_ready_loop_result [OF assms [unfolded wait_for_ready_def]] by auto

theorem waiting_for_the_daemon_is_bounded_witness:
  "\<exists>c'. wait_for_ready (sample_surroundings (sample_link (Some ''refused'') None 0) (Inl [])) 100 sample_client
      = (Inl (Unavailable ''refused''), c') \<and> 100 \<le> c_now c' \<and> c_now c' \<le> 200 + PROBE_TIMEOUT"
proof -
  let ?W = "sample_surroundings (sample_link (Some ''refused'') None 0) (Inl [])"
  obtain c' where c': "wait_for_ready ?W 100 sample_client = (Inl (Unavailable ''refused''), c')"
    by (simp add: wait_for_ready_def wait_for_ready_loop.simps probe_daemon_def probe_daemon_inner_def await_def Let_def
        sample_client_defs log_events_def elapse_def)
  from waiting_for_the_daemon_is_bounded [OF c'] c' show ?thesis by (simp add: sample_client_def)
qed

text \<open>
  C37: The desktop shows what it has checked. With a readable configuration, an attempt to get the daemon ready that
  succeeds ends in the state Ready with an identity that passes the protocol checks and has the packaged version; one that
  fails ends in Stopped or Failed without an identity. Once the first attempt is over, a stop marker found at the start
  ends the attempt with nothing sent and nothing started.
\<close>

theorem desktop_shows_only_a_validated_daemon:
  assumes "or_config W (c_tick (la_client l)) = Inr cfg" and "ensure_ready W l = (r, l')"
  shows "(case r of
       Inr _ \<Rightarrow> (\<exists>i. dl_state (la_view l') = LReady \<and> dl_identity (la_view l') = Some i
          \<and> validate_for_client i = Inr () \<and> div_daemon_version i = or_version W)
     | Inl _ \<Rightarrow> dl_identity (la_view l') = None \<and> dl_state (la_view l') \<in> {LStopped, LFailed})
    \<and> (\<not> la_adopt_stop_marker_on_first_start l \<and> or_marker W (Suc (c_tick (la_client l)))
        \<longrightarrow> r = Inl STOPPED_FROM_CLI \<and> dl_state (la_view l') = LStopped \<and> c_trace (la_client l') = c_trace (la_client l))"
proof
  show "case r of
       Inr _ \<Rightarrow> (\<exists>i. dl_state (la_view l') = LReady \<and> dl_identity (la_view l') = Some i
          \<and> validate_for_client i = Inr () \<and> div_daemon_version i = or_version W)
     | Inl _ \<Rightarrow> dl_identity (la_view l') = None \<and> dl_state (la_view l') \<in> {LStopped, LFailed}"
    using ensure_ready_settled [OF assms(1)] assms(2) by (auto simp: settled_def split: sum.splits option.splits)
  show "\<not> la_adopt_stop_marker_on_first_start l \<and> or_marker W (Suc (c_tick (la_client l)))
        \<longrightarrow> r = Inl STOPPED_FROM_CLI \<and> dl_state (la_view l') = LStopped \<and> c_trace (la_client l') = c_trace (la_client l)"
    using assms by (auto simp: ensure_ready_def adopt_stop_marker_def on_client_def marker_exists_def log_events_def
        stopped_with_def set_stopped_def)
qed

theorem desktop_shows_only_a_validated_daemon_witness:
  "\<exists>r l'. ensure_ready (sample_surroundings (sample_link None None 0) (Inr sample_client_config)) (launcher_new sample_client)
      = (r, l') \<and> (\<exists>d. r = Inr d) \<and> dl_identity (la_view l') = Some sample_identity \<and> dl_state (la_view l') = LReady"
proof -
  let ?W = "sample_surroundings (sample_link None None 0) (Inr sample_client_config)"
  have i: "probe_daemon_inner show_error ''1.2.3'' (sample_link None None 0)
      = (Some (Inr sample_identity), [EvConnect, EvSend RIdentity, EvReceive (AIdentity sample_identity)])" for show_error
    by (simp add: probe_daemon_inner_def await_def after_doing_def sample_link_def read_identity_def sample_identity_valid)
      (simp add: validate_daemon_version_def sample_identity_def)
  obtain l' where l': "ensure_ready ?W (launcher_new sample_client) = (Inr [RootDir], l')"
      "dl_identity (la_view l') = Some sample_identity"
    by (simp add: ensure_ready_def adopt_stop_marker_def desktop_client_alt on_client_def launcher_new_def probe_daemon_def
        sample_surroundings_def sample_client_config_def i set_ready_def)
  have "or_config ?W (c_tick (la_client (launcher_new sample_client))) = Inr sample_client_config"
    by (simp add: sample_surroundings_def)
  from desktop_shows_only_a_validated_daemon [OF this l'(1)] l' show ?thesis by auto
qed

subsection \<open>Divergences\<close>

text \<open>
  A daemon that accepts the connection but misses the one-second handshake counts as stopped: \<open>daemon stop\<close> leaves the
  stop marker, sends no shutdown and reports success while the daemon runs.
\<close>

lemma stop_succeeds_while_a_slow_daemon_runs:
  "\<exists>c'. daemon_stop (sample_surroundings (sample_link None (Some 2) 1000) (Inl [])) sample_client = (Inr (), c')
     \<and> c_trace c' = [EvWriteMarker, EvConnect, EvSend RIdentity]"
  by (simp add: daemon_stop_def mark_daemon_stopped_def cbind_def create_data_dir_def probe_daemon_def probe_daemon_inner_def
      await_def after_doing_def Let_def sample_client_defs log_events_def elapse_def)

text \<open>
  When the daemon stops without its acknowledgement reaching the client, \<open>daemon stop\<close> withdraws the stop marker and fails,
  although the daemon has stopped: an open desktop starts it again.
\<close>

definition lossy_surroundings :: surroundings where
  "lossy_surroundings = (sample_surroundings (sample_link None None 0) (Inl []))
     \<lparr>or_link := (\<lambda>n. if n = Suc (Suc 0) then sample_link None None 0
        else (sample_link None None 0)\<lparr>lk_reads := (\<lambda>_. Inl ''connection closed'')\<rparr>), or_remove := (\<lambda>_. Removed)\<rparr>"

lemma lost_acknowledgement_withdraws_the_stop:
  "\<exists>c'. daemon_stop lossy_surroundings sample_client = (Inl ''connection closed'', c')
     \<and> c_trace c' = [EvWriteMarker, EvConnect, EvSend RIdentity, EvReceive (AIdentity sample_identity),
         EvConnect, EvSend RDaemonShutdown, EvRemoveMarker]"
proof -
  have "div_daemon_version sample_identity = ''1.2.3''" by (simp add: sample_identity_def)
  then show ?thesis
    by (simp add: validate_daemon_version_def daemon_stop_def mark_daemon_stopped_def cbind_def create_data_dir_def probe_daemon_def
        probe_daemon_inner_def stop_verified_daemon_and_pause_supervisor_def stop_verified_daemon_def
        send_shutdown_request_def send_raw_def clear_stop_marker_def cfail_def read_identity_def sample_identity_valid
        await_def after_doing_def Let_def lossy_surroundings_def sample_surroundings_def sample_link_def sample_client_def
        log_events_def elapse_def)
qed

text \<open>
  An attempt that fails on the configuration leaves the desktop's view as it was, so the lifecycle command goes on showing
  a daemon as ready that no command can reach.
\<close>

lemma unreadable_configuration_leaves_the_view:
  assumes "or_config W (c_tick (la_client l)) = Inl e"
  shows "fst (daemon_lifecycle W l) = la_view l \<and> (\<exists>m. fst (run_desktop_command W command l) = Inl m)"
  using assms by (auto simp: daemon_lifecycle_def ensure_ready_def run_desktop_command_def desktop_send_def split: prod.split)

end
