(* ===== verification/Spec2Isabelle.thy ===== *)
theory Spec2Isabelle
  imports Gateway_Interleaving Gateway_Owner_Policy Gateway_Transport Gateway_Checkpoints
    Gateway_Control Gateway_Runtime Gateway_Reconcile Gateway_Secrets Gateway_Clients
begin

text \<open>
  Verification of the KiCad MCP Pro Gateway, a Rust workspace under \<^verbatim>\<open>src/\<close>.

  \<^bold>\<open>The program.\<close> The gateway lets a remote AI agent run KiCad tools on a user's computer, under authority that only the
  local user gives. A daemon (\<^verbatim>\<open>src/apps/daemon\<close>) receives envelopes over an outbound transport: session requests become
  access grants in the state Requested, operation requests are checked against the stored grant, the owner's policy and
  the workspace boundary, are recorded in the audit log, and are then refused, queued for local approval, or executed by
  a call to the local kicad-mcp-pro server. The user decides over a local control channel, from the command line
  (\<^verbatim>\<open>src/apps/cli\<close>) or the desktop shell (\<^verbatim>\<open>src/apps/desktop\<close>). The crates under \<^verbatim>\<open>src/crates\<close> hold the domain types, the
  state machines, policy, storage, identity, transport and checkpoints.

  \<^bold>\<open>Theories and the code they model.\<close> Definitions keep the names of the code where Isabelle allows it; each theory opens
  with what it leaves out.

  \<^item> \<^verbatim>\<open>Gateway_Prelude\<close>: results as sums (\<open>rbind\<close> is the \<open>?\<close> operator), text, tables keyed by a column, and the contracts
    \<open>upsert_table\<close>, \<open>kept_forever\<close> and \<open>lifecycle\<close> that the components interpret. \<^verbatim>\<open>Gateway_Bytes\<close>: UTF-8, big-endian
    integers, hexadecimal, framing. \<^verbatim>\<open>Gateway_Paths\<close>: \<open>std::path\<close> on Unix.
  \<^item> \<^verbatim>\<open>Gateway_Core\<close> (ids, capabilities, risk, sessions, operations of \<^verbatim>\<open>crates/core\<close>), \<^verbatim>\<open>Gateway_Authorization\<close>
    (\<^verbatim>\<open>authorization.rs\<close>: principals, grants, leases, the legacy adapter), \<^verbatim>\<open>Gateway_Sessions\<close> and \<^verbatim>\<open>Gateway_Grants\<close>
    (\<^verbatim>\<open>state_machine.rs\<close>, \<^verbatim>\<open>grant_machine.rs\<close>, \<^verbatim>\<open>approvals.rs\<close>, \<^verbatim>\<open>transport_boundary.rs\<close> of \<^verbatim>\<open>crates/sessions\<close>),
    \<^verbatim>\<open>Gateway_Stores\<close> (their repositories and the migration of legacy rows).
  \<^item> \<^verbatim>\<open>Gateway_Workspace\<close> (\<^verbatim>\<open>crates/workspace\<close>), \<^verbatim>\<open>Gateway_Effects\<close>, \<^verbatim>\<open>Gateway_Catalog\<close>, \<^verbatim>\<open>Gateway_Registry\<close>,
    \<^verbatim>\<open>Gateway_Risk\<close>, \<^verbatim>\<open>Gateway_Policy\<close>, \<^verbatim>\<open>Gateway_Upstream\<close>, \<^verbatim>\<open>Gateway_Reconcile\<close> (the modules and programs of
    \<^verbatim>\<open>crates/policy\<close>), \<^verbatim>\<open>Gateway_Config\<close> (\<^verbatim>\<open>config.rs\<close> and \<^verbatim>\<open>authorization_ttl.rs\<close>).
  \<^item> \<^verbatim>\<open>Gateway_Audit\<close> (\<^verbatim>\<open>crates/audit\<close>), \<^verbatim>\<open>Gateway_Replay\<close> (\<^verbatim>\<open>crates/storage\<close>: anti-replay and the schema gate),
    \<^verbatim>\<open>Gateway_Attestation\<close>, \<^verbatim>\<open>Gateway_Owner_Policy\<close>, \<^verbatim>\<open>Gateway_Identity\<close>, \<^verbatim>\<open>Gateway_Secrets\<close> (\<^verbatim>\<open>crates/identity\<close>),
    \<^verbatim>\<open>Gateway_Checkpoints\<close> (\<^verbatim>\<open>crates/checkpoints\<close>), \<^verbatim>\<open>Gateway_Protocol\<close> (\<^verbatim>\<open>crates/protocol\<close>),
    \<^verbatim>\<open>Gateway_Transport\<close> (\<^verbatim>\<open>crates/transport\<close> and the daemon's receive loop), \<^verbatim>\<open>Gateway_Bridge\<close> (\<^verbatim>\<open>crates/core-bridge\<close>).
  \<^item> \<^verbatim>\<open>Gateway_Daemon\<close> (\<^verbatim>\<open>remote_processor.rs\<close>, \<^verbatim>\<open>handlers.rs\<close>, \<^verbatim>\<open>state.rs\<close>): the shared state is the record \<open>daemon\<close> (the
    grant, session, workspace and audit tables, the approval queue, the sent envelopes, the executed calls), what the
    handlers read from outside is the record \<open>world\<close> (time, fresh ids, faults, the answers of the tool server). On it
    \<^verbatim>\<open>Gateway_Execution\<close> (one message or decision), \<^verbatim>\<open>Gateway_Revocation\<close> (sequences of them), \<^verbatim>\<open>Gateway_Interleaving\<close>
    (concurrent handlers as a step relation over a multiset of handlers in progress).
  \<^item> \<^verbatim>\<open>Gateway_Control\<close> (\<^verbatim>\<open>ipc.rs\<close>, the views and \<open>handle_request\<close> of \<^verbatim>\<open>handlers.rs\<close>, \<^verbatim>\<open>ipc_server.rs\<close>), \<^verbatim>\<open>Gateway_Relay\<close>
    (\<^verbatim>\<open>relay_transport.rs\<close>), \<^verbatim>\<open>Gateway_Startup\<close> (\<^verbatim>\<open>lib.rs\<close>, \<^verbatim>\<open>connection.rs\<close>, \<^verbatim>\<open>identity_backend.rs\<close>), \<^verbatim>\<open>Gateway_Runtime\<close>
    (the running process: accept loop, connection tasks, transport and shutdown as a step relation), \<^verbatim>\<open>Gateway_Clients\<close>
    (the command line and the desktop: both IPC clients, every command, the launcher and its watchdog).

  \<^bold>\<open>What the lemmas show.\<close>

  \<^item> Authority: a grant is usable only after a local approval, its scope never changes, terminal states are final; remote
    traffic and transport supervision create no usable authority; an acknowledged revocation is final, and a live grant
    can always be revoked. The session machine is simulated by the grant machine.
  \<^item> Execution: a tool call happens only for an authorized and durably recorded operation, at most once per operation id in
    every interleaving; an approval runs only what is still authorized; an audit failure or a replay executes nothing.
  \<^item> Policy: the evaluator's decision is characterised check by check; effects are exactly the declared ones; every accepted
    path stays in its workspace; a loaded registry is pinned, fresh and validated; the gate for the upstream manifest passes
    exactly on agreement.
  \<^item> Actors: an accepted proof answers a fresh challenge that was issued here, is accepted once, is vouched for by the active
    owner policy, and pins actor and channel; the owner policy is committed before it is active and never rolls back.
  \<^item> Persistence: grants, framed messages, device keys and checkpoints round-trip; tables stay well formed; the audit log has
    one row per operation.
  \<^item> Processes: the daemon serves only behind its start-up gates, stays well formed under every interleaving of connections,
    envelopes and signals and can always shut down once asked, the relay admits no remote command, responses have the kind
    of their request, observers do not see transport bindings, the tool server is reached only on loopback, and the clients
    send requests only to a verified daemon.

  The interfaces are locales: \<open>spelling\<close> (text of an enumeration and its parser), \<open>upsert_table\<close>, \<open>kept_forever\<close>,
  \<open>lifecycle\<close>, \<open>audit_log\<close>, \<open>tool_resolver\<close>, \<open>owner_policy_store\<close>, \<open>secret_keeper\<close>, \<open>connectable\<close>, \<open>heartbeat_only\<close>; each
  is interpreted on the definitions of the component that provides it.

  \<^bold>\<open>Parameters.\<close> SHA-256, Ed25519, Base64, canonical JSON, the JSON, TOML and URL parsers, the text of ids and instants, the
  HTTP exchange, the websocket, the keyring, DPAPI and the jitter hash are arguments; where a theorem relies on one, its
  documented behaviour is a named hypothesis (\<open>json_codec\<close>, \<open>forms_ok\<close>, \<open>keys_ok\<close>, \<open>keyring_ok\<close>, \<open>dpapi_ok\<close> and others) and
  the theorem has a witness with a concrete function. Storage faults are arguments of each access. Time is an integer,
  32- and 64-bit counters are words or saturate as in the code, delays computed in floating point are exact rationals.

  \<^bold>\<open>Fuel and bounds.\<close> The file system is an argument of the boundary checks; the POSIX tree on which they are evaluated
  resolves a path in at most 64 steps, and a longer chain of links counts as missing, as a link loop does for the system.
  The reader of the control channel takes one more round than there are messages; copying a tree takes fuel one above its
  depth, proved enough. Retrying a connection may not end, so it is a partial function and its termination is a theorem. The
  polling loops of the clients end by the clock of the state. The watchdog and the transport supervision run as long as the
  process, so their theorems are about any number of rounds.

  \<^bold>\<open>Not modelled.\<close> The scheduler and the sockets (their effects are the order of steps), the state
  constructor that embedders use with a secret store of their own, logging and printed
  text, argument parsing and the entry point of the daemon, which loads the configuration and calls \<open>run\<close>; the set-up of the
  desktop window, its folder dialog and its web front end, which hold no policy; the scripted HTTP server
  \<^verbatim>\<open>mock_server.rs\<close>, a test aid; wiping of key memory, which has no effect on values; Windows path syntax.
\<close>

end
